(* ===== verification/Prelude.thy ===== *)
theory Prelude
  imports Main "HOL-Library.Word"
begin

text \<open>
  Shared ground of the development: the machine types of the Rust code, the way a Rust
  call can end (a value, a panic, no return), I/O errors, Rust strings, time, and the
  generic facts about them that the component theories use.

  \<^item> A Rust \<open>String\<close> is a byte sequence that is valid UTF-8. HOL's \<open>string\<close> is a list of
    8-bit characters, so it is that byte sequence; \<open>utf8_valid\<close> is the validity test of
    \<open>std::str::from_utf8\<close>.
  \<^item> \<open>Instant\<close> and \<open>Duration\<close> are integers counting nanoseconds. On Linux an \<open>Instant\<close> is
    a signed 64-bit second count, so subtracting sixty seconds from it does not
    underflow.
\<close>

section \<open>Machine types\<close>

type_synonym u8 = "8 word"
type_synonym u16 = "16 word"
type_synonym u32 = "32 word"
type_synonym u64 = "64 word"
type_synonym bytes = "8 word list"
type_synonym instant = int
type_synonym duration = int

definition from_secs :: "int \<Rightarrow> duration" where
  "from_secs n = n * 1000000000"

definition from_millis :: "int \<Rightarrow> duration" where
  "from_millis n = n * 1000000"

named_theorems time_defs \<open>definitions that turn durations into numbers\<close>

lemmas [time_defs] = from_secs_def from_millis_def

section \<open>How a call ends\<close>

text \<open>
  A Rust call returns a value, panics, or does not return at all. Fallible calls return
  a \<open>Result\<close>, here \<open>error + value\<close>, inside \<open>Ret\<close>.
\<close>

datatype 'a outcome = Ret 'a | Panic | Hang

primrec and_then :: "'a outcome \<Rightarrow> ('a \<Rightarrow> 'b outcome) \<Rightarrow> 'b outcome" where
  "and_then (Ret x) f = f x"
| "and_then Panic f = Panic"
| "and_then Hang f = Hang"

definition returns :: "'a outcome \<Rightarrow> bool" where
  "returns r \<longleftrightarrow> (\<exists>x. r = Ret x)"

text \<open>\<open>Result::unwrap\<close>: a panic on \<open>Err\<close>.\<close>

definition unwrap :: "'e + 'a \<Rightarrow> 'a outcome" where
  "unwrap r = (case r of Inl e \<Rightarrow> Panic | Inr x \<Rightarrow> Ret x)"

text \<open>\<open>Option::unwrap\<close>: a panic on \<open>None\<close>.\<close>

definition unwrap_some :: "'a option \<Rightarrow> 'a outcome" where
  "unwrap_some r = (case r of None \<Rightarrow> Panic | Some x \<Rightarrow> Ret x)"

text \<open>The question mark operator: stop with the error, go on with the value.\<close>

definition ques :: "'e + 'a \<Rightarrow> ('a \<Rightarrow> ('e + 'b) outcome) \<Rightarrow> ('e + 'b) outcome" where
  "ques r f = (case r of Inl e \<Rightarrow> Ret (Inl e) | Inr x \<Rightarrow> f x)"

text \<open>
  The same on a call that may itself panic or not return; also a loop body that may
  return from the function around it.
\<close>

definition ques_call :: "('e + 'a) outcome \<Rightarrow> ('a \<Rightarrow> ('e + 'b) outcome) \<Rightarrow> ('e + 'b) outcome" where
  "ques_call m f = and_then m (\<lambda>r. ques r f)"

named_theorems outcome_simps \<open>evaluation of outcomes and results\<close>

lemma unwrap_simps [outcome_simps, simp]: "unwrap (Inr x) = Ret x" "unwrap (Inl e) = Panic"
  by (simp_all add: unwrap_def)

lemma unwrap_some_simps [outcome_simps, simp]: "unwrap_some (Some x) = Ret x" "unwrap_some None = Panic"
  by (simp_all add: unwrap_some_def)

lemma ques_simps [outcome_simps, simp]: "ques (Inr x) f = f x" "ques (Inl e) f = Ret (Inl e)"
  by (simp_all add: ques_def)

lemma returns_simps [outcome_simps, simp]:
  "returns (Ret x)" "\<not> returns Panic" "\<not> returns Hang"
  by (simp_all add: returns_def)

lemma and_then_eq_Ret:
  "and_then m f = Ret y \<longleftrightarrow> (\<exists>x. m = Ret x \<and> f x = Ret y)"
  by (cases m) auto

lemma unwrap_eq_Ret: "unwrap r = Ret x \<longleftrightarrow> r = Inr x"
  by (cases r) auto

lemma and_then_assoc: "and_then (and_then m f) g = and_then m (\<lambda>x. and_then (f x) g)"
  by (cases m) auto

lemma and_then_cong [fundef_cong]:
  "m = m' \<Longrightarrow> (\<And>x. m' = Ret x \<Longrightarrow> f x = f' x) \<Longrightarrow> and_then m f = and_then m' f'"
  by (cases m') auto

lemma ques_call_simps [outcome_simps, simp]:
  "ques_call (Ret (Inr x)) f = f x" "ques_call (Ret (Inl e)) f = Ret (Inl e)"
  by (simp_all add: ques_call_def)

lemma ques_Ret: "ques r f = Ret (Inr y) \<longleftrightarrow> (\<exists>x. r = Inr x \<and> f x = Ret (Inr y))"
  by (cases r) simp_all

lemma ques_call_Inr:
  "ques_call m f = Ret (Inr y) \<longleftrightarrow> (\<exists>x. m = Ret (Inr x) \<and> f x = Ret (Inr y))"
  by (cases m; simp add: ques_call_def) (auto simp: ques_def split: sum.splits)

lemma ques_call_Inl:
  "ques_call m f = Ret (Inl e) \<longleftrightarrow> m = Ret (Inl e) \<or> (\<exists>x. m = Ret (Inr x) \<and> f x = Ret (Inl e))"
  by (cases m; simp add: ques_call_def) (auto simp: ques_def split: sum.splits)

lemma ques_call_cong [fundef_cong]:
  "m = m' \<Longrightarrow> (\<And>x. m' = Ret (Inr x) \<Longrightarrow> f x = f' x) \<Longrightarrow> ques_call m f = ques_call m' f'"
  by (cases m') (auto simp: ques_call_def ques_def split: sum.splits)

lemma and_then_sum:
  "and_then m (case_sum f g) = Ret y \<longleftrightarrow> (\<exists>e. m = Ret (Inl e) \<and> f e = Ret y) \<or> (\<exists>x. m = Ret (Inr x) \<and> g x = Ret y)"
  by (cases m) (auto split: sum.splits)

lemma ques_returns: "(\<And>x. r = Inr x \<Longrightarrow> \<exists>y. f x = Ret y) \<Longrightarrow> \<exists>y. ques r f = Ret y"
  by (cases r) auto

lemma ques_call_returns: "\<exists>y. m = Ret y \<Longrightarrow> (\<And>x. m = Ret (Inr x) \<Longrightarrow> \<exists>y. f x = Ret y) \<Longrightarrow> \<exists>y. ques_call m f = Ret y"
  by (auto simp: ques_call_def intro!: ques_returns)

lemma and_then_returns: "\<exists>y. m = Ret y \<Longrightarrow> (\<And>x. m = Ret x \<Longrightarrow> \<exists>y. f x = Ret y) \<Longrightarrow> \<exists>y. and_then m f = Ret y"
  by auto

text \<open>Pure fallible code: \<open>and_then\<close> on \<open>Result\<close>.\<close>

definition res_bind :: "'e + 'a \<Rightarrow> ('a \<Rightarrow> 'e + 'b) \<Rightarrow> 'e + 'b" where
  "res_bind r f = (case r of Inl e \<Rightarrow> Inl e | Inr x \<Rightarrow> f x)"

lemma res_bind_simps [outcome_simps, simp]:
  "res_bind (Inr x) f = f x" "res_bind (Inl e) f = Inl e"
  by (simp_all add: res_bind_def)

lemma res_bind_eq_Inr: "res_bind r f = Inr y \<longleftrightarrow> (\<exists>x. r = Inr x \<and> f x = Inr y)"
  by (cases r) auto

section \<open>I/O errors\<close>

text \<open>
  \<open>std::io::Error\<close>: a kind and a message. \<open>OsError\<close> stands for the kinds the code
  never tells apart.
\<close>

datatype error_kind = Other | WouldBlock | InvalidInput | UnexpectedEof | TimedOut | OsError

record io_error =
  kind :: error_kind
  message :: string

definition new_error :: "error_kind \<Rightarrow> string \<Rightarrow> io_error" where
  "new_error k m = \<lparr>kind = k, message = m\<rparr>"

lemma new_error_sel [simp]: "kind (new_error k m) = k" "message (new_error k m) = m"
  by (simp_all add: new_error_def)

section \<open>Rust strings\<close>

definition byte_of :: "char \<Rightarrow> u8" where
  "byte_of c = of_nat (of_char c)"

definition char_of_byte :: "u8 \<Rightarrow> char" where
  "char_of_byte b = char_of (unat b)"

lemma char_of_byte_of [simp]: "char_of_byte (byte_of c) = c"
  by (simp add: byte_of_def char_of_byte_def unat_of_nat)

lemma map_char_of_byte_of [simp]: "map char_of_byte (map byte_of s) = s"
  by (induction s) auto

lemma map_char_of_byte_of_comp [simp]: "map (char_of_byte \<circ> byte_of) s = s"
  by (induction s) auto

text \<open>
  UTF-8 as in table 3-7 of the Unicode standard, which is what \<open>std::str::from_utf8\<close>
  accepts: the second byte's range depends on the first, so overlong forms, surrogates
  and values above U+10FFFF are refused.
\<close>

definition cont_byte :: "nat \<Rightarrow> bool" where
  "cont_byte n \<longleftrightarrow> 128 \<le> n \<and> n \<le> 191"

fun utf8_codes :: "nat list \<Rightarrow> bool" where
  "utf8_codes [] = True"
| "utf8_codes (a # s) =
     (if a \<le> 127 then utf8_codes s
      else if 194 \<le> a \<and> a \<le> 223 then
        (case s of b # s' \<Rightarrow> cont_byte b \<and> utf8_codes s' | _ \<Rightarrow> False)
      else if 224 \<le> a \<and> a \<le> 239 then
        (case s of b # c # s' \<Rightarrow>
            (if a = 224 then 160 \<le> b \<and> b \<le> 191
             else if a = 237 then 128 \<le> b \<and> b \<le> 159 else cont_byte b)
            \<and> cont_byte c \<and> utf8_codes s'
         | _ \<Rightarrow> False)
      else if 240 \<le> a \<and> a \<le> 244 then
        (case s of b # c # d # s' \<Rightarrow>
            (if a = 240 then 144 \<le> b \<and> b \<le> 191
             else if a = 244 then 128 \<le> b \<and> b \<le> 143 else cont_byte b)
            \<and> cont_byte c \<and> cont_byte d \<and> utf8_codes s'
         | _ \<Rightarrow> False)
      else False)"

definition utf8_valid :: "string \<Rightarrow> bool" where
  "utf8_valid s = utf8_codes (map of_char s)"

lemma utf8_codes_ascii: "\<forall>n \<in> set ns. n \<le> 127 \<Longrightarrow> utf8_codes ns"
  by (induction ns) auto

lemma utf8_valid_ascii: "\<forall>c \<in> set s. of_char c \<le> (127::nat) \<Longrightarrow> utf8_valid s"
  by (auto simp: utf8_valid_def intro!: utf8_codes_ascii)

lemma utf8_valid_Nil [simp]: "utf8_valid []"
  by (simp add: utf8_valid_def)

section \<open>Words and lists\<close>

lemma unat_of_nat_small: "n < 2 ^ LENGTH('a::len) \<Longrightarrow> unat (of_nat n :: 'a word) = n"
  by (simp add: unat_of_nat take_bit_nat_eq_self)

lemma take_append_length [simp]: "n = length xs \<Longrightarrow> take n (xs @ ys) = xs"
  by simp

lemma drop_append_length [simp]: "n = length xs \<Longrightarrow> drop n (xs @ ys) = ys"
  by simp

lemma nth_update: "j < length xs \<Longrightarrow> xs[i := x] ! j = (if i = j then x else xs ! j)"
  by (simp add: nth_list_update)

lemma case_SomeD: "(case x of None \<Rightarrow> False | Some s \<Rightarrow> P s) \<Longrightarrow> \<exists>s. x = Some s \<and> P s"
  by (cases x) auto

section \<open>Maps\<close>

text \<open>\<open>HashMap::retain\<close>.\<close>

definition retain :: "('k \<Rightarrow> 'v \<Rightarrow> bool) \<Rightarrow> ('k \<rightharpoonup> 'v) \<Rightarrow> ('k \<rightharpoonup> 'v)" where
  "retain p m = (\<lambda>k. case m k of None \<Rightarrow> None | Some v \<Rightarrow> if p k v then Some v else None)"

lemma retain_Some [simp]: "retain p m k = Some v \<longleftrightarrow> m k = Some v \<and> p k v"
  by (auto simp: retain_def split: option.splits)

lemma retain_None: "retain p m k = None \<longleftrightarrow> (\<forall>v. m k = Some v \<longrightarrow> \<not> p k v)"
  by (auto simp: retain_def split: option.splits)

lemma ran_retain: "ran (retain p m) \<subseteq> ran m"
  by (auto simp: ran_def)

text \<open>\<open>HashMap::remove\<close>, the value it returns left aside.\<close>

definition remove_key :: "'k \<Rightarrow> ('k \<rightharpoonup> 'v) \<Rightarrow> ('k \<rightharpoonup> 'v)" where
  "remove_key k m = m(k := None)"

lemma remove_key_apply [simp]: "remove_key k m j = (if j = k then None else m j)"
  by (simp add: remove_key_def)

text \<open>\<open>HashMap::entry(k).or_insert_with(d)\<close>: the value for \<open>k\<close>, put there first when absent.\<close>

definition or_insert :: "'k \<Rightarrow> 'v \<Rightarrow> ('k \<rightharpoonup> 'v) \<Rightarrow> 'v \<times> ('k \<rightharpoonup> 'v)" where
  "or_insert k d m = (case m k of Some v \<Rightarrow> (v, m) | None \<Rightarrow> (d, m(k \<mapsto> d)))"

end
