(* ===== verification/Pb_Runtime.thy ===== *)
theory Pb_Runtime
  imports Prelude
begin

text \<open>
  The interface between the generated message code (\<open>src/proto/rndz.rs\<close>) and the
  \<open>protobuf\<close> crate it calls. The crate is not part of the repository, so its functions
  are the fields of the record \<open>pb_rt\<close>, a parameter of every definition that uses
  them, and the documented wire format is stated as the laws of the locale
  \<open>pb_runtime\<close>. The theory \<open>Wire_Format\<close> interprets the locale with a concrete
  encoder and decoder of that format.

  A \<open>CodedInputStream\<close> is the list of bytes it has not delivered yet (for a nested
  message, the bytes up to the end of the window), a \<open>CodedOutputStream\<close> the list of
  bytes written so far. The type variable \<open>'u\<close> is the crate's \<open>UnknownFields\<close>.
\<close>

section \<open>The functions of the crate that the generated code calls\<close>

datatype pb_error = PbError string

record 'u pb_rt =
  rt_unknown_new :: 'u
  rt_read_tag :: "bytes \<Rightarrow> pb_error + (u32 \<times> bytes) option"
  rt_read_string :: "bytes \<Rightarrow> pb_error + string \<times> bytes"
  rt_read_window :: "bytes \<Rightarrow> pb_error + bytes \<times> bytes"
  rt_read_unknown :: "u32 \<Rightarrow> 'u \<Rightarrow> bytes \<Rightarrow> pb_error + 'u \<times> bytes"
  rt_string_size :: "nat \<Rightarrow> string \<Rightarrow> u64"
  rt_varint_size :: "u64 \<Rightarrow> u64"
  rt_unknown_size :: "'u \<Rightarrow> u64"
  rt_write_string :: "nat \<Rightarrow> string \<Rightarrow> bytes \<Rightarrow> pb_error + bytes"
  rt_write_message :: "nat \<Rightarrow> u32 \<Rightarrow> (bytes \<Rightarrow> pb_error + bytes) \<Rightarrow> bytes \<Rightarrow> pb_error + bytes"
  rt_write_unknown :: "'u \<Rightarrow> bytes \<Rightarrow> pb_error + bytes"
  rt_check_size :: "u64 \<Rightarrow> pb_error + unit"
  rt_io_error :: "pb_error \<Rightarrow> io_error"  \<comment> \<open>\<open>impl From<protobuf::Error> for std::io::Error\<close>\<close>

text \<open>
  \<open>SpecialFields\<close>: the fields the parser did not recognise, and the size that
  \<open>compute_size\<close> leaves for \<open>write_to_with_cached_sizes\<close>.
\<close>

record 'u SpecialFields =
  unknown_fields :: 'u
  cached_size :: u32

definition SpecialFields_new :: "'u pb_rt \<Rightarrow> 'u SpecialFields" where
  "SpecialFields_new rt = \<lparr>unknown_fields = rt_unknown_new rt, cached_size = 0\<rparr>"

definition set_cached_size :: "u64 \<Rightarrow> 'u SpecialFields \<Rightarrow> 'u SpecialFields" where
  "set_cached_size n sf = sf\<lparr>cached_size := ucast n\<rparr>"

section \<open>The loop of every \<open>merge_from\<close>\<close>

text \<open>
  \<open>while let Some(tag) = is.read_raw_tag_or_eof()? { match tag { ... } }\<close>. The body \<open>h\<close>
  is the \<open>match\<close>. Nothing in the generated code bounds the number of turns, so the loop
  is a partial function: \<open>None\<close> is a loop that does not end.
\<close>

type_synonym 'm parse = "(pb_error + 'm \<times> bytes) option"

partial_function (option) merge_loop ::
  "'u pb_rt \<Rightarrow> (u32 \<Rightarrow> 'm \<Rightarrow> bytes \<Rightarrow> (pb_error + 'm \<times> bytes) option) \<Rightarrow> 'm \<Rightarrow> bytes
    \<Rightarrow> (pb_error + 'm) option" where
  "merge_loop rt h m is =
     (case rt_read_tag rt is of
        Inl e \<Rightarrow> Some (Inl e)
      | Inr None \<Rightarrow> Some (Inr m)
      | Inr (Some (tag, is')) \<Rightarrow>
          Option.bind (h tag m is') (\<lambda>r.
            case r of
              Inl e \<Rightarrow> Some (Inl e)
            | Inr (m', is'') \<Rightarrow> merge_loop rt h m' is''))"

declare merge_loop.simps [code]

text \<open>One arm of the \<open>match\<close>: a string field, a nested message, an unknown field.\<close>

definition arm :: "pb_error + 'a \<times> bytes \<Rightarrow> ('a \<Rightarrow> 'm) \<Rightarrow> 'm parse" where
  "arm r upd = (case r of Inl e \<Rightarrow> Some (Inl e) | Inr (x, is') \<Rightarrow> Some (Inr (upd x, is')))"

definition arm_message :: "'a parse \<Rightarrow> ('a \<Rightarrow> 'm) \<Rightarrow> 'm parse" where
  "arm_message r upd = Option.bind r (\<lambda>x. arm x upd)"

text \<open>
  \<open>is.read_message()\<close>: the length prefix opens a window, and a new message is merged
  from that window.
\<close>

definition read_message ::
  "'u pb_rt \<Rightarrow> (bytes \<Rightarrow> (pb_error + 'm) option) \<Rightarrow> bytes \<Rightarrow> 'm parse" where
  "read_message rt merge is =
     (case rt_read_window rt is of
        Inl e \<Rightarrow> Some (Inl e)
      | Inr (body, rest) \<Rightarrow>
          Option.bind (merge body) (\<lambda>r. case r of Inl e \<Rightarrow> Some (Inl e) | Inr m \<Rightarrow> Some (Inr (m, rest))))"

text \<open>
  \<open>Message::write_to_bytes\<close>: compute the sizes (which caches those of the nested
  messages), refuse a message that is too large, write. \<open>Message::parse_from_bytes\<close> is
  a merge into a new message; the required-field check always passes (\<open>is_initialized\<close>
  is \<open>true\<close> in every generated message).
\<close>

definition write_message_bytes ::
  "'u pb_rt \<Rightarrow> ('m \<Rightarrow> u64 \<times> 'm) \<Rightarrow> ('m \<Rightarrow> bytes \<Rightarrow> pb_error + bytes) \<Rightarrow> 'm \<Rightarrow> pb_error + bytes" where
  "write_message_bytes rt compute write m =
     (let (n, m') = compute m in res_bind (rt_check_size rt n) (\<lambda>_. write m' []))"

section \<open>The laws of the wire format\<close>

text \<open>
  \<open>string_field n s\<close> and \<open>message_field n b\<close> are the bytes that one field takes on the
  wire: a tag (field number \<open>n\<close>, wire type 2), a length, the payload.
\<close>

definition string_field :: "'u pb_rt \<Rightarrow> nat \<Rightarrow> string \<Rightarrow> bytes" where
  "string_field rt n s = (case rt_write_string rt n s [] of Inr b \<Rightarrow> b | Inl e \<Rightarrow> [])"

definition message_field :: "'u pb_rt \<Rightarrow> nat \<Rightarrow> bytes \<Rightarrow> bytes" where
  "message_field rt n b =
     (case rt_write_message rt n (of_nat (length b)) (\<lambda>os. Inr (os @ b)) [] of
        Inr b \<Rightarrow> b | Inl e \<Rightarrow> [])"

definition field_tag :: "nat \<Rightarrow> u32" where
  "field_tag n = of_nat (8 * n + 2)"

definition max_len :: nat where
  "max_len = 2 ^ 31"

definition short_string :: "string \<Rightarrow> bool" where
  "short_string s \<longleftrightarrow> utf8_valid s \<and> length s < max_len"

definition field_no :: "nat \<Rightarrow> bool" where
  "field_no n \<longleftrightarrow> 1 \<le> n \<and> n \<le> 15"

locale pb_runtime =
  fixes rt :: "'u pb_rt"
  assumes read_tag_Nil: "rt_read_tag rt [] = Inr None"
    and read_tag_None: "rt_read_tag rt is = Inr None \<Longrightarrow> is = []"
    and read_tag_less: "rt_read_tag rt is = Inr (Some (t, is')) \<Longrightarrow> length is' < length is"
    and read_string_less:
      "rt_read_string rt is = Inr (s, is') \<Longrightarrow> utf8_valid s \<and> length s + length is' < length is"
    and read_window_less:
      "rt_read_window rt is = Inr (b, is') \<Longrightarrow> length b + length is' < length is"
    and read_unknown_le:
      "rt_read_unknown rt t u is = Inr (u', is') \<Longrightarrow> length is' \<le> length is"
    and write_string:
      "field_no n \<Longrightarrow> short_string s \<Longrightarrow> rt_write_string rt n s os = Inr (os @ string_field rt n s)"
    and read_string_field:
      "field_no n \<Longrightarrow> short_string s \<Longrightarrow>
        \<exists>p. rt_read_tag rt (string_field rt n s @ r) = Inr (Some (field_tag n, p))
          \<and> rt_read_string rt p = Inr (s, r)"
    and string_size:
      "field_no n \<Longrightarrow> short_string s \<Longrightarrow> unat (rt_string_size rt n s) = length (string_field rt n s)"
    and string_field_le:
      "field_no n \<Longrightarrow> short_string s \<Longrightarrow> length (string_field rt n s) \<le> length s + 6"
    and write_message:
      "field_no n \<Longrightarrow> length b < max_len \<Longrightarrow> unat len = length b \<Longrightarrow> (\<And>out. w out = Inr (out @ b)) \<Longrightarrow>
        rt_write_message rt n len w os = Inr (os @ message_field rt n b)"
    and read_message_field:
      "field_no n \<Longrightarrow> length b < max_len \<Longrightarrow>
        \<exists>p. rt_read_tag rt (message_field rt n b @ r) = Inr (Some (field_tag n, p))
          \<and> rt_read_window rt p = Inr (b, r)"
    and message_field_size:
      "field_no n \<Longrightarrow> length b < max_len \<Longrightarrow>
        length (message_field rt n b) = 1 + unat (rt_varint_size rt (of_nat (length b))) + length b"
    and varint_size_le: "unat (rt_varint_size rt x) \<le> 10"
    and write_unknown_new: "rt_write_unknown rt (rt_unknown_new rt) os = Inr os"
    and unknown_size_new: "rt_unknown_size rt (rt_unknown_new rt) = 0"
    and check_size: "unat x < max_len \<Longrightarrow> rt_check_size rt x = Inr ()"
begin

text \<open>The loop ends on every input when its body ends and never gives bytes back.\<close>

lemma merge_loop_returns:
  assumes h: "\<And>t m p. \<exists>r. h t m p = Some r \<and> (\<forall>m' p'. r = Inr (m', p') \<longrightarrow> length p' \<le> length p)"
  shows "\<exists>r. merge_loop rt h m is = Some r"
proof (induction "length is" arbitrary: m "is" rule: less_induct)
  case less
  show ?case
  proof (cases "rt_read_tag rt is")
    case (Inl e)
    then show ?thesis by (subst merge_loop.simps) simp
  next
    case (Inr t)
    show ?thesis
    proof (cases t)
      case None
      with Inr show ?thesis by (subst merge_loop.simps) simp
    next
      case (Some tp)
      obtain tag p where tp: "tp = (tag, p)" by fastforce
      have lt: "length p < length is" using Inr Some tp read_tag_less by auto
      obtain r where r: "h tag m p = Some r" "\<forall>m' p'. r = Inr (m', p') \<longrightarrow> length p' \<le> length p"
        using h by blast
      show ?thesis
      proof (cases r)
        case (Inl e)
        with Inr Some tp r show ?thesis by (subst merge_loop.simps) auto
      next
        case r': (Inr mp)
        obtain m' p' where mp: "mp = (m', p')" by fastforce
        with r r' lt have "length p' < length is" by force
        then have "\<exists>r. merge_loop rt h m' p' = Some r" by (rule less.hyps)
        with Inr Some tp r r' mp show ?thesis by (subst merge_loop.simps) auto
      qed
    qed
  qed
qed

text \<open>
  A property of the message that every arm keeps (on an input not longer than the
  loop's) holds for the result.
\<close>

lemma merge_loop_invariant:
  assumes h: "\<And>t m p m' p'. P m \<Longrightarrow> length p < N \<Longrightarrow> h t m p = Some (Inr (m', p')) \<Longrightarrow>
      P m' \<and> length p' \<le> length p"
    and "P m" "length is \<le> N" "merge_loop rt h m is = Some (Inr m')"
  shows "P m'"
  using assms(2-4)
proof (induction "length is" arbitrary: m "is" rule: less_induct)
  case less
  show ?case
  proof (cases "rt_read_tag rt is")
    case (Inl e)
    with less.prems(3) show ?thesis by (subst (asm) merge_loop.simps) simp
  next
    case (Inr t)
    show ?thesis
    proof (cases t)
      case None
      with Inr less.prems show ?thesis by (simp add: merge_loop.simps [of rt h m "is"])
    next
      case (Some tp)
      obtain tag p where tp: "tp = (tag, p)" by fastforce
      have lt: "length p < length is" using Inr Some tp read_tag_less by auto
      from less.prems(3) Inr Some tp obtain m1 p1 where
        step: "h tag m p = Some (Inr (m1, p1))" and rest: "merge_loop rt h m1 p1 = Some (Inr m')"
        by (subst (asm) merge_loop.simps) (auto split: sum.splits Option.bind_splits)
      have "P m1 \<and> length p1 \<le> length p"
        using h[OF less.prems(1) _ step] lt less.prems(2) by linarith
      then show ?thesis using less.hyps[OF _ _ _ rest] lt less.prems(2) by linarith
    qed
  qed
qed

lemma merge_loop_preserves:
  assumes "merge_loop rt h m is = Some (Inr m')" "P m" "length is \<le> N"
    and "\<And>t m p m' p'. P m \<Longrightarrow> length p < N \<Longrightarrow> h t m p = Some (Inr (m', p')) \<Longrightarrow>
      P m' \<and> length p' \<le> length p"
  shows "P m'"
  using merge_loop_invariant[of P N h m "is" m'] assms by blast

text \<open>One turn of the loop over a field that was written.\<close>

lemma merge_loop_string:
  assumes "field_no n" "short_string s"
    and "\<And>p. rt_read_string rt p = Inr (s, r) \<Longrightarrow> h (field_tag n) m p = Some (Inr (m', r))"
  shows "merge_loop rt h m (string_field rt n s @ r) = merge_loop rt h m' r"
proof -
  obtain p where "rt_read_tag rt (string_field rt n s @ r) = Inr (Some (field_tag n, p))"
    and "rt_read_string rt p = Inr (s, r)"
    using read_string_field[OF assms(1,2)] by blast
  then show ?thesis using assms(3)[of p] by (subst merge_loop.simps) simp
qed

lemma merge_loop_message:
  assumes "field_no n" "length b < max_len"
    and "\<And>p. rt_read_window rt p = Inr (b, r) \<Longrightarrow> h (field_tag n) m p = Some (Inr (m', r))"
  shows "merge_loop rt h m (message_field rt n b @ r) = merge_loop rt h m' r"
proof -
  obtain p where "rt_read_tag rt (message_field rt n b @ r) = Inr (Some (field_tag n, p))"
    and "rt_read_window rt p = Inr (b, r)"
    using read_message_field[OF assms(1,2)] by blast
  then show ?thesis using assms(3)[of p] by (subst merge_loop.simps) simp
qed

lemma merge_loop_Nil: "merge_loop rt h m [] = Some (Inr m)"
  by (subst merge_loop.simps) (simp add: read_tag_Nil)

end

end
