(* ===== verification/Proto_Messages.thy ===== *)
theory Proto_Messages
  imports Pb_Runtime
begin

text \<open>
  The generated message code of \<open>src/proto/rndz.rs\<close>: one record per message with the
  field order of the struct, one datatype per oneof, and for each message \<open>new\<close>,
  \<open>merge_from\<close> (its \<open>match\<close> is the \<open>_arm\<close> definition, its loop is
  \<open>merge_loop\<close>), \<open>compute_size\<close>, which also returns the message with the sizes it
  cached, and \<open>write_to_with_cached_sizes\<close> (here \<open>_write\<close>). The accessors of the two
  oneofs follow. \<open>clear\<close> is in \<open>Proto_Reset\<close>, the reflection tables are in \<open>Proto_Reflect\<close>.
\<close>

subsection \<open>Ping\<close>

record 'u Ping =
  ping_special :: "'u SpecialFields"

definition Ping_new :: "'u pb_rt \<Rightarrow> 'u Ping" where
  "Ping_new rt = \<lparr>ping_special = SpecialFields_new rt\<rparr>"

definition Ping_arm :: "'u pb_rt \<Rightarrow> u32 \<Rightarrow> 'u Ping \<Rightarrow> bytes \<Rightarrow> 'u Ping parse" where
  "Ping_arm rt tag m is =
     arm (rt_read_unknown rt tag (unknown_fields (ping_special m)) is)
        (\<lambda>u. m\<lparr>ping_special := (ping_special m)\<lparr>unknown_fields := u\<rparr>\<rparr>)"

definition Ping_merge_from :: "'u pb_rt \<Rightarrow> 'u Ping \<Rightarrow> bytes \<Rightarrow> (pb_error + 'u Ping) option" where
  "Ping_merge_from rt = merge_loop rt (Ping_arm rt)"

definition Ping_compute_size :: "'u pb_rt \<Rightarrow> 'u Ping \<Rightarrow> u64 \<times> 'u Ping" where
  "Ping_compute_size rt m =
     (let my_size = 0;
          my_size = my_size + rt_unknown_size rt (unknown_fields (ping_special m))
      in (my_size, m\<lparr>ping_special := set_cached_size my_size (ping_special m)\<rparr>))"

definition Ping_write :: "'u pb_rt \<Rightarrow> 'u Ping \<Rightarrow> bytes \<Rightarrow> pb_error + bytes" where
  "Ping_write rt m os =
     rt_write_unknown rt (unknown_fields (ping_special m)) os"

subsection \<open>Isync\<close>

record 'u Isync =
  isync_id :: string
  isync_special :: "'u SpecialFields"

definition Isync_new :: "'u pb_rt \<Rightarrow> 'u Isync" where
  "Isync_new rt = \<lparr>isync_id = [], isync_special = SpecialFields_new rt\<rparr>"

definition Isync_arm :: "'u pb_rt \<Rightarrow> u32 \<Rightarrow> 'u Isync \<Rightarrow> bytes \<Rightarrow> 'u Isync parse" where
  "Isync_arm rt tag m is =
     (if tag = 10 then arm (rt_read_string rt is) (\<lambda>s. m\<lparr>isync_id := s\<rparr>)
      else arm (rt_read_unknown rt tag (unknown_fields (isync_special m)) is)
        (\<lambda>u. m\<lparr>isync_special := (isync_special m)\<lparr>unknown_fields := u\<rparr>\<rparr>))"

definition Isync_merge_from :: "'u pb_rt \<Rightarrow> 'u Isync \<Rightarrow> bytes \<Rightarrow> (pb_error + 'u Isync) option" where
  "Isync_merge_from rt = merge_loop rt (Isync_arm rt)"

definition Isync_compute_size :: "'u pb_rt \<Rightarrow> 'u Isync \<Rightarrow> u64 \<times> 'u Isync" where
  "Isync_compute_size rt m =
     (let my_size = 0;
          my_size = (if isync_id m \<noteq> [] then my_size + rt_string_size rt 1 (isync_id m) else my_size);
          my_size = my_size + rt_unknown_size rt (unknown_fields (isync_special m))
      in (my_size, m\<lparr>isync_special := set_cached_size my_size (isync_special m)\<rparr>))"

definition Isync_write :: "'u pb_rt \<Rightarrow> 'u Isync \<Rightarrow> bytes \<Rightarrow> pb_error + bytes" where
  "Isync_write rt m os =
     res_bind (if isync_id m \<noteq> [] then rt_write_string rt 1 (isync_id m) os else Inr os) (\<lambda>os.
     rt_write_unknown rt (unknown_fields (isync_special m)) os)"

subsection \<open>Pong\<close>

record 'u Pong =
  pong_special :: "'u SpecialFields"

definition Pong_new :: "'u pb_rt \<Rightarrow> 'u Pong" where
  "Pong_new rt = \<lparr>pong_special = SpecialFields_new rt\<rparr>"

definition Pong_arm :: "'u pb_rt \<Rightarrow> u32 \<Rightarrow> 'u Pong \<Rightarrow> bytes \<Rightarrow> 'u Pong parse" where
  "Pong_arm rt tag m is =
     arm (rt_read_unknown rt tag (unknown_fields (pong_special m)) is)
        (\<lambda>u. m\<lparr>pong_special := (pong_special m)\<lparr>unknown_fields := u\<rparr>\<rparr>)"

definition Pong_merge_from :: "'u pb_rt \<Rightarrow> 'u Pong \<Rightarrow> bytes \<Rightarrow> (pb_error + 'u Pong) option" where
  "Pong_merge_from rt = merge_loop rt (Pong_arm rt)"

definition Pong_compute_size :: "'u pb_rt \<Rightarrow> 'u Pong \<Rightarrow> u64 \<times> 'u Pong" where
  "Pong_compute_size rt m =
     (let my_size = 0;
          my_size = my_size + rt_unknown_size rt (unknown_fields (pong_special m))
      in (my_size, m\<lparr>pong_special := set_cached_size my_size (pong_special m)\<rparr>))"

definition Pong_write :: "'u pb_rt \<Rightarrow> 'u Pong \<Rightarrow> bytes \<Rightarrow> pb_error + bytes" where
  "Pong_write rt m os =
     rt_write_unknown rt (unknown_fields (pong_special m)) os"

subsection \<open>Redirect\<close>

record 'u Redirect =
  redirect_id :: string
  redirect_addr :: string
  redirect_special :: "'u SpecialFields"

definition Redirect_new :: "'u pb_rt \<Rightarrow> 'u Redirect" where
  "Redirect_new rt = \<lparr>redirect_id = [], redirect_addr = [], redirect_special = SpecialFields_new rt\<rparr>"

definition Redirect_arm :: "'u pb_rt \<Rightarrow> u32 \<Rightarrow> 'u Redirect \<Rightarrow> bytes \<Rightarrow> 'u Redirect parse" where
  "Redirect_arm rt tag m is =
     (if tag = 10 then arm (rt_read_string rt is) (\<lambda>s. m\<lparr>redirect_id := s\<rparr>)
      else if tag = 18 then arm (rt_read_string rt is) (\<lambda>s. m\<lparr>redirect_addr := s\<rparr>)
      else arm (rt_read_unknown rt tag (unknown_fields (redirect_special m)) is)
        (\<lambda>u. m\<lparr>redirect_special := (redirect_special m)\<lparr>unknown_fields := u\<rparr>\<rparr>))"

definition Redirect_merge_from :: "'u pb_rt \<Rightarrow> 'u Redirect \<Rightarrow> bytes \<Rightarrow> (pb_error + 'u Redirect) option" where
  "Redirect_merge_from rt = merge_loop rt (Redirect_arm rt)"

definition Redirect_compute_size :: "'u pb_rt \<Rightarrow> 'u Redirect \<Rightarrow> u64 \<times> 'u Redirect" where
  "Redirect_compute_size rt m =
     (let my_size = 0;
          my_size = (if redirect_id m \<noteq> [] then my_size + rt_string_size rt 1 (redirect_id m) else my_size);
          my_size = (if redirect_addr m \<noteq> [] then my_size + rt_string_size rt 2 (redirect_addr m) else my_size);
          my_size = my_size + rt_unknown_size rt (unknown_fields (redirect_special m))
      in (my_size, m\<lparr>redirect_special := set_cached_size my_size (redirect_special m)\<rparr>))"

definition Redirect_write :: "'u pb_rt \<Rightarrow> 'u Redirect \<Rightarrow> bytes \<Rightarrow> pb_error + bytes" where
  "Redirect_write rt m os =
     res_bind (if redirect_id m \<noteq> [] then rt_write_string rt 1 (redirect_id m) os else Inr os) (\<lambda>os.
     res_bind (if redirect_addr m \<noteq> [] then rt_write_string rt 2 (redirect_addr m) os else Inr os) (\<lambda>os.
     rt_write_unknown rt (unknown_fields (redirect_special m)) os))"

subsection \<open>Fsync\<close>

record 'u Fsync =
  fsync_id :: string
  fsync_addr :: string
  fsync_special :: "'u SpecialFields"

definition Fsync_new :: "'u pb_rt \<Rightarrow> 'u Fsync" where
  "Fsync_new rt = \<lparr>fsync_id = [], fsync_addr = [], fsync_special = SpecialFields_new rt\<rparr>"

definition Fsync_arm :: "'u pb_rt \<Rightarrow> u32 \<Rightarrow> 'u Fsync \<Rightarrow> bytes \<Rightarrow> 'u Fsync parse" where
  "Fsync_arm rt tag m is =
     (if tag = 10 then arm (rt_read_string rt is) (\<lambda>s. m\<lparr>fsync_id := s\<rparr>)
      else if tag = 18 then arm (rt_read_string rt is) (\<lambda>s. m\<lparr>fsync_addr := s\<rparr>)
      else arm (rt_read_unknown rt tag (unknown_fields (fsync_special m)) is)
        (\<lambda>u. m\<lparr>fsync_special := (fsync_special m)\<lparr>unknown_fields := u\<rparr>\<rparr>))"

definition Fsync_merge_from :: "'u pb_rt \<Rightarrow> 'u Fsync \<Rightarrow> bytes \<Rightarrow> (pb_error + 'u Fsync) option" where
  "Fsync_merge_from rt = merge_loop rt (Fsync_arm rt)"

definition Fsync_compute_size :: "'u pb_rt \<Rightarrow> 'u Fsync \<Rightarrow> u64 \<times> 'u Fsync" where
  "Fsync_compute_size rt m =
     (let my_size = 0;
          my_size = (if fsync_id m \<noteq> [] then my_size + rt_string_size rt 1 (fsync_id m) else my_size);
          my_size = (if fsync_addr m \<noteq> [] then my_size + rt_string_size rt 2 (fsync_addr m) else my_size);
          my_size = my_size + rt_unknown_size rt (unknown_fields (fsync_special m))
      in (my_size, m\<lparr>fsync_special := set_cached_size my_size (fsync_special m)\<rparr>))"

definition Fsync_write :: "'u pb_rt \<Rightarrow> 'u Fsync \<Rightarrow> bytes \<Rightarrow> pb_error + bytes" where
  "Fsync_write rt m os =
     res_bind (if fsync_id m \<noteq> [] then rt_write_string rt 1 (fsync_id m) os else Inr os) (\<lambda>os.
     res_bind (if fsync_addr m \<noteq> [] then rt_write_string rt 2 (fsync_addr m) os else Inr os) (\<lambda>os.
     rt_write_unknown rt (unknown_fields (fsync_special m)) os))"

subsection \<open>Rsync\<close>

record 'u Rsync =
  rsync_id :: string
  rsync_special :: "'u SpecialFields"

definition Rsync_new :: "'u pb_rt \<Rightarrow> 'u Rsync" where
  "Rsync_new rt = \<lparr>rsync_id = [], rsync_special = SpecialFields_new rt\<rparr>"

definition Rsync_arm :: "'u pb_rt \<Rightarrow> u32 \<Rightarrow> 'u Rsync \<Rightarrow> bytes \<Rightarrow> 'u Rsync parse" where
  "Rsync_arm rt tag m is =
     (if tag = 10 then arm (rt_read_string rt is) (\<lambda>s. m\<lparr>rsync_id := s\<rparr>)
      else arm (rt_read_unknown rt tag (unknown_fields (rsync_special m)) is)
        (\<lambda>u. m\<lparr>rsync_special := (rsync_special m)\<lparr>unknown_fields := u\<rparr>\<rparr>))"

definition Rsync_merge_from :: "'u pb_rt \<Rightarrow> 'u Rsync \<Rightarrow> bytes \<Rightarrow> (pb_error + 'u Rsync) option" where
  "Rsync_merge_from rt = merge_loop rt (Rsync_arm rt)"

definition Rsync_compute_size :: "'u pb_rt \<Rightarrow> 'u Rsync \<Rightarrow> u64 \<times> 'u Rsync" where
  "Rsync_compute_size rt m =
     (let my_size = 0;
          my_size = (if rsync_id m \<noteq> [] then my_size + rt_string_size rt 1 (rsync_id m) else my_size);
          my_size = my_size + rt_unknown_size rt (unknown_fields (rsync_special m))
      in (my_size, m\<lparr>rsync_special := set_cached_size my_size (rsync_special m)\<rparr>))"

definition Rsync_write :: "'u pb_rt \<Rightarrow> 'u Rsync \<Rightarrow> bytes \<Rightarrow> pb_error + bytes" where
  "Rsync_write rt m os =
     res_bind (if rsync_id m \<noteq> [] then rt_write_string rt 1 (rsync_id m) os else Inr os) (\<lambda>os.
     rt_write_unknown rt (unknown_fields (rsync_special m)) os)"

subsection \<open>Bye\<close>

record 'u Bye =
  bye_special :: "'u SpecialFields"

definition Bye_new :: "'u pb_rt \<Rightarrow> 'u Bye" where
  "Bye_new rt = \<lparr>bye_special = SpecialFields_new rt\<rparr>"

definition Bye_arm :: "'u pb_rt \<Rightarrow> u32 \<Rightarrow> 'u Bye \<Rightarrow> bytes \<Rightarrow> 'u Bye parse" where
  "Bye_arm rt tag m is =
     arm (rt_read_unknown rt tag (unknown_fields (bye_special m)) is)
        (\<lambda>u. m\<lparr>bye_special := (bye_special m)\<lparr>unknown_fields := u\<rparr>\<rparr>)"

definition Bye_merge_from :: "'u pb_rt \<Rightarrow> 'u Bye \<Rightarrow> bytes \<Rightarrow> (pb_error + 'u Bye) option" where
  "Bye_merge_from rt = merge_loop rt (Bye_arm rt)"

definition Bye_compute_size :: "'u pb_rt \<Rightarrow> 'u Bye \<Rightarrow> u64 \<times> 'u Bye" where
  "Bye_compute_size rt m =
     (let my_size = 0;
          my_size = my_size + rt_unknown_size rt (unknown_fields (bye_special m))
      in (my_size, m\<lparr>bye_special := set_cached_size my_size (bye_special m)\<rparr>))"

definition Bye_write :: "'u pb_rt \<Rightarrow> 'u Bye \<Rightarrow> bytes \<Rightarrow> pb_error + bytes" where
  "Bye_write rt m os =
     rt_write_unknown rt (unknown_fields (bye_special m)) os"

subsection \<open>Request and its oneof\<close>

datatype 'u ReqCmd =
    ReqPing "'u Ping"
  | ReqIsync "'u Isync"
  | ReqFsync "'u Fsync"
  | ReqRsync "'u Rsync"
  | ReqBye "'u Bye"

record 'u Request =
  req_id :: string
  req_cmd :: "'u ReqCmd option"
  req_special :: "'u SpecialFields"

definition Request_new :: "'u pb_rt \<Rightarrow> 'u Request" where
  "Request_new rt = \<lparr>req_id = [], req_cmd = None, req_special = SpecialFields_new rt\<rparr>"

definition Request_arm :: "'u pb_rt \<Rightarrow> u32 \<Rightarrow> 'u Request \<Rightarrow> bytes \<Rightarrow> 'u Request parse" where
  "Request_arm rt tag m is =
     (if tag = 10 then arm (rt_read_string rt is) (\<lambda>s. m\<lparr>req_id := s\<rparr>)
      else if tag = 18 then arm_message (read_message rt (Ping_merge_from rt (Ping_new rt)) is)
        (\<lambda>v. m\<lparr>req_cmd := Some (ReqPing v)\<rparr>)
      else if tag = 26 then arm_message (read_message rt (Isync_merge_from rt (Isync_new rt)) is)
        (\<lambda>v. m\<lparr>req_cmd := Some (ReqIsync v)\<rparr>)
      else if tag = 34 then arm_message (read_message rt (Fsync_merge_from rt (Fsync_new rt)) is)
        (\<lambda>v. m\<lparr>req_cmd := Some (ReqFsync v)\<rparr>)
      else if tag = 42 then arm_message (read_message rt (Rsync_merge_from rt (Rsync_new rt)) is)
        (\<lambda>v. m\<lparr>req_cmd := Some (ReqRsync v)\<rparr>)
      else if tag = 50 then arm_message (read_message rt (Bye_merge_from rt (Bye_new rt)) is)
        (\<lambda>v. m\<lparr>req_cmd := Some (ReqBye v)\<rparr>)
      else arm (rt_read_unknown rt tag (unknown_fields (req_special m)) is)
        (\<lambda>u. m\<lparr>req_special := (req_special m)\<lparr>unknown_fields := u\<rparr>\<rparr>))"

definition Request_merge_from :: "'u pb_rt \<Rightarrow> 'u Request \<Rightarrow> bytes \<Rightarrow> (pb_error + 'u Request) option" where
  "Request_merge_from rt = merge_loop rt (Request_arm rt)"

fun ReqCmd_compute_size :: "'u pb_rt \<Rightarrow> 'u ReqCmd \<Rightarrow> u64 \<times> 'u ReqCmd" where
  "ReqCmd_compute_size rt (ReqPing v) =
     (let (len, v') = Ping_compute_size rt v in (1 + rt_varint_size rt len + len, ReqPing v'))"
  | "ReqCmd_compute_size rt (ReqIsync v) =
     (let (len, v') = Isync_compute_size rt v in (1 + rt_varint_size rt len + len, ReqIsync v'))"
  | "ReqCmd_compute_size rt (ReqFsync v) =
     (let (len, v') = Fsync_compute_size rt v in (1 + rt_varint_size rt len + len, ReqFsync v'))"
  | "ReqCmd_compute_size rt (ReqRsync v) =
     (let (len, v') = Rsync_compute_size rt v in (1 + rt_varint_size rt len + len, ReqRsync v'))"
  | "ReqCmd_compute_size rt (ReqBye v) =
     (let (len, v') = Bye_compute_size rt v in (1 + rt_varint_size rt len + len, ReqBye v'))"

definition Request_compute_size :: "'u pb_rt \<Rightarrow> 'u Request \<Rightarrow> u64 \<times> 'u Request" where
  "Request_compute_size rt m =
     (let my_size = 0;
          my_size = (if req_id m \<noteq> [] then my_size + rt_string_size rt 1 (req_id m) else my_size);
          (my_size, cmd) =
            (case req_cmd m of
               None \<Rightarrow> (my_size, None)
             | Some v \<Rightarrow> (let (n, v') = ReqCmd_compute_size rt v in (my_size + n, Some v')));
          my_size = my_size + rt_unknown_size rt (unknown_fields (req_special m))
      in (my_size, m\<lparr>req_cmd := cmd, req_special := set_cached_size my_size (req_special m)\<rparr>))"

fun ReqCmd_write :: "'u pb_rt \<Rightarrow> 'u ReqCmd \<Rightarrow> bytes \<Rightarrow> pb_error + bytes" where
  "ReqCmd_write rt (ReqPing v) os =
     rt_write_message rt 2 (cached_size (ping_special v)) (Ping_write rt v) os"
  | "ReqCmd_write rt (ReqIsync v) os =
     rt_write_message rt 3 (cached_size (isync_special v)) (Isync_write rt v) os"
  | "ReqCmd_write rt (ReqFsync v) os =
     rt_write_message rt 4 (cached_size (fsync_special v)) (Fsync_write rt v) os"
  | "ReqCmd_write rt (ReqRsync v) os =
     rt_write_message rt 5 (cached_size (rsync_special v)) (Rsync_write rt v) os"
  | "ReqCmd_write rt (ReqBye v) os =
     rt_write_message rt 6 (cached_size (bye_special v)) (Bye_write rt v) os"

definition Request_write :: "'u pb_rt \<Rightarrow> 'u Request \<Rightarrow> bytes \<Rightarrow> pb_error + bytes" where
  "Request_write rt m os =
     res_bind (if req_id m \<noteq> [] then rt_write_string rt 1 (req_id m) os else Inr os) (\<lambda>os.
     res_bind (case req_cmd m of None \<Rightarrow> Inr os | Some v \<Rightarrow> ReqCmd_write rt v os) (\<lambda>os.
     rt_write_unknown rt (unknown_fields (req_special m)) os))"

text \<open>The accessors of the oneof. \<open>get\<close> stands for the reader method named like the field.\<close>

definition Request_get_Ping :: "'u pb_rt \<Rightarrow> 'u Request \<Rightarrow> 'u Ping" where
  "Request_get_Ping rt m = (case req_cmd m of Some (ReqPing v) \<Rightarrow> v | _ \<Rightarrow> Ping_new rt)"

definition Request_clear_Ping :: "'u Request \<Rightarrow> 'u Request" where
  "Request_clear_Ping m = m\<lparr>req_cmd := None\<rparr>"

definition Request_has_Ping :: "'u Request \<Rightarrow> bool" where
  "Request_has_Ping m = (case req_cmd m of Some (ReqPing _) \<Rightarrow> True | _ \<Rightarrow> False)"

definition Request_set_Ping :: "'u Ping \<Rightarrow> 'u Request \<Rightarrow> 'u Request" where
  "Request_set_Ping v m = m\<lparr>req_cmd := Some (ReqPing v)\<rparr>"

definition Request_mut_Ping :: "'u pb_rt \<Rightarrow> ('u Ping \<Rightarrow> 'u Ping) \<Rightarrow> 'u Request \<Rightarrow> 'u Request outcome" where
  "Request_mut_Ping rt f m =
     (let m = (case req_cmd m of Some (ReqPing _) \<Rightarrow> m | _ \<Rightarrow> m\<lparr>req_cmd := Some (ReqPing (Ping_new rt))\<rparr>)
      in case req_cmd m of Some (ReqPing v) \<Rightarrow> Ret (m\<lparr>req_cmd := Some (ReqPing (f v))\<rparr>) | _ \<Rightarrow> Panic)"

definition Request_take_Ping :: "'u pb_rt \<Rightarrow> 'u Request \<Rightarrow> ('u Ping \<times> 'u Request) outcome" where
  "Request_take_Ping rt m =
     (if Request_has_Ping m
      then (case req_cmd m of Some (ReqPing v) \<Rightarrow> Ret (v, m\<lparr>req_cmd := None\<rparr>) | _ \<Rightarrow> Panic)
      else Ret (Ping_new rt, m))"

definition Request_get_Isync :: "'u pb_rt \<Rightarrow> 'u Request \<Rightarrow> 'u Isync" where
  "Request_get_Isync rt m = (case req_cmd m of Some (ReqIsync v) \<Rightarrow> v | _ \<Rightarrow> Isync_new rt)"

definition Request_clear_Isync :: "'u Request \<Rightarrow> 'u Request" where
  "Request_clear_Isync m = m\<lparr>req_cmd := None\<rparr>"

definition Request_has_Isync :: "'u Request \<Rightarrow> bool" where
  "Request_has_Isync m = (case req_cmd m of Some (ReqIsync _) \<Rightarrow> True | _ \<Rightarrow> False)"

definition Request_set_Isync :: "'u Isync \<Rightarrow> 'u Request \<Rightarrow> 'u Request" where
  "Request_set_Isync v m = m\<lparr>req_cmd := Some (ReqIsync v)\<rparr>"

definition Request_mut_Isync :: "'u pb_rt \<Rightarrow> ('u Isync \<Rightarrow> 'u Isync) \<Rightarrow> 'u Request \<Rightarrow> 'u Request outcome" where
  "Request_mut_Isync rt f m =
     (let m = (case req_cmd m of Some (ReqIsync _) \<Rightarrow> m | _ \<Rightarrow> m\<lparr>req_cmd := Some (ReqIsync (Isync_new rt))\<rparr>)
      in case req_cmd m of Some (ReqIsync v) \<Rightarrow> Ret (m\<lparr>req_cmd := Some (ReqIsync (f v))\<rparr>) | _ \<Rightarrow> Panic)"

definition Request_take_Isync :: "'u pb_rt \<Rightarrow> 'u Request \<Rightarrow> ('u Isync \<times> 'u Request) outcome" where
  "Request_take_Isync rt m =
     (if Request_has_Isync m
      then (case req_cmd m of Some (ReqIsync v) \<Rightarrow> Ret (v, m\<lparr>req_cmd := None\<rparr>) | _ \<Rightarrow> Panic)
      else Ret (Isync_new rt, m))"

definition Request_get_Fsync :: "'u pb_rt \<Rightarrow> 'u Request \<Rightarrow> 'u Fsync" where
  "Request_get_Fsync rt m = (case req_cmd m of Some (ReqFsync v) \<Rightarrow> v | _ \<Rightarrow> Fsync_new rt)"

definition Request_clear_Fsync :: "'u Request \<Rightarrow> 'u Request" where
  "Request_clear_Fsync m = m\<lparr>req_cmd := None\<rparr>"

definition Request_has_Fsync :: "'u Request \<Rightarrow> bool" where
  "Request_has_Fsync m = (case req_cmd m of Some (ReqFsync _) \<Rightarrow> True | _ \<Rightarrow> False)"

definition Request_set_Fsync :: "'u Fsync \<Rightarrow> 'u Request \<Rightarrow> 'u Request" where
  "Request_set_Fsync v m = m\<lparr>req_cmd := Some (ReqFsync v)\<rparr>"

definition Request_mut_Fsync :: "'u pb_rt \<Rightarrow> ('u Fsync \<Rightarrow> 'u Fsync) \<Rightarrow> 'u Request \<Rightarrow> 'u Request outcome" where
  "Request_mut_Fsync rt f m =
     (let m = (case req_cmd m of Some (ReqFsync _) \<Rightarrow> m | _ \<Rightarrow> m\<lparr>req_cmd := Some (ReqFsync (Fsync_new rt))\<rparr>)
      in case req_cmd m of Some (ReqFsync v) \<Rightarrow> Ret (m\<lparr>req_cmd := Some (ReqFsync (f v))\<rparr>) | _ \<Rightarrow> Panic)"

definition Request_take_Fsync :: "'u pb_rt \<Rightarrow> 'u Request \<Rightarrow> ('u Fsync \<times> 'u Request) outcome" where
  "Request_take_Fsync rt m =
     (if Request_has_Fsync m
      then (case req_cmd m of Some (ReqFsync v) \<Rightarrow> Ret (v, m\<lparr>req_cmd := None\<rparr>) | _ \<Rightarrow> Panic)
      else Ret (Fsync_new rt, m))"

definition Request_get_Rsync :: "'u pb_rt \<Rightarrow> 'u Request \<Rightarrow> 'u Rsync" where
  "Request_get_Rsync rt m = (case req_cmd m of Some (ReqRsync v) \<Rightarrow> v | _ \<Rightarrow> Rsync_new rt)"

definition Request_clear_Rsync :: "'u Request \<Rightarrow> 'u Request" where
  "Request_clear_Rsync m = m\<lparr>req_cmd := None\<rparr>"

definition Request_has_Rsync :: "'u Request \<Rightarrow> bool" where
  "Request_has_Rsync m = (case req_cmd m of Some (ReqRsync _) \<Rightarrow> True | _ \<Rightarrow> False)"

definition Request_set_Rsync :: "'u Rsync \<Rightarrow> 'u Request \<Rightarrow> 'u Request" where
  "Request_set_Rsync v m = m\<lparr>req_cmd := Some (ReqRsync v)\<rparr>"

definition Request_mut_Rsync :: "'u pb_rt \<Rightarrow> ('u Rsync \<Rightarrow> 'u Rsync) \<Rightarrow> 'u Request \<Rightarrow> 'u Request outcome" where
  "Request_mut_Rsync rt f m =
     (let m = (case req_cmd m of Some (ReqRsync _) \<Rightarrow> m | _ \<Rightarrow> m\<lparr>req_cmd := Some (ReqRsync (Rsync_new rt))\<rparr>)
      in case req_cmd m of Some (ReqRsync v) \<Rightarrow> Ret (m\<lparr>req_cmd := Some (ReqRsync (f v))\<rparr>) | _ \<Rightarrow> Panic)"

definition Request_take_Rsync :: "'u pb_rt \<Rightarrow> 'u Request \<Rightarrow> ('u Rsync \<times> 'u Request) outcome" where
  "Request_take_Rsync rt m =
     (if Request_has_Rsync m
      then (case req_cmd m of Some (ReqRsync v) \<Rightarrow> Ret (v, m\<lparr>req_cmd := None\<rparr>) | _ \<Rightarrow> Panic)
      else Ret (Rsync_new rt, m))"

definition Request_get_Bye :: "'u pb_rt \<Rightarrow> 'u Request \<Rightarrow> 'u Bye" where
  "Request_get_Bye rt m = (case req_cmd m of Some (ReqBye v) \<Rightarrow> v | _ \<Rightarrow> Bye_new rt)"

definition Request_clear_Bye :: "'u Request \<Rightarrow> 'u Request" where
  "Request_clear_Bye m = m\<lparr>req_cmd := None\<rparr>"

definition Request_has_Bye :: "'u Request \<Rightarrow> bool" where
  "Request_has_Bye m = (case req_cmd m of Some (ReqBye _) \<Rightarrow> True | _ \<Rightarrow> False)"

definition Request_set_Bye :: "'u Bye \<Rightarrow> 'u Request \<Rightarrow> 'u Request" where
  "Request_set_Bye v m = m\<lparr>req_cmd := Some (ReqBye v)\<rparr>"

definition Request_mut_Bye :: "'u pb_rt \<Rightarrow> ('u Bye \<Rightarrow> 'u Bye) \<Rightarrow> 'u Request \<Rightarrow> 'u Request outcome" where
  "Request_mut_Bye rt f m =
     (let m = (case req_cmd m of Some (ReqBye _) \<Rightarrow> m | _ \<Rightarrow> m\<lparr>req_cmd := Some (ReqBye (Bye_new rt))\<rparr>)
      in case req_cmd m of Some (ReqBye v) \<Rightarrow> Ret (m\<lparr>req_cmd := Some (ReqBye (f v))\<rparr>) | _ \<Rightarrow> Panic)"

definition Request_take_Bye :: "'u pb_rt \<Rightarrow> 'u Request \<Rightarrow> ('u Bye \<times> 'u Request) outcome" where
  "Request_take_Bye rt m =
     (if Request_has_Bye m
      then (case req_cmd m of Some (ReqBye v) \<Rightarrow> Ret (v, m\<lparr>req_cmd := None\<rparr>) | _ \<Rightarrow> Panic)
      else Ret (Bye_new rt, m))"

subsection \<open>Response and its oneof\<close>

datatype 'u RespCmd =
    RespPong "'u Pong"
  | RespRedirect "'u Redirect"
  | RespFsync "'u Fsync"

record 'u Response =
  resp_id :: string
  resp_cmd :: "'u RespCmd option"
  resp_special :: "'u SpecialFields"

definition Response_new :: "'u pb_rt \<Rightarrow> 'u Response" where
  "Response_new rt = \<lparr>resp_id = [], resp_cmd = None, resp_special = SpecialFields_new rt\<rparr>"

definition Response_arm :: "'u pb_rt \<Rightarrow> u32 \<Rightarrow> 'u Response \<Rightarrow> bytes \<Rightarrow> 'u Response parse" where
  "Response_arm rt tag m is =
     (if tag = 10 then arm (rt_read_string rt is) (\<lambda>s. m\<lparr>resp_id := s\<rparr>)
      else if tag = 18 then arm_message (read_message rt (Pong_merge_from rt (Pong_new rt)) is)
        (\<lambda>v. m\<lparr>resp_cmd := Some (RespPong v)\<rparr>)
      else if tag = 26 then arm_message (read_message rt (Redirect_merge_from rt (Redirect_new rt)) is)
        (\<lambda>v. m\<lparr>resp_cmd := Some (RespRedirect v)\<rparr>)
      else if tag = 34 then arm_message (read_message rt (Fsync_merge_from rt (Fsync_new rt)) is)
        (\<lambda>v. m\<lparr>resp_cmd := Some (RespFsync v)\<rparr>)
      else arm (rt_read_unknown rt tag (unknown_fields (resp_special m)) is)
        (\<lambda>u. m\<lparr>resp_special := (resp_special m)\<lparr>unknown_fields := u\<rparr>\<rparr>))"

definition Response_merge_from :: "'u pb_rt \<Rightarrow> 'u Response \<Rightarrow> bytes \<Rightarrow> (pb_error + 'u Response) option" where
  "Response_merge_from rt = merge_loop rt (Response_arm rt)"

fun RespCmd_compute_size :: "'u pb_rt \<Rightarrow> 'u RespCmd \<Rightarrow> u64 \<times> 'u RespCmd" where
  "RespCmd_compute_size rt (RespPong v) =
     (let (len, v') = Pong_compute_size rt v in (1 + rt_varint_size rt len + len, RespPong v'))"
  | "RespCmd_compute_size rt (RespRedirect v) =
     (let (len, v') = Redirect_compute_size rt v in (1 + rt_varint_size rt len + len, RespRedirect v'))"
  | "RespCmd_compute_size rt (RespFsync v) =
     (let (len, v') = Fsync_compute_size rt v in (1 + rt_varint_size rt len + len, RespFsync v'))"

definition Response_compute_size :: "'u pb_rt \<Rightarrow> 'u Response \<Rightarrow> u64 \<times> 'u Response" where
  "Response_compute_size rt m =
     (let my_size = 0;
          my_size = (if resp_id m \<noteq> [] then my_size + rt_string_size rt 1 (resp_id m) else my_size);
          (my_size, cmd) =
            (case resp_cmd m of
               None \<Rightarrow> (my_size, None)
             | Some v \<Rightarrow> (let (n, v') = RespCmd_compute_size rt v in (my_size + n, Some v')));
          my_size = my_size + rt_unknown_size rt (unknown_fields (resp_special m))
      in (my_size, m\<lparr>resp_cmd := cmd, resp_special := set_cached_size my_size (resp_special m)\<rparr>))"

fun RespCmd_write :: "'u pb_rt \<Rightarrow> 'u RespCmd \<Rightarrow> bytes \<Rightarrow> pb_error + bytes" where
  "RespCmd_write rt (RespPong v) os =
     rt_write_message rt 2 (cached_size (pong_special v)) (Pong_write rt v) os"
  | "RespCmd_write rt (RespRedirect v) os =
     rt_write_message rt 3 (cached_size (redirect_special v)) (Redirect_write rt v) os"
  | "RespCmd_write rt (RespFsync v) os =
     rt_write_message rt 4 (cached_size (fsync_special v)) (Fsync_write rt v) os"

definition Response_write :: "'u pb_rt \<Rightarrow> 'u Response \<Rightarrow> bytes \<Rightarrow> pb_error + bytes" where
  "Response_write rt m os =
     res_bind (if resp_id m \<noteq> [] then rt_write_string rt 1 (resp_id m) os else Inr os) (\<lambda>os.
     res_bind (case resp_cmd m of None \<Rightarrow> Inr os | Some v \<Rightarrow> RespCmd_write rt v os) (\<lambda>os.
     rt_write_unknown rt (unknown_fields (resp_special m)) os))"

text \<open>The accessors of the oneof. \<open>get\<close> stands for the reader method named like the field.\<close>

definition Response_get_Pong :: "'u pb_rt \<Rightarrow> 'u Response \<Rightarrow> 'u Pong" where
  "Response_get_Pong rt m = (case resp_cmd m of Some (RespPong v) \<Rightarrow> v | _ \<Rightarrow> Pong_new rt)"

definition Response_clear_Pong :: "'u Response \<Rightarrow> 'u Response" where
  "Response_clear_Pong m = m\<lparr>resp_cmd := None\<rparr>"

definition Response_has_Pong :: "'u Response \<Rightarrow> bool" where
  "Response_has_Pong m = (case resp_cmd m of Some (RespPong _) \<Rightarrow> True | _ \<Rightarrow> False)"

definition Response_set_Pong :: "'u Pong \<Rightarrow> 'u Response \<Rightarrow> 'u Response" where
  "Response_set_Pong v m = m\<lparr>resp_cmd := Some (RespPong v)\<rparr>"

definition Response_mut_Pong :: "'u pb_rt \<Rightarrow> ('u Pong \<Rightarrow> 'u Pong) \<Rightarrow> 'u Response \<Rightarrow> 'u Response outcome" where
  "Response_mut_Pong rt f m =
     (let m = (case resp_cmd m of Some (RespPong _) \<Rightarrow> m | _ \<Rightarrow> m\<lparr>resp_cmd := Some (RespPong (Pong_new rt))\<rparr>)
      in case resp_cmd m of Some (RespPong v) \<Rightarrow> Ret (m\<lparr>resp_cmd := Some (RespPong (f v))\<rparr>) | _ \<Rightarrow> Panic)"

definition Response_take_Pong :: "'u pb_rt \<Rightarrow> 'u Response \<Rightarrow> ('u Pong \<times> 'u Response) outcome" where
  "Response_take_Pong rt m =
     (if Response_has_Pong m
      then (case resp_cmd m of Some (RespPong v) \<Rightarrow> Ret (v, m\<lparr>resp_cmd := None\<rparr>) | _ \<Rightarrow> Panic)
      else Ret (Pong_new rt, m))"

definition Response_get_Redirect :: "'u pb_rt \<Rightarrow> 'u Response \<Rightarrow> 'u Redirect" where
  "Response_get_Redirect rt m = (case resp_cmd m of Some (RespRedirect v) \<Rightarrow> v | _ \<Rightarrow> Redirect_new rt)"

definition Response_clear_Redirect :: "'u Response \<Rightarrow> 'u Response" where
  "Response_clear_Redirect m = m\<lparr>resp_cmd := None\<rparr>"

definition Response_has_Redirect :: "'u Response \<Rightarrow> bool" where
  "Response_has_Redirect m = (case resp_cmd m of Some (RespRedirect _) \<Rightarrow> True | _ \<Rightarrow> False)"

definition Response_set_Redirect :: "'u Redirect \<Rightarrow> 'u Response \<Rightarrow> 'u Response" where
  "Response_set_Redirect v m = m\<lparr>resp_cmd := Some (RespRedirect v)\<rparr>"

definition Response_mut_Redirect :: "'u pb_rt \<Rightarrow> ('u Redirect \<Rightarrow> 'u Redirect) \<Rightarrow> 'u Response \<Rightarrow> 'u Response outcome" where
  "Response_mut_Redirect rt f m =
     (let m = (case resp_cmd m of Some (RespRedirect _) \<Rightarrow> m | _ \<Rightarrow> m\<lparr>resp_cmd := Some (RespRedirect (Redirect_new rt))\<rparr>)
      in case resp_cmd m of Some (RespRedirect v) \<Rightarrow> Ret (m\<lparr>resp_cmd := Some (RespRedirect (f v))\<rparr>) | _ \<Rightarrow> Panic)"

definition Response_take_Redirect :: "'u pb_rt \<Rightarrow> 'u Response \<Rightarrow> ('u Redirect \<times> 'u Response) outcome" where
  "Response_take_Redirect rt m =
     (if Response_has_Redirect m
      then (case resp_cmd m of Some (RespRedirect v) \<Rightarrow> Ret (v, m\<lparr>resp_cmd := None\<rparr>) | _ \<Rightarrow> Panic)
      else Ret (Redirect_new rt, m))"

definition Response_get_Fsync :: "'u pb_rt \<Rightarrow> 'u Response \<Rightarrow> 'u Fsync" where
  "Response_get_Fsync rt m = (case resp_cmd m of Some (RespFsync v) \<Rightarrow> v | _ \<Rightarrow> Fsync_new rt)"

definition Response_clear_Fsync :: "'u Response \<Rightarrow> 'u Response" where
  "Response_clear_Fsync m = m\<lparr>resp_cmd := None\<rparr>"

definition Response_has_Fsync :: "'u Response \<Rightarrow> bool" where
  "Response_has_Fsync m = (case resp_cmd m of Some (RespFsync _) \<Rightarrow> True | _ \<Rightarrow> False)"

definition Response_set_Fsync :: "'u Fsync \<Rightarrow> 'u Response \<Rightarrow> 'u Response" where
  "Response_set_Fsync v m = m\<lparr>resp_cmd := Some (RespFsync v)\<rparr>"

definition Response_mut_Fsync :: "'u pb_rt \<Rightarrow> ('u Fsync \<Rightarrow> 'u Fsync) \<Rightarrow> 'u Response \<Rightarrow> 'u Response outcome" where
  "Response_mut_Fsync rt f m =
     (let m = (case resp_cmd m of Some (RespFsync _) \<Rightarrow> m | _ \<Rightarrow> m\<lparr>resp_cmd := Some (RespFsync (Fsync_new rt))\<rparr>)
      in case resp_cmd m of Some (RespFsync v) \<Rightarrow> Ret (m\<lparr>resp_cmd := Some (RespFsync (f v))\<rparr>) | _ \<Rightarrow> Panic)"

definition Response_take_Fsync :: "'u pb_rt \<Rightarrow> 'u Response \<Rightarrow> ('u Fsync \<times> 'u Response) outcome" where
  "Response_take_Fsync rt m =
     (if Response_has_Fsync m
      then (case resp_cmd m of Some (RespFsync v) \<Rightarrow> Ret (v, m\<lparr>resp_cmd := None\<rparr>) | _ \<Rightarrow> Panic)
      else Ret (Fsync_new rt, m))"
section \<open>Encoding and decoding whole messages\<close>

text \<open>\<open>Request::write_to_bytes\<close>, \<open>Response::parse_from_bytes\<close> and their companions.\<close>

definition Request_write_to_bytes :: "'u pb_rt \<Rightarrow> 'u Request \<Rightarrow> pb_error + bytes" where
  "Request_write_to_bytes rt = write_message_bytes rt (Request_compute_size rt) (Request_write rt)"

definition Request_parse_from_bytes :: "'u pb_rt \<Rightarrow> bytes \<Rightarrow> (pb_error + 'u Request) option" where
  "Request_parse_from_bytes rt = Request_merge_from rt (Request_new rt)"

definition Response_write_to_bytes :: "'u pb_rt \<Rightarrow> 'u Response \<Rightarrow> pb_error + bytes" where
  "Response_write_to_bytes rt = write_message_bytes rt (Response_compute_size rt) (Response_write rt)"

definition Response_parse_from_bytes :: "'u pb_rt \<Rightarrow> bytes \<Rightarrow> (pb_error + 'u Response) option" where
  "Response_parse_from_bytes rt = Response_merge_from rt (Response_new rt)"

end
