(* ===== verification/Proto_Codec.thy ===== *)
theory Proto_Codec
  imports Proto_Messages
begin

text \<open>
  Correctness of the generated message code against the wire format: sizes, cached
  sizes, encoding, decoding, termination of the decoder.

  The locale \<open>generated_message\<close> is the contract of one generated message with the
  methods of the crate that are generic in it. Its lemmas (a nested field, a whole
  message) are proved once; every message type of the program is an instance.
\<close>

section \<open>Specification: the bytes of a message\<close>

text \<open>
  An encoder omits a string field that is empty. The texts of a message have to be
  shorter than \<open>max_text\<close>, so that no length reaches the limit of the format.
\<close>

definition opt_field :: "'u pb_rt \<Rightarrow> nat \<Rightarrow> string \<Rightarrow> bytes" where
  "opt_field rt n s = (if s = [] then [] else string_field rt n s)"

definition max_text :: nat where
  "max_text = 2 ^ 29"

definition text_ok :: "string \<Rightarrow> bool" where
  "text_ok s \<longleftrightarrow> utf8_valid s \<and> length s < max_text"

definition no_unknown :: "'u pb_rt \<Rightarrow> 'u SpecialFields \<Rightarrow> bool" where
  "no_unknown rt sf \<longleftrightarrow> unknown_fields sf = rt_unknown_new rt"

lemma text_ok_short: "text_ok s \<Longrightarrow> short_string s"
  by (simp add: text_ok_def short_string_def max_text_def max_len_def)

lemma text_ok_Nil [simp]: "text_ok []"
  by (simp add: text_ok_def max_text_def)

lemma unat_add_small:
  fixes a b :: u64
  assumes "unat a + unat b < 2 ^ 64"
  shows "unat (a + b) = unat a + unat b"
  using assms by (simp add: unat_word_ariths)

section \<open>The contract of a generated message\<close>

locale generated_message = pb_runtime rt for rt :: "'u pb_rt" +
  fixes new :: "'m"
    and merge :: "'m \<Rightarrow> bytes \<Rightarrow> (pb_error + 'm) option"
    and compute :: "'m \<Rightarrow> u64 \<times> 'm"
    and wr :: "'m \<Rightarrow> bytes \<Rightarrow> pb_error + bytes"
    and special :: "'m \<Rightarrow> 'u SpecialFields"
    and wire :: "'m \<Rightarrow> bytes"
    and clean :: "'m \<Rightarrow> bool"
    and forget :: "'m \<Rightarrow> 'm"
  assumes wire_short: "clean m \<Longrightarrow> length (wire m) < max_len"
    and compute_wire: "clean m \<Longrightarrow> unat (fst (compute m)) = length (wire m)"
    and compute_cached: "cached_size (special (snd (compute m))) = ucast (fst (compute m))"
    and write_computed: "clean m \<Longrightarrow> wr (snd (compute m)) os = Inr (os @ wire m)"
    and merge_wire: "clean m \<Longrightarrow> merge new (wire m) = Some (Inr (forget m))"
    and merge_returns: "\<exists>r. merge m is = Some r"
begin

text \<open>As a nested field: the size the parent adds, the bytes the parent writes.\<close>

lemma nested_size:
  assumes "clean m" "field_no n"
  shows "unat (1 + rt_varint_size rt (fst (compute m)) + fst (compute m))
    = length (message_field rt n (wire m))"
proof -
  have len: "fst (compute m) = of_nat (length (wire m))"
    by (simp add: compute_wire[OF assms(1), symmetric])
  have "1 + unat (rt_varint_size rt (fst (compute m))) + unat (fst (compute m)) < 2 ^ 64"
    using varint_size_le[of "fst (compute m)"] wire_short[OF assms(1)] compute_wire[OF assms(1)]
    by (simp add: max_len_def)
  then have "unat (1 + rt_varint_size rt (fst (compute m)) + fst (compute m))
      = 1 + unat (rt_varint_size rt (fst (compute m))) + unat (fst (compute m))"
    by (simp add: unat_add_small)
  also have "\<dots> = 1 + unat (rt_varint_size rt (of_nat (length (wire m)))) + length (wire m)"
    using len compute_wire[OF assms(1)] by simp
  finally show ?thesis
    using message_field_size[OF assms(2) wire_short[OF assms(1)]] by simp
qed

lemma nested_write:
  assumes "clean m" "field_no n"
  shows "rt_write_message rt n (cached_size (special (snd (compute m)))) (wr (snd (compute m))) os
    = Inr (os @ message_field rt n (wire m))"
proof (rule write_message[OF assms(2) wire_short[OF assms(1)]])
  have "unat (fst (compute m)) < 2 ^ 32"
    using compute_wire[OF assms(1)] wire_short[OF assms(1)] by (simp add: max_len_def)
  then show "unat (cached_size (special (snd (compute m)))) = length (wire m)"
    using compute_wire[OF assms(1)]
    by (simp add: compute_cached unsigned_ucast_eq take_bit_nat_eq_self)
qed (rule write_computed[OF assms(1)])

lemma nested_read:
  assumes "clean m" "rt_read_window rt p = Inr (wire m, r)"
  shows "read_message rt (merge new) p = Some (Inr (forget m, r))"
  using assms merge_wire by (simp add: read_message_def)

lemma nested_returns:
  "\<exists>r. read_message rt (merge new) p = Some r \<and> (\<forall>m' p'. r = Inr (m', p') \<longrightarrow> length p' \<le> length p)"
proof (cases "rt_read_window rt p")
  case (Inl e)
  then show ?thesis by (simp add: read_message_def)
next
  case (Inr br)
  obtain b r where br: "br = (b, r)" by fastforce
  obtain x where "merge new b = Some x" using merge_returns by blast
  then show ?thesis using Inr br read_window_less[of p b r]
    by (cases x) (auto simp: read_message_def)
qed

text \<open>A whole message: \<open>write_to_bytes\<close> then \<open>parse_from_bytes\<close>.\<close>

lemma whole_write: "clean m \<Longrightarrow> write_message_bytes rt compute wr m = Inr (wire m)"
  using compute_wire[of m] wire_short[of m] write_computed[of m "[]"] check_size[of "fst (compute m)"]
  by (auto simp: write_message_bytes_def split: prod.splits)

lemma whole_roundtrip:
  "clean m \<Longrightarrow> write_message_bytes rt compute wr m = Inr (wire m) \<and> merge new (wire m) = Some (Inr (forget m))"
  by (simp add: whole_write merge_wire)

end

section \<open>Facts about single fields\<close>

context pb_runtime
begin

lemma opt_field_le: "field_no n \<Longrightarrow> text_ok s \<Longrightarrow> length (opt_field rt n s) \<le> length s + 6"
  by (simp add: opt_field_def string_field_le text_ok_short)

lemma opt_field_short: "field_no n \<Longrightarrow> text_ok s \<Longrightarrow> length (opt_field rt n s) < max_text + 6"
  using opt_field_le[of n s] by (simp add: text_ok_def)

lemma opt_field_size:
  assumes "field_no n" "text_ok s" "unat x < 2 ^ 60"
  shows "unat (if s \<noteq> [] then x + rt_string_size rt n s else x) = unat x + length (opt_field rt n s)"
proof -
  have "unat (rt_string_size rt n s) = length (string_field rt n s)"
    by (rule string_size[OF assms(1) text_ok_short[OF assms(2)]])
  moreover have "length (string_field rt n s) < 2 ^ 60"
    using string_field_le[OF assms(1) text_ok_short[OF assms(2)]] assms(2)
    by (simp add: text_ok_def max_text_def)
  ultimately show ?thesis using assms(3) by (simp add: opt_field_def unat_add_small)
qed

lemma opt_field_write:
  "field_no n \<Longrightarrow> text_ok s \<Longrightarrow>
    (if s \<noteq> [] then rt_write_string rt n s os else Inr os) = Inr (os @ opt_field rt n s)"
  by (simp add: opt_field_def write_string text_ok_short)

text \<open>
  One optional text field in a decoder: the arm stores the text, and storing the empty
  text changes nothing in the message decoded so far.
\<close>

lemma opt_field_read:
  assumes "field_no n" "text_ok s"
    and "\<And>p. rt_read_string rt p = Inr (s, r) \<Longrightarrow> h (field_tag n) m p = Some (Inr (m', r))"
    and "s = [] \<Longrightarrow> m' = m"
  shows "merge_loop rt h m (opt_field rt n s @ r) = merge_loop rt h m' r"
proof (cases "s = []")
  case True
  then show ?thesis using assms(4) by (simp add: opt_field_def)
next
  case False
  then show ?thesis
    using merge_loop_string[OF assms(1) text_ok_short[OF assms(2)], of r h m m'] assms(3)
    by (simp add: opt_field_def)
qed

lemma opt_field_read_last:
  assumes "field_no n" "text_ok s"
    and "\<And>p. rt_read_string rt p = Inr (s, []) \<Longrightarrow> h (field_tag n) m p = Some (Inr (m', []))"
    and "s = [] \<Longrightarrow> m' = m"
  shows "merge_loop rt h m (opt_field rt n s) = Some (Inr m')"
  using opt_field_read[of n s "[]" h m m'] assms by (simp add: merge_loop_Nil)

text \<open>Arms never give bytes back.\<close>

lemma arm_string_le:
  "\<exists>x. arm (rt_read_string rt p) f = Some x \<and> (\<forall>m' p'. x = Inr (m', p') \<longrightarrow> length p' \<le> length p)"
  using read_string_less[of p] by (cases "rt_read_string rt p") (fastforce simp: arm_def)+

lemma arm_unknown_le:
  "\<exists>x. arm (rt_read_unknown rt t u p) f = Some x \<and> (\<forall>m' p'. x = Inr (m', p') \<longrightarrow> length p' \<le> length p)"
  using read_unknown_le[of t u p] by (cases "rt_read_unknown rt t u p") (fastforce simp: arm_def)+

lemma arm_message_le:
  assumes "\<exists>x. r = Some x \<and> (\<forall>m' p'. x = Inr (m', p') \<longrightarrow> length p' \<le> length p)"
  shows "\<exists>x. arm_message r f = Some x \<and> (\<forall>m' p'. x = Inr (m', p') \<longrightarrow> length p' \<le> length p)"
  using assms by (auto simp: arm_message_def arm_def split: sum.splits)

end

section \<open>The messages without a oneof\<close>

text \<open>
  For each message: its bytes (\<open>_wire\<close>), the messages the program builds (\<open>_clean\<close>: no
  unknown fields, texts of ordinary length), and the message without its cached sizes
  (\<open>_forget\<close>), which is all a decoder can give back.
\<close>

definition forget_size :: "'u SpecialFields \<Rightarrow> 'u SpecialFields" where
  "forget_size sf = sf\<lparr>cached_size := 0\<rparr>"

lemma no_unknown_forget: "no_unknown rt sf \<Longrightarrow> forget_size sf = SpecialFields_new rt"
  by (cases sf) (simp add: no_unknown_def forget_size_def SpecialFields_new_def)

lemma no_unknown_set [simp]: "no_unknown rt (set_cached_size n sf) = no_unknown rt sf"
  by (simp add: no_unknown_def set_cached_size_def)

lemma set_cached_sel [simp]:
  "unknown_fields (set_cached_size n sf) = unknown_fields sf"
  "cached_size (set_cached_size n sf) = ucast n"
  by (simp_all add: set_cached_size_def)

lemma field_no_small [simp]: "field_no 1" "field_no (Suc 0)" "field_no 2" "field_no 3" "field_no 4"
  "field_no 5" "field_no 6"
  by (simp_all add: field_no_def)

lemma field_tag_small [simp]: "field_tag 1 = 10" "field_tag (Suc 0) = 10" "field_tag 2 = 18"
  "field_tag 3 = 26" "field_tag 4 = 34" "field_tag 5 = 42" "field_tag 6 = 50"
  by (simp_all add: field_tag_def)

definition Ping_wire :: "'u pb_rt \<Rightarrow> 'u Ping \<Rightarrow> bytes" where
  "Ping_wire rt m = []"

definition Ping_clean :: "'u pb_rt \<Rightarrow> 'u Ping \<Rightarrow> bool" where
  "Ping_clean rt m \<longleftrightarrow> no_unknown rt (ping_special m)"

definition Ping_forget :: "'u Ping \<Rightarrow> 'u Ping" where
  "Ping_forget m = m\<lparr>ping_special := forget_size (ping_special m)\<rparr>"

lemmas Ping_codec_defs = Ping_wire_def Ping_clean_def Ping_forget_def Ping_new_def Ping_compute_size_def
  Ping_write_def Ping_merge_from_def Ping_arm_def Let_def

definition Isync_wire :: "'u pb_rt \<Rightarrow> 'u Isync \<Rightarrow> bytes" where
  "Isync_wire rt m = opt_field rt 1 (isync_id m)"

definition Isync_clean :: "'u pb_rt \<Rightarrow> 'u Isync \<Rightarrow> bool" where
  "Isync_clean rt m \<longleftrightarrow> no_unknown rt (isync_special m) \<and> text_ok (isync_id m)"

definition Isync_forget :: "'u Isync \<Rightarrow> 'u Isync" where
  "Isync_forget m = m\<lparr>isync_special := forget_size (isync_special m)\<rparr>"

lemmas Isync_codec_defs = Isync_wire_def Isync_clean_def Isync_forget_def Isync_new_def Isync_compute_size_def
  Isync_write_def Isync_merge_from_def Isync_arm_def Let_def

definition Pong_wire :: "'u pb_rt \<Rightarrow> 'u Pong \<Rightarrow> bytes" where
  "Pong_wire rt m = []"

definition Pong_clean :: "'u pb_rt \<Rightarrow> 'u Pong \<Rightarrow> bool" where
  "Pong_clean rt m \<longleftrightarrow> no_unknown rt (pong_special m)"

definition Pong_forget :: "'u Pong \<Rightarrow> 'u Pong" where
  "Pong_forget m = m\<lparr>pong_special := forget_size (pong_special m)\<rparr>"

lemmas Pong_codec_defs = Pong_wire_def Pong_clean_def Pong_forget_def Pong_new_def Pong_compute_size_def
  Pong_write_def Pong_merge_from_def Pong_arm_def Let_def

definition Redirect_wire :: "'u pb_rt \<Rightarrow> 'u Redirect \<Rightarrow> bytes" where
  "Redirect_wire rt m = opt_field rt 1 (redirect_id m) @ opt_field rt 2 (redirect_addr m)"

definition Redirect_clean :: "'u pb_rt \<Rightarrow> 'u Redirect \<Rightarrow> bool" where
  "Redirect_clean rt m \<longleftrightarrow> no_unknown rt (redirect_special m) \<and> text_ok (redirect_id m) \<and> text_ok (redirect_addr m)"

definition Redirect_forget :: "'u Redirect \<Rightarrow> 'u Redirect" where
  "Redirect_forget m = m\<lparr>redirect_special := forget_size (redirect_special m)\<rparr>"

lemmas Redirect_codec_defs = Redirect_wire_def Redirect_clean_def Redirect_forget_def Redirect_new_def Redirect_compute_size_def
  Redirect_write_def Redirect_merge_from_def Redirect_arm_def Let_def

definition Fsync_wire :: "'u pb_rt \<Rightarrow> 'u Fsync \<Rightarrow> bytes" where
  "Fsync_wire rt m = opt_field rt 1 (fsync_id m) @ opt_field rt 2 (fsync_addr m)"

definition Fsync_clean :: "'u pb_rt \<Rightarrow> 'u Fsync \<Rightarrow> bool" where
  "Fsync_clean rt m \<longleftrightarrow> no_unknown rt (fsync_special m) \<and> text_ok (fsync_id m) \<and> text_ok (fsync_addr m)"

definition Fsync_forget :: "'u Fsync \<Rightarrow> 'u Fsync" where
  "Fsync_forget m = m\<lparr>fsync_special := forget_size (fsync_special m)\<rparr>"

lemmas Fsync_codec_defs = Fsync_wire_def Fsync_clean_def Fsync_forget_def Fsync_new_def Fsync_compute_size_def
  Fsync_write_def Fsync_merge_from_def Fsync_arm_def Let_def

definition Rsync_wire :: "'u pb_rt \<Rightarrow> 'u Rsync \<Rightarrow> bytes" where
  "Rsync_wire rt m = opt_field rt 1 (rsync_id m)"

definition Rsync_clean :: "'u pb_rt \<Rightarrow> 'u Rsync \<Rightarrow> bool" where
  "Rsync_clean rt m \<longleftrightarrow> no_unknown rt (rsync_special m) \<and> text_ok (rsync_id m)"

definition Rsync_forget :: "'u Rsync \<Rightarrow> 'u Rsync" where
  "Rsync_forget m = m\<lparr>rsync_special := forget_size (rsync_special m)\<rparr>"

lemmas Rsync_codec_defs = Rsync_wire_def Rsync_clean_def Rsync_forget_def Rsync_new_def Rsync_compute_size_def
  Rsync_write_def Rsync_merge_from_def Rsync_arm_def Let_def

definition Bye_wire :: "'u pb_rt \<Rightarrow> 'u Bye \<Rightarrow> bytes" where
  "Bye_wire rt m = []"

definition Bye_clean :: "'u pb_rt \<Rightarrow> 'u Bye \<Rightarrow> bool" where
  "Bye_clean rt m \<longleftrightarrow> no_unknown rt (bye_special m)"

definition Bye_forget :: "'u Bye \<Rightarrow> 'u Bye" where
  "Bye_forget m = m\<lparr>bye_special := forget_size (bye_special m)\<rparr>"

lemmas Bye_codec_defs = Bye_wire_def Bye_clean_def Bye_forget_def Bye_new_def Bye_compute_size_def
  Bye_write_def Bye_merge_from_def Bye_arm_def Let_def

context pb_runtime
begin

lemma Ping_merge_wire: "Ping_clean rt m \<Longrightarrow> Ping_merge_from rt (Ping_new rt) (Ping_wire rt m) = Some (Inr (Ping_forget m))"
  by (cases m) (simp add: Ping_codec_defs merge_loop_Nil no_unknown_forget[of rt])

lemma Ping_merge_returns: "\<exists>r. Ping_merge_from rt m is = Some r"
  unfolding Ping_merge_from_def
  by (rule merge_loop_returns) (simp add: Ping_arm_def arm_unknown_le)

lemma Ping_compute_wire: "Ping_clean rt m \<Longrightarrow> unat (fst (Ping_compute_size rt m)) = length (Ping_wire rt m)"
  by (simp add: Ping_codec_defs no_unknown_def unknown_size_new)

lemma Ping_write_computed:
  "Ping_clean rt m \<Longrightarrow> Ping_write rt (snd (Ping_compute_size rt m)) os = Inr (os @ Ping_wire rt m)"
  by (auto simp: Ping_codec_defs no_unknown_def write_unknown_new opt_field_def write_string text_ok_short)

lemma Ping_wire_short: "Ping_clean rt m \<Longrightarrow> length (Ping_wire rt m) < 2 * max_text + 12"
  by (simp add: Ping_codec_defs)

lemma Isync_merge_wire: "Isync_clean rt m \<Longrightarrow> Isync_merge_from rt (Isync_new rt) (Isync_wire rt m) = Some (Inr (Isync_forget m))"
proof -
  assume c: "Isync_clean rt m"
  have "merge_loop rt (Isync_arm rt) (Isync_new rt) (opt_field rt 1 (isync_id m))
      = Some (Inr ((Isync_new rt)\<lparr>isync_id := isync_id m\<rparr>))"
    using c by (intro opt_field_read_last) (simp_all add: Isync_codec_defs arm_def)
  with c show ?thesis by (cases m) (simp add: Isync_codec_defs no_unknown_forget[of rt])
qed

lemma Isync_merge_returns: "\<exists>r. Isync_merge_from rt m is = Some r"
  unfolding Isync_merge_from_def
  by (rule merge_loop_returns) (simp add: Isync_arm_def arm_unknown_le arm_string_le)

lemma Isync_compute_wire: "Isync_clean rt m \<Longrightarrow> unat (fst (Isync_compute_size rt m)) = length (Isync_wire rt m)"
  using opt_field_size[of 1 "isync_id m" 0]
  by (simp add: Isync_codec_defs no_unknown_def unknown_size_new split del: if_split)

lemma Isync_write_computed:
  "Isync_clean rt m \<Longrightarrow> Isync_write rt (snd (Isync_compute_size rt m)) os = Inr (os @ Isync_wire rt m)"
  by (auto simp: Isync_codec_defs no_unknown_def write_unknown_new opt_field_def write_string text_ok_short)

lemma Isync_wire_short: "Isync_clean rt m \<Longrightarrow> length (Isync_wire rt m) < 2 * max_text + 12"
  using opt_field_short[of 1 "isync_id m"]
  by (simp add: Isync_codec_defs)

lemma Pong_merge_wire: "Pong_clean rt m \<Longrightarrow> Pong_merge_from rt (Pong_new rt) (Pong_wire rt m) = Some (Inr (Pong_forget m))"
  by (cases m) (simp add: Pong_codec_defs merge_loop_Nil no_unknown_forget[of rt])

lemma Pong_merge_returns: "\<exists>r. Pong_merge_from rt m is = Some r"
  unfolding Pong_merge_from_def
  by (rule merge_loop_returns) (simp add: Pong_arm_def arm_unknown_le)

lemma Pong_compute_wire: "Pong_clean rt m \<Longrightarrow> unat (fst (Pong_compute_size rt m)) = length (Pong_wire rt m)"
  by (simp add: Pong_codec_defs no_unknown_def unknown_size_new)

lemma Pong_write_computed:
  "Pong_clean rt m \<Longrightarrow> Pong_write rt (snd (Pong_compute_size rt m)) os = Inr (os @ Pong_wire rt m)"
  by (auto simp: Pong_codec_defs no_unknown_def write_unknown_new opt_field_def write_string text_ok_short)

lemma Pong_wire_short: "Pong_clean rt m \<Longrightarrow> length (Pong_wire rt m) < 2 * max_text + 12"
  by (simp add: Pong_codec_defs)

lemma Redirect_merge_wire: "Redirect_clean rt m \<Longrightarrow> Redirect_merge_from rt (Redirect_new rt) (Redirect_wire rt m) = Some (Inr (Redirect_forget m))"
proof -
  assume c: "Redirect_clean rt m"
  let ?m1 = "(Redirect_new rt)\<lparr>redirect_id := redirect_id m\<rparr>"
  have "merge_loop rt (Redirect_arm rt) (Redirect_new rt) (opt_field rt 1 (redirect_id m) @ opt_field rt 2 (redirect_addr m))
      = merge_loop rt (Redirect_arm rt) ?m1 (opt_field rt 2 (redirect_addr m))"
    using c by (intro opt_field_read) (simp_all add: Redirect_codec_defs arm_def)
  also have "\<dots> = Some (Inr (?m1\<lparr>redirect_addr := redirect_addr m\<rparr>))"
    using c by (intro opt_field_read_last) (simp_all add: Redirect_codec_defs arm_def)
  finally show ?thesis using c by (cases m) (simp add: Redirect_codec_defs no_unknown_forget[of rt])
qed

lemma Redirect_merge_returns: "\<exists>r. Redirect_merge_from rt m is = Some r"
  unfolding Redirect_merge_from_def
  by (rule merge_loop_returns) (simp add: Redirect_arm_def arm_unknown_le arm_string_le)

lemma Redirect_compute_wire: "Redirect_clean rt m \<Longrightarrow> unat (fst (Redirect_compute_size rt m)) = length (Redirect_wire rt m)"
  using opt_field_size[of 1 "redirect_id m" 0] opt_field_short[of 1 "redirect_id m"]
    opt_field_size[of 2 "redirect_addr m" "if redirect_id m \<noteq> [] then 0 + rt_string_size rt 1 (redirect_id m) else 0"]
  by (simp add: Redirect_codec_defs no_unknown_def unknown_size_new max_text_def split del: if_split)

lemma Redirect_write_computed:
  "Redirect_clean rt m \<Longrightarrow> Redirect_write rt (snd (Redirect_compute_size rt m)) os = Inr (os @ Redirect_wire rt m)"
  by (auto simp: Redirect_codec_defs no_unknown_def write_unknown_new opt_field_def write_string text_ok_short)

lemma Redirect_wire_short: "Redirect_clean rt m \<Longrightarrow> length (Redirect_wire rt m) < 2 * max_text + 12"
  using opt_field_short[of 1 "redirect_id m"] opt_field_short[of 2 "redirect_addr m"]
  by (simp add: Redirect_codec_defs)

lemma Fsync_merge_wire: "Fsync_clean rt m \<Longrightarrow> Fsync_merge_from rt (Fsync_new rt) (Fsync_wire rt m) = Some (Inr (Fsync_forget m))"
proof -
  assume c: "Fsync_clean rt m"
  let ?m1 = "(Fsync_new rt)\<lparr>fsync_id := fsync_id m\<rparr>"
  have "merge_loop rt (Fsync_arm rt) (Fsync_new rt) (opt_field rt 1 (fsync_id m) @ opt_field rt 2 (fsync_addr m))
      = merge_loop rt (Fsync_arm rt) ?m1 (opt_field rt 2 (fsync_addr m))"
    using c by (intro opt_field_read) (simp_all add: Fsync_codec_defs arm_def)
  also have "\<dots> = Some (Inr (?m1\<lparr>fsync_addr := fsync_addr m\<rparr>))"
    using c by (intro opt_field_read_last) (simp_all add: Fsync_codec_defs arm_def)
  finally show ?thesis using c by (cases m) (simp add: Fsync_codec_defs no_unknown_forget[of rt])
qed

lemma Fsync_merge_returns: "\<exists>r. Fsync_merge_from rt m is = Some r"
  unfolding Fsync_merge_from_def
  by (rule merge_loop_returns) (simp add: Fsync_arm_def arm_unknown_le arm_string_le)

lemma Fsync_compute_wire: "Fsync_clean rt m \<Longrightarrow> unat (fst (Fsync_compute_size rt m)) = length (Fsync_wire rt m)"
  using opt_field_size[of 1 "fsync_id m" 0] opt_field_short[of 1 "fsync_id m"]
    opt_field_size[of 2 "fsync_addr m" "if fsync_id m \<noteq> [] then 0 + rt_string_size rt 1 (fsync_id m) else 0"]
  by (simp add: Fsync_codec_defs no_unknown_def unknown_size_new max_text_def split del: if_split)

lemma Fsync_write_computed:
  "Fsync_clean rt m \<Longrightarrow> Fsync_write rt (snd (Fsync_compute_size rt m)) os = Inr (os @ Fsync_wire rt m)"
  by (auto simp: Fsync_codec_defs no_unknown_def write_unknown_new opt_field_def write_string text_ok_short)

lemma Fsync_wire_short: "Fsync_clean rt m \<Longrightarrow> length (Fsync_wire rt m) < 2 * max_text + 12"
  using opt_field_short[of 1 "fsync_id m"] opt_field_short[of 2 "fsync_addr m"]
  by (simp add: Fsync_codec_defs)

lemma Rsync_merge_wire: "Rsync_clean rt m \<Longrightarrow> Rsync_merge_from rt (Rsync_new rt) (Rsync_wire rt m) = Some (Inr (Rsync_forget m))"
proof -
  assume c: "Rsync_clean rt m"
  have "merge_loop rt (Rsync_arm rt) (Rsync_new rt) (opt_field rt 1 (rsync_id m))
      = Some (Inr ((Rsync_new rt)\<lparr>rsync_id := rsync_id m\<rparr>))"
    using c by (intro opt_field_read_last) (simp_all add: Rsync_codec_defs arm_def)
  with c show ?thesis by (cases m) (simp add: Rsync_codec_defs no_unknown_forget[of rt])
qed

lemma Rsync_merge_returns: "\<exists>r. Rsync_merge_from rt m is = Some r"
  unfolding Rsync_merge_from_def
  by (rule merge_loop_returns) (simp add: Rsync_arm_def arm_unknown_le arm_string_le)

lemma Rsync_compute_wire: "Rsync_clean rt m \<Longrightarrow> unat (fst (Rsync_compute_size rt m)) = length (Rsync_wire rt m)"
  using opt_field_size[of 1 "rsync_id m" 0]
  by (simp add: Rsync_codec_defs no_unknown_def unknown_size_new split del: if_split)

lemma Rsync_write_computed:
  "Rsync_clean rt m \<Longrightarrow> Rsync_write rt (snd (Rsync_compute_size rt m)) os = Inr (os @ Rsync_wire rt m)"
  by (auto simp: Rsync_codec_defs no_unknown_def write_unknown_new opt_field_def write_string text_ok_short)

lemma Rsync_wire_short: "Rsync_clean rt m \<Longrightarrow> length (Rsync_wire rt m) < 2 * max_text + 12"
  using opt_field_short[of 1 "rsync_id m"]
  by (simp add: Rsync_codec_defs)

lemma Bye_merge_wire: "Bye_clean rt m \<Longrightarrow> Bye_merge_from rt (Bye_new rt) (Bye_wire rt m) = Some (Inr (Bye_forget m))"
  by (cases m) (simp add: Bye_codec_defs merge_loop_Nil no_unknown_forget[of rt])

lemma Bye_merge_returns: "\<exists>r. Bye_merge_from rt m is = Some r"
  unfolding Bye_merge_from_def
  by (rule merge_loop_returns) (simp add: Bye_arm_def arm_unknown_le)

lemma Bye_compute_wire: "Bye_clean rt m \<Longrightarrow> unat (fst (Bye_compute_size rt m)) = length (Bye_wire rt m)"
  by (simp add: Bye_codec_defs no_unknown_def unknown_size_new)

lemma Bye_write_computed:
  "Bye_clean rt m \<Longrightarrow> Bye_write rt (snd (Bye_compute_size rt m)) os = Inr (os @ Bye_wire rt m)"
  by (auto simp: Bye_codec_defs no_unknown_def write_unknown_new opt_field_def write_string text_ok_short)

lemma Bye_wire_short: "Bye_clean rt m \<Longrightarrow> length (Bye_wire rt m) < 2 * max_text + 12"
  by (simp add: Bye_codec_defs)

end

sublocale pb_runtime \<subseteq> ping: generated_message rt "Ping_new rt" "Ping_merge_from rt" "Ping_compute_size rt"
  "Ping_write rt" ping_special "Ping_wire rt" "Ping_clean rt" Ping_forget
proof unfold_locales
  show "length (Ping_wire rt m) < max_len" if "Ping_clean rt m" for m
    using Ping_wire_short[OF that] by (simp add: max_text_def max_len_def)
  show "cached_size (ping_special (snd (Ping_compute_size rt m))) = ucast (fst (Ping_compute_size rt m))" for m
    by (simp add: Ping_compute_size_def Let_def)
qed (simp_all add: Ping_compute_wire Ping_write_computed Ping_merge_wire Ping_merge_returns)

sublocale pb_runtime \<subseteq> isync: generated_message rt "Isync_new rt" "Isync_merge_from rt" "Isync_compute_size rt"
  "Isync_write rt" isync_special "Isync_wire rt" "Isync_clean rt" Isync_forget
proof unfold_locales
  show "length (Isync_wire rt m) < max_len" if "Isync_clean rt m" for m
    using Isync_wire_short[OF that] by (simp add: max_text_def max_len_def)
  show "cached_size (isync_special (snd (Isync_compute_size rt m))) = ucast (fst (Isync_compute_size rt m))" for m
    by (simp add: Isync_compute_size_def Let_def)
qed (simp_all add: Isync_compute_wire Isync_write_computed Isync_merge_wire Isync_merge_returns)

sublocale pb_runtime \<subseteq> pong: generated_message rt "Pong_new rt" "Pong_merge_from rt" "Pong_compute_size rt"
  "Pong_write rt" pong_special "Pong_wire rt" "Pong_clean rt" Pong_forget
proof unfold_locales
  show "length (Pong_wire rt m) < max_len" if "Pong_clean rt m" for m
    using Pong_wire_short[OF that] by (simp add: max_text_def max_len_def)
  show "cached_size (pong_special (snd (Pong_compute_size rt m))) = ucast (fst (Pong_compute_size rt m))" for m
    by (simp add: Pong_compute_size_def Let_def)
qed (simp_all add: Pong_compute_wire Pong_write_computed Pong_merge_wire Pong_merge_returns)

sublocale pb_runtime \<subseteq> redirect: generated_message rt "Redirect_new rt" "Redirect_merge_from rt" "Redirect_compute_size rt"
  "Redirect_write rt" redirect_special "Redirect_wire rt" "Redirect_clean rt" Redirect_forget
proof unfold_locales
  show "length (Redirect_wire rt m) < max_len" if "Redirect_clean rt m" for m
    using Redirect_wire_short[OF that] by (simp add: max_text_def max_len_def)
  show "cached_size (redirect_special (snd (Redirect_compute_size rt m))) = ucast (fst (Redirect_compute_size rt m))" for m
    by (simp add: Redirect_compute_size_def Let_def)
qed (simp_all add: Redirect_compute_wire Redirect_write_computed Redirect_merge_wire Redirect_merge_returns)

sublocale pb_runtime \<subseteq> fsync: generated_message rt "Fsync_new rt" "Fsync_merge_from rt" "Fsync_compute_size rt"
  "Fsync_write rt" fsync_special "Fsync_wire rt" "Fsync_clean rt" Fsync_forget
proof unfold_locales
  show "length (Fsync_wire rt m) < max_len" if "Fsync_clean rt m" for m
    using Fsync_wire_short[OF that] by (simp add: max_text_def max_len_def)
  show "cached_size (fsync_special (snd (Fsync_compute_size rt m))) = ucast (fst (Fsync_compute_size rt m))" for m
    by (simp add: Fsync_compute_size_def Let_def)
qed (simp_all add: Fsync_compute_wire Fsync_write_computed Fsync_merge_wire Fsync_merge_returns)

sublocale pb_runtime \<subseteq> rsync: generated_message rt "Rsync_new rt" "Rsync_merge_from rt" "Rsync_compute_size rt"
  "Rsync_write rt" rsync_special "Rsync_wire rt" "Rsync_clean rt" Rsync_forget
proof unfold_locales
  show "length (Rsync_wire rt m) < max_len" if "Rsync_clean rt m" for m
    using Rsync_wire_short[OF that] by (simp add: max_text_def max_len_def)
  show "cached_size (rsync_special (snd (Rsync_compute_size rt m))) = ucast (fst (Rsync_compute_size rt m))" for m
    by (simp add: Rsync_compute_size_def Let_def)
qed (simp_all add: Rsync_compute_wire Rsync_write_computed Rsync_merge_wire Rsync_merge_returns)

sublocale pb_runtime \<subseteq> bye: generated_message rt "Bye_new rt" "Bye_merge_from rt" "Bye_compute_size rt"
  "Bye_write rt" bye_special "Bye_wire rt" "Bye_clean rt" Bye_forget
proof unfold_locales
  show "length (Bye_wire rt m) < max_len" if "Bye_clean rt m" for m
    using Bye_wire_short[OF that] by (simp add: max_text_def max_len_def)
  show "cached_size (bye_special (snd (Bye_compute_size rt m))) = ucast (fst (Bye_compute_size rt m))" for m
    by (simp add: Bye_compute_size_def Let_def)
qed (simp_all add: Bye_compute_wire Bye_write_computed Bye_merge_wire Bye_merge_returns)

section \<open>The messages with a oneof\<close>

context pb_runtime
begin

lemma nested_field_le:
  assumes "length b < max_len" "field_no n"
  shows "length (message_field rt n b) \<le> length b + 11"
  using message_field_size[OF assms(2,1)] varint_size_le[of "of_nat (length b)"] by simp

lemma merge_loop_message_last:
  assumes "field_no n" "length b < max_len"
    and "\<And>p. rt_read_window rt p = Inr (b, []) \<Longrightarrow> h (field_tag n) m p = Some (Inr (m', []))"
  shows "merge_loop rt h m (message_field rt n b) = Some (Inr m')"
  using merge_loop_message[of n b "[]" h m m'] assms by (simp add: merge_loop_Nil)

end

primrec ReqCmd_wire :: "'u pb_rt \<Rightarrow> 'u ReqCmd \<Rightarrow> bytes" where
  "ReqCmd_wire rt (ReqPing v) = message_field rt 2 (Ping_wire rt v)"
  | "ReqCmd_wire rt (ReqIsync v) = message_field rt 3 (Isync_wire rt v)"
  | "ReqCmd_wire rt (ReqFsync v) = message_field rt 4 (Fsync_wire rt v)"
  | "ReqCmd_wire rt (ReqRsync v) = message_field rt 5 (Rsync_wire rt v)"
  | "ReqCmd_wire rt (ReqBye v) = message_field rt 6 (Bye_wire rt v)"

primrec ReqCmd_clean :: "'u pb_rt \<Rightarrow> 'u ReqCmd \<Rightarrow> bool" where
  "ReqCmd_clean rt (ReqPing v) = Ping_clean rt v"
  | "ReqCmd_clean rt (ReqIsync v) = Isync_clean rt v"
  | "ReqCmd_clean rt (ReqFsync v) = Fsync_clean rt v"
  | "ReqCmd_clean rt (ReqRsync v) = Rsync_clean rt v"
  | "ReqCmd_clean rt (ReqBye v) = Bye_clean rt v"

primrec ReqCmd_forget :: "'u ReqCmd \<Rightarrow> 'u ReqCmd" where
  "ReqCmd_forget (ReqPing v) = ReqPing (Ping_forget v)"
  | "ReqCmd_forget (ReqIsync v) = ReqIsync (Isync_forget v)"
  | "ReqCmd_forget (ReqFsync v) = ReqFsync (Fsync_forget v)"
  | "ReqCmd_forget (ReqRsync v) = ReqRsync (Rsync_forget v)"
  | "ReqCmd_forget (ReqBye v) = ReqBye (Bye_forget v)"

definition Request_wire :: "'u pb_rt \<Rightarrow> 'u Request \<Rightarrow> bytes" where
  "Request_wire rt m =
     opt_field rt 1 (req_id m) @ (case req_cmd m of None \<Rightarrow> [] | Some c \<Rightarrow> ReqCmd_wire rt c)"

definition Request_clean :: "'u pb_rt \<Rightarrow> 'u Request \<Rightarrow> bool" where
  "Request_clean rt m \<longleftrightarrow> no_unknown rt (req_special m) \<and> text_ok (req_id m)
     \<and> (case req_cmd m of None \<Rightarrow> True | Some c \<Rightarrow> ReqCmd_clean rt c)"

definition Request_forget :: "'u Request \<Rightarrow> 'u Request" where
  "Request_forget m = m\<lparr>req_cmd := map_option ReqCmd_forget (req_cmd m), req_special := forget_size (req_special m)\<rparr>"

lemmas Request_codec_defs = Request_wire_def Request_clean_def Request_forget_def Request_new_def Request_compute_size_def
  Request_write_def Request_merge_from_def Let_def

context pb_runtime
begin

lemma ReqCmd_computed:
  assumes "ReqCmd_clean rt c"
  shows "unat (fst (ReqCmd_compute_size rt c)) = length (ReqCmd_wire rt c)"
    and "ReqCmd_write rt (snd (ReqCmd_compute_size rt c)) os = Inr (os @ ReqCmd_wire rt c)"
    and "length (ReqCmd_wire rt c) < 2 * max_text + 23"
proof (atomize (full), cases c)
  case c: (ReqPing v)
  with assms have v: "Ping_clean rt v" by simp
  show "unat (fst (ReqCmd_compute_size rt c)) = length (ReqCmd_wire rt c)
    \<and> ReqCmd_write rt (snd (ReqCmd_compute_size rt c)) os = Inr (os @ ReqCmd_wire rt c)
    \<and> length (ReqCmd_wire rt c) < 2 * max_text + 23"
    using c ping.nested_size[OF v, of 2] ping.nested_write[OF v, of 2 os] Ping_wire_short[OF v]
      nested_field_le[OF ping.wire_short[OF v], of 2]
    by (simp add: case_prod_unfold Let_def)
next
  case c: (ReqIsync v)
  with assms have v: "Isync_clean rt v" by simp
  show "unat (fst (ReqCmd_compute_size rt c)) = length (ReqCmd_wire rt c)
    \<and> ReqCmd_write rt (snd (ReqCmd_compute_size rt c)) os = Inr (os @ ReqCmd_wire rt c)
    \<and> length (ReqCmd_wire rt c) < 2 * max_text + 23"
    using c isync.nested_size[OF v, of 3] isync.nested_write[OF v, of 3 os] Isync_wire_short[OF v]
      nested_field_le[OF isync.wire_short[OF v], of 3]
    by (simp add: case_prod_unfold Let_def)
next
  case c: (ReqFsync v)
  with assms have v: "Fsync_clean rt v" by simp
  show "unat (fst (ReqCmd_compute_size rt c)) = length (ReqCmd_wire rt c)
    \<and> ReqCmd_write rt (snd (ReqCmd_compute_size rt c)) os = Inr (os @ ReqCmd_wire rt c)
    \<and> length (ReqCmd_wire rt c) < 2 * max_text + 23"
    using c fsync.nested_size[OF v, of 4] fsync.nested_write[OF v, of 4 os] Fsync_wire_short[OF v]
      nested_field_le[OF fsync.wire_short[OF v], of 4]
    by (simp add: case_prod_unfold Let_def)
next
  case c: (ReqRsync v)
  with assms have v: "Rsync_clean rt v" by simp
  show "unat (fst (ReqCmd_compute_size rt c)) = length (ReqCmd_wire rt c)
    \<and> ReqCmd_write rt (snd (ReqCmd_compute_size rt c)) os = Inr (os @ ReqCmd_wire rt c)
    \<and> length (ReqCmd_wire rt c) < 2 * max_text + 23"
    using c rsync.nested_size[OF v, of 5] rsync.nested_write[OF v, of 5 os] Rsync_wire_short[OF v]
      nested_field_le[OF rsync.wire_short[OF v], of 5]
    by (simp add: case_prod_unfold Let_def)
next
  case c: (ReqBye v)
  with assms have v: "Bye_clean rt v" by simp
  show "unat (fst (ReqCmd_compute_size rt c)) = length (ReqCmd_wire rt c)
    \<and> ReqCmd_write rt (snd (ReqCmd_compute_size rt c)) os = Inr (os @ ReqCmd_wire rt c)
    \<and> length (ReqCmd_wire rt c) < 2 * max_text + 23"
    using c bye.nested_size[OF v, of 6] bye.nested_write[OF v, of 6 os] Bye_wire_short[OF v]
      nested_field_le[OF bye.wire_short[OF v], of 6]
    by (simp add: case_prod_unfold Let_def)
qed

lemma ReqCmd_read:
  assumes "ReqCmd_clean rt c"
  shows "merge_loop rt (Request_arm rt) m (ReqCmd_wire rt c) = Some (Inr (m\<lparr>req_cmd := Some (ReqCmd_forget c)\<rparr>))"
proof (cases c)
  case c: (ReqPing v)
  with assms have v: "Ping_clean rt v" by simp
  show ?thesis
    using c v merge_loop_message_last[of 2 "Ping_wire rt v" "Request_arm rt" m "m\<lparr>req_cmd := Some (ReqCmd_forget c)\<rparr>"]
    by (simp add: Request_arm_def arm_message_def arm_def ping.nested_read[OF v] ping.wire_short)
next
  case c: (ReqIsync v)
  with assms have v: "Isync_clean rt v" by simp
  show ?thesis
    using c v merge_loop_message_last[of 3 "Isync_wire rt v" "Request_arm rt" m "m\<lparr>req_cmd := Some (ReqCmd_forget c)\<rparr>"]
    by (simp add: Request_arm_def arm_message_def arm_def isync.nested_read[OF v] isync.wire_short)
next
  case c: (ReqFsync v)
  with assms have v: "Fsync_clean rt v" by simp
  show ?thesis
    using c v merge_loop_message_last[of 4 "Fsync_wire rt v" "Request_arm rt" m "m\<lparr>req_cmd := Some (ReqCmd_forget c)\<rparr>"]
    by (simp add: Request_arm_def arm_message_def arm_def fsync.nested_read[OF v] fsync.wire_short)
next
  case c: (ReqRsync v)
  with assms have v: "Rsync_clean rt v" by simp
  show ?thesis
    using c v merge_loop_message_last[of 5 "Rsync_wire rt v" "Request_arm rt" m "m\<lparr>req_cmd := Some (ReqCmd_forget c)\<rparr>"]
    by (simp add: Request_arm_def arm_message_def arm_def rsync.nested_read[OF v] rsync.wire_short)
next
  case c: (ReqBye v)
  with assms have v: "Bye_clean rt v" by simp
  show ?thesis
    using c v merge_loop_message_last[of 6 "Bye_wire rt v" "Request_arm rt" m "m\<lparr>req_cmd := Some (ReqCmd_forget c)\<rparr>"]
    by (simp add: Request_arm_def arm_message_def arm_def bye.nested_read[OF v] bye.wire_short)
qed

lemma Request_merge_wire:
  assumes c: "Request_clean rt m"
  shows "Request_merge_from rt (Request_new rt) (Request_wire rt m) = Some (Inr (Request_forget m))"
proof -
  let ?m1 = "(Request_new rt)\<lparr>req_id := req_id m\<rparr>"
  let ?r = "case req_cmd m of None \<Rightarrow> [] | Some c \<Rightarrow> ReqCmd_wire rt c"
  have "merge_loop rt (Request_arm rt) (Request_new rt) (opt_field rt 1 (req_id m) @ ?r)
      = merge_loop rt (Request_arm rt) ?m1 ?r"
    using c by (intro opt_field_read) (simp_all add: Request_codec_defs Request_arm_def arm_def)
  also have "\<dots> = Some (Inr (?m1\<lparr>req_cmd := map_option ReqCmd_forget (req_cmd m)\<rparr>))"
    using c by (auto simp: Request_codec_defs merge_loop_Nil ReqCmd_read split: option.splits)
  finally show ?thesis
    using c by (cases m) (simp add: Request_codec_defs no_unknown_forget[of rt])
qed

lemma Request_merge_returns: "\<exists>r. Request_merge_from rt m is = Some r"
  unfolding Request_merge_from_def
  by (rule merge_loop_returns)
     (simp add: Request_arm_def arm_unknown_le arm_string_le arm_message_le ping.nested_returns isync.nested_returns fsync.nested_returns rsync.nested_returns bye.nested_returns)

lemma Request_wire_short: "Request_clean rt m \<Longrightarrow> length (Request_wire rt m) < 3 * max_text + 29"
  using opt_field_short[of 1 "req_id m"] ReqCmd_computed(3)
  by (fastforce simp: Request_codec_defs max_text_def split: option.splits)

lemma Request_compute_wire:
  assumes "Request_clean rt m"
  shows "unat (fst (Request_compute_size rt m)) = length (Request_wire rt m)"
proof -
  have id: "unat (if req_id m \<noteq> [] then 0 + rt_string_size rt 1 (req_id m) else 0) = length (opt_field rt 1 (req_id m))"
    using opt_field_size[of 1 "req_id m" 0] assms by (simp add: Request_clean_def split del: if_split)
  have "length (opt_field rt 1 (req_id m)) < max_text + 6"
    using opt_field_short[of 1 "req_id m"] assms by (simp add: Request_clean_def)
  then show ?thesis
    using assms id ReqCmd_computed(1,3)
    by (cases "req_cmd m")
       (fastforce simp: Request_codec_defs no_unknown_def unknown_size_new unat_add_small max_text_def
         case_prod_unfold split del: if_split)+
qed

lemma Request_write_computed:
  "Request_clean rt m \<Longrightarrow> Request_write rt (snd (Request_compute_size rt m)) os = Inr (os @ Request_wire rt m)"
  by (cases "req_cmd m")
     (auto simp: Request_codec_defs no_unknown_def write_unknown_new opt_field_def write_string text_ok_short
       ReqCmd_computed(2) case_prod_unfold)

end

sublocale pb_runtime \<subseteq> request: generated_message rt "Request_new rt" "Request_merge_from rt" "Request_compute_size rt"
  "Request_write rt" req_special "Request_wire rt" "Request_clean rt" Request_forget
proof unfold_locales
  show "length (Request_wire rt m) < max_len" if "Request_clean rt m" for m
    using Request_wire_short[OF that] by (simp add: max_text_def max_len_def)
  show "cached_size (req_special (snd (Request_compute_size rt m))) = ucast (fst (Request_compute_size rt m))" for m
    by (simp add: Request_compute_size_def Let_def case_prod_unfold)
qed (simp_all add: Request_compute_wire Request_write_computed Request_merge_wire Request_merge_returns)

primrec RespCmd_wire :: "'u pb_rt \<Rightarrow> 'u RespCmd \<Rightarrow> bytes" where
  "RespCmd_wire rt (RespPong v) = message_field rt 2 (Pong_wire rt v)"
  | "RespCmd_wire rt (RespRedirect v) = message_field rt 3 (Redirect_wire rt v)"
  | "RespCmd_wire rt (RespFsync v) = message_field rt 4 (Fsync_wire rt v)"

primrec RespCmd_clean :: "'u pb_rt \<Rightarrow> 'u RespCmd \<Rightarrow> bool" where
  "RespCmd_clean rt (RespPong v) = Pong_clean rt v"
  | "RespCmd_clean rt (RespRedirect v) = Redirect_clean rt v"
  | "RespCmd_clean rt (RespFsync v) = Fsync_clean rt v"

primrec RespCmd_forget :: "'u RespCmd \<Rightarrow> 'u RespCmd" where
  "RespCmd_forget (RespPong v) = RespPong (Pong_forget v)"
  | "RespCmd_forget (RespRedirect v) = RespRedirect (Redirect_forget v)"
  | "RespCmd_forget (RespFsync v) = RespFsync (Fsync_forget v)"

definition Response_wire :: "'u pb_rt \<Rightarrow> 'u Response \<Rightarrow> bytes" where
  "Response_wire rt m =
     opt_field rt 1 (resp_id m) @ (case resp_cmd m of None \<Rightarrow> [] | Some c \<Rightarrow> RespCmd_wire rt c)"

definition Response_clean :: "'u pb_rt \<Rightarrow> 'u Response \<Rightarrow> bool" where
  "Response_clean rt m \<longleftrightarrow> no_unknown rt (resp_special m) \<and> text_ok (resp_id m)
     \<and> (case resp_cmd m of None \<Rightarrow> True | Some c \<Rightarrow> RespCmd_clean rt c)"

definition Response_forget :: "'u Response \<Rightarrow> 'u Response" where
  "Response_forget m = m\<lparr>resp_cmd := map_option RespCmd_forget (resp_cmd m), resp_special := forget_size (resp_special m)\<rparr>"

lemmas Response_codec_defs = Response_wire_def Response_clean_def Response_forget_def Response_new_def Response_compute_size_def
  Response_write_def Response_merge_from_def Let_def

context pb_runtime
begin

lemma RespCmd_computed:
  assumes "RespCmd_clean rt c"
  shows "unat (fst (RespCmd_compute_size rt c)) = length (RespCmd_wire rt c)"
    and "RespCmd_write rt (snd (RespCmd_compute_size rt c)) os = Inr (os @ RespCmd_wire rt c)"
    and "length (RespCmd_wire rt c) < 2 * max_text + 23"
proof (atomize (full), cases c)
  case c: (RespPong v)
  with assms have v: "Pong_clean rt v" by simp
  show "unat (fst (RespCmd_compute_size rt c)) = length (RespCmd_wire rt c)
    \<and> RespCmd_write rt (snd (RespCmd_compute_size rt c)) os = Inr (os @ RespCmd_wire rt c)
    \<and> length (RespCmd_wire rt c) < 2 * max_text + 23"
    using c pong.nested_size[OF v, of 2] pong.nested_write[OF v, of 2 os] Pong_wire_short[OF v]
      nested_field_le[OF pong.wire_short[OF v], of 2]
    by (simp add: case_prod_unfold Let_def)
next
  case c: (RespRedirect v)
  with assms have v: "Redirect_clean rt v" by simp
  show "unat (fst (RespCmd_compute_size rt c)) = length (RespCmd_wire rt c)
    \<and> RespCmd_write rt (snd (RespCmd_compute_size rt c)) os = Inr (os @ RespCmd_wire rt c)
    \<and> length (RespCmd_wire rt c) < 2 * max_text + 23"
    using c redirect.nested_size[OF v, of 3] redirect.nested_write[OF v, of 3 os] Redirect_wire_short[OF v]
      nested_field_le[OF redirect.wire_short[OF v], of 3]
    by (simp add: case_prod_unfold Let_def)
next
  case c: (RespFsync v)
  with assms have v: "Fsync_clean rt v" by simp
  show "unat (fst (RespCmd_compute_size rt c)) = length (RespCmd_wire rt c)
    \<and> RespCmd_write rt (snd (RespCmd_compute_size rt c)) os = Inr (os @ RespCmd_wire rt c)
    \<and> length (RespCmd_wire rt c) < 2 * max_text + 23"
    using c fsync.nested_size[OF v, of 4] fsync.nested_write[OF v, of 4 os] Fsync_wire_short[OF v]
      nested_field_le[OF fsync.wire_short[OF v], of 4]
    by (simp add: case_prod_unfold Let_def)
qed

lemma RespCmd_read:
  assumes "RespCmd_clean rt c"
  shows "merge_loop rt (Response_arm rt) m (RespCmd_wire rt c) = Some (Inr (m\<lparr>resp_cmd := Some (RespCmd_forget c)\<rparr>))"
proof (cases c)
  case c: (RespPong v)
  with assms have v: "Pong_clean rt v" by simp
  show ?thesis
    using c v merge_loop_message_last[of 2 "Pong_wire rt v" "Response_arm rt" m "m\<lparr>resp_cmd := Some (RespCmd_forget c)\<rparr>"]
    by (simp add: Response_arm_def arm_message_def arm_def pong.nested_read[OF v] pong.wire_short)
next
  case c: (RespRedirect v)
  with assms have v: "Redirect_clean rt v" by simp
  show ?thesis
    using c v merge_loop_message_last[of 3 "Redirect_wire rt v" "Response_arm rt" m "m\<lparr>resp_cmd := Some (RespCmd_forget c)\<rparr>"]
    by (simp add: Response_arm_def arm_message_def arm_def redirect.nested_read[OF v] redirect.wire_short)
next
  case c: (RespFsync v)
  with assms have v: "Fsync_clean rt v" by simp
  show ?thesis
    using c v merge_loop_message_last[of 4 "Fsync_wire rt v" "Response_arm rt" m "m\<lparr>resp_cmd := Some (RespCmd_forget c)\<rparr>"]
    by (simp add: Response_arm_def arm_message_def arm_def fsync.nested_read[OF v] fsync.wire_short)
qed

lemma Response_merge_wire:
  assumes c: "Response_clean rt m"
  shows "Response_merge_from rt (Response_new rt) (Response_wire rt m) = Some (Inr (Response_forget m))"
proof -
  let ?m1 = "(Response_new rt)\<lparr>resp_id := resp_id m\<rparr>"
  let ?r = "case resp_cmd m of None \<Rightarrow> [] | Some c \<Rightarrow> RespCmd_wire rt c"
  have "merge_loop rt (Response_arm rt) (Response_new rt) (opt_field rt 1 (resp_id m) @ ?r)
      = merge_loop rt (Response_arm rt) ?m1 ?r"
    using c by (intro opt_field_read) (simp_all add: Response_codec_defs Response_arm_def arm_def)
  also have "\<dots> = Some (Inr (?m1\<lparr>resp_cmd := map_option RespCmd_forget (resp_cmd m)\<rparr>))"
    using c by (auto simp: Response_codec_defs merge_loop_Nil RespCmd_read split: option.splits)
  finally show ?thesis
    using c by (cases m) (simp add: Response_codec_defs no_unknown_forget[of rt])
qed

lemma Response_merge_returns: "\<exists>r. Response_merge_from rt m is = Some r"
  unfolding Response_merge_from_def
  by (rule merge_loop_returns)
     (simp add: Response_arm_def arm_unknown_le arm_string_le arm_message_le pong.nested_returns redirect.nested_returns fsync.nested_returns)

lemma Response_wire_short: "Response_clean rt m \<Longrightarrow> length (Response_wire rt m) < 3 * max_text + 29"
  using opt_field_short[of 1 "resp_id m"] RespCmd_computed(3)
  by (fastforce simp: Response_codec_defs max_text_def split: option.splits)

lemma Response_compute_wire:
  assumes "Response_clean rt m"
  shows "unat (fst (Response_compute_size rt m)) = length (Response_wire rt m)"
proof -
  have id: "unat (if resp_id m \<noteq> [] then 0 + rt_string_size rt 1 (resp_id m) else 0) = length (opt_field rt 1 (resp_id m))"
    using opt_field_size[of 1 "resp_id m" 0] assms by (simp add: Response_clean_def split del: if_split)
  have "length (opt_field rt 1 (resp_id m)) < max_text + 6"
    using opt_field_short[of 1 "resp_id m"] assms by (simp add: Response_clean_def)
  then show ?thesis
    using assms id RespCmd_computed(1,3)
    by (cases "resp_cmd m")
       (fastforce simp: Response_codec_defs no_unknown_def unknown_size_new unat_add_small max_text_def
         case_prod_unfold split del: if_split)+
qed

lemma Response_write_computed:
  "Response_clean rt m \<Longrightarrow> Response_write rt (snd (Response_compute_size rt m)) os = Inr (os @ Response_wire rt m)"
  by (cases "resp_cmd m")
     (auto simp: Response_codec_defs no_unknown_def write_unknown_new opt_field_def write_string text_ok_short
       RespCmd_computed(2) case_prod_unfold)

end

sublocale pb_runtime \<subseteq> response: generated_message rt "Response_new rt" "Response_merge_from rt" "Response_compute_size rt"
  "Response_write rt" resp_special "Response_wire rt" "Response_clean rt" Response_forget
proof unfold_locales
  show "length (Response_wire rt m) < max_len" if "Response_clean rt m" for m
    using Response_wire_short[OF that] by (simp add: max_text_def max_len_def)
  show "cached_size (resp_special (snd (Response_compute_size rt m))) = ucast (fst (Response_compute_size rt m))" for m
    by (simp add: Response_compute_size_def Let_def case_prod_unfold)
qed (simp_all add: Response_compute_wire Response_write_computed Response_merge_wire Response_merge_returns)

end
