(* ===== verification/Proto_Bounds.thy ===== *)
theory Proto_Bounds
  imports Proto_Codec
begin

text \<open>
  What a decoder guarantees about the messages it accepts: every text is valid UTF-8 and
  no longer than the input. A server that answers a short datagram therefore never
  builds a response that the encoder refuses.
\<close>

definition bounded :: "nat \<Rightarrow> string \<Rightarrow> bool" where
  "bounded N s \<longleftrightarrow> utf8_valid s \<and> length s \<le> N"

lemma bounded_Nil [simp]: "bounded N []"
  by (simp add: bounded_def)

lemma bounded_mono: "bounded M s \<Longrightarrow> M \<le> N \<Longrightarrow> bounded N s"
  by (simp add: bounded_def)

lemma bounded_text_ok: "bounded N s \<Longrightarrow> N < max_text \<Longrightarrow> text_ok s"
  by (simp add: bounded_def text_ok_def)

primrec ReqCmd_bounded :: "nat \<Rightarrow> 'u ReqCmd \<Rightarrow> bool" where
  "ReqCmd_bounded N (ReqPing v) = True"
| "ReqCmd_bounded N (ReqIsync v) = bounded N (isync_id v)"
| "ReqCmd_bounded N (ReqFsync v) = (bounded N (fsync_id v) \<and> bounded N (fsync_addr v))"
| "ReqCmd_bounded N (ReqRsync v) = bounded N (rsync_id v)"
| "ReqCmd_bounded N (ReqBye v) = True"

definition Request_bounded :: "nat \<Rightarrow> 'u Request \<Rightarrow> bool" where
  "Request_bounded N m \<longleftrightarrow> bounded N (req_id m)
     \<and> (case req_cmd m of None \<Rightarrow> True | Some c \<Rightarrow> ReqCmd_bounded N c)"

primrec RespCmd_bounded :: "nat \<Rightarrow> 'u RespCmd \<Rightarrow> bool" where
  "RespCmd_bounded N (RespPong v) = True"
| "RespCmd_bounded N (RespRedirect v) = (bounded N (redirect_id v) \<and> bounded N (redirect_addr v))"
| "RespCmd_bounded N (RespFsync v) = (bounded N (fsync_id v) \<and> bounded N (fsync_addr v))"

definition Response_bounded :: "nat \<Rightarrow> 'u Response \<Rightarrow> bool" where
  "Response_bounded N m \<longleftrightarrow> bounded N (resp_id m)
     \<and> (case resp_cmd m of None \<Rightarrow> True | Some c \<Rightarrow> RespCmd_bounded N c)"

context pb_runtime
begin

lemma read_string_bounded:
  "rt_read_string rt p = Inr (s, p') \<Longrightarrow> length p < N \<Longrightarrow> bounded N s \<and> length p' \<le> length p"
  using read_string_less[of p s p'] by (simp add: bounded_def)

lemma arm_eq: "arm r f = Some (Inr (m', p')) \<longleftrightarrow> (\<exists>x. r = Inr (x, p') \<and> m' = f x)"
  by (auto simp: arm_def split: sum.splits)

lemma arm_message_eq:
  "arm_message r f = Some (Inr (m', p')) \<longleftrightarrow> (\<exists>x. r = Some (Inr (x, p')) \<and> m' = f x)"
  by (cases r) (auto simp: arm_message_def arm_eq)

lemma read_message_eq:
  assumes "read_message rt merge p = Some (Inr (m, p'))"
  shows "\<exists>b. merge b = Some (Inr m) \<and> length b + length p' < length p"
  using assms read_window_less[of p]
  by (auto simp: read_message_def split: sum.splits Option.bind_splits)

lemma Isync_bounded:
  "Isync_merge_from rt (Isync_new rt) is = Some (Inr m) \<Longrightarrow> bounded (length is) (isync_id m)"
  unfolding Isync_merge_from_def
  by (erule merge_loop_preserves [where P = "\<lambda>m. bounded (length is) (isync_id m)" and N = "length is"])
     (auto simp: Isync_arm_def Isync_new_def arm_eq split: if_splits
       dest: read_string_bounded read_unknown_le)

lemma Rsync_bounded:
  "Rsync_merge_from rt (Rsync_new rt) is = Some (Inr m) \<Longrightarrow> bounded (length is) (rsync_id m)"
  unfolding Rsync_merge_from_def
  by (erule merge_loop_preserves [where P = "\<lambda>m. bounded (length is) (rsync_id m)" and N = "length is"])
     (auto simp: Rsync_arm_def Rsync_new_def arm_eq split: if_splits
       dest: read_string_bounded read_unknown_le)

lemma Fsync_bounded:
  "Fsync_merge_from rt (Fsync_new rt) is = Some (Inr m) \<Longrightarrow>
    bounded (length is) (fsync_id m) \<and> bounded (length is) (fsync_addr m)"
  unfolding Fsync_merge_from_def
  by (erule merge_loop_preserves [where P = "\<lambda>m. bounded (length is) (fsync_id m) \<and> bounded (length is) (fsync_addr m)" and N = "length is"])
     (auto simp: Fsync_arm_def Fsync_new_def arm_eq split: if_splits
       dest: read_string_bounded read_unknown_le)

lemma Redirect_bounded:
  "Redirect_merge_from rt (Redirect_new rt) is = Some (Inr m) \<Longrightarrow>
    bounded (length is) (redirect_id m) \<and> bounded (length is) (redirect_addr m)"
  unfolding Redirect_merge_from_def
  by (erule merge_loop_preserves [where P = "\<lambda>m. bounded (length is) (redirect_id m) \<and> bounded (length is) (redirect_addr m)" and N = "length is"])
     (auto simp: Redirect_arm_def Redirect_new_def arm_eq split: if_splits
       dest: read_string_bounded read_unknown_le)

lemma Request_arm_bounded:
  assumes "Request_bounded N m" "length p < N" "Request_arm rt t m p = Some (Inr (m', p'))"
  shows "Request_bounded N m' \<and> length p' \<le> length p"
  using assms
  by (auto simp: Request_arm_def Request_bounded_def arm_eq arm_message_eq split: if_splits
      dest!: read_string_bounded read_unknown_le read_message_eq Isync_bounded Fsync_bounded Rsync_bounded
      elim!: bounded_mono)

lemma Request_new_bounded: "Request_bounded N (Request_new rt)"
  by (simp add: Request_new_def Request_bounded_def)

lemma Request_parse_bounded:
  "Request_parse_from_bytes rt is = Some (Inr m) \<Longrightarrow> Request_bounded (length is) m"
  unfolding Request_parse_from_bytes_def Request_merge_from_def
  by (erule merge_loop_preserves [where P = "Request_bounded (length is)" and N = "length is"])
     (simp_all add: Request_new_bounded Request_arm_bounded)

lemma Response_arm_bounded:
  assumes "Response_bounded N m" "length p < N" "Response_arm rt t m p = Some (Inr (m', p'))"
  shows "Response_bounded N m' \<and> length p' \<le> length p"
  using assms
  by (auto simp: Response_arm_def Response_bounded_def arm_eq arm_message_eq split: if_splits
      dest!: read_string_bounded read_unknown_le read_message_eq Redirect_bounded Fsync_bounded
      elim!: bounded_mono)

lemma Response_new_bounded: "Response_bounded N (Response_new rt)"
  by (simp add: Response_new_def Response_bounded_def)

lemma Response_parse_bounded:
  "Response_parse_from_bytes rt is = Some (Inr m) \<Longrightarrow> Response_bounded (length is) m"
  unfolding Response_parse_from_bytes_def Response_merge_from_def
  by (erule merge_loop_preserves [where P = "Response_bounded (length is)" and N = "length is"])
     (simp_all add: Response_new_bounded Response_arm_bounded)

lemma Request_parse_returns: "\<exists>r. Request_parse_from_bytes rt is = Some r"
  by (simp add: Request_parse_from_bytes_def Request_merge_returns)

lemma Response_parse_returns: "\<exists>r. Response_parse_from_bytes rt is = Some r"
  by (simp add: Response_parse_from_bytes_def Response_merge_returns)

lemma Response_write_clean:
  "Response_clean rt m \<Longrightarrow> Response_write_to_bytes rt m = Inr (Response_wire rt m)"
  by (simp add: Response_write_to_bytes_def response.whole_write)

lemma Request_write_clean:
  "Request_clean rt m \<Longrightarrow> Request_write_to_bytes rt m = Inr (Request_wire rt m)"
  by (simp add: Request_write_to_bytes_def request.whole_write)

lemma Response_parse_wire:
  "Response_clean rt m \<Longrightarrow> Response_parse_from_bytes rt (Response_wire rt m) = Some (Inr (Response_forget m))"
  by (simp add: Response_parse_from_bytes_def Response_merge_wire)

lemma Request_parse_wire:
  "Request_clean rt m \<Longrightarrow> Request_parse_from_bytes rt (Request_wire rt m) = Some (Inr (Request_forget m))"
  by (simp add: Request_parse_from_bytes_def Request_merge_wire)

end

end
