(* ===== verification/Wire_Format.thy ===== *)
theory Wire_Format
  imports Proto_Codec
begin

text \<open>
  A concrete encoder and decoder of the documented protobuf wire format (varints, tags,
  length-delimited fields), as an instance of the crate's interface. It shows that the
  laws of \<open>pb_runtime\<close> hold together, it carries every contract of the message code
  from the locales to closed facts, and the witnesses evaluate it on concrete input.
  Unknown fields are kept in order as a tag and its raw bytes; the deprecated groups
  are refused.
\<close>

section \<open>Varints\<close>

fun varint :: "nat \<Rightarrow> bytes" where
  "varint n = (if n < 128 then [of_nat n] else of_nat (128 + n mod 128) # varint (n div 128))"

declare varint.simps [simp del]

fun read_varint :: "nat \<Rightarrow> bytes \<Rightarrow> (nat \<times> bytes) option" where
  "read_varint 0 bs = None"
| "read_varint (Suc k) [] = None"
| "read_varint (Suc k) (b # bs) =
     (if unat b < 128 then Some (unat b, bs)
      else map_option (\<lambda>(n, r). (unat b - 128 + 128 * n, r)) (read_varint k bs))"

lemma varint_not_Nil [simp]: "varint n \<noteq> []"
  by (subst varint.simps) simp

lemma unat_byte: "n < 256 \<Longrightarrow> unat (of_nat n :: u8) = n"
  by (simp add: unat_of_nat)

lemma div_128_less: "(n::nat) < 128 ^ Suc k \<Longrightarrow> n div 128 < 128 ^ k"
  by (rule less_mult_imp_div_less) (simp add: mult.commute)

lemma read_varint_varint:
  "n < 128 ^ k \<Longrightarrow> 0 < k \<Longrightarrow> read_varint k (varint n @ r) = Some (n, r)"
proof (induction k arbitrary: n)
  case 0
  then show ?case by simp
next
  case (Suc k)
  show ?case
  proof (cases "n < 128")
    case True
    then show ?thesis by (subst varint.simps) (simp add: unat_byte)
  next
    case False
    then have k: "0 < k" using Suc.prems by (cases k) auto
    have nk: "n div 128 < 128 ^ k" using Suc.prems by (intro div_128_less) simp
    have "128 + n mod 128 < 256" by simp
    then have "unat (of_nat (128 + n mod 128) :: u8) = 128 + n mod 128" by (rule unat_byte)
    then show ?thesis
      using False Suc.IH[OF nk k] by (subst varint.simps) (simp del: of_nat_add)
  qed
qed

lemma read_varint_less: "read_varint k bs = Some (n, r) \<Longrightarrow> length r < length bs"
  by (induction k bs arbitrary: n r rule: read_varint.induct) (fastforce split: if_splits)+

lemma length_varint: "n < 128 ^ k \<Longrightarrow> 0 < k \<Longrightarrow> length (varint n) \<le> k"
proof (induction k arbitrary: n)
  case 0
  then show ?case by simp
next
  case (Suc k)
  show ?case
  proof (cases "n < 128")
    case True
    then show ?thesis by (subst varint.simps) simp
  next
    case False
    then have "0 < k" using Suc.prems by (cases k) auto
    moreover have "n div 128 < 128 ^ k" using Suc.prems by (intro div_128_less) simp
    ultimately show ?thesis using False Suc.IH[of "n div 128"] by (subst varint.simps) simp
  qed
qed

lemma length_varint_small: "n < 128 \<Longrightarrow> length (varint n) = 1"
  by (subst varint.simps) simp

lemma length_varint_pos: "0 < length (varint n)"
  by simp

section \<open>Fields\<close>

definition wire_error :: pb_error where
  "wire_error = PbError ''WireError''"

definition wire_delimited :: "bytes \<Rightarrow> pb_error + bytes \<times> bytes" where
  "wire_delimited is =
     (case read_varint 10 is of
        None \<Rightarrow> Inl wire_error
      | Some (n, r) \<Rightarrow> if n \<le> length r then Inr (take n r, drop n r) else Inl wire_error)"

definition wire_read_tag :: "bytes \<Rightarrow> pb_error + (u32 \<times> bytes) option" where
  "wire_read_tag is =
     (if is = [] then Inr None
      else case read_varint 10 is of
        None \<Rightarrow> Inl wire_error
      | Some (n, r) \<Rightarrow> if int n < 2 ^ 32 then Inr (Some (of_nat n, r)) else Inl wire_error)"

definition wire_read_string :: "bytes \<Rightarrow> pb_error + string \<times> bytes" where
  "wire_read_string is =
     res_bind (wire_delimited is) (\<lambda>(b, r).
       if utf8_valid (map char_of_byte b) then Inr (map char_of_byte b, r) else Inl wire_error)"

type_synonym raw_fields = "(u32 \<times> bytes) list"

definition wire_take :: "nat \<Rightarrow> bytes \<Rightarrow> pb_error + bytes \<times> bytes" where
  "wire_take n is = (if n \<le> length is then Inr (take n is, drop n is) else Inl wire_error)"

definition wire_read_unknown :: "u32 \<Rightarrow> raw_fields \<Rightarrow> bytes \<Rightarrow> pb_error + raw_fields \<times> bytes" where
  "wire_read_unknown tag u is =
     (let n = (case unat tag mod 8 of
                 0 \<Rightarrow> map_option (\<lambda>(_, r). length is - length r) (read_varint 10 is)
               | Suc 0 \<Rightarrow> Some 8
               | Suc (Suc 0) \<Rightarrow>
                   (case wire_delimited is of Inl _ \<Rightarrow> None | Inr (_, r) \<Rightarrow> Some (length is - length r))
               | k \<Rightarrow> if k = 5 then Some 4 else None)
      in case n of
           None \<Rightarrow> Inl wire_error
         | Some n \<Rightarrow> res_bind (wire_take n is) (\<lambda>(b, r). Inr (u @ [(tag, b)], r)))"

definition wire_unknown_bytes :: "raw_fields \<Rightarrow> bytes" where
  "wire_unknown_bytes u = concat (map (\<lambda>(t, b). varint (unat t) @ b) u)"

definition wire_rt :: "raw_fields pb_rt" where
  "wire_rt =
     \<lparr>rt_unknown_new = [],
      rt_read_tag = wire_read_tag,
      rt_read_string = wire_read_string,
      rt_read_window = wire_delimited,
      rt_read_unknown = wire_read_unknown,
      rt_string_size = (\<lambda>n s. of_nat (length (varint (8 * n + 2)) + length (varint (length s)) + length s)),
      rt_varint_size = (\<lambda>n. of_nat (length (varint (unat n)))),
      rt_unknown_size = (\<lambda>u. of_nat (length (wire_unknown_bytes u))),
      rt_write_string = (\<lambda>n s os. Inr (os @ varint (8 * n + 2) @ varint (length s) @ map byte_of s)),
      rt_write_message = (\<lambda>n len w os. w (os @ varint (8 * n + 2) @ varint (unat len))),
      rt_write_unknown = (\<lambda>u os. Inr (os @ wire_unknown_bytes u)),
      rt_check_size = (\<lambda>n. if n < 2 ^ 31 then Inr () else Inl wire_error),
      rt_io_error = (\<lambda>e. new_error Other ''WireError'')\<rparr>"

lemma wire_rt_sel [simp]:
  "rt_unknown_new wire_rt = []"
  "rt_read_tag wire_rt = wire_read_tag"
  "rt_read_string wire_rt = wire_read_string"
  "rt_read_window wire_rt = wire_delimited"
  "rt_read_unknown wire_rt = wire_read_unknown"
  "rt_varint_size wire_rt n = of_nat (length (varint (unat n)))"
  "rt_unknown_size wire_rt u = of_nat (length (wire_unknown_bytes u))"
  "rt_write_string wire_rt k s os = Inr (os @ varint (8 * k + 2) @ varint (length s) @ map byte_of s)"
  "rt_write_message wire_rt k len w os = w (os @ varint (8 * k + 2) @ varint (unat len))"
  "rt_write_unknown wire_rt u os = Inr (os @ wire_unknown_bytes u)"
  "rt_string_size wire_rt k s = of_nat (length (varint (8 * k + 2)) + length (varint (length s)) + length s)"
  "rt_check_size wire_rt n = (if n < 2 ^ 31 then Inr () else Inl wire_error)"
  by (simp_all add: wire_rt_def)

section \<open>The instance\<close>

lemma wire_delimited_field:
  "length b < max_len \<Longrightarrow> wire_delimited (varint (length b) @ b @ r) = Inr (b, r)"
  by (simp add: wire_delimited_def read_varint_varint max_len_def)

lemma wire_delimited_less:
  "wire_delimited is = Inr (b, r) \<Longrightarrow> length b + length r < length is"
  using read_varint_less[of 10 "is"] by (fastforce simp: wire_delimited_def split: option.splits if_splits)

lemma wire_read_tag_field:
  "field_no n \<Longrightarrow> wire_read_tag (varint (8 * n + 2) @ r) = Inr (Some (field_tag n, r))"
  by (simp add: wire_read_tag_def read_varint_varint field_no_def field_tag_def)

lemma wire_string_field:
  "string_field wire_rt n s = varint (8 * n + 2) @ varint (length s) @ map byte_of s"
  by (simp add: string_field_def)

lemma wire_message_field:
  "length b < max_len \<Longrightarrow> message_field wire_rt n b = varint (8 * n + 2) @ varint (length b) @ b"
  by (simp add: message_field_def unat_of_nat_small max_len_def)

lemma wire_tag_length: "field_no n \<Longrightarrow> length (varint (8 * n + 2)) = 1"
  by (simp add: length_varint_small field_no_def)

lemma wire_length_length: "n < max_len \<Longrightarrow> length (varint n) \<le> 5"
  by (rule length_varint) (simp_all add: max_len_def)

lemma wire_read_unknown_le: "wire_read_unknown t u is = Inr (u', r) \<Longrightarrow> length r \<le> length is"
  by (auto simp: wire_read_unknown_def wire_take_def Let_def res_bind_eq_Inr split: option.splits if_splits)

interpretation wire: pb_runtime wire_rt
proof
  fix n s r and b :: bytes
  assume n: "field_no n" and s: "short_string s"
  show "\<exists>p. rt_read_tag wire_rt (string_field wire_rt n s @ r) = Inr (Some (field_tag n, p))
      \<and> rt_read_string wire_rt p = Inr (s, r)"
    using s wire_read_tag_field[OF n] wire_delimited_field[of "map byte_of s" r]
    by (auto simp: wire_string_field wire_read_string_def short_string_def)
  have len: "length (varint (length s)) \<le> 5"
    using s by (intro wire_length_length) (simp add: short_string_def)
  show "unat (rt_string_size wire_rt n s) = length (string_field wire_rt n s)"
    using s len unfolding wire_rt_sel wire_tag_length[OF n] wire_string_field
    by (subst unat_of_nat_small) (simp_all add: short_string_def max_len_def wire_tag_length[OF n, simplified])
  show "length (string_field wire_rt n s) \<le> length s + 6"
    using len wire_tag_length[OF n] by (simp add: wire_string_field)
next
  fix n r and b :: bytes
  assume n: "field_no n" and b: "length b < max_len"
  show "\<exists>p. rt_read_tag wire_rt (message_field wire_rt n b @ r) = Inr (Some (field_tag n, p))
      \<and> rt_read_window wire_rt p = Inr (b, r)"
    using b wire_read_tag_field[OF n] wire_delimited_field[OF b]
    by (auto simp: wire_message_field)
  show "length (message_field wire_rt n b) = 1 + unat (rt_varint_size wire_rt (of_nat (length b))) + length b"
    using b wire_tag_length[OF n] wire_length_length[OF b]
    by (simp add: wire_message_field unat_of_nat_small max_len_def)
next
  fix x :: u64
  have "length (varint (unat x)) \<le> 10"
    using unsigned_less[of x, where ?'a = nat] by (intro length_varint) simp_all
  then show "unat (rt_varint_size wire_rt x) \<le> 10"
    by (simp add: unat_of_nat_small)
next
  fix p p' :: bytes and s
  assume "rt_read_string wire_rt p = Inr (s, p')"
  then show "utf8_valid s \<and> length s + length p' < length p"
    using wire_delimited_less[of p] by (fastforce simp: wire_read_string_def res_bind_eq_Inr split: if_splits)
qed (auto simp: wire_read_tag_def wire_delimited_less wire_string_field wire_message_field max_len_def
    wire_unknown_bytes_def wire_read_unknown_le word_less_nat_alt split: option.splits if_splits dest: read_varint_less)

end
