(* ===== verification/Proto_Correct.thy ===== *)
theory Proto_Correct
  imports Proto_Bounds Wire_Format
begin

text \<open>
  The properties of the generated message code: encoding and decoding are inverse to each
  other, the sizes computed first are the sizes written, the decoder is total and keeps
  texts within the input, and the accessors of the oneofs agree with each other.
\<close>

section \<open>Round trips\<close>

text \<open>C38. A request round trip: encoding a request whose texts are short and valid and which has
  no unknown fields (\<open>Request_clean\<close>) gives bytes as many as \<open>compute_size\<close> announces, and
  parsing them gives the request back, apart from the sizes cached in it.\<close>

theorem request_roundtrip:
  assumes "pb_runtime rt" "Request_clean rt m"
  shows "\<exists>b. Request_write_to_bytes rt m = Inr b \<and> length b = unat (fst (Request_compute_size rt m))
    \<and> Request_parse_from_bytes rt b = Some (Inr (Request_forget m))"
proof -
  have "unat (fst (Request_compute_size rt m)) = length (Request_wire rt m)"
    by (rule pb_runtime.Request_compute_wire[OF assms])
  then show ?thesis
    using pb_runtime.Request_write_clean[OF assms] pb_runtime.Request_parse_wire[OF assms] by simp
qed

theorem request_roundtrip_witness:
  "\<exists>b. Request_write_to_bytes wire_rt ((Request_new wire_rt)\<lparr>req_id := ''c1'', req_cmd := Some (ReqPing (Ping_new wire_rt))\<rparr>) = Inr b
    \<and> Request_parse_from_bytes wire_rt b
      = Some (Inr (Request_forget ((Request_new wire_rt)\<lparr>req_id := ''c1'', req_cmd := Some (ReqPing (Ping_new wire_rt))\<rparr>)))"
  (is "\<exists>b. Request_write_to_bytes wire_rt ?m = Inr b \<and> _")
proof -
  have "Request_clean wire_rt ?m"
    by (simp add: Request_clean_def Request_new_def Ping_clean_def Ping_new_def no_unknown_def
        SpecialFields_new_def text_ok_def max_text_def utf8_valid_ascii)
  then show ?thesis using request_roundtrip[OF wire.pb_runtime_axioms] by blast
qed

text \<open>A response round trip, in the same sense.\<close>

theorem response_roundtrip:
  assumes "pb_runtime rt" "Response_clean rt m"
  shows "\<exists>b. Response_write_to_bytes rt m = Inr b \<and> length b = unat (fst (Response_compute_size rt m))
    \<and> Response_parse_from_bytes rt b = Some (Inr (Response_forget m))"
proof -
  have "unat (fst (Response_compute_size rt m)) = length (Response_wire rt m)"
    by (rule pb_runtime.Response_compute_wire[OF assms])
  then show ?thesis
    using pb_runtime.Response_write_clean[OF assms] pb_runtime.Response_parse_wire[OF assms] by simp
qed

theorem response_roundtrip_witness:
  "\<exists>b. Response_write_to_bytes wire_rt ((Response_new wire_rt)\<lparr>resp_id := ''c1'', resp_cmd := Some (RespRedirect ((Redirect_new wire_rt)\<lparr>redirect_id := ''c2''\<rparr>))\<rparr>) = Inr b
    \<and> Response_parse_from_bytes wire_rt b
      = Some (Inr (Response_forget ((Response_new wire_rt)\<lparr>resp_id := ''c1'', resp_cmd := Some (RespRedirect ((Redirect_new wire_rt)\<lparr>redirect_id := ''c2''\<rparr>))\<rparr>)))"
  (is "\<exists>b. Response_write_to_bytes wire_rt ?m = Inr b \<and> _")
proof -
  have "Response_clean wire_rt ?m"
    by (simp add: Response_clean_def Response_new_def Redirect_clean_def Redirect_new_def no_unknown_def
        SpecialFields_new_def text_ok_def max_text_def utf8_valid_ascii)
  then show ?thesis using response_roundtrip[OF wire.pb_runtime_axioms] by blast
qed

section \<open>The decoder\<close>

text \<open>C39. The decoders are total: on every input each returns a message or an error, and
  the texts of the message are valid UTF-8 no longer than the input.\<close>

theorem parse_total:
  assumes "pb_runtime rt"
  shows "(\<exists>r. Request_parse_from_bytes rt bs = Some r \<and> (\<forall>m. r = Inr m \<longrightarrow> Request_bounded (length bs) m))
    \<and> (\<exists>r. Response_parse_from_bytes rt bs = Some r \<and> (\<forall>m. r = Inr m \<longrightarrow> Response_bounded (length bs) m))"
  using pb_runtime.Request_parse_returns[OF assms] pb_runtime.Request_parse_bounded[OF assms]
    pb_runtime.Response_parse_returns[OF assms] pb_runtime.Response_parse_bounded[OF assms] by blast

theorem parse_total_witness:
  "\<exists>r r'. Request_parse_from_bytes wire_rt [10, 2, 99, 255] = Some r \<and> Response_parse_from_bytes wire_rt [10, 2, 99, 255] = Some r'"
  using parse_total[OF wire.pb_runtime_axioms] by blast

section \<open>The accessors\<close>

text \<open>The oneof of a request, read through its accessors.\<close>

definition request_members :: "'u Request \<Rightarrow> bool list" where
  "request_members m = [Request_has_Ping m, Request_has_Isync m, Request_has_Fsync m, Request_has_Rsync m, Request_has_Bye m]"

lemmas request_accessor_defs =
  request_members_def
  Request_get_Ping_def Request_clear_Ping_def Request_has_Ping_def Request_set_Ping_def Request_mut_Ping_def Request_take_Ping_def
  Request_get_Isync_def Request_clear_Isync_def Request_has_Isync_def Request_set_Isync_def Request_mut_Isync_def Request_take_Isync_def
  Request_get_Fsync_def Request_clear_Fsync_def Request_has_Fsync_def Request_set_Fsync_def Request_mut_Fsync_def Request_take_Fsync_def
  Request_get_Rsync_def Request_clear_Rsync_def Request_has_Rsync_def Request_set_Rsync_def Request_mut_Rsync_def Request_take_Rsync_def
  Request_get_Bye_def Request_clear_Bye_def Request_has_Bye_def Request_set_Bye_def Request_mut_Bye_def Request_take_Bye_def

text \<open>A request holds at most one command: at most one \<open>has\<close> accessor is true; setting a
  command replaces the one that was there, the reader returns it, and taking it empties
  the request again, whatever the request held.\<close>

theorem request_oneof:
  "length (filter id (request_members m)) \<le> 1
   \<and> Request_get_Isync rt (Request_set_Isync v m) = v
   \<and> request_members (Request_set_Isync v m) = [False, True, False, False, False]
   \<and> Request_take_Isync rt (Request_set_Isync v m) = Ret (v, m\<lparr>req_cmd := None\<rparr>)
   \<and> request_members (Request_set_Ping pv m) = [True, False, False, False, False]
   \<and> Request_take_Ping rt (Request_set_Ping pv m) = Ret (pv, m\<lparr>req_cmd := None\<rparr>)
   \<and> request_members (Request_set_Fsync fv m) = [False, False, True, False, False]
   \<and> Request_take_Fsync rt (Request_set_Fsync fv m) = Ret (fv, m\<lparr>req_cmd := None\<rparr>)
   \<and> request_members (Request_set_Rsync rv m) = [False, False, False, True, False]
   \<and> Request_take_Rsync rt (Request_set_Rsync rv m) = Ret (rv, m\<lparr>req_cmd := None\<rparr>)
   \<and> request_members (Request_set_Bye bv m) = [False, False, False, False, True]
   \<and> Request_take_Bye rt (Request_set_Bye bv m) = Ret (bv, m\<lparr>req_cmd := None\<rparr>)"
proof (cases "req_cmd m")
  case None
  then show ?thesis by (simp add: request_accessor_defs)
next
  case (Some c)
  then show ?thesis by (cases c) (simp_all add: request_accessor_defs)
qed

text \<open>The mutable accessors never panic: their \<open>panic!\<close> branch is dead, in every state of
  the oneof; they start from the default when the member is absent.\<close>

theorem request_mut_total:
  "Request_mut_Ping rt f1 m = Ret (Request_set_Ping (f1 (Request_get_Ping rt m)) m)
   \<and> Request_mut_Isync rt f2 m = Ret (Request_set_Isync (f2 (Request_get_Isync rt m)) m)
   \<and> Request_mut_Fsync rt f3 m = Ret (Request_set_Fsync (f3 (Request_get_Fsync rt m)) m)
   \<and> Request_mut_Rsync rt f4 m = Ret (Request_set_Rsync (f4 (Request_get_Rsync rt m)) m)
   \<and> Request_mut_Bye rt f5 m = Ret (Request_set_Bye (f5 (Request_get_Bye rt m)) m)
   \<and> returns (Request_take_Ping rt m) \<and> returns (Request_take_Isync rt m) \<and> returns (Request_take_Fsync rt m)
   \<and> returns (Request_take_Rsync rt m) \<and> returns (Request_take_Bye rt m)"
proof (cases "req_cmd m")
  case None
  then show ?thesis by (simp add: request_accessor_defs)
next
  case (Some c)
  then show ?thesis by (cases c) (simp_all add: request_accessor_defs)
qed

end
