(* ===== verification/Proto_Reset.thy ===== *)
theory Proto_Reset
  imports Proto_Bounds
begin

text \<open>
  \<open>Message::clear\<close> and \<open>Message::default_instance\<close> of the generated messages of
  \<open>src/proto/rndz.rs\<close>, in the order of the file. \<open>SpecialFields::clear\<close> of the protobuf
  runtime is the argument \<open>sf\<close>; what is assumed of it is that it leaves no unknown field.
  A cleared message is then a new one but for the size it cached, and it is encoded as
  nothing.
\<close>

definition clears_unknown :: "'u pb_rt \<Rightarrow> ('u SpecialFields \<Rightarrow> 'u SpecialFields) \<Rightarrow> bool" where
  "clears_unknown rt sf \<longleftrightarrow> (\<forall>f. unknown_fields (sf f) = rt_unknown_new rt)"

definition Request_clear :: "('u SpecialFields \<Rightarrow> 'u SpecialFields) \<Rightarrow> 'u Request \<Rightarrow> 'u Request" where
  "Request_clear sf m = m\<lparr>req_id := [], req_cmd := None, req_special := sf (req_special m)\<rparr>"

definition Request_default_instance :: "'u pb_rt \<Rightarrow> 'u Request" where
  "Request_default_instance rt = \<lparr>req_id = [], req_cmd = None, req_special = SpecialFields_new rt\<rparr>"

definition Ping_clear :: "('u SpecialFields \<Rightarrow> 'u SpecialFields) \<Rightarrow> 'u Ping \<Rightarrow> 'u Ping" where
  "Ping_clear sf m = m\<lparr>ping_special := sf (ping_special m)\<rparr>"

definition Ping_default_instance :: "'u pb_rt \<Rightarrow> 'u Ping" where
  "Ping_default_instance rt = \<lparr>ping_special = SpecialFields_new rt\<rparr>"

definition Isync_clear :: "('u SpecialFields \<Rightarrow> 'u SpecialFields) \<Rightarrow> 'u Isync \<Rightarrow> 'u Isync" where
  "Isync_clear sf m = m\<lparr>isync_id := [], isync_special := sf (isync_special m)\<rparr>"

definition Isync_default_instance :: "'u pb_rt \<Rightarrow> 'u Isync" where
  "Isync_default_instance rt = \<lparr>isync_id = [], isync_special = SpecialFields_new rt\<rparr>"

definition Response_clear :: "('u SpecialFields \<Rightarrow> 'u SpecialFields) \<Rightarrow> 'u Response \<Rightarrow> 'u Response" where
  "Response_clear sf m = m\<lparr>resp_id := [], resp_cmd := None, resp_special := sf (resp_special m)\<rparr>"

definition Response_default_instance :: "'u pb_rt \<Rightarrow> 'u Response" where
  "Response_default_instance rt = \<lparr>resp_id = [], resp_cmd = None, resp_special = SpecialFields_new rt\<rparr>"

definition Pong_clear :: "('u SpecialFields \<Rightarrow> 'u SpecialFields) \<Rightarrow> 'u Pong \<Rightarrow> 'u Pong" where
  "Pong_clear sf m = m\<lparr>pong_special := sf (pong_special m)\<rparr>"

definition Pong_default_instance :: "'u pb_rt \<Rightarrow> 'u Pong" where
  "Pong_default_instance rt = \<lparr>pong_special = SpecialFields_new rt\<rparr>"

definition Redirect_clear :: "('u SpecialFields \<Rightarrow> 'u SpecialFields) \<Rightarrow> 'u Redirect \<Rightarrow> 'u Redirect" where
  "Redirect_clear sf m = m\<lparr>redirect_id := [], redirect_addr := [], redirect_special := sf (redirect_special m)\<rparr>"

definition Redirect_default_instance :: "'u pb_rt \<Rightarrow> 'u Redirect" where
  "Redirect_default_instance rt = \<lparr>redirect_id = [], redirect_addr = [], redirect_special = SpecialFields_new rt\<rparr>"

definition Fsync_clear :: "('u SpecialFields \<Rightarrow> 'u SpecialFields) \<Rightarrow> 'u Fsync \<Rightarrow> 'u Fsync" where
  "Fsync_clear sf m = m\<lparr>fsync_id := [], fsync_addr := [], fsync_special := sf (fsync_special m)\<rparr>"

definition Fsync_default_instance :: "'u pb_rt \<Rightarrow> 'u Fsync" where
  "Fsync_default_instance rt = \<lparr>fsync_id = [], fsync_addr = [], fsync_special = SpecialFields_new rt\<rparr>"

definition Rsync_clear :: "('u SpecialFields \<Rightarrow> 'u SpecialFields) \<Rightarrow> 'u Rsync \<Rightarrow> 'u Rsync" where
  "Rsync_clear sf m = m\<lparr>rsync_id := [], rsync_special := sf (rsync_special m)\<rparr>"

definition Rsync_default_instance :: "'u pb_rt \<Rightarrow> 'u Rsync" where
  "Rsync_default_instance rt = \<lparr>rsync_id = [], rsync_special = SpecialFields_new rt\<rparr>"

definition Bye_clear :: "('u SpecialFields \<Rightarrow> 'u SpecialFields) \<Rightarrow> 'u Bye \<Rightarrow> 'u Bye" where
  "Bye_clear sf m = m\<lparr>bye_special := sf (bye_special m)\<rparr>"

definition Bye_default_instance :: "'u pb_rt \<Rightarrow> 'u Bye" where
  "Bye_default_instance rt = \<lparr>bye_special = SpecialFields_new rt\<rparr>"

lemma forget_cleared: "clears_unknown rt sf \<Longrightarrow> forget_size (sf f) = SpecialFields_new rt"
  by (simp add: clears_unknown_def forget_size_def SpecialFields_new_def)

lemma default_instances:
  "Request_default_instance rt = Request_new rt" "Ping_default_instance rt = Ping_new rt" "Isync_default_instance rt = Isync_new rt" "Response_default_instance rt = Response_new rt" "Pong_default_instance rt = Pong_new rt" "Redirect_default_instance rt = Redirect_new rt" "Fsync_default_instance rt = Fsync_new rt" "Rsync_default_instance rt = Rsync_new rt" "Bye_default_instance rt = Bye_new rt"
  by (simp_all add: Request_default_instance_def Request_new_def Ping_default_instance_def Ping_new_def Isync_default_instance_def Isync_new_def Response_default_instance_def Response_new_def Pong_default_instance_def Pong_new_def Redirect_default_instance_def Redirect_new_def Fsync_default_instance_def Fsync_new_def Rsync_default_instance_def Rsync_new_def Bye_default_instance_def Bye_new_def)

text \<open>Whatever a message held, clearing it gives a new message, up to the cached size.\<close>

lemma message_clear:
  assumes "clears_unknown rt sf"
  shows "Request_forget (Request_clear sf m1) = Request_new rt"
    and "Ping_forget (Ping_clear sf m2) = Ping_new rt"
    and "Isync_forget (Isync_clear sf m3) = Isync_new rt"
    and "Response_forget (Response_clear sf m4) = Response_new rt"
    and "Pong_forget (Pong_clear sf m5) = Pong_new rt"
    and "Redirect_forget (Redirect_clear sf m6) = Redirect_new rt"
    and "Fsync_forget (Fsync_clear sf m7) = Fsync_new rt"
    and "Rsync_forget (Rsync_clear sf m8) = Rsync_new rt"
    and "Bye_forget (Bye_clear sf m9) = Bye_new rt"
  by (simp_all add: forget_cleared[OF assms] Request_clear_def Request_forget_def Request_new_def Ping_clear_def Ping_forget_def Ping_new_def Isync_clear_def Isync_forget_def Isync_new_def Response_clear_def Response_forget_def Response_new_def Pong_clear_def Pong_forget_def Pong_new_def Redirect_clear_def Redirect_forget_def Redirect_new_def Fsync_clear_def Fsync_forget_def Fsync_new_def Rsync_clear_def Rsync_forget_def Rsync_new_def Bye_clear_def Bye_forget_def Bye_new_def)

lemma cleared_encodes_empty:
  assumes "pb_runtime rt" "clears_unknown rt sf"
  shows "Request_write_to_bytes rt (Request_clear sf m) = Inr []"
    and "Response_write_to_bytes rt (Response_clear sf m') = Inr []"
proof -
  have u: "no_unknown rt (sf f)" for f using assms(2) by (simp add: clears_unknown_def no_unknown_def)
  have "Request_clean rt (Request_clear sf m)" "Response_clean rt (Response_clear sf m')"
    using u by (simp_all add: Request_clean_def Request_clear_def Response_clean_def Response_clear_def)
  then show "Request_write_to_bytes rt (Request_clear sf m) = Inr []" "Response_write_to_bytes rt (Response_clear sf m') = Inr []"
    using pb_runtime.Request_write_clean[OF assms(1)] pb_runtime.Response_write_clean[OF assms(1)]
    by (simp_all add: Request_wire_def Response_wire_def Request_clear_def Response_clear_def opt_field_def)
qed

end
