(* ===== verification/Proto_Reflect.thy ===== *)
theory Proto_Reflect
  imports Wire_Format Proto_Reset
begin

text \<open>
  The reflection tables of \<open>src/proto/rndz.rs\<close>: the accessors that each message registers for
  its fields, the encoded description of \<open>proto/rndz.proto\<close> that the file embeds, and the
  lookups \<open>descriptor\<close>. The functions of the runtime they are handed to are the record
  \<open>reflect_rt\<close>. What is checked is that the embedded description, read as the documented format
  of descriptors says, is the one that the generated code was written for: the parser, the
  size and the writer of every message are those that a generic codec derives from the
  description and the registered accessors.
\<close>

section \<open>Descriptions of messages\<close>

text \<open>What a \<open>FileDescriptorProto\<close> says of a file whose fields are strings or messages.\<close>

datatype field_type = T_string | T_message string | T_other nat

record field_schema =
  fs_name :: string
  fs_number :: nat
  fs_type :: field_type
  fs_oneof :: "nat option"

record message_schema =
  ms_name :: string
  ms_fields :: "field_schema list"
  ms_oneofs :: "string list"

record file_schema =
  file_name :: string
  file_messages :: "message_schema list"
  file_syntax :: string

text \<open>
  The encoding of descriptors, by the field numbers of \<open>descriptor.proto\<close> that occur in such
  a file; other fields are skipped.
\<close>

datatype raw = Raw_varint nat | Raw_bytes bytes

fun scan_fields :: "nat \<Rightarrow> bytes \<Rightarrow> (nat \<times> raw) list option" where
  "scan_fields k [] = Some []"
| "scan_fields 0 (b # bs) = None"
| "scan_fields (Suc k) (b # bs) =
     (case read_varint 10 (b # bs) of
        None \<Rightarrow> None
      | Some (tag, r) \<Rightarrow>
          if tag mod 8 = 0 then
            (case read_varint 10 r of
               None \<Rightarrow> None
             | Some (v, r') \<Rightarrow> map_option ((#) (tag div 8, Raw_varint v)) (scan_fields k r'))
          else if tag mod 8 = 2 then
            (case wire_delimited r of
               Inl _ \<Rightarrow> None
             | Inr (v, r') \<Rightarrow> map_option ((#) (tag div 8, Raw_bytes v)) (scan_fields k r'))
          else None)"

fun raw_all :: "nat \<Rightarrow> (nat \<times> raw) list \<Rightarrow> bytes list" where
  "raw_all n [] = []"
| "raw_all n ((i, Raw_bytes b) # fs) = (if i = n then b # raw_all n fs else raw_all n fs)"
| "raw_all n ((i, Raw_varint v) # fs) = raw_all n fs"

fun raw_number :: "nat \<Rightarrow> (nat \<times> raw) list \<Rightarrow> nat option" where
  "raw_number n [] = None"
| "raw_number n ((i, Raw_varint v) # fs) = (if i = n then Some v else raw_number n fs)"
| "raw_number n ((i, Raw_bytes b) # fs) = raw_number n fs"

definition raw_text :: "nat \<Rightarrow> (nat \<times> raw) list \<Rightarrow> string" where
  "raw_text n fs = (case raw_all n fs of [] \<Rightarrow> [] | b # _ \<Rightarrow> map char_of_byte b)"

definition parse_raw :: "bytes \<Rightarrow> (nat \<times> raw) list option" where
  "parse_raw bs = scan_fields (length bs) bs"

fun all_some :: "'a option list \<Rightarrow> 'a list option" where
  "all_some [] = Some []"
| "all_some (None # xs) = None"
| "all_some (Some x # xs) = map_option ((#) x) (all_some xs)"

definition described_type :: "(nat \<times> raw) list \<Rightarrow> field_type" where
  "described_type fs =
     (case raw_number 5 fs of
        None \<Rightarrow> T_other 0
      | Some t \<Rightarrow> if t = 9 then T_string else if t = 11 then T_message (drop 1 (raw_text 6 fs)) else T_other t)"

definition described_field :: "bytes \<Rightarrow> field_schema option" where
  "described_field bs =
     map_option (\<lambda>fs. \<lparr>fs_name = raw_text 1 fs, fs_number = (case raw_number 3 fs of None \<Rightarrow> 0 | Some n \<Rightarrow> n),
        fs_type = described_type fs, fs_oneof = raw_number 9 fs\<rparr>) (parse_raw bs)"

definition described_oneof :: "bytes \<Rightarrow> string option" where
  "described_oneof bs = map_option (raw_text 1) (parse_raw bs)"

definition described_message :: "bytes \<Rightarrow> message_schema option" where
  "described_message bs =
     Option.bind (parse_raw bs) (\<lambda>fs.
     Option.bind (all_some (map described_field (raw_all 2 fs))) (\<lambda>fields.
     Option.bind (all_some (map described_oneof (raw_all 8 fs))) (\<lambda>oneofs.
     Some \<lparr>ms_name = raw_text 1 fs, ms_fields = fields, ms_oneofs = oneofs\<rparr>)))"

definition described_file :: "bytes \<Rightarrow> file_schema option" where
  "described_file bs =
     Option.bind (parse_raw bs) (\<lambda>fs.
     Option.bind (all_some (map described_message (raw_all 4 fs))) (\<lambda>ms.
     Some \<lparr>file_name = raw_text 1 fs, file_messages = ms, file_syntax = raw_text 12 fs\<rparr>))"

section \<open>The embedded description\<close>

definition file_descriptor_proto_data :: bytes where
  "file_descriptor_proto_data =
    [
     10, 10, 114, 110, 100, 122, 46, 112, 114, 111, 116, 111, 34, 183, 1, 10, 7, 82, 101, 113,
     117, 101, 115, 116, 18, 14, 10, 2, 105, 100, 24, 1, 32, 1, 40, 9, 82, 2, 105, 100,
     18, 27, 10, 4, 80, 105, 110, 103, 24, 2, 32, 1, 40, 11, 50, 5, 46, 80, 105, 110,
     103, 72, 0, 82, 4, 80, 105, 110, 103, 18, 30, 10, 5, 73, 115, 121, 110, 99, 24, 3,
     32, 1, 40, 11, 50, 6, 46, 73, 115, 121, 110, 99, 72, 0, 82, 5, 73, 115, 121, 110,
     99, 18, 30, 10, 5, 70, 115, 121, 110, 99, 24, 4, 32, 1, 40, 11, 50, 6, 46, 70,
     115, 121, 110, 99, 72, 0, 82, 5, 70, 115, 121, 110, 99, 18, 30, 10, 5, 82, 115, 121,
     110, 99, 24, 5, 32, 1, 40, 11, 50, 6, 46, 82, 115, 121, 110, 99, 72, 0, 82, 5,
     82, 115, 121, 110, 99, 18, 24, 10, 3, 66, 121, 101, 24, 6, 32, 1, 40, 11, 50, 4,
     46, 66, 121, 101, 72, 0, 82, 3, 66, 121, 101, 66, 5, 10, 3, 99, 109, 100, 34, 6,
     10, 4, 80, 105, 110, 103, 34, 23, 10, 5, 73, 115, 121, 110, 99, 18, 14, 10, 2, 105,
     100, 24, 1, 32, 1, 40, 9, 82, 2, 105, 100, 34, 135, 1, 10, 8, 82, 101, 115, 112,
     111, 110, 115, 101, 18, 14, 10, 2, 105, 100, 24, 1, 32, 1, 40, 9, 82, 2, 105, 100,
     18, 27, 10, 4, 80, 111, 110, 103, 24, 2, 32, 1, 40, 11, 50, 5, 46, 80, 111, 110,
     103, 72, 0, 82, 4, 80, 111, 110, 103, 18, 39, 10, 8, 82, 101, 100, 105, 114, 101, 99,
     116, 24, 3, 32, 1, 40, 11, 50, 9, 46, 82, 101, 100, 105, 114, 101, 99, 116, 72, 0,
     82, 8, 82, 101, 100, 105, 114, 101, 99, 116, 18, 30, 10, 5, 70, 115, 121, 110, 99, 24,
     4, 32, 1, 40, 11, 50, 6, 46, 70, 115, 121, 110, 99, 72, 0, 82, 5, 70, 115, 121,
     110, 99, 66, 5, 10, 3, 99, 109, 100, 34, 6, 10, 4, 80, 111, 110, 103, 34, 46, 10,
     8, 82, 101, 100, 105, 114, 101, 99, 116, 18, 14, 10, 2, 105, 100, 24, 1, 32, 1, 40,
     9, 82, 2, 105, 100, 18, 18, 10, 4, 97, 100, 100, 114, 24, 2, 32, 1, 40, 9, 82,
     4, 97, 100, 100, 114, 34, 43, 10, 5, 70, 115, 121, 110, 99, 18, 14, 10, 2, 105, 100,
     24, 1, 32, 1, 40, 9, 82, 2, 105, 100, 18, 18, 10, 4, 97, 100, 100, 114, 24, 2,
     32, 1, 40, 9, 82, 4, 97, 100, 100, 114, 34, 23, 10, 5, 82, 115, 121, 110, 99, 18,
     14, 10, 2, 105, 100, 24, 1, 32, 1, 40, 9, 82, 2, 105, 100, 34, 5, 10, 3, 66,
     121, 101, 98, 6, 112, 114, 111, 116, 111, 51
    ]"

text \<open>The message types of \<open>proto/rndz.proto\<close>, as its text declares them.\<close>

definition string_member :: "string \<Rightarrow> nat \<Rightarrow> field_schema" where
  "string_member s n = \<lparr>fs_name = s, fs_number = n, fs_type = T_string, fs_oneof = None\<rparr>"

definition oneof_member :: "string \<Rightarrow> nat \<Rightarrow> field_schema" where
  "oneof_member s n = \<lparr>fs_name = s, fs_number = n, fs_type = T_message s, fs_oneof = Some 0\<rparr>"

definition Request_schema :: message_schema where
  "Request_schema = \<lparr>ms_name = ''Request'',
     ms_fields = [string_member ''id'' 1,
        oneof_member ''Ping'' 2,
        oneof_member ''Isync'' 3,
        oneof_member ''Fsync'' 4,
        oneof_member ''Rsync'' 5,
        oneof_member ''Bye'' 6],
     ms_oneofs = [''cmd'']\<rparr>"

definition Ping_schema :: message_schema where
  "Ping_schema = \<lparr>ms_name = ''Ping'',
     ms_fields = [],
     ms_oneofs = []\<rparr>"

definition Isync_schema :: message_schema where
  "Isync_schema = \<lparr>ms_name = ''Isync'',
     ms_fields = [string_member ''id'' 1],
     ms_oneofs = []\<rparr>"

definition Response_schema :: message_schema where
  "Response_schema = \<lparr>ms_name = ''Response'',
     ms_fields = [string_member ''id'' 1,
        oneof_member ''Pong'' 2,
        oneof_member ''Redirect'' 3,
        oneof_member ''Fsync'' 4],
     ms_oneofs = [''cmd'']\<rparr>"

definition Pong_schema :: message_schema where
  "Pong_schema = \<lparr>ms_name = ''Pong'',
     ms_fields = [],
     ms_oneofs = []\<rparr>"

definition Redirect_schema :: message_schema where
  "Redirect_schema = \<lparr>ms_name = ''Redirect'',
     ms_fields = [string_member ''id'' 1,
        string_member ''addr'' 2],
     ms_oneofs = []\<rparr>"

definition Fsync_schema :: message_schema where
  "Fsync_schema = \<lparr>ms_name = ''Fsync'',
     ms_fields = [string_member ''id'' 1,
        string_member ''addr'' 2],
     ms_oneofs = []\<rparr>"

definition Rsync_schema :: message_schema where
  "Rsync_schema = \<lparr>ms_name = ''Rsync'',
     ms_fields = [string_member ''id'' 1],
     ms_oneofs = []\<rparr>"

definition Bye_schema :: message_schema where
  "Bye_schema = \<lparr>ms_name = ''Bye'',
     ms_fields = [],
     ms_oneofs = []\<rparr>"

definition rndz_schema :: file_schema where
  "rndz_schema = \<lparr>file_name = ''rndz.proto'',
     file_messages = [Request_schema, Ping_schema, Isync_schema, Response_schema, Pong_schema, Redirect_schema,
        Fsync_schema, Rsync_schema, Bye_schema],
     file_syntax = ''proto3''\<rparr>"

lemma embedded_description: "described_file file_descriptor_proto_data = Some rndz_schema"
  by code_simp

section \<open>The accessors that a message registers\<close>

text \<open>
  \<open>make_simpler_field_accessor\<close> and \<open>make_oneof_message_has_get_mut_set_accessor\<close> keep what they
  are given. A \<open>FieldAccessor\<close> hides the type of the field; the fields of this file are
  strings or one of seven messages. A mutable reference is a function that updates what it
  points to.
\<close>

record 'm simpler_accessor =
  sa_name :: string
  sa_get :: "'m \<Rightarrow> string"
  sa_mut :: "(string \<Rightarrow> string) \<Rightarrow> 'm \<Rightarrow> 'm"

record ('m, 'v) oneof_accessor =
  oa_name :: string
  oa_has :: "'m \<Rightarrow> bool"
  oa_get :: "'m \<Rightarrow> 'v"
  oa_mut :: "('v \<Rightarrow> 'v) \<Rightarrow> 'm \<Rightarrow> 'm outcome"
  oa_set :: "'v \<Rightarrow> 'm \<Rightarrow> 'm"

datatype ('u, 'm) FieldAccessor =
    Simpler "'m simpler_accessor"
  | Oneof_Ping "('m, 'u Ping) oneof_accessor"
  | Oneof_Isync "('m, 'u Isync) oneof_accessor"
  | Oneof_Fsync "('m, 'u Fsync) oneof_accessor"
  | Oneof_Rsync "('m, 'u Rsync) oneof_accessor"
  | Oneof_Bye "('m, 'u Bye) oneof_accessor"
  | Oneof_Pong "('m, 'u Pong) oneof_accessor"
  | Oneof_Redirect "('m, 'u Redirect) oneof_accessor"

record ('u, 'm) MessageData =
  md_name :: string
  md_fields :: "('u, 'm) FieldAccessor list"
  md_oneofs :: "string list"

text \<open>The tables of the nine messages, in the order of the file; \<open>GeneratedOneofDescriptorData\<close> is its name.\<close>

definition Request_Cmd_oneof_data :: string where
  "Request_Cmd_oneof_data = ''cmd''"

definition Response_Cmd_oneof_data :: string where
  "Response_Cmd_oneof_data = ''cmd''"

definition Request_data :: "'u pb_rt \<Rightarrow> ('u, 'u Request) MessageData" where
  "Request_data rt =
     \<lparr>md_name = ''Request'',
      md_fields =
        [Simpler \<lparr>sa_name = ''id'', sa_get = req_id, sa_mut = req_id_update\<rparr>,
          Oneof_Ping \<lparr>oa_name = ''Ping'', oa_has = Request_has_Ping, oa_get = Request_get_Ping rt,
            oa_mut = Request_mut_Ping rt, oa_set = Request_set_Ping\<rparr>,
          Oneof_Isync \<lparr>oa_name = ''Isync'', oa_has = Request_has_Isync, oa_get = Request_get_Isync rt,
            oa_mut = Request_mut_Isync rt, oa_set = Request_set_Isync\<rparr>,
          Oneof_Fsync \<lparr>oa_name = ''Fsync'', oa_has = Request_has_Fsync, oa_get = Request_get_Fsync rt,
            oa_mut = Request_mut_Fsync rt, oa_set = Request_set_Fsync\<rparr>,
          Oneof_Rsync \<lparr>oa_name = ''Rsync'', oa_has = Request_has_Rsync, oa_get = Request_get_Rsync rt,
            oa_mut = Request_mut_Rsync rt, oa_set = Request_set_Rsync\<rparr>,
          Oneof_Bye \<lparr>oa_name = ''Bye'', oa_has = Request_has_Bye, oa_get = Request_get_Bye rt,
            oa_mut = Request_mut_Bye rt, oa_set = Request_set_Bye\<rparr>],
      md_oneofs = [Request_Cmd_oneof_data]\<rparr>"

definition Ping_data :: "('u, 'u Ping) MessageData" where
  "Ping_data =
     \<lparr>md_name = ''Ping'',
      md_fields = [],
      md_oneofs = []\<rparr>"

definition Isync_data :: "('u, 'u Isync) MessageData" where
  "Isync_data =
     \<lparr>md_name = ''Isync'',
      md_fields =
        [Simpler \<lparr>sa_name = ''id'', sa_get = isync_id, sa_mut = isync_id_update\<rparr>],
      md_oneofs = []\<rparr>"

definition Response_data :: "'u pb_rt \<Rightarrow> ('u, 'u Response) MessageData" where
  "Response_data rt =
     \<lparr>md_name = ''Response'',
      md_fields =
        [Simpler \<lparr>sa_name = ''id'', sa_get = resp_id, sa_mut = resp_id_update\<rparr>,
          Oneof_Pong \<lparr>oa_name = ''Pong'', oa_has = Response_has_Pong, oa_get = Response_get_Pong rt,
            oa_mut = Response_mut_Pong rt, oa_set = Response_set_Pong\<rparr>,
          Oneof_Redirect \<lparr>oa_name = ''Redirect'', oa_has = Response_has_Redirect, oa_get = Response_get_Redirect rt,
            oa_mut = Response_mut_Redirect rt, oa_set = Response_set_Redirect\<rparr>,
          Oneof_Fsync \<lparr>oa_name = ''Fsync'', oa_has = Response_has_Fsync, oa_get = Response_get_Fsync rt,
            oa_mut = Response_mut_Fsync rt, oa_set = Response_set_Fsync\<rparr>],
      md_oneofs = [Response_Cmd_oneof_data]\<rparr>"

definition Pong_data :: "('u, 'u Pong) MessageData" where
  "Pong_data =
     \<lparr>md_name = ''Pong'',
      md_fields = [],
      md_oneofs = []\<rparr>"

definition Redirect_data :: "('u, 'u Redirect) MessageData" where
  "Redirect_data =
     \<lparr>md_name = ''Redirect'',
      md_fields =
        [Simpler \<lparr>sa_name = ''id'', sa_get = redirect_id, sa_mut = redirect_id_update\<rparr>,
          Simpler \<lparr>sa_name = ''addr'', sa_get = redirect_addr, sa_mut = redirect_addr_update\<rparr>],
      md_oneofs = []\<rparr>"

definition Fsync_data :: "('u, 'u Fsync) MessageData" where
  "Fsync_data =
     \<lparr>md_name = ''Fsync'',
      md_fields =
        [Simpler \<lparr>sa_name = ''id'', sa_get = fsync_id, sa_mut = fsync_id_update\<rparr>,
          Simpler \<lparr>sa_name = ''addr'', sa_get = fsync_addr, sa_mut = fsync_addr_update\<rparr>],
      md_oneofs = []\<rparr>"

definition Rsync_data :: "('u, 'u Rsync) MessageData" where
  "Rsync_data =
     \<lparr>md_name = ''Rsync'',
      md_fields =
        [Simpler \<lparr>sa_name = ''id'', sa_get = rsync_id, sa_mut = rsync_id_update\<rparr>],
      md_oneofs = []\<rparr>"

definition Bye_data :: "('u, 'u Bye) MessageData" where
  "Bye_data =
     \<lparr>md_name = ''Bye'',
      md_fields = [],
      md_oneofs = []\<rparr>"

text \<open>\<open>new_2\<close> hides the message type of a table.\<close>

datatype 'u AnyMessageData =
    D_Request "('u, 'u Request) MessageData"
  | D_Ping "('u, 'u Ping) MessageData"
  | D_Isync "('u, 'u Isync) MessageData"
  | D_Response "('u, 'u Response) MessageData"
  | D_Pong "('u, 'u Pong) MessageData"
  | D_Redirect "('u, 'u Redirect) MessageData"
  | D_Fsync "('u, 'u Fsync) MessageData"
  | D_Rsync "('u, 'u Rsync) MessageData"
  | D_Bye "('u, 'u Bye) MessageData"

definition file_data :: "'u pb_rt \<Rightarrow> 'u AnyMessageData list" where
  "file_data rt =
     [D_Request (Request_data rt),
      D_Ping Ping_data,
      D_Isync Isync_data,
      D_Response (Response_data rt),
      D_Pong Pong_data,
      D_Redirect Redirect_data,
      D_Fsync Fsync_data,
      D_Rsync Rsync_data,
      D_Bye Bye_data]"

section \<open>Accessors are lawful\<close>

text \<open>What the runtime may expect of the accessors of a string field and of a member of a oneof.\<close>

locale text_field =
  fixes get :: "'m \<Rightarrow> string" and mut :: "(string \<Rightarrow> string) \<Rightarrow> 'm \<Rightarrow> 'm"
  assumes get_mut: "get (mut f m) = f (get m)"
    and mut_mut: "mut g (mut f m) = mut (g \<circ> f) m"
    and mut_same: "mut (\<lambda>_. get m) m = m"
begin

lemma text_put_get: "get (mut (\<lambda>_. s) m) = s"
  by (simp add: get_mut)

lemma text_put_put: "mut (\<lambda>_. s) (mut (\<lambda>_. t) m) = mut (\<lambda>_. s) m"
  by (simp add: mut_mut comp_def)

lemma text_mut_put: "mut f m = mut (\<lambda>_. f (get m)) m"
proof -
  have "mut (\<lambda>_. f (get m)) m = mut f (mut (\<lambda>_. get m) m)" by (simp add: mut_mut comp_def)
  then show ?thesis by (simp add: mut_same)
qed

end

locale oneof_field =
  fixes has :: "'m \<Rightarrow> bool" and get :: "'m \<Rightarrow> 'v" and mut :: "('v \<Rightarrow> 'v) \<Rightarrow> 'm \<Rightarrow> 'm outcome"
    and set :: "'v \<Rightarrow> 'm \<Rightarrow> 'm" and dflt :: 'v
  assumes has_set: "has (set v m)"
    and get_set: "get (set v m) = v"
    and set_set: "set v (set w m) = set v m"
    and set_get: "has m \<Longrightarrow> set (get m) m = m"
    and get_absent: "\<not> has m \<Longrightarrow> get m = dflt"
    and mut_set: "mut f m = Ret (set (f (get m)) m)"
begin

lemma mut_returns: "returns (mut f m)"
  by (simp add: mut_set returns_def)

lemma mut_effect: "mut f m = Ret m' \<Longrightarrow> has m' \<and> get m' = f (get m)"
  by (auto simp: mut_set has_set get_set)

lemma mut_compose: "and_then (mut f m) (mut g) = mut (g \<circ> f) m"
  by (simp add: mut_set get_set set_set)

lemma present: "has m \<longleftrightarrow> (\<exists>v. m = set v m)"
  by (metis has_set set_get)

end

interpretation request_id_field: text_field req_id req_id_update
  by unfold_locales (simp_all add: comp_def)

interpretation isync_id_field: text_field isync_id isync_id_update
  by unfold_locales (simp_all add: comp_def)

interpretation response_id_field: text_field resp_id resp_id_update
  by unfold_locales (simp_all add: comp_def)

interpretation redirect_id_field: text_field redirect_id redirect_id_update
  by unfold_locales (simp_all add: comp_def)

interpretation redirect_addr_field: text_field redirect_addr redirect_addr_update
  by unfold_locales (simp_all add: comp_def)

interpretation fsync_id_field: text_field fsync_id fsync_id_update
  by unfold_locales (simp_all add: comp_def)

interpretation fsync_addr_field: text_field fsync_addr fsync_addr_update
  by unfold_locales (simp_all add: comp_def)

interpretation rsync_id_field: text_field rsync_id rsync_id_update
  by unfold_locales (simp_all add: comp_def)

interpretation request_ping_member: oneof_field Request_has_Ping "Request_get_Ping rt" "Request_mut_Ping rt" Request_set_Ping "Ping_new rt"
  for rt :: "'u pb_rt"
  by unfold_locales (auto simp: Request_has_Ping_def Request_get_Ping_def Request_mut_Ping_def Request_set_Ping_def split: option.splits ReqCmd.splits)

interpretation request_isync_member: oneof_field Request_has_Isync "Request_get_Isync rt" "Request_mut_Isync rt" Request_set_Isync "Isync_new rt"
  for rt :: "'u pb_rt"
  by unfold_locales (auto simp: Request_has_Isync_def Request_get_Isync_def Request_mut_Isync_def Request_set_Isync_def split: option.splits ReqCmd.splits)

interpretation request_fsync_member: oneof_field Request_has_Fsync "Request_get_Fsync rt" "Request_mut_Fsync rt" Request_set_Fsync "Fsync_new rt"
  for rt :: "'u pb_rt"
  by unfold_locales (auto simp: Request_has_Fsync_def Request_get_Fsync_def Request_mut_Fsync_def Request_set_Fsync_def split: option.splits ReqCmd.splits)

interpretation request_rsync_member: oneof_field Request_has_Rsync "Request_get_Rsync rt" "Request_mut_Rsync rt" Request_set_Rsync "Rsync_new rt"
  for rt :: "'u pb_rt"
  by unfold_locales (auto simp: Request_has_Rsync_def Request_get_Rsync_def Request_mut_Rsync_def Request_set_Rsync_def split: option.splits ReqCmd.splits)

interpretation request_bye_member: oneof_field Request_has_Bye "Request_get_Bye rt" "Request_mut_Bye rt" Request_set_Bye "Bye_new rt"
  for rt :: "'u pb_rt"
  by unfold_locales (auto simp: Request_has_Bye_def Request_get_Bye_def Request_mut_Bye_def Request_set_Bye_def split: option.splits ReqCmd.splits)

interpretation response_pong_member: oneof_field Response_has_Pong "Response_get_Pong rt" "Response_mut_Pong rt" Response_set_Pong "Pong_new rt"
  for rt :: "'u pb_rt"
  by unfold_locales (auto simp: Response_has_Pong_def Response_get_Pong_def Response_mut_Pong_def Response_set_Pong_def split: option.splits RespCmd.splits)

interpretation response_redirect_member: oneof_field Response_has_Redirect "Response_get_Redirect rt" "Response_mut_Redirect rt" Response_set_Redirect "Redirect_new rt"
  for rt :: "'u pb_rt"
  by unfold_locales (auto simp: Response_has_Redirect_def Response_get_Redirect_def Response_mut_Redirect_def Response_set_Redirect_def split: option.splits RespCmd.splits)

interpretation response_fsync_member: oneof_field Response_has_Fsync "Response_get_Fsync rt" "Response_mut_Fsync rt" Response_set_Fsync "Fsync_new rt"
  for rt :: "'u pb_rt"
  by unfold_locales (auto simp: Response_has_Fsync_def Response_get_Fsync_def Response_mut_Fsync_def Response_set_Fsync_def split: option.splits RespCmd.splits)

text \<open>So is every accessor in the tables.\<close>

fun lawful :: "'u pb_rt \<Rightarrow> ('u, 'm) FieldAccessor \<Rightarrow> bool" where
  "lawful rt (Simpler a) = text_field (sa_get a) (sa_mut a)"
| "lawful rt (Oneof_Ping a) = oneof_field (oa_has a) (oa_get a) (oa_mut a) (oa_set a) (Ping_new rt)"
| "lawful rt (Oneof_Isync a) = oneof_field (oa_has a) (oa_get a) (oa_mut a) (oa_set a) (Isync_new rt)"
| "lawful rt (Oneof_Fsync a) = oneof_field (oa_has a) (oa_get a) (oa_mut a) (oa_set a) (Fsync_new rt)"
| "lawful rt (Oneof_Rsync a) = oneof_field (oa_has a) (oa_get a) (oa_mut a) (oa_set a) (Rsync_new rt)"
| "lawful rt (Oneof_Bye a) = oneof_field (oa_has a) (oa_get a) (oa_mut a) (oa_set a) (Bye_new rt)"
| "lawful rt (Oneof_Pong a) = oneof_field (oa_has a) (oa_get a) (oa_mut a) (oa_set a) (Pong_new rt)"
| "lawful rt (Oneof_Redirect a) = oneof_field (oa_has a) (oa_get a) (oa_mut a) (oa_set a) (Redirect_new rt)"

lemmas table_defs =
  Request_data_def Ping_data_def Isync_data_def Response_data_def Pong_data_def Redirect_data_def Fsync_data_def Rsync_data_def Bye_data_def
  Request_Cmd_oneof_data_def Response_Cmd_oneof_data_def

lemma Request_lawful: "a \<in> set (md_fields (Request_data rt)) \<Longrightarrow> lawful rt a"
  by (auto simp: table_defs intro!: request_id_field.text_field_axioms
      request_ping_member.oneof_field_axioms
      request_isync_member.oneof_field_axioms
      request_fsync_member.oneof_field_axioms
      request_rsync_member.oneof_field_axioms
      request_bye_member.oneof_field_axioms)

lemma Ping_lawful: "a \<in> set (md_fields Ping_data) \<Longrightarrow> lawful rt a"
  by (auto simp: table_defs)

lemma Isync_lawful: "a \<in> set (md_fields Isync_data) \<Longrightarrow> lawful rt a"
  by (auto simp: table_defs intro!: isync_id_field.text_field_axioms)

lemma Response_lawful: "a \<in> set (md_fields (Response_data rt)) \<Longrightarrow> lawful rt a"
  by (auto simp: table_defs intro!: response_id_field.text_field_axioms
      response_pong_member.oneof_field_axioms
      response_redirect_member.oneof_field_axioms
      response_fsync_member.oneof_field_axioms)

lemma Pong_lawful: "a \<in> set (md_fields Pong_data) \<Longrightarrow> lawful rt a"
  by (auto simp: table_defs)

lemma Redirect_lawful: "a \<in> set (md_fields Redirect_data) \<Longrightarrow> lawful rt a"
  by (auto simp: table_defs intro!: redirect_id_field.text_field_axioms
      redirect_addr_field.text_field_axioms)

lemma Fsync_lawful: "a \<in> set (md_fields Fsync_data) \<Longrightarrow> lawful rt a"
  by (auto simp: table_defs intro!: fsync_id_field.text_field_axioms
      fsync_addr_field.text_field_axioms)

lemma Rsync_lawful: "a \<in> set (md_fields Rsync_data) \<Longrightarrow> lawful rt a"
  by (auto simp: table_defs intro!: rsync_id_field.text_field_axioms)

lemma Bye_lawful: "a \<in> set (md_fields Bye_data) \<Longrightarrow> lawful rt a"
  by (auto simp: table_defs)

section \<open>A generic codec\<close>

text \<open>
  What a codec does with one field of a message, given its number and its accessor: the
  parser replaces the field, the size and the writer skip a field that holds its default.
\<close>

definition tag_size :: "nat \<Rightarrow> u64" where
  "tag_size n = of_nat (length (varint (8 * n + 2)))"

fun accessor_name :: "('u, 'm) FieldAccessor \<Rightarrow> string" where
  "accessor_name (Simpler a) = sa_name a"
| "accessor_name (Oneof_Ping a) = oa_name a"
| "accessor_name (Oneof_Isync a) = oa_name a"
| "accessor_name (Oneof_Fsync a) = oa_name a"
| "accessor_name (Oneof_Rsync a) = oa_name a"
| "accessor_name (Oneof_Bye a) = oa_name a"
| "accessor_name (Oneof_Pong a) = oa_name a"
| "accessor_name (Oneof_Redirect a) = oa_name a"

fun accessor_fits :: "field_schema \<Rightarrow> ('u, 'm) FieldAccessor \<Rightarrow> bool" where
  "accessor_fits f (Simpler a) \<longleftrightarrow> sa_name a = fs_name f \<and> fs_type f = T_string \<and> fs_oneof f = None"
| "accessor_fits f (Oneof_Ping a) \<longleftrightarrow> oa_name a = fs_name f \<and> fs_type f = T_message ''Ping'' \<and> fs_oneof f \<noteq> None"
| "accessor_fits f (Oneof_Isync a) \<longleftrightarrow> oa_name a = fs_name f \<and> fs_type f = T_message ''Isync'' \<and> fs_oneof f \<noteq> None"
| "accessor_fits f (Oneof_Fsync a) \<longleftrightarrow> oa_name a = fs_name f \<and> fs_type f = T_message ''Fsync'' \<and> fs_oneof f \<noteq> None"
| "accessor_fits f (Oneof_Rsync a) \<longleftrightarrow> oa_name a = fs_name f \<and> fs_type f = T_message ''Rsync'' \<and> fs_oneof f \<noteq> None"
| "accessor_fits f (Oneof_Bye a) \<longleftrightarrow> oa_name a = fs_name f \<and> fs_type f = T_message ''Bye'' \<and> fs_oneof f \<noteq> None"
| "accessor_fits f (Oneof_Pong a) \<longleftrightarrow> oa_name a = fs_name f \<and> fs_type f = T_message ''Pong'' \<and> fs_oneof f \<noteq> None"
| "accessor_fits f (Oneof_Redirect a) \<longleftrightarrow> oa_name a = fs_name f \<and> fs_type f = T_message ''Redirect'' \<and> fs_oneof f \<noteq> None"

fun field_merge :: "'u pb_rt \<Rightarrow> ('u, 'm) FieldAccessor \<Rightarrow> 'm \<Rightarrow> bytes \<Rightarrow> 'm parse" where
  "field_merge rt (Simpler a) m is = arm (rt_read_string rt is) (\<lambda>s. sa_mut a (\<lambda>_. s) m)"
| "field_merge rt (Oneof_Ping a) m is = arm_message (read_message rt (Ping_merge_from rt (Ping_new rt)) is) (\<lambda>v. oa_set a v m)"
| "field_merge rt (Oneof_Isync a) m is = arm_message (read_message rt (Isync_merge_from rt (Isync_new rt)) is) (\<lambda>v. oa_set a v m)"
| "field_merge rt (Oneof_Fsync a) m is = arm_message (read_message rt (Fsync_merge_from rt (Fsync_new rt)) is) (\<lambda>v. oa_set a v m)"
| "field_merge rt (Oneof_Rsync a) m is = arm_message (read_message rt (Rsync_merge_from rt (Rsync_new rt)) is) (\<lambda>v. oa_set a v m)"
| "field_merge rt (Oneof_Bye a) m is = arm_message (read_message rt (Bye_merge_from rt (Bye_new rt)) is) (\<lambda>v. oa_set a v m)"
| "field_merge rt (Oneof_Pong a) m is = arm_message (read_message rt (Pong_merge_from rt (Pong_new rt)) is) (\<lambda>v. oa_set a v m)"
| "field_merge rt (Oneof_Redirect a) m is = arm_message (read_message rt (Redirect_merge_from rt (Redirect_new rt)) is) (\<lambda>v. oa_set a v m)"

definition member_size :: "'u pb_rt \<Rightarrow> nat \<Rightarrow> ('m, 'v) oneof_accessor \<Rightarrow> ('v \<Rightarrow> u64 \<times> 'v) \<Rightarrow> 'm \<Rightarrow> u64 \<times> 'm" where
  "member_size rt n a sz m =
     (if oa_has a m
      then (let (len, v) = sz (oa_get a m) in (tag_size n + rt_varint_size rt len + len, oa_set a v m))
      else (0, m))"

fun field_size :: "'u pb_rt \<Rightarrow> nat \<Rightarrow> ('u, 'm) FieldAccessor \<Rightarrow> 'm \<Rightarrow> u64 \<times> 'm" where
  "field_size rt n (Simpler a) m = (if sa_get a m \<noteq> [] then rt_string_size rt n (sa_get a m) else 0, m)"
| "field_size rt n (Oneof_Ping a) m = member_size rt n a (Ping_compute_size rt) m"
| "field_size rt n (Oneof_Isync a) m = member_size rt n a (Isync_compute_size rt) m"
| "field_size rt n (Oneof_Fsync a) m = member_size rt n a (Fsync_compute_size rt) m"
| "field_size rt n (Oneof_Rsync a) m = member_size rt n a (Rsync_compute_size rt) m"
| "field_size rt n (Oneof_Bye a) m = member_size rt n a (Bye_compute_size rt) m"
| "field_size rt n (Oneof_Pong a) m = member_size rt n a (Pong_compute_size rt) m"
| "field_size rt n (Oneof_Redirect a) m = member_size rt n a (Redirect_compute_size rt) m"

definition member_write ::
  "'u pb_rt \<Rightarrow> nat \<Rightarrow> ('m, 'v) oneof_accessor \<Rightarrow> ('v \<Rightarrow> 'u SpecialFields) \<Rightarrow> ('v \<Rightarrow> bytes \<Rightarrow> pb_error + bytes)
    \<Rightarrow> 'm \<Rightarrow> bytes \<Rightarrow> pb_error + bytes" where
  "member_write rt n a special wr m os =
     (if oa_has a m then rt_write_message rt n (cached_size (special (oa_get a m))) (wr (oa_get a m)) os else Inr os)"

fun field_write :: "'u pb_rt \<Rightarrow> nat \<Rightarrow> ('u, 'm) FieldAccessor \<Rightarrow> 'm \<Rightarrow> bytes \<Rightarrow> pb_error + bytes" where
  "field_write rt n (Simpler a) m os = (if sa_get a m \<noteq> [] then rt_write_string rt n (sa_get a m) os else Inr os)"
| "field_write rt n (Oneof_Ping a) m os = member_write rt n a ping_special (Ping_write rt) m os"
| "field_write rt n (Oneof_Isync a) m os = member_write rt n a isync_special (Isync_write rt) m os"
| "field_write rt n (Oneof_Fsync a) m os = member_write rt n a fsync_special (Fsync_write rt) m os"
| "field_write rt n (Oneof_Rsync a) m os = member_write rt n a rsync_special (Rsync_write rt) m os"
| "field_write rt n (Oneof_Bye a) m os = member_write rt n a bye_special (Bye_write rt) m os"
| "field_write rt n (Oneof_Pong a) m os = member_write rt n a pong_special (Pong_write rt) m os"
| "field_write rt n (Oneof_Redirect a) m os = member_write rt n a redirect_special (Redirect_write rt) m os"

text \<open>
  The codec of a whole message: the fields in the order of the description, each through the
  accessor registered under its name, and then the unknown fields. The message keeps its
  special fields where \<open>sp\<close> and \<open>sp_upd\<close> find them.
\<close>

definition accessor_of :: "('u, 'm) FieldAccessor list \<Rightarrow> field_schema \<Rightarrow> ('u, 'm) FieldAccessor option" where
  "accessor_of as f = find (\<lambda>a. accessor_name a = fs_name f) as"

definition described_arm ::
  "'u pb_rt \<Rightarrow> field_schema list \<Rightarrow> ('u, 'm) FieldAccessor list \<Rightarrow> ('m \<Rightarrow> 'u SpecialFields)
    \<Rightarrow> (('u SpecialFields \<Rightarrow> 'u SpecialFields) \<Rightarrow> 'm \<Rightarrow> 'm) \<Rightarrow> u32 \<Rightarrow> 'm \<Rightarrow> bytes \<Rightarrow> 'm parse" where
  "described_arm rt fs as sp sp_upd tag m is =
     (case Option.bind (find (\<lambda>f. field_tag (fs_number f) = tag) fs) (accessor_of as) of
        Some a \<Rightarrow> field_merge rt a m is
      | None \<Rightarrow> arm (rt_read_unknown rt tag (unknown_fields (sp m)) is) (\<lambda>u. sp_upd (\<lambda>_. (sp m)\<lparr>unknown_fields := u\<rparr>) m))"

fun described_sizes ::
  "'u pb_rt \<Rightarrow> field_schema list \<Rightarrow> ('u, 'm) FieldAccessor list \<Rightarrow> 'm \<Rightarrow> u64 \<times> 'm" where
  "described_sizes rt [] as m = (0, m)"
| "described_sizes rt (f # fs) as m =
     (let (n, m) = (case accessor_of as f of None \<Rightarrow> (0, m) | Some a \<Rightarrow> field_size rt (fs_number f) a m);
          (k, m) = described_sizes rt fs as m
      in (n + k, m))"

definition described_size ::
  "'u pb_rt \<Rightarrow> field_schema list \<Rightarrow> ('u, 'm) FieldAccessor list \<Rightarrow> ('m \<Rightarrow> 'u SpecialFields)
    \<Rightarrow> (('u SpecialFields \<Rightarrow> 'u SpecialFields) \<Rightarrow> 'm \<Rightarrow> 'm) \<Rightarrow> 'm \<Rightarrow> u64 \<times> 'm" where
  "described_size rt fs as sp sp_upd m =
     (let (n, m) = described_sizes rt fs as m;
          n = n + rt_unknown_size rt (unknown_fields (sp m))
      in (n, sp_upd (\<lambda>_. set_cached_size n (sp m)) m))"

fun described_writes ::
  "'u pb_rt \<Rightarrow> field_schema list \<Rightarrow> ('u, 'm) FieldAccessor list \<Rightarrow> 'm \<Rightarrow> bytes \<Rightarrow> pb_error + bytes" where
  "described_writes rt [] as m os = Inr os"
| "described_writes rt (f # fs) as m os =
     res_bind (case accessor_of as f of None \<Rightarrow> Inr os | Some a \<Rightarrow> field_write rt (fs_number f) a m os)
       (described_writes rt fs as m)"

definition described_write ::
  "'u pb_rt \<Rightarrow> field_schema list \<Rightarrow> ('u, 'm) FieldAccessor list \<Rightarrow> ('m \<Rightarrow> 'u SpecialFields)
    \<Rightarrow> 'm \<Rightarrow> bytes \<Rightarrow> pb_error + bytes" where
  "described_write rt fs as sp m os =
     res_bind (described_writes rt fs as m os) (rt_write_unknown rt (unknown_fields (sp m)))"

section \<open>The generated code follows the embedded description\<close>

definition message_description :: "string \<Rightarrow> message_schema option" where
  "message_description n =
     Option.bind (described_file file_descriptor_proto_data) (\<lambda>f. find (\<lambda>m. ms_name m = n) (file_messages f))"

definition data_fits :: "message_schema \<Rightarrow> ('u, 'm) MessageData \<Rightarrow> bool" where
  "data_fits ms d \<longleftrightarrow>
     md_name d = ms_name ms \<and> list_all2 accessor_fits (ms_fields ms) (md_fields d) \<and> md_oneofs d = ms_oneofs ms"

definition follows ::
  "'u pb_rt \<Rightarrow> ('u, 'm) MessageData \<Rightarrow> ('m \<Rightarrow> 'u SpecialFields)
    \<Rightarrow> (('u SpecialFields \<Rightarrow> 'u SpecialFields) \<Rightarrow> 'm \<Rightarrow> 'm) \<Rightarrow> (u32 \<Rightarrow> 'm \<Rightarrow> bytes \<Rightarrow> 'm parse)
    \<Rightarrow> ('m \<Rightarrow> u64 \<times> 'm) \<Rightarrow> ('m \<Rightarrow> bytes \<Rightarrow> pb_error + bytes) \<Rightarrow> bool" where
  "follows rt d sp sp_upd mg sz wr \<longleftrightarrow>
     (\<exists>ms. message_description (md_name d) = Some ms \<and> data_fits ms d \<and> list_all (lawful rt) (md_fields d)
        \<and> mg = described_arm rt (ms_fields ms) (md_fields d) sp sp_upd
        \<and> sz = described_size rt (ms_fields ms) (md_fields d) sp sp_upd
        \<and> wr = described_write rt (ms_fields ms) (md_fields d) sp)"

lemma described_writes_fun:
  "described_writes rt [] as m = Inr"
  "described_writes rt (f # fs) as m =
     (\<lambda>os. res_bind (case accessor_of as f of None \<Rightarrow> Inr os | Some a \<Rightarrow> field_write rt (fs_number f) a m os)
       (described_writes rt fs as m))"
  by (simp_all add: fun_eq_iff)

lemma res_bind_laws: "res_bind r Inr = r" "res_bind (res_bind r f) g = res_bind r (\<lambda>x. res_bind (f x) g)"
  by (cases r; simp)+

lemma followsI:
  assumes "message_description (md_name d) = Some ms" "data_fits ms d"
    and "\<And>a. a \<in> set (md_fields d) \<Longrightarrow> lawful rt a"
    and "\<And>tag m bs. mg tag m bs = described_arm rt (ms_fields ms) (md_fields d) sp sp_upd tag m bs"
    and "\<And>m. sz m = described_size rt (ms_fields ms) (md_fields d) sp sp_upd m"
    and "\<And>m os. wr m os = described_write rt (ms_fields ms) (md_fields d) sp m os"
  shows "follows rt d sp sp_upd mg sz wr"
  using assms unfolding follows_def list_all_iff by blast

lemmas schema_defs =
  string_member_def oneof_member_def Request_schema_def Ping_schema_def Isync_schema_def Response_schema_def
  Pong_schema_def Redirect_schema_def Fsync_schema_def Rsync_schema_def Bye_schema_def

lemmas described_defs =
  described_writes_fun res_bind_laws   described_arm_def described_size_def described_write_def accessor_of_def member_size_def member_write_def
  field_tag_def tag_size_def schema_defs

lemma message_descriptions:
  "message_description (md_name (Request_data rt)) = Some Request_schema"
  "message_description (md_name Ping_data) = Some Ping_schema"
  "message_description (md_name Isync_data) = Some Isync_schema"
  "message_description (md_name (Response_data rt)) = Some Response_schema"
  "message_description (md_name Pong_data) = Some Pong_schema"
  "message_description (md_name Redirect_data) = Some Redirect_schema"
  "message_description (md_name Fsync_data) = Some Fsync_schema"
  "message_description (md_name Rsync_data) = Some Rsync_schema"
  "message_description (md_name Bye_data) = Some Bye_schema"
  by (simp_all add: message_description_def embedded_description rndz_schema_def schema_defs table_defs)

lemma data_fits:
  "data_fits Request_schema (Request_data rt)"
  "data_fits Ping_schema Ping_data"
  "data_fits Isync_schema Isync_data"
  "data_fits Response_schema (Response_data rt)"
  "data_fits Pong_schema Pong_data"
  "data_fits Redirect_schema Redirect_data"
  "data_fits Fsync_schema Fsync_data"
  "data_fits Rsync_schema Rsync_data"
  "data_fits Bye_schema Bye_data"
  by (simp_all add: data_fits_def schema_defs table_defs)

lemmas Request_member_defs =
  Request_get_Ping_def Request_has_Ping_def Request_set_Ping_def
  Request_get_Isync_def Request_has_Isync_def Request_set_Isync_def
  Request_get_Fsync_def Request_has_Fsync_def Request_set_Fsync_def
  Request_get_Rsync_def Request_has_Rsync_def Request_set_Rsync_def
  Request_get_Bye_def Request_has_Bye_def Request_set_Bye_def

lemmas Response_member_defs =
  Response_get_Pong_def Response_has_Pong_def Response_set_Pong_def
  Response_get_Redirect_def Response_has_Redirect_def Response_set_Redirect_def
  Response_get_Fsync_def Response_has_Fsync_def Response_set_Fsync_def

lemma Request_follows:
  "follows rt (Request_data rt) req_special req_special_update (Request_arm rt) (Request_compute_size rt) (Request_write rt)"
proof (rule followsI[OF message_descriptions(1) data_fits(1) Request_lawful])
  fix tag m bs
  show "Request_arm rt tag m bs = described_arm rt (ms_fields Request_schema) (md_fields (Request_data rt)) req_special req_special_update tag m bs"
    by (simp add: Request_arm_def described_defs table_defs Request_member_defs)
next
  fix m
  show "Request_compute_size rt m = described_size rt (ms_fields Request_schema) (md_fields (Request_data rt)) req_special req_special_update m"
    by (cases "req_cmd m"; cases "the (req_cmd m)")
      (simp_all add: Request_compute_size_def described_defs table_defs Request_member_defs length_varint_small Let_def case_prod_beta)
next
  fix m os
  show "Request_write rt m os = described_write rt (ms_fields Request_schema) (md_fields (Request_data rt)) req_special m os"
    by (cases "req_cmd m"; cases "the (req_cmd m)")
      (simp_all add: Request_write_def described_defs table_defs Request_member_defs)
qed

lemma Ping_follows:
  "follows rt Ping_data ping_special ping_special_update (Ping_arm rt) (Ping_compute_size rt) (Ping_write rt)"
  by (rule followsI[OF message_descriptions(2) data_fits(2) Ping_lawful])
    (simp_all add: described_defs table_defs Ping_arm_def Ping_compute_size_def Ping_write_def Let_def)

lemma Isync_follows:
  "follows rt Isync_data isync_special isync_special_update (Isync_arm rt) (Isync_compute_size rt) (Isync_write rt)"
  by (rule followsI[OF message_descriptions(3) data_fits(3) Isync_lawful])
    (simp_all add: described_defs table_defs Isync_arm_def Isync_compute_size_def Isync_write_def Let_def)

lemma Response_follows:
  "follows rt (Response_data rt) resp_special resp_special_update (Response_arm rt) (Response_compute_size rt) (Response_write rt)"
proof (rule followsI[OF message_descriptions(4) data_fits(4) Response_lawful])
  fix tag m bs
  show "Response_arm rt tag m bs = described_arm rt (ms_fields Response_schema) (md_fields (Response_data rt)) resp_special resp_special_update tag m bs"
    by (simp add: Response_arm_def described_defs table_defs Response_member_defs)
next
  fix m
  show "Response_compute_size rt m = described_size rt (ms_fields Response_schema) (md_fields (Response_data rt)) resp_special resp_special_update m"
    by (cases "resp_cmd m"; cases "the (resp_cmd m)")
      (simp_all add: Response_compute_size_def described_defs table_defs Response_member_defs length_varint_small Let_def case_prod_beta)
next
  fix m os
  show "Response_write rt m os = described_write rt (ms_fields Response_schema) (md_fields (Response_data rt)) resp_special m os"
    by (cases "resp_cmd m"; cases "the (resp_cmd m)")
      (simp_all add: Response_write_def described_defs table_defs Response_member_defs)
qed

lemma Pong_follows:
  "follows rt Pong_data pong_special pong_special_update (Pong_arm rt) (Pong_compute_size rt) (Pong_write rt)"
  by (rule followsI[OF message_descriptions(5) data_fits(5) Pong_lawful])
    (simp_all add: described_defs table_defs Pong_arm_def Pong_compute_size_def Pong_write_def Let_def)

lemma Redirect_follows:
  "follows rt Redirect_data redirect_special redirect_special_update (Redirect_arm rt) (Redirect_compute_size rt) (Redirect_write rt)"
  by (rule followsI[OF message_descriptions(6) data_fits(6) Redirect_lawful])
    (simp_all add: described_defs table_defs Redirect_arm_def Redirect_compute_size_def Redirect_write_def Let_def)

lemma Fsync_follows:
  "follows rt Fsync_data fsync_special fsync_special_update (Fsync_arm rt) (Fsync_compute_size rt) (Fsync_write rt)"
  by (rule followsI[OF message_descriptions(7) data_fits(7) Fsync_lawful])
    (simp_all add: described_defs table_defs Fsync_arm_def Fsync_compute_size_def Fsync_write_def Let_def)

lemma Rsync_follows:
  "follows rt Rsync_data rsync_special rsync_special_update (Rsync_arm rt) (Rsync_compute_size rt) (Rsync_write rt)"
  by (rule followsI[OF message_descriptions(8) data_fits(8) Rsync_lawful])
    (simp_all add: described_defs table_defs Rsync_arm_def Rsync_compute_size_def Rsync_write_def Let_def)

lemma Bye_follows:
  "follows rt Bye_data bye_special bye_special_update (Bye_arm rt) (Bye_compute_size rt) (Bye_write rt)"
  by (rule followsI[OF message_descriptions(9) data_fits(9) Bye_lawful])
    (simp_all add: described_defs table_defs Bye_arm_def Bye_compute_size_def Bye_write_def Let_def)

section \<open>The lookups of descriptors\<close>

text \<open>
  The functions of the runtime: decoding a \<open>FileDescriptorProto\<close> (\<open>'p\<close>), joining it with the
  tables of the generated code (\<open>'g\<close>, then a \<open>FileDescriptor\<close> \<open>'f\<close>), which may panic, and the
  lookups of message (\<open>'d\<close>) and oneof descriptors (\<open>'o\<close>). A \<open>Lazy\<close> is the value its closure
  returns.
\<close>

record ('p, 'g, 'f, 'd, 'o, 'u) reflect_rt =
  rf_parse :: "bytes \<Rightarrow> pb_error + 'p"
  rf_new_generated :: "'p \<Rightarrow> 'u AnyMessageData list \<Rightarrow> 'g outcome"
  rf_new_generated_2 :: "'g \<Rightarrow> 'f outcome"
  rf_message_by_name :: "'f \<Rightarrow> string \<Rightarrow> 'd option"
  rf_oneof_by_name :: "'d \<Rightarrow> string \<Rightarrow> 'o option"

definition file_descriptor_proto :: "('p, 'g, 'f, 'd, 'o, 'u) reflect_rt \<Rightarrow> 'p outcome" where
  "file_descriptor_proto rf = unwrap (rf_parse rf file_descriptor_proto_data)"

definition file_descriptor :: "('p, 'g, 'f, 'd, 'o, 'u) reflect_rt \<Rightarrow> 'u pb_rt \<Rightarrow> 'f outcome" where
  "file_descriptor rf rt =
     and_then (file_descriptor_proto rf) (\<lambda>p.
     and_then (rf_new_generated rf p (file_data rt)) (rf_new_generated_2 rf))"

definition Request_descriptor :: "('p, 'g, 'f, 'd, 'o, 'u) reflect_rt \<Rightarrow> 'u pb_rt \<Rightarrow> 'd outcome" where
  "Request_descriptor rf rt = and_then (file_descriptor rf rt) (\<lambda>f. unwrap_some (rf_message_by_name rf f ''Request''))"

definition Ping_descriptor :: "('p, 'g, 'f, 'd, 'o, 'u) reflect_rt \<Rightarrow> 'u pb_rt \<Rightarrow> 'd outcome" where
  "Ping_descriptor rf rt = and_then (file_descriptor rf rt) (\<lambda>f. unwrap_some (rf_message_by_name rf f ''Ping''))"

definition Isync_descriptor :: "('p, 'g, 'f, 'd, 'o, 'u) reflect_rt \<Rightarrow> 'u pb_rt \<Rightarrow> 'd outcome" where
  "Isync_descriptor rf rt = and_then (file_descriptor rf rt) (\<lambda>f. unwrap_some (rf_message_by_name rf f ''Isync''))"

definition Response_descriptor :: "('p, 'g, 'f, 'd, 'o, 'u) reflect_rt \<Rightarrow> 'u pb_rt \<Rightarrow> 'd outcome" where
  "Response_descriptor rf rt = and_then (file_descriptor rf rt) (\<lambda>f. unwrap_some (rf_message_by_name rf f ''Response''))"

definition Pong_descriptor :: "('p, 'g, 'f, 'd, 'o, 'u) reflect_rt \<Rightarrow> 'u pb_rt \<Rightarrow> 'd outcome" where
  "Pong_descriptor rf rt = and_then (file_descriptor rf rt) (\<lambda>f. unwrap_some (rf_message_by_name rf f ''Pong''))"

definition Redirect_descriptor :: "('p, 'g, 'f, 'd, 'o, 'u) reflect_rt \<Rightarrow> 'u pb_rt \<Rightarrow> 'd outcome" where
  "Redirect_descriptor rf rt = and_then (file_descriptor rf rt) (\<lambda>f. unwrap_some (rf_message_by_name rf f ''Redirect''))"

definition Fsync_descriptor :: "('p, 'g, 'f, 'd, 'o, 'u) reflect_rt \<Rightarrow> 'u pb_rt \<Rightarrow> 'd outcome" where
  "Fsync_descriptor rf rt = and_then (file_descriptor rf rt) (\<lambda>f. unwrap_some (rf_message_by_name rf f ''Fsync''))"

definition Rsync_descriptor :: "('p, 'g, 'f, 'd, 'o, 'u) reflect_rt \<Rightarrow> 'u pb_rt \<Rightarrow> 'd outcome" where
  "Rsync_descriptor rf rt = and_then (file_descriptor rf rt) (\<lambda>f. unwrap_some (rf_message_by_name rf f ''Rsync''))"

definition Bye_descriptor :: "('p, 'g, 'f, 'd, 'o, 'u) reflect_rt \<Rightarrow> 'u pb_rt \<Rightarrow> 'd outcome" where
  "Bye_descriptor rf rt = and_then (file_descriptor rf rt) (\<lambda>f. unwrap_some (rf_message_by_name rf f ''Bye''))"

definition ReqCmd_descriptor :: "('p, 'g, 'f, 'd, 'o, 'u) reflect_rt \<Rightarrow> 'u pb_rt \<Rightarrow> 'o outcome" where
  "ReqCmd_descriptor rf rt = and_then (Request_descriptor rf rt) (\<lambda>d. unwrap_some (rf_oneof_by_name rf d ''cmd''))"

definition RespCmd_descriptor :: "('p, 'g, 'f, 'd, 'o, 'u) reflect_rt \<Rightarrow> 'u pb_rt \<Rightarrow> 'o outcome" where
  "RespCmd_descriptor rf rt = and_then (Response_descriptor rf rt) (\<lambda>d. unwrap_some (rf_oneof_by_name rf d ''cmd''))"

text \<open>
  What is relied on: the runtime decodes every description that follows the documented
  format, accepts tables that fit it, and finds what the description holds. The views say
  what of a description the objects of the runtime stand for.
\<close>

fun any_fits :: "message_schema \<Rightarrow> 'u AnyMessageData \<Rightarrow> bool" where
  "any_fits ms (D_Request d) \<longleftrightarrow> data_fits ms d"
| "any_fits ms (D_Ping d) \<longleftrightarrow> data_fits ms d"
| "any_fits ms (D_Isync d) \<longleftrightarrow> data_fits ms d"
| "any_fits ms (D_Response d) \<longleftrightarrow> data_fits ms d"
| "any_fits ms (D_Pong d) \<longleftrightarrow> data_fits ms d"
| "any_fits ms (D_Redirect d) \<longleftrightarrow> data_fits ms d"
| "any_fits ms (D_Fsync d) \<longleftrightarrow> data_fits ms d"
| "any_fits ms (D_Rsync d) \<longleftrightarrow> data_fits ms d"
| "any_fits ms (D_Bye d) \<longleftrightarrow> data_fits ms d"

locale pb_reflection =
  fixes rf :: "('p, 'g, 'f, 'd, 'o, 'u) reflect_rt"
    and p_view :: "'p \<Rightarrow> file_schema" and f_view :: "'f \<Rightarrow> file_schema"
    and d_view :: "'d \<Rightarrow> message_schema" and o_view :: "'o \<Rightarrow> string"
  assumes parse_described: "described_file bs = Some s \<Longrightarrow> \<exists>p. rf_parse rf bs = Inr p \<and> p_view p = s"
    and new_generated:
      "list_all2 any_fits (file_messages (p_view p)) tables
        \<Longrightarrow> \<exists>g f. rf_new_generated rf p tables = Ret g \<and> rf_new_generated_2 rf g = Ret f \<and> f_view f = p_view p"
    and message_by_name:
      "find (\<lambda>m. ms_name m = n) (file_messages (f_view f)) = Some ms
        \<Longrightarrow> \<exists>d. rf_message_by_name rf f n = Some d \<and> d_view d = ms"
    and oneof_by_name:
      "n \<in> set (ms_oneofs (d_view d)) \<Longrightarrow> \<exists>x. rf_oneof_by_name rf d n = Some x \<and> o_view x = n"
begin

lemma file_descriptor_found: "\<exists>f. file_descriptor rf rt = Ret f \<and> f_view f = rndz_schema"
proof -
  obtain p where p: "rf_parse rf file_descriptor_proto_data = Inr p" "p_view p = rndz_schema"
    using parse_described[OF embedded_description] by blast
  have "list_all2 any_fits (file_messages (p_view p)) (file_data rt)"
    by (simp add: p(2) rndz_schema_def file_data_def data_fits)
  then obtain g f where "rf_new_generated rf p (file_data rt) = Ret g" "rf_new_generated_2 rf g = Ret f"
      "f_view f = rndz_schema"
    using new_generated p(2) by metis
  then show ?thesis
    by (simp add: file_descriptor_def file_descriptor_proto_def p(1))
qed

lemma message_found:
  assumes "find (\<lambda>m. ms_name m = n) (file_messages rndz_schema) = Some ms"
  shows "\<exists>d. and_then (file_descriptor rf rt) (\<lambda>f. unwrap_some (rf_message_by_name rf f n)) = Ret d \<and> d_view d = ms"
proof -
  obtain f where f: "file_descriptor rf rt = Ret f" "f_view f = rndz_schema" using file_descriptor_found by blast
  obtain d where "rf_message_by_name rf f n = Some d" "d_view d = ms"
    using message_by_name[where f = f] assms f(2) by metis
  then show ?thesis by (simp add: f(1))
qed

lemma oneof_found:
  assumes "n \<in> set (ms_oneofs ms)" "D = Ret d" "d_view d = ms"
  shows "\<exists>x. and_then D (\<lambda>d. unwrap_some (rf_oneof_by_name rf d n)) = Ret x \<and> o_view x = n"
  using oneof_by_name[of n d] assms by auto

lemma messages_found:
  "\<exists>d. Request_descriptor rf rt = Ret d \<and> d_view d = Request_schema"
  "\<exists>d. Ping_descriptor rf rt = Ret d \<and> d_view d = Ping_schema"
  "\<exists>d. Isync_descriptor rf rt = Ret d \<and> d_view d = Isync_schema"
  "\<exists>d. Response_descriptor rf rt = Ret d \<and> d_view d = Response_schema"
  "\<exists>d. Pong_descriptor rf rt = Ret d \<and> d_view d = Pong_schema"
  "\<exists>d. Redirect_descriptor rf rt = Ret d \<and> d_view d = Redirect_schema"
  "\<exists>d. Fsync_descriptor rf rt = Ret d \<and> d_view d = Fsync_schema"
  "\<exists>d. Rsync_descriptor rf rt = Ret d \<and> d_view d = Rsync_schema"
  "\<exists>d. Bye_descriptor rf rt = Ret d \<and> d_view d = Bye_schema"
  unfolding Request_descriptor_def Ping_descriptor_def Isync_descriptor_def Response_descriptor_def Pong_descriptor_def Redirect_descriptor_def Fsync_descriptor_def Rsync_descriptor_def Bye_descriptor_def
  by (rule message_found; simp add: rndz_schema_def schema_defs)+

lemma oneofs_found:
  "\<exists>x. ReqCmd_descriptor rf rt = Ret x \<and> o_view x = ''cmd''"
  "\<exists>x. RespCmd_descriptor rf rt = Ret x \<and> o_view x = ''cmd''"
proof -
  obtain d where "Request_descriptor rf rt = Ret d" "d_view d = Request_schema" using messages_found(1) by blast
  then show "\<exists>x. ReqCmd_descriptor rf rt = Ret x \<and> o_view x = ''cmd''"
    unfolding ReqCmd_descriptor_def by (intro oneof_found) (simp_all add: schema_defs)
  obtain d where "Response_descriptor rf rt = Ret d" "d_view d = Response_schema" using messages_found(4) by blast
  then show "\<exists>x. RespCmd_descriptor rf rt = Ret x \<and> o_view x = ''cmd''"
    unfolding RespCmd_descriptor_def by (intro oneof_found) (simp_all add: schema_defs)
qed

end

text \<open>A runtime in which the objects are the descriptions themselves and the tables are checked.\<close>

definition plain_reflect :: "(file_schema, file_schema, file_schema, message_schema, string, 'u) reflect_rt" where
  "plain_reflect =
     \<lparr>rf_parse = (\<lambda>bs. case described_file bs of None \<Rightarrow> Inl wire_error | Some s \<Rightarrow> Inr s),
      rf_new_generated = (\<lambda>s ms. if list_all2 any_fits (file_messages s) ms then Ret s else Panic),
      rf_new_generated_2 = Ret,
      rf_message_by_name = (\<lambda>s n. find (\<lambda>m. ms_name m = n) (file_messages s)),
      rf_oneof_by_name = (\<lambda>ms n. find (\<lambda>x. x = n) (ms_oneofs ms))\<rparr>"

interpretation plain_reflection: pb_reflection plain_reflect id id id id
proof unfold_locales
  fix n and d :: message_schema
  assume "n \<in> set (ms_oneofs (id d))"
  then show "\<exists>x. rf_oneof_by_name plain_reflect d n = Some x \<and> id x = n"
    by (cases "find (\<lambda>x. x = n) (ms_oneofs d)") (auto simp: plain_reflect_def find_None_iff find_Some_iff)
qed (simp_all add: plain_reflect_def)

section \<open>Properties\<close>

text \<open>C40. The generated code and the description embedded in the file agree. The bytes decode
  to a description in which every message is found under its name; the accessors that the
  message registers fit its fields in name and type; and its parser, size and writer are the
  generic ones of the description: field numbers, the order of the fields, what is skipped,
  and what a member of a oneof replaces. The
  accessors obey the laws of a field.\<close>

theorem codec_follows_description:
  "follows rt (Request_data rt) req_special req_special_update (Request_arm rt) (Request_compute_size rt) (Request_write rt)
   \<and> follows rt Ping_data ping_special ping_special_update (Ping_arm rt) (Ping_compute_size rt) (Ping_write rt)
   \<and> follows rt Isync_data isync_special isync_special_update (Isync_arm rt) (Isync_compute_size rt) (Isync_write rt)
   \<and> follows rt (Response_data rt) resp_special resp_special_update (Response_arm rt) (Response_compute_size rt) (Response_write rt)
   \<and> follows rt Pong_data pong_special pong_special_update (Pong_arm rt) (Pong_compute_size rt) (Pong_write rt)
   \<and> follows rt Redirect_data redirect_special redirect_special_update (Redirect_arm rt) (Redirect_compute_size rt) (Redirect_write rt)
   \<and> follows rt Fsync_data fsync_special fsync_special_update (Fsync_arm rt) (Fsync_compute_size rt) (Fsync_write rt)
   \<and> follows rt Rsync_data rsync_special rsync_special_update (Rsync_arm rt) (Rsync_compute_size rt) (Rsync_write rt)
   \<and> follows rt Bye_data bye_special bye_special_update (Bye_arm rt) (Bye_compute_size rt) (Bye_write rt)"
  by (intro conjI Request_follows Ping_follows Isync_follows Response_follows Pong_follows Redirect_follows Fsync_follows Rsync_follows Bye_follows)

text \<open>No lookup of a descriptor panics: the description decodes, its messages are those
  for which \<open>file_descriptor\<close> registers tables, in the same order, each \<open>descriptor()\<close> finds its
  message and both oneofs are found.\<close>

theorem descriptors_found:
  assumes "pb_reflection rf p_view f_view d_view o_view"
  shows "(\<exists>d. Request_descriptor rf rt = Ret d \<and> d_view d = Request_schema)
    \<and> (\<exists>d. Ping_descriptor rf rt = Ret d \<and> d_view d = Ping_schema)
    \<and> (\<exists>d. Isync_descriptor rf rt = Ret d \<and> d_view d = Isync_schema)
    \<and> (\<exists>d. Response_descriptor rf rt = Ret d \<and> d_view d = Response_schema)
    \<and> (\<exists>d. Pong_descriptor rf rt = Ret d \<and> d_view d = Pong_schema)
    \<and> (\<exists>d. Redirect_descriptor rf rt = Ret d \<and> d_view d = Redirect_schema)
    \<and> (\<exists>d. Fsync_descriptor rf rt = Ret d \<and> d_view d = Fsync_schema)
    \<and> (\<exists>d. Rsync_descriptor rf rt = Ret d \<and> d_view d = Rsync_schema)
    \<and> (\<exists>d. Bye_descriptor rf rt = Ret d \<and> d_view d = Bye_schema)
    \<and> (\<exists>x. ReqCmd_descriptor rf rt = Ret x \<and> o_view x = ''cmd'')
    \<and> (\<exists>x. RespCmd_descriptor rf rt = Ret x \<and> o_view x = ''cmd'')"
  by (intro conjI pb_reflection.messages_found[OF assms] pb_reflection.oneofs_found[OF assms])

theorem descriptors_found_witness:
  "Request_descriptor plain_reflect wire_rt = Ret Request_schema"
  using descriptors_found[OF plain_reflection.pb_reflection_axioms, of wire_rt] by simp

end
