(* ===== verification/Proto_Trait.thy ===== *)
theory Proto_Trait
  imports Proto_Reset Proto_Reflect
begin

text \<open>
  The rest of \<open>impl Message\<close> for the nine generated messages of \<open>src/proto/rndz.rs\<close>: the
  name, \<open>is_initialized\<close>, the access to the special fields, \<open>new\<close> of the trait and
  \<open>Default\<close> of references. \<open>mut_special_fields\<close> hands out a mutable reference; here it
  takes what is done through the reference. The locale \<open>message_trait\<close> states what the
  methods of a message promise together, and is interpreted on each of them.
\<close>

section \<open>The methods\<close>

definition Request_default :: "'u pb_rt \<Rightarrow> 'u Request" where
  "Request_default rt = Request_default_instance rt"

definition Request_NAME :: string where
  "Request_NAME = ''Request''"

definition Request_is_initialized :: "'u Request \<Rightarrow> bool" where
  "Request_is_initialized m = True"

definition Request_special_fields :: "'u Request \<Rightarrow> 'u SpecialFields" where
  "Request_special_fields m = req_special m"

definition Request_mut_special_fields :: "('u SpecialFields \<Rightarrow> 'u SpecialFields) \<Rightarrow> 'u Request \<Rightarrow> 'u Request" where
  "Request_mut_special_fields f m = m\<lparr>req_special := f (req_special m)\<rparr>"

definition Request_trait_new :: "'u pb_rt \<Rightarrow> 'u Request" where
  "Request_trait_new rt = Request_new rt"

definition Ping_default :: "'u pb_rt \<Rightarrow> 'u Ping" where
  "Ping_default rt = Ping_default_instance rt"

definition Ping_NAME :: string where
  "Ping_NAME = ''Ping''"

definition Ping_is_initialized :: "'u Ping \<Rightarrow> bool" where
  "Ping_is_initialized m = True"

definition Ping_special_fields :: "'u Ping \<Rightarrow> 'u SpecialFields" where
  "Ping_special_fields m = ping_special m"

definition Ping_mut_special_fields :: "('u SpecialFields \<Rightarrow> 'u SpecialFields) \<Rightarrow> 'u Ping \<Rightarrow> 'u Ping" where
  "Ping_mut_special_fields f m = m\<lparr>ping_special := f (ping_special m)\<rparr>"

definition Ping_trait_new :: "'u pb_rt \<Rightarrow> 'u Ping" where
  "Ping_trait_new rt = Ping_new rt"

definition Isync_default :: "'u pb_rt \<Rightarrow> 'u Isync" where
  "Isync_default rt = Isync_default_instance rt"

definition Isync_NAME :: string where
  "Isync_NAME = ''Isync''"

definition Isync_is_initialized :: "'u Isync \<Rightarrow> bool" where
  "Isync_is_initialized m = True"

definition Isync_special_fields :: "'u Isync \<Rightarrow> 'u SpecialFields" where
  "Isync_special_fields m = isync_special m"

definition Isync_mut_special_fields :: "('u SpecialFields \<Rightarrow> 'u SpecialFields) \<Rightarrow> 'u Isync \<Rightarrow> 'u Isync" where
  "Isync_mut_special_fields f m = m\<lparr>isync_special := f (isync_special m)\<rparr>"

definition Isync_trait_new :: "'u pb_rt \<Rightarrow> 'u Isync" where
  "Isync_trait_new rt = Isync_new rt"

definition Response_default :: "'u pb_rt \<Rightarrow> 'u Response" where
  "Response_default rt = Response_default_instance rt"

definition Response_NAME :: string where
  "Response_NAME = ''Response''"

definition Response_is_initialized :: "'u Response \<Rightarrow> bool" where
  "Response_is_initialized m = True"

definition Response_special_fields :: "'u Response \<Rightarrow> 'u SpecialFields" where
  "Response_special_fields m = resp_special m"

definition Response_mut_special_fields :: "('u SpecialFields \<Rightarrow> 'u SpecialFields) \<Rightarrow> 'u Response \<Rightarrow> 'u Response" where
  "Response_mut_special_fields f m = m\<lparr>resp_special := f (resp_special m)\<rparr>"

definition Response_trait_new :: "'u pb_rt \<Rightarrow> 'u Response" where
  "Response_trait_new rt = Response_new rt"

definition Pong_default :: "'u pb_rt \<Rightarrow> 'u Pong" where
  "Pong_default rt = Pong_default_instance rt"

definition Pong_NAME :: string where
  "Pong_NAME = ''Pong''"

definition Pong_is_initialized :: "'u Pong \<Rightarrow> bool" where
  "Pong_is_initialized m = True"

definition Pong_special_fields :: "'u Pong \<Rightarrow> 'u SpecialFields" where
  "Pong_special_fields m = pong_special m"

definition Pong_mut_special_fields :: "('u SpecialFields \<Rightarrow> 'u SpecialFields) \<Rightarrow> 'u Pong \<Rightarrow> 'u Pong" where
  "Pong_mut_special_fields f m = m\<lparr>pong_special := f (pong_special m)\<rparr>"

definition Pong_trait_new :: "'u pb_rt \<Rightarrow> 'u Pong" where
  "Pong_trait_new rt = Pong_new rt"

definition Redirect_default :: "'u pb_rt \<Rightarrow> 'u Redirect" where
  "Redirect_default rt = Redirect_default_instance rt"

definition Redirect_NAME :: string where
  "Redirect_NAME = ''Redirect''"

definition Redirect_is_initialized :: "'u Redirect \<Rightarrow> bool" where
  "Redirect_is_initialized m = True"

definition Redirect_special_fields :: "'u Redirect \<Rightarrow> 'u SpecialFields" where
  "Redirect_special_fields m = redirect_special m"

definition Redirect_mut_special_fields :: "('u SpecialFields \<Rightarrow> 'u SpecialFields) \<Rightarrow> 'u Redirect \<Rightarrow> 'u Redirect" where
  "Redirect_mut_special_fields f m = m\<lparr>redirect_special := f (redirect_special m)\<rparr>"

definition Redirect_trait_new :: "'u pb_rt \<Rightarrow> 'u Redirect" where
  "Redirect_trait_new rt = Redirect_new rt"

definition Fsync_default :: "'u pb_rt \<Rightarrow> 'u Fsync" where
  "Fsync_default rt = Fsync_default_instance rt"

definition Fsync_NAME :: string where
  "Fsync_NAME = ''Fsync''"

definition Fsync_is_initialized :: "'u Fsync \<Rightarrow> bool" where
  "Fsync_is_initialized m = True"

definition Fsync_special_fields :: "'u Fsync \<Rightarrow> 'u SpecialFields" where
  "Fsync_special_fields m = fsync_special m"

definition Fsync_mut_special_fields :: "('u SpecialFields \<Rightarrow> 'u SpecialFields) \<Rightarrow> 'u Fsync \<Rightarrow> 'u Fsync" where
  "Fsync_mut_special_fields f m = m\<lparr>fsync_special := f (fsync_special m)\<rparr>"

definition Fsync_trait_new :: "'u pb_rt \<Rightarrow> 'u Fsync" where
  "Fsync_trait_new rt = Fsync_new rt"

definition Rsync_default :: "'u pb_rt \<Rightarrow> 'u Rsync" where
  "Rsync_default rt = Rsync_default_instance rt"

definition Rsync_NAME :: string where
  "Rsync_NAME = ''Rsync''"

definition Rsync_is_initialized :: "'u Rsync \<Rightarrow> bool" where
  "Rsync_is_initialized m = True"

definition Rsync_special_fields :: "'u Rsync \<Rightarrow> 'u SpecialFields" where
  "Rsync_special_fields m = rsync_special m"

definition Rsync_mut_special_fields :: "('u SpecialFields \<Rightarrow> 'u SpecialFields) \<Rightarrow> 'u Rsync \<Rightarrow> 'u Rsync" where
  "Rsync_mut_special_fields f m = m\<lparr>rsync_special := f (rsync_special m)\<rparr>"

definition Rsync_trait_new :: "'u pb_rt \<Rightarrow> 'u Rsync" where
  "Rsync_trait_new rt = Rsync_new rt"

definition Bye_default :: "'u pb_rt \<Rightarrow> 'u Bye" where
  "Bye_default rt = Bye_default_instance rt"

definition Bye_NAME :: string where
  "Bye_NAME = ''Bye''"

definition Bye_is_initialized :: "'u Bye \<Rightarrow> bool" where
  "Bye_is_initialized m = True"

definition Bye_special_fields :: "'u Bye \<Rightarrow> 'u SpecialFields" where
  "Bye_special_fields m = bye_special m"

definition Bye_mut_special_fields :: "('u SpecialFields \<Rightarrow> 'u SpecialFields) \<Rightarrow> 'u Bye \<Rightarrow> 'u Bye" where
  "Bye_mut_special_fields f m = m\<lparr>bye_special := f (bye_special m)\<rparr>"

definition Bye_trait_new :: "'u pb_rt \<Rightarrow> 'u Bye" where
  "Bye_trait_new rt = Bye_new rt"

section \<open>What they promise\<close>

locale message_trait =
  fixes rt :: "'u pb_rt"
    and special :: "'m \<Rightarrow> 'u SpecialFields"
    and mut_special :: "('u SpecialFields \<Rightarrow> 'u SpecialFields) \<Rightarrow> 'm \<Rightarrow> 'm"
    and trait_new default default_instance :: 'm
    and clear :: "('u SpecialFields \<Rightarrow> 'u SpecialFields) \<Rightarrow> 'm \<Rightarrow> 'm"
    and compute_size :: "'m \<Rightarrow> u64 \<times> 'm"
    and is_initialized :: "'m \<Rightarrow> bool"
  assumes special_mut: "special (mut_special f m) = f (special m)"
    and mut_mut: "mut_special f (mut_special g m) = mut_special (f \<circ> g) m"
    and mut_same: "mut_special (\<lambda>_. special m) m = m"
    and new_special: "special trait_new = SpecialFields_new rt"
    and default_new: "default = trait_new \<and> default_instance = trait_new"
    and clear_new: "clear sf m = mut_special (\<lambda>_. sf (special m)) trait_new"
    and size_cached: "special (snd (compute_size m)) = set_cached_size (fst (compute_size m)) (special m)"
    and initialized: "is_initialized m"
begin

text \<open>The writer finds the size that \<open>compute_size\<close> has returned, cut to 32 bits, and no unknown field changed.\<close>

lemma size_found:
  "cached_size (special (snd (compute_size m))) = ucast (fst (compute_size m))"
  "unknown_fields (special (snd (compute_size m))) = unknown_fields (special m)"
  by (simp_all add: size_cached)

text \<open>A cleared message remembers nothing but what \<open>SpecialFields::clear\<close> leaves.\<close>

lemma cleared_same: "special m = special m' \<Longrightarrow> clear sf m = clear sf m'"
  by (simp add: clear_new)

lemma clear_twice: "clear sf (clear sg m) = clear (sf \<circ> sg) m"
  by (simp add: clear_new special_mut)

lemma cleared_unknown: "clears_unknown rt sf \<Longrightarrow> unknown_fields (special (clear sf m)) = rt_unknown_new rt"
  by (simp add: clear_new special_mut clears_unknown_def)

text \<open>Clearing a sized message gives the same as clearing it unsized, if \<open>SpecialFields::clear\<close> resets the size.\<close>

lemma cleared_size:
  assumes "\<And>f g. unknown_fields f = unknown_fields g \<Longrightarrow> sf f = sf g"
  shows "clear sf (snd (compute_size m)) = clear sf m"
proof -
  have "sf (special (snd (compute_size m))) = sf (special m)" by (rule assms) (simp add: size_found)
  then show ?thesis by (simp add: clear_new)
qed

text \<open>A new message is the default, and what is done to the special fields of one undone.\<close>

lemma mut_undo: "mut_special (\<lambda>_. special m) (mut_special f m) = m"
  using mut_mut[of "\<lambda>_. special m" f m] mut_same[of m] by (simp add: comp_def)

lemma default_special: "special default = SpecialFields_new rt" "special default_instance = SpecialFields_new rt"
  using default_new new_special by simp_all

end

section \<open>The nine messages\<close>

interpretation request_trait: message_trait rt Request_special_fields Request_mut_special_fields "Request_trait_new rt" "Request_default rt"
    "Request_default_instance rt" Request_clear "Request_compute_size rt" Request_is_initialized
  for rt
  by unfold_locales (simp_all add: Request_special_fields_def Request_mut_special_fields_def Request_trait_new_def Request_default_def
      Request_default_instance_def Request_clear_def Request_is_initialized_def Request_new_def Request_compute_size_def Let_def
      split: option.split prod.split ReqCmd.split)

interpretation ping_trait: message_trait rt Ping_special_fields Ping_mut_special_fields "Ping_trait_new rt" "Ping_default rt"
    "Ping_default_instance rt" Ping_clear "Ping_compute_size rt" Ping_is_initialized
  for rt
  by unfold_locales (simp_all add: Ping_special_fields_def Ping_mut_special_fields_def Ping_trait_new_def Ping_default_def
      Ping_default_instance_def Ping_clear_def Ping_is_initialized_def Ping_new_def Ping_compute_size_def Let_def
      split: option.split  )

interpretation isync_trait: message_trait rt Isync_special_fields Isync_mut_special_fields "Isync_trait_new rt" "Isync_default rt"
    "Isync_default_instance rt" Isync_clear "Isync_compute_size rt" Isync_is_initialized
  for rt
  by unfold_locales (simp_all add: Isync_special_fields_def Isync_mut_special_fields_def Isync_trait_new_def Isync_default_def
      Isync_default_instance_def Isync_clear_def Isync_is_initialized_def Isync_new_def Isync_compute_size_def Let_def
      split: option.split  )

interpretation response_trait: message_trait rt Response_special_fields Response_mut_special_fields "Response_trait_new rt" "Response_default rt"
    "Response_default_instance rt" Response_clear "Response_compute_size rt" Response_is_initialized
  for rt
  by unfold_locales (simp_all add: Response_special_fields_def Response_mut_special_fields_def Response_trait_new_def Response_default_def
      Response_default_instance_def Response_clear_def Response_is_initialized_def Response_new_def Response_compute_size_def Let_def
      split: option.split prod.split RespCmd.split)

interpretation pong_trait: message_trait rt Pong_special_fields Pong_mut_special_fields "Pong_trait_new rt" "Pong_default rt"
    "Pong_default_instance rt" Pong_clear "Pong_compute_size rt" Pong_is_initialized
  for rt
  by unfold_locales (simp_all add: Pong_special_fields_def Pong_mut_special_fields_def Pong_trait_new_def Pong_default_def
      Pong_default_instance_def Pong_clear_def Pong_is_initialized_def Pong_new_def Pong_compute_size_def Let_def
      split: option.split  )

interpretation redirect_trait: message_trait rt Redirect_special_fields Redirect_mut_special_fields "Redirect_trait_new rt" "Redirect_default rt"
    "Redirect_default_instance rt" Redirect_clear "Redirect_compute_size rt" Redirect_is_initialized
  for rt
  by unfold_locales (simp_all add: Redirect_special_fields_def Redirect_mut_special_fields_def Redirect_trait_new_def Redirect_default_def
      Redirect_default_instance_def Redirect_clear_def Redirect_is_initialized_def Redirect_new_def Redirect_compute_size_def Let_def
      split: option.split  )

interpretation fsync_trait: message_trait rt Fsync_special_fields Fsync_mut_special_fields "Fsync_trait_new rt" "Fsync_default rt"
    "Fsync_default_instance rt" Fsync_clear "Fsync_compute_size rt" Fsync_is_initialized
  for rt
  by unfold_locales (simp_all add: Fsync_special_fields_def Fsync_mut_special_fields_def Fsync_trait_new_def Fsync_default_def
      Fsync_default_instance_def Fsync_clear_def Fsync_is_initialized_def Fsync_new_def Fsync_compute_size_def Let_def
      split: option.split  )

interpretation rsync_trait: message_trait rt Rsync_special_fields Rsync_mut_special_fields "Rsync_trait_new rt" "Rsync_default rt"
    "Rsync_default_instance rt" Rsync_clear "Rsync_compute_size rt" Rsync_is_initialized
  for rt
  by unfold_locales (simp_all add: Rsync_special_fields_def Rsync_mut_special_fields_def Rsync_trait_new_def Rsync_default_def
      Rsync_default_instance_def Rsync_clear_def Rsync_is_initialized_def Rsync_new_def Rsync_compute_size_def Let_def
      split: option.split  )

interpretation bye_trait: message_trait rt Bye_special_fields Bye_mut_special_fields "Bye_trait_new rt" "Bye_default rt"
    "Bye_default_instance rt" Bye_clear "Bye_compute_size rt" Bye_is_initialized
  for rt
  by unfold_locales (simp_all add: Bye_special_fields_def Bye_mut_special_fields_def Bye_trait_new_def Bye_default_def
      Bye_default_instance_def Bye_clear_def Bye_is_initialized_def Bye_new_def Bye_compute_size_def Let_def
      split: option.split  )

section \<open>Names\<close>

text \<open>The name of a message is the one under which its descriptor is looked up in the embedded description.\<close>

lemma names_described:
  "map ms_name (file_messages rndz_schema) = [Request_NAME, Ping_NAME, Isync_NAME, Response_NAME, Pong_NAME, Redirect_NAME, Fsync_NAME, Rsync_NAME, Bye_NAME]"
  by (simp add: Request_NAME_def Ping_NAME_def Isync_NAME_def Response_NAME_def Pong_NAME_def Redirect_NAME_def Fsync_NAME_def Rsync_NAME_def Bye_NAME_def rndz_schema_def schema_defs)

end
