(* ===== verification/Net_Addr.thy ===== *)
theory Net_Addr
  imports Prelude
begin

text \<open>
  Socket addresses of the Rust standard library, as the program uses them:
  \<open>std::net::SocketAddr\<close> with its two variants, \<open>to_string\<close> (how an observed address
  travels inside a \<open>Redirect\<close> or \<open>Fsync\<close> message) and \<open>parse::<SocketAddr>()\<close> (how the
  receiving peer reads it). The printer compresses the longest run of zero groups of an
  IPv6 address and prints an IPv4-mapped address with a dotted quad; the parser is the
  library's recursive descent parser, in which every reader gives its input back when it
  fails. The main result is that parsing a printed address gives the address, with the
  IPv6 flow label lost because it is never printed.
\<close>

section \<open>Addresses\<close>

datatype Ipv4Addr = Ipv4 u8 u8 u8 u8

datatype Ipv6Addr = Ipv6 u16 u16 u16 u16 u16 u16 u16 u16

datatype SocketAddr =
  V4 Ipv4Addr u16
| V6 Ipv6Addr u16 u32 u32  \<comment> \<open>address, port, flow label, scope\<close>

primrec port :: "SocketAddr \<Rightarrow> u16" where
  "port (V4 ip p) = p"
| "port (V6 ip p flow scope) = p"

primrec is_ipv6 :: "SocketAddr \<Rightarrow> bool" where
  "is_ipv6 (V4 ip p) = False"
| "is_ipv6 (V6 ip p flow scope) = True"

primrec segments :: "Ipv6Addr \<Rightarrow> u16 list" where
  "segments (Ipv6 a b c d e f g h) = [a, b, c, d, e, f, g, h]"

fun of_segments :: "u16 list \<Rightarrow> Ipv6Addr option" where
  "of_segments [a, b, c, d, e, f, g, h] = Some (Ipv6 a b c d e f g h)"
| "of_segments _ = None"

definition u16_of_bytes :: "u8 \<Rightarrow> u8 \<Rightarrow> u16" where
  "u16_of_bytes a b = of_nat (256 * unat a + unat b)"

definition high_byte :: "u16 \<Rightarrow> u8" where
  "high_byte w = of_nat (unat w div 256)"

definition low_byte :: "u16 \<Rightarrow> u8" where
  "low_byte w = of_nat (unat w mod 256)"

definition to_ipv4_mapped :: "Ipv6Addr \<Rightarrow> Ipv4Addr option" where
  "to_ipv4_mapped ip =
     (case ip of Ipv6 a b c d e f g h \<Rightarrow>
        if a = 0 \<and> b = 0 \<and> c = 0 \<and> d = 0 \<and> e = 0 \<and> f = 65535
        then Some (Ipv4 (high_byte g) (low_byte g) (high_byte h) (low_byte h)) else None)"

primrec to_ipv6_mapped :: "Ipv4Addr \<Rightarrow> Ipv6Addr" where
  "to_ipv6_mapped (Ipv4 a b c d) = Ipv6 0 0 0 0 0 65535 (u16_of_bytes a b) (u16_of_bytes c d)"

lemma high_low_byte [simp]: "u16_of_bytes (high_byte w) (low_byte w) = w"
proof -
  have "unat w < 2 ^ 16" using unsigned_less[of w, where ?'a = nat] by simp
  then have "unat w div 256 < 256" by simp
  then have "unat (high_byte w) = unat w div 256" "unat (low_byte w) = unat w mod 256"
    by (simp_all add: high_byte_def low_byte_def unat_of_nat)
  then show ?thesis by (simp add: u16_of_bytes_def)
qed

lemma unat_u16_of_bytes: "unat (u16_of_bytes a b) = 256 * unat a + unat b"
  using unsigned_less[of a, where ?'a = nat] unsigned_less[of b, where ?'a = nat]
  by (simp add: u16_of_bytes_def unat_of_nat del: of_nat_add of_nat_mult)

lemma bytes_of_u16 [simp]:
  "high_byte (u16_of_bytes a b) = a" "low_byte (u16_of_bytes a b) = b"
  using unsigned_less[of a, where ?'a = nat] unsigned_less[of b, where ?'a = nat]
  by (simp_all add: high_byte_def low_byte_def unat_u16_of_bytes)

lemma to_ipv4_mapped_Some:
  "to_ipv4_mapped ip = Some ip4 \<longleftrightarrow> ip = to_ipv6_mapped ip4"
  by (cases ip; cases ip4) (auto simp: to_ipv4_mapped_def)

lemma of_segments_segments [simp]: "of_segments (segments ip) = Some ip"
  by (cases ip) simp

lemma length_segments [simp]: "length (segments ip) = 8"
  by (cases ip) simp

section \<open>Printing\<close>

definition digit_char :: "nat \<Rightarrow> char" where
  "digit_char d = (if d < 10 then char_of (48 + d) else char_of (87 + d))"

fun digits :: "nat \<Rightarrow> nat \<Rightarrow> nat list" where
  "digits b n = (if b < 2 \<or> n < b then [n] else digits b (n div b) @ [n mod b])"

declare digits.simps [simp del]

definition show_number :: "nat \<Rightarrow> nat \<Rightarrow> string" where
  "show_number radix n = map digit_char (digits radix n)"

primrec show_ipv4 :: "Ipv4Addr \<Rightarrow> string" where
  "show_ipv4 (Ipv4 a b c d) =
     show_number 10 (unat a) @ ''.'' @ show_number 10 (unat b) @ ''.'' @
     show_number 10 (unat c) @ ''.'' @ show_number 10 (unat d)"

text \<open>The longest run of zero groups, the first one when several are as long: start and length.\<close>

fun longest_zeros :: "nat \<Rightarrow> nat \<times> nat \<Rightarrow> nat \<times> nat \<Rightarrow> u16 list \<Rightarrow> nat \<times> nat" where
  "longest_zeros i current longest [] = longest"
| "longest_zeros i current longest (s # ss) =
     (if s = 0
      then (let current = ((if snd current = 0 then i else fst current), snd current + 1)
            in longest_zeros (i + 1) current
                 (if snd current > snd longest then current else longest) ss)
      else longest_zeros (i + 1) (0, 0) longest ss)"

fun show_groups :: "u16 list \<Rightarrow> string" where
  "show_groups [] = []"
| "show_groups [g] = show_number 16 (unat g)"
| "show_groups (g # gs) = show_number 16 (unat g) @ '':'' @ show_groups gs"

definition show_ipv6 :: "Ipv6Addr \<Rightarrow> string" where
  "show_ipv6 ip =
     (case to_ipv4_mapped ip of
        Some ip4 \<Rightarrow> ''::ffff:'' @ show_ipv4 ip4
      | None \<Rightarrow>
          (let (start, len) = longest_zeros 0 (0, 0) (0, 0) (segments ip) in
           if len > 1
           then show_groups (take start (segments ip)) @ ''::'' @ show_groups (drop (start + len) (segments ip))
           else show_groups (segments ip)))"

primrec show_addr :: "SocketAddr \<Rightarrow> string" where
  "show_addr (V4 ip p) = show_ipv4 ip @ '':'' @ show_number 10 (unat p)"
| "show_addr (V6 ip p flow scope) =
     ''['' @ show_ipv6 ip @ (if scope = 0 then [] else ''%'' @ show_number 10 (unat scope))
       @ '']:'' @ show_number 10 (unat p)"

section \<open>Parsing\<close>

type_synonym 'a reader = "string \<Rightarrow> ('a \<times> string) option"

definition then_read :: "('a \<times> string) option \<Rightarrow> ('a \<Rightarrow> 'b reader) \<Rightarrow> ('b \<times> string) option" where
  "then_read r f = (case r of None \<Rightarrow> None | Some (x, s) \<Rightarrow> f x s)"

lemma then_read_simps [simp]: "then_read None f = None" "then_read (Some (x, s)) f = f x s"
  by (simp_all add: then_read_def)

definition read_given_char :: "char \<Rightarrow> unit reader" where
  "read_given_char c s = (case s of [] \<Rightarrow> None | d # s' \<Rightarrow> if d = c then Some ((), s') else None)"

definition to_digit :: "nat \<Rightarrow> char \<Rightarrow> nat option" where
  "to_digit radix c =
     (let n = of_char c;
          d = (if 48 \<le> n \<and> n \<le> 57 then Some (n - 48)
               else if 97 \<le> n \<and> n \<le> 122 then Some (n - 87)
               else if 65 \<le> n \<and> n \<le> 90 then Some (n - 55)
               else None)
      in case d of Some d \<Rightarrow> if d < radix then Some d else None | None \<Rightarrow> None)"

definition is_digit :: "nat \<Rightarrow> char \<Rightarrow> bool" where
  "is_digit radix c \<longleftrightarrow> to_digit radix c \<noteq> None"

fun number_of :: "nat \<Rightarrow> nat \<Rightarrow> string \<Rightarrow> nat" where
  "number_of radix acc [] = acc"
| "number_of radix acc (c # s) = number_of radix (acc * radix + the (to_digit radix c)) s"

definition read_number :: "nat \<Rightarrow> nat option \<Rightarrow> bool \<Rightarrow> nat \<Rightarrow> nat reader" where
  "read_number radix max_digits allow_zero_prefix bound s =
     (let ds = takeWhile (is_digit radix) s; n = number_of radix 0 ds in
      if ds = [] then None
      else if (case max_digits of None \<Rightarrow> False | Some k \<Rightarrow> length ds > k) then None
      else if \<not> allow_zero_prefix \<and> hd ds = CHR ''0'' \<and> length ds > 1 then None
      else if n > bound then None
      else Some (n, dropWhile (is_digit radix) s))"

definition read_separator :: "char \<Rightarrow> nat \<Rightarrow> 'a reader \<Rightarrow> 'a reader" where
  "read_separator sep i inner s =
     (if i > 0 then then_read (read_given_char sep s) (\<lambda>_. inner) else inner s)"

definition read_octet :: "nat reader" where
  "read_octet = read_number 10 (Some 3) False 255"

definition read_ipv4 :: "Ipv4Addr reader" where
  "read_ipv4 s =
     then_read (read_separator CHR ''.'' 0 read_octet s) (\<lambda>a s.
     then_read (read_separator CHR ''.'' 1 read_octet s) (\<lambda>b s.
     then_read (read_separator CHR ''.'' 2 read_octet s) (\<lambda>c s.
     then_read (read_separator CHR ''.'' 3 read_octet s) (\<lambda>d s.
       Some (Ipv4 (of_nat a) (of_nat b) (of_nat c) (of_nat d), s)))))"

text \<open>
  \<open>read_groups\<close>: the groups read, whether the last two came from an embedded IPv4
  address, and the rest of the input.
\<close>

function read_groups :: "nat \<Rightarrow> nat \<Rightarrow> string \<Rightarrow> u16 list \<times> bool \<times> string" where
  "read_groups i limit s =
     (if i \<ge> limit then ([], False, s)
      else
        (case (if i + 1 < limit then read_separator CHR '':'' i read_ipv4 s else None) of
           Some (Ipv4 a b c d, s') \<Rightarrow> ([u16_of_bytes a b, u16_of_bytes c d], True, s')
         | None \<Rightarrow>
             (case read_separator CHR '':'' i (read_number 16 (Some 4) True 65535) s of
                None \<Rightarrow> ([], False, s)
              | Some (g, s') \<Rightarrow>
                  (let (gs, v4, s'') = read_groups (i + 1) limit s' in (of_nat g # gs, v4, s'')))))"
  by pat_completeness auto
termination
  by (relation "measure (\<lambda>(i, limit, s). limit - i)") auto

declare read_groups.simps [simp del]

definition read_ipv6 :: "Ipv6Addr reader" where
  "read_ipv6 s =
     (let (head, v4, s) = read_groups 0 8 s in
      if length head = 8 then map_option (\<lambda>ip. (ip, s)) (of_segments head)
      else if v4 then None
      else
        then_read (read_given_char CHR '':'' s) (\<lambda>_ s.
        then_read (read_given_char CHR '':'' s) (\<lambda>_ s.
          (let (tail, _, s) = read_groups 0 (8 - (length head + 1)) s
           in map_option (\<lambda>ip. (ip, s))
                (of_segments (head @ replicate (8 - length head - length tail) 0 @ tail))))))"

definition read_port :: "u16 reader" where
  "read_port s =
     then_read (read_given_char CHR '':'' s) (\<lambda>_ s.
     then_read (read_number 10 None True 65535 s) (\<lambda>n s. Some (of_nat n, s)))"

definition read_scope_id :: "u32 reader" where
  "read_scope_id s =
     then_read (read_given_char CHR ''%'' s) (\<lambda>_ s.
     then_read (read_number 10 None True (2 ^ 32 - 1) s) (\<lambda>n s. Some (of_nat n, s)))"

definition read_socket_v4 :: "SocketAddr reader" where
  "read_socket_v4 s =
     then_read (read_ipv4 s) (\<lambda>ip s. then_read (read_port s) (\<lambda>p s. Some (V4 ip p, s)))"

definition read_socket_v6 :: "SocketAddr reader" where
  "read_socket_v6 s =
     then_read (read_given_char CHR ''['' s) (\<lambda>_ s.
     then_read (read_ipv6 s) (\<lambda>ip s.
     (let (scope, s) = (case read_scope_id s of Some (x, s') \<Rightarrow> (x, s') | None \<Rightarrow> (0, s)) in
     then_read (read_given_char CHR '']'' s) (\<lambda>_ s.
     then_read (read_port s) (\<lambda>p s. Some (V6 ip p 0 scope, s))))))"

definition parse_addr :: "string \<Rightarrow> SocketAddr option" where
  "parse_addr s =
     (case (case read_socket_v4 s of None \<Rightarrow> read_socket_v6 s | Some r \<Rightarrow> Some r) of
        Some (a, []) \<Rightarrow> Some a
      | _ \<Rightarrow> None)"


section \<open>Numbers: parsing what was printed\<close>

lemma digits_bound: "2 \<le> b \<Longrightarrow> \<forall>d \<in> set (digits b n). d < b"
proof (induction b n rule: digits.induct)
  case (1 b n)
  show ?case
  proof (cases "n < b")
    case True
    with "1.prems" show ?thesis by (simp add: digits.simps [of b n])
  next
    case False
    with "1" have "\<forall>d \<in> set (digits b (n div b)). d < b" by simp
    with False "1.prems" show ?thesis by (simp add: digits.simps [of b n])
  qed
qed

lemma digits_not_Nil [simp]: "digits b n \<noteq> []"
  by (subst digits.simps) simp

lemma digits_length: "2 \<le> b \<Longrightarrow> n < b ^ k \<Longrightarrow> 0 < k \<Longrightarrow> length (digits b n) \<le> k"
proof (induction k arbitrary: n)
  case 0
  then show ?case by simp
next
  case (Suc k)
  show ?case
  proof (cases "n < b")
    case True
    then show ?thesis by (subst digits.simps) simp
  next
    case False
    then have "0 < k" using Suc.prems by (cases k) auto
    moreover have "n div b < b ^ k"
      using Suc.prems by (intro less_mult_imp_div_less) (simp add: mult.commute)
    ultimately show ?thesis using False Suc.IH[of "n div b"] Suc.prems by (subst digits.simps) simp
  qed
qed

lemma hd_digits: "2 \<le> b \<Longrightarrow> 0 < n \<Longrightarrow> 0 < hd (digits b n)"
proof (induction b n rule: digits.induct)
  case (1 b n)
  show ?case
  proof (cases "n < b")
    case True
    with "1.prems" show ?thesis by (simp add: digits.simps [of b n])
  next
    case False
    then have "0 < n div b" using "1.prems" by (simp add: div_greater_zero_iff)
    with False "1" show ?thesis by (simp add: digits.simps [of b n])
  qed
qed

lemma to_digit_char [simp]: "d < radix \<Longrightarrow> radix \<le> 36 \<Longrightarrow> to_digit radix (digit_char d) = Some d"
  by (auto simp: to_digit_def digit_char_def Let_def)

lemma is_digit_char [simp]: "d < radix \<Longrightarrow> radix \<le> 36 \<Longrightarrow> is_digit radix (digit_char d)"
  by (simp add: is_digit_def)

lemma number_of_append: "number_of radix acc (s @ t) = number_of radix (number_of radix acc s) t"
  by (induction s arbitrary: acc) auto

lemma number_of_digits:
  "2 \<le> b \<Longrightarrow> b \<le> 36 \<Longrightarrow> number_of b 0 (map digit_char (digits b n)) = n"
proof (induction b n rule: digits.induct)
  case (1 b n)
  show ?case
  proof (cases "n < b")
    case True
    with "1.prems" show ?thesis by (simp add: digits.simps [of b n])
  next
    case False
    with "1" show ?thesis by (simp add: digits.simps [of b n] number_of_append)
  qed
qed

text \<open>The text after a number does not go on with a digit.\<close>

definition ends_number :: "nat \<Rightarrow> string \<Rightarrow> bool" where
  "ends_number radix r \<longleftrightarrow> (r = [] \<or> \<not> is_digit radix (hd r))"

lemma show_number_digits:
  "2 \<le> b \<Longrightarrow> b \<le> 36 \<Longrightarrow> \<forall>c \<in> set (show_number b n). is_digit b c"
  using digits_bound[of b n] by (auto simp: show_number_def)

lemma show_number_not_Nil [simp]: "show_number b n \<noteq> []"
  by (simp add: show_number_def)

lemma takeWhile_number:
  assumes "2 \<le> b" "b \<le> 36" "ends_number b r"
  shows "takeWhile (is_digit b) (show_number b n @ r) = show_number b n"
    and "dropWhile (is_digit b) (show_number b n @ r) = r"
proof -
  have d: "\<forall>c \<in> set (show_number b n). is_digit b c"
    by (rule show_number_digits[OF assms(1,2)])
  have "takeWhile (is_digit b) r = []" "dropWhile (is_digit b) r = r"
    using assms(3) by (cases r; simp add: ends_number_def)+
  with d show "takeWhile (is_digit b) (show_number b n @ r) = show_number b n"
    "dropWhile (is_digit b) (show_number b n @ r) = r"
    by (simp_all add: takeWhile_append2 dropWhile_append2)
qed

lemma hd_show_number: "2 \<le> b \<Longrightarrow> b \<le> 36 \<Longrightarrow> 0 < n \<Longrightarrow> hd (show_number b n) \<noteq> CHR ''0''"
proof -
  assume b: "2 \<le> b" "b \<le> 36" and n: "0 < n"
  have "hd (digits b n) < b" using digits_bound[OF b(1), of n] by (metis digits_not_Nil list.set_sel(1))
  moreover have "0 < hd (digits b n)" by (rule hd_digits[OF b(1) n])
  ultimately have "to_digit b (hd (show_number b n)) \<noteq> to_digit b CHR ''0''"
    using b by (simp add: show_number_def list.map_sel(1)) (simp add: to_digit_def)
  then show ?thesis by metis
qed

lemma read_show_number:
  assumes b: "2 \<le> b" "b \<le> 36" and r: "ends_number b r"
    and n: "n \<le> bound" "case k of None \<Rightarrow> True | Some k \<Rightarrow> 0 < k \<and> n < b ^ k"
  shows "read_number b k az bound (show_number b n @ r) = Some (n, r)"
proof -
  have zero: "\<not> (hd (show_number b n) = CHR ''0'' \<and> 1 < length (show_number b n))"
    using hd_show_number[OF b, of n] b
    by (cases "n = 0") (auto simp: show_number_def digits.simps [of b 0])
  have len: "length (show_number b n) \<le> k'" if "k = Some k'" for k'
    using n(2) that b digits_length[of b n k'] by (simp add: show_number_def)
  have "number_of b 0 (show_number b n) = n"
    using number_of_digits[OF b] by (simp add: show_number_def)
  with zero len n(1) show ?thesis
    by (auto simp: read_number_def takeWhile_number[OF b r] Let_def not_less split: option.splits)
qed

lemma ends_number_chars [simp]:
  "ends_number 10 []" "ends_number 10 (CHR ''.'' # r)" "ends_number 10 (CHR '':'' # r)"
  "ends_number 10 (CHR '']'' # r)" "ends_number 16 (CHR '':'' # r)" "ends_number 16 (CHR '']'' # r)"
  "ends_number 16 (CHR ''%'' # r)" "ends_number 16 (CHR ''['' # r)" "ends_number 10 (CHR ''['' # r)"
  "ends_number 10 (CHR ''%'' # r)"
  by (simp_all add: ends_number_def is_digit_def to_digit_def)

section \<open>IPv4\<close>

lemma read_octet_show:
  "ends_number 10 r \<Longrightarrow> read_octet (show_number 10 (unat a) @ r) = Some (unat (a :: u8), r)"
  using unsigned_less[of a, where ?'a = nat] by (simp add: read_octet_def read_show_number)

lemma read_show_ipv4: "ends_number 10 r \<Longrightarrow> read_ipv4 (show_ipv4 ip @ r) = Some (ip, r)"
  by (cases ip) (simp add: read_ipv4_def read_separator_def read_given_char_def read_octet_show)

lemma read_port_show: "ends_number 10 r \<Longrightarrow> read_port (CHR '':'' # show_number 10 (unat p) @ r) = Some (p, r)"
  using unsigned_less[of p, where ?'a = nat] by (simp add: read_port_def read_given_char_def read_show_number)

lemma parse_show_v4: "parse_addr (show_addr (V4 ip p)) = Some (V4 ip p)"
  using read_show_ipv4[of "CHR '':'' # show_number 10 (unat p)" ip] read_port_show[of "[]" p]
  by (simp add: parse_addr_def read_socket_v4_def)

section \<open>IPv6\<close>

subsection \<open>The embedded IPv4 reader fails on text without a dot\<close>

lemma read_octet_rest: "read_octet s = Some (a, r) \<Longrightarrow> set r \<subseteq> set s"
  by (auto simp: read_octet_def read_number_def Let_def split: if_splits dest: set_dropWhileD)

lemma read_given_char_Some: "read_given_char c s = Some (u, r) \<longleftrightarrow> s = c # r"
  by (cases s) (auto simp: read_given_char_def)

lemma then_read_Some: "then_read r f = Some y \<longleftrightarrow> (\<exists>x s. r = Some (x, s) \<and> f x s = Some y)"
  by (cases r) auto

lemma read_ipv4_no_dot: "CHR ''.'' \<notin> set s \<Longrightarrow> read_ipv4 s = None"
  using read_octet_rest[of s]
  by (cases "read_octet s") (fastforce simp: read_ipv4_def read_separator_def read_given_char_def split: list.splits)+

lemma read_number_no_digit: "ends_number radix s \<Longrightarrow> read_number radix k az bound s = None"
  by (cases s) (simp_all add: read_number_def ends_number_def)

lemma read_ipv4_no_digit: "ends_number 10 s \<Longrightarrow> read_ipv4 s = None"
  by (simp add: read_ipv4_def read_separator_def read_octet_def read_number_no_digit)

lemma separated_ipv4_no_dot: "CHR ''.'' \<notin> set s \<Longrightarrow> read_separator CHR '':'' i read_ipv4 s = None"
  by (cases s) (auto simp: read_separator_def read_given_char_def read_ipv4_no_dot)

subsection \<open>Groups\<close>

definition groups_text :: "nat \<Rightarrow> u16 list \<Rightarrow> string" where
  "groups_text i gs = (if gs = [] then [] else (if i > 0 then '':'' else []) @ show_groups gs)"

lemma groups_text_Cons:
  "groups_text i (g # gs) = (if i > 0 then '':'' else []) @ show_number 16 (unat g) @ groups_text (Suc i) gs"
  by (cases gs) (simp_all add: groups_text_def)

lemma groups_text_0 [simp]: "groups_text 0 gs = show_groups gs"
  by (simp add: groups_text_def)

lemma groups_text_Nil [simp]: "groups_text i [] = []"
  by (simp add: groups_text_def)

lemma no_dot_number: "CHR ''.'' \<notin> set (show_number 16 n)"
  using show_number_digits[of 16 n] by (auto simp: is_digit_def to_digit_def)

lemma no_dot_groups: "CHR ''.'' \<notin> set (groups_text i gs)"
  by (induction gs arbitrary: i) (simp_all add: groups_text_Cons no_dot_number)

definition group_reader :: "nat \<Rightarrow> nat reader" where
  "group_reader i = read_separator CHR '':'' i (read_number 16 (Some 4) True 65535)"

lemma read_group_show:
  "ends_number 16 r \<Longrightarrow>
    group_reader i ((if i > 0 then '':'' else []) @ show_number 16 (unat (g :: u16)) @ r) = Some (unat g, r)"
  using unsigned_less[of g, where ?'a = nat]
  by (simp add: group_reader_def read_separator_def read_given_char_def read_show_number)

lemma read_groups_show:
  assumes "CHR ''.'' \<notin> set r" "ends_number 16 r" "i + length gs \<le> limit"
    and "i + length gs = limit \<or> group_reader (i + length gs) r = None"
  shows "read_groups i limit (groups_text i gs @ r) = (gs, False, r)"
  using assms
proof (induction gs arbitrary: i)
  case Nil
  then show ?case
    by (subst read_groups.simps) (auto simp: separated_ipv4_no_dot group_reader_def)
next
  case (Cons g gs)
  let ?r = "groups_text (Suc i) gs @ r"
  have ends: "ends_number 16 ?r"
    using Cons.prems(2) by (cases gs) (simp_all add: groups_text_Cons)
  have "read_groups (Suc i) limit ?r = (gs, False, r)"
    using Cons.prems by (intro Cons.IH) simp_all
  moreover have "CHR ''.'' \<notin> set (groups_text i (g # gs) @ r)"
    using Cons.prems(1) no_dot_groups by simp
  moreover have "group_reader i (groups_text i (g # gs) @ r) = Some (unat g, ?r)"
    using read_group_show[OF ends, of i g] by (simp add: groups_text_Cons)
  ultimately show ?case
    using Cons.prems(3) by (subst read_groups.simps) (simp add: separated_ipv4_no_dot group_reader_def)
qed

lemma group_reader_stops:
  "group_reader i (CHR '':'' # CHR '':'' # r) = None"
  "group_reader i (CHR '']'' # r) = None"
  "group_reader i (CHR ''%'' # r) = None"
  by (simp_all add: group_reader_def read_separator_def read_given_char_def read_number_no_digit)

subsection \<open>The run of zeros\<close>

definition zeros_at :: "u16 list \<Rightarrow> nat \<times> nat \<Rightarrow> bool" where
  "zeros_at xs p \<longleftrightarrow> fst p + snd p \<le> length xs \<and> (\<forall>k < snd p. xs ! (fst p + k) = 0)"

lemma longest_zeros_at:
  assumes "drop i xs = ss" "i \<le> length xs" "zeros_at xs longest"
    and "zeros_at xs current" "snd current > 0 \<Longrightarrow> fst current + snd current = i"
  shows "zeros_at xs (longest_zeros i current longest ss)"
  using assms
proof (induction i current longest ss rule: longest_zeros.induct)
  case (1 i current longest)
  then show ?case by simp
next
  case (2 i current longest s ss)
  have i: "i < length xs" "xs ! i = s" "drop (i + 1) xs = ss"
    using "2.prems"(1) by (metis drop_all list.distinct(1) not_le nth_via_drop, metis nth_via_drop,
      metis Suc_eq_plus1 drop_Suc list.sel(3) tl_drop)
  let ?c = "(if snd current = 0 then i else fst current, snd current + 1)"
  have c: "zeros_at xs ?c" if "s = 0"
    using "2.prems"(4,5) i that by (auto simp: zeros_at_def less_Suc_eq)
  show ?case
  proof (cases "s = 0")
    case True
    then show ?thesis
      using "2.IH"(1)[OF True refl i(3)] c[OF True] "2.prems"(3,5) i(1)
      by (auto simp: Let_def)
  next
    case False
    then show ?thesis
      using "2.IH"(2)[OF False i(3)] "2.prems"(3) i(1) by (simp add: zeros_at_def)
  qed
qed

lemma zeros_at_split:
  assumes "zeros_at xs (start, len)"
  shows "take start xs @ replicate len 0 @ drop (start + len) xs = xs"
proof -
  have "take len (drop start xs) = replicate len 0"
    using assms by (intro nth_equalityI) (auto simp: zeros_at_def)
  then show ?thesis
    by (metis append_take_drop_id drop_drop add.commute)
qed

lemma zeros_of_segments: "zeros_at (segments ip) (longest_zeros 0 (0, 0) (0, 0) (segments ip))"
  by (rule longest_zeros_at) (simp_all add: zeros_at_def)

subsection \<open>Round trip\<close>

text \<open>What follows the IPv6 text inside the brackets: the scope or the closing bracket.\<close>

definition after_ipv6 :: "string \<Rightarrow> bool" where
  "after_ipv6 r \<longleftrightarrow> CHR ''.'' \<notin> set r \<and> r \<noteq> [] \<and> (hd r = CHR '']'' \<or> hd r = CHR ''%'')"

lemma after_ipv6_ends:
  "after_ipv6 r \<Longrightarrow> ends_number 16 r \<and> ends_number 10 r \<and> group_reader i r = None \<and> CHR ''.'' \<notin> set r"
  by (cases r) (auto simp: after_ipv6_def group_reader_stops)

lemma read_show_ipv6_mapped:
  assumes "after_ipv6 r"
  shows "read_ipv6 (''::ffff:'' @ show_ipv4 ip4 @ r) = Some (to_ipv6_mapped ip4, r)"
proof -
  obtain a b c d where ip: "ip4 = Ipv4 a b c d" by (cases ip4)
  have head: "read_groups 0 8 (CHR '':'' # CHR '':'' # t) = ([], False, CHR '':'' # CHR '':'' # t)" for t
    by (subst read_groups.simps) (simp add: read_separator_def read_ipv4_no_digit read_number_no_digit)
  have ffff: "read_number 16 (Some 4) True 65535 (''ffff:'' @ t) = Some (65535, CHR '':'' # t)" for t
  proof -
    have "digit_char 15 = CHR ''f''"
      by (simp add: digit_char_def char_of_def bit_0)
    then have "show_number 16 65535 = ''ffff''"
      by (simp add: show_number_def digits.simps)
    then show ?thesis
      using read_show_number[of 16 "CHR '':'' # t" 65535 65535 "Some 4" True] by simp
  qed
  have nodigit: "read_ipv4 (''ffff:'' @ t) = None" for t
    by (rule read_ipv4_no_digit) (simp add: ends_number_def is_digit_def to_digit_def)
  have quad: "read_separator CHR '':'' (Suc 0) read_ipv4 (CHR '':'' # show_ipv4 ip4 @ r) = Some (ip4, r)"
    using read_show_ipv4[of r ip4] after_ipv6_ends[OF assms]
    by (simp add: read_separator_def read_given_char_def)
  have "read_groups (Suc 0) 7 (CHR '':'' # show_ipv4 ip4 @ r)
      = ([u16_of_bytes a b, u16_of_bytes c d], True, r)"
    using quad by (subst read_groups.simps) (simp add: ip)
  then have "read_groups 0 7 (''ffff:'' @ show_ipv4 ip4 @ r)
      = ([65535, u16_of_bytes a b, u16_of_bytes c d], True, r)"
    using ffff[of "show_ipv4 ip4 @ r"] nodigit[of "show_ipv4 ip4 @ r"]
    by (subst read_groups.simps) (simp add: read_separator_def)
  moreover have "replicate 5 (0 :: u16) = [0, 0, 0, 0, 0]"
    by (simp add: numeral_eq_Suc)
  moreover have "to_ipv6_mapped ip4 = Ipv6 0 0 0 0 0 65535 (u16_of_bytes a b) (u16_of_bytes c d)"
    by (simp add: ip)
  ultimately show ?thesis
    by (simp add: read_ipv6_def head read_given_char_def)
qed

lemma read_show_ipv6_plain:
  assumes "after_ipv6 r"
  shows "read_ipv6 (show_groups (segments ip) @ r) = Some (ip, r)"
  using read_groups_show[of r 0 "segments ip" 8] after_ipv6_ends[OF assms, of 0]
  by (simp add: read_ipv6_def)

lemma read_show_ipv6_compressed:
  assumes r: "after_ipv6 r" and z: "zeros_at (segments ip) (start, len)" "1 < len"
  shows "read_ipv6 (show_groups (take start (segments ip)) @ ''::'' @ show_groups (drop (start + len) (segments ip)) @ r)
    = Some (ip, r)"
proof -
  let ?hs = "take start (segments ip)" and ?ts = "drop (start + len) (segments ip)"
  have le: "start + len \<le> 8" using z(1) by (simp add: zeros_at_def)
  have dot: "CHR ''.'' \<notin> set (show_groups ?ts)" using no_dot_groups[of 0 ?ts] by simp
  have head: "read_groups 0 8 (show_groups ?hs @ CHR '':'' # CHR '':'' # show_groups ?ts @ r)
      = (?hs, False, CHR '':'' # CHR '':'' # show_groups ?ts @ r)"
    using read_groups_show[of "CHR '':'' # CHR '':'' # show_groups ?ts @ r" 0 ?hs 8] le dot after_ipv6_ends[OF r, of 0]
    by (simp add: group_reader_stops)
  have tail: "read_groups 0 (7 - start) (show_groups ?ts @ r) = (?ts, False, r)"
    using read_groups_show[of r 0 ?ts "7 - start"] after_ipv6_ends[OF r] le z(2) by simp
  have "?hs @ replicate len 0 @ ?ts = segments ip"
    by (rule zeros_at_split[OF z(1)])
  then show ?thesis
    using le z(2) by (simp add: read_ipv6_def head tail read_given_char_def min_absorb2)
qed

lemma read_show_ipv6: "after_ipv6 r \<Longrightarrow> read_ipv6 (show_ipv6 ip @ r) = Some (ip, r)"
  using read_show_ipv6_mapped[of r] read_show_ipv6_plain[of r ip] read_show_ipv6_compressed[of r ip]
    zeros_of_segments[of ip]
  by (auto simp: show_ipv6_def to_ipv4_mapped_Some split: option.split prod.split)

text \<open>The flow label is not part of the text.\<close>

primrec clear_flow :: "SocketAddr \<Rightarrow> SocketAddr" where
  "clear_flow (V4 ip p) = V4 ip p"
| "clear_flow (V6 ip p flow scope) = V6 ip p 0 scope"

lemma no_dot_decimal: "CHR ''.'' \<notin> set (show_number 10 n)"
  using show_number_digits[of 10 n] by (auto simp: is_digit_def to_digit_def)

lemma read_scope_show:
  "read_scope_id (CHR ''%'' # show_number 10 (unat (scope :: u32)) @ CHR '']'' # r) = Some (scope, CHR '']'' # r)"
  using unsigned_less[of scope, where ?'a = nat]
  by (simp add: read_scope_id_def read_given_char_def read_show_number)

lemma parse_show_v6: "parse_addr (show_addr (V6 ip p flow scope)) = Some (V6 ip p 0 scope)"
proof -
  let ?port = "CHR '']'' # CHR '':'' # show_number 10 (unat p)"
  let ?scope = "(if scope = 0 then [] else CHR ''%'' # show_number 10 (unat scope))"
  have after: "after_ipv6 (?scope @ ?port)"
    by (simp add: after_ipv6_def no_dot_decimal)
  have v4: "read_socket_v4 (CHR ''['' # t) = None" for t
    by (simp add: read_socket_v4_def read_ipv4_no_digit)
  have scope: "(case read_scope_id (?scope @ ?port) of Some (x, s') \<Rightarrow> (x, s') | None \<Rightarrow> (0, ?scope @ ?port))
      = (scope, ?port)"
    using read_scope_show[of scope] by (simp add: read_scope_id_def read_given_char_def)
  have shown: "show_addr (V6 ip p flow scope) = CHR ''['' # show_ipv6 ip @ ?scope @ ?port"
    by simp
  have v6: "read_socket_v6 (CHR ''['' # show_ipv6 ip @ ?scope @ ?port) = Some (V6 ip p 0 scope, [])"
    using read_show_ipv6[OF after, of ip] scope read_port_show[of "[]" p]
    by (simp add: read_socket_v6_def read_given_char_def)
  show ?thesis unfolding parse_addr_def shown v4 option.case v6 by simp
qed

lemma parse_show_addr: "parse_addr (show_addr a) = Some (clear_flow a)"
  by (cases a) (simp_all only: clear_flow.simps parse_show_v4 parse_show_v6)

lemma parse_empty: "parse_addr [] = None"
  by (simp add: parse_addr_def read_socket_v4_def read_ipv4_def read_separator_def read_octet_def read_number_def
      read_socket_v6_def read_given_char_def Let_def)

section \<open>The printed text is short ASCII\<close>

definition ascii :: "string \<Rightarrow> bool" where
  "ascii s \<longleftrightarrow> (\<forall>c \<in> set s. of_char c \<le> (127 :: nat))"

lemma ascii_simps [simp]:
  "ascii []" "ascii (c # s) \<longleftrightarrow> of_char c \<le> (127 :: nat) \<and> ascii s"
  "ascii (s @ t) \<longleftrightarrow> ascii s \<and> ascii t"
  by (auto simp: ascii_def)

lemma ascii_utf8: "ascii s \<Longrightarrow> utf8_valid s"
  by (simp add: ascii_def utf8_valid_ascii)

lemma ascii_digit: "is_digit b c \<Longrightarrow> of_char c \<le> (127 :: nat)"
  by (auto simp: is_digit_def to_digit_def Let_def split: if_splits)

lemma ascii_number [simp]: "2 \<le> b \<Longrightarrow> b \<le> 36 \<Longrightarrow> ascii (show_number b n)"
  using show_number_digits ascii_digit by (fastforce simp: ascii_def)

lemma length_number: "2 \<le> b \<Longrightarrow> n < b ^ k \<Longrightarrow> 0 < k \<Longrightarrow> length (show_number b n) \<le> k"
  by (simp add: show_number_def digits_length)

lemma show_u8: "length (show_number 10 (unat (a :: u8))) \<le> 3"
  using unsigned_less[of a, where ?'a = nat] by (intro length_number) simp_all

lemma show_u16: "length (show_number 10 (unat (a :: u16))) \<le> 5" "length (show_number 16 (unat a)) \<le> 4"
  using unsigned_less[of a, where ?'a = nat] by (auto intro!: length_number)

lemma show_u32: "length (show_number 10 (unat (a :: u32))) \<le> 10"
  using unsigned_less[of a, where ?'a = nat] by (intro length_number) simp_all

lemma show_ipv4_text: "ascii (show_ipv4 ip) \<and> length (show_ipv4 ip) \<le> 15"
proof (cases ip)
  case (Ipv4 a b c d)
  then show ?thesis using show_u8[of a] show_u8[of b] show_u8[of c] show_u8[of d] by simp
qed

lemma show_groups_text: "ascii (show_groups gs) \<and> length (show_groups gs) \<le> 5 * length gs"
proof (induction gs rule: show_groups.induct)
  case (2 g)
  then show ?case using show_u16(2)[of g] by simp
next
  case (3 g h gs)
  then show ?case using show_u16(2)[of g] by simp
qed simp

lemma show_ipv6_text: "ascii (show_ipv6 ip) \<and> length (show_ipv6 ip) \<le> 82"
proof (cases "to_ipv4_mapped ip")
  case (Some ip4)
  then show ?thesis using show_ipv4_text[of ip4] by (simp add: show_ipv6_def)
next
  case None
  obtain start len where z: "longest_zeros 0 (0, 0) (0, 0) (segments ip) = (start, len)" by fastforce
  show ?thesis
    using None z show_groups_text[of "segments ip"] show_groups_text[of "take start (segments ip)"]
      show_groups_text[of "drop (start + len) (segments ip)"]
    by (auto simp: show_ipv6_def min_def split: if_splits)
qed

lemma show_addr_text: "ascii (show_addr a) \<and> length (show_addr a) \<le> 102"
proof (cases a)
  case (V4 ip p)
  then show ?thesis using show_ipv4_text[of ip] show_u16(1)[of p] by simp
next
  case (V6 ip p flow scope)
  then show ?thesis using show_ipv6_text[of ip] show_u16(1)[of p] show_u32[of scope] by simp
qed

lemma show_addr_not_Nil [simp]: "show_addr a \<noteq> []"
  by (cases a) simp_all

end
