(* ===== verification/Rendezvous.thy ===== *)
theory Rendezvous
  imports Net_Addr Proto_Bounds
begin

text \<open>
  What a rendezvous server promises, without bytes, sockets or clocks: a table from
  identities to observed addresses, and for each request the new table and the note it
  sends. The UDP server refines it handler by handler; the TCP server is compared with
  it branch by branch.
\<close>

datatype call = CPing | CIsync string | CRsync string | CBye | CUnknown

datatype notice = NPong | NRedirect string string | NFsync string string

text \<open>A note on its way: the destination, the identity it is addressed to, the note.\<close>

type_synonym delivery = "SocketAddr \<times> string \<times> notice"

type_synonym table = "string \<rightharpoonup> SocketAddr"

fun rendezvous :: "string \<Rightarrow> call \<Rightarrow> SocketAddr \<Rightarrow> table \<Rightarrow> table \<times> delivery list" where
  "rendezvous who CPing a tab = (tab(who \<mapsto> a), [(a, who, NPong)])"
| "rendezvous who (CIsync target) a tab =
     (case tab target of
        Some b \<Rightarrow> (tab(who \<mapsto> a), [(b, target, NFsync who (show_addr a))])
      | None \<Rightarrow> (tab, [(a, who, NRedirect target [])]))"
| "rendezvous who (CRsync target) a tab =
     (case tab target of
        Some b \<Rightarrow> (tab, [(b, target, NRedirect who (show_addr a))])
      | None \<Rightarrow> (tab, []))"
| "rendezvous who CBye a tab = (remove_key who tab, [])"
| "rendezvous who CUnknown a tab = (tab, [])"

text \<open>A request as a call. A client's \<open>Fsync\<close> is not a call: the servers ignore or echo it.\<close>

definition call_of :: "'u Request \<Rightarrow> call" where
  "call_of req =
     (case req_cmd req of
        Some (ReqPing _) \<Rightarrow> CPing
      | Some (ReqIsync v) \<Rightarrow> CIsync (isync_id v)
      | Some (ReqRsync v) \<Rightarrow> CRsync (rsync_id v)
      | Some (ReqBye _) \<Rightarrow> CBye
      | _ \<Rightarrow> CUnknown)"

primrec note_of_cmd :: "'u RespCmd \<Rightarrow> notice" where
  "note_of_cmd (RespPong _) = NPong"
| "note_of_cmd (RespRedirect v) = NRedirect (redirect_id v) (redirect_addr v)"
| "note_of_cmd (RespFsync v) = NFsync (fsync_id v) (fsync_addr v)"

text \<open>The note in the bytes of a response, when they are one.\<close>

definition note_of_bytes :: "'u pb_rt \<Rightarrow> bytes \<Rightarrow> (string \<times> notice) option" where
  "note_of_bytes rt bs =
     (case Response_parse_from_bytes rt bs of
        Some (Inr resp) \<Rightarrow> map_option (\<lambda>c. (resp_id resp, note_of_cmd c)) (resp_cmd resp)
      | _ \<Rightarrow> None)"

definition delivery_of :: "'u pb_rt \<Rightarrow> bytes \<times> SocketAddr \<Rightarrow> delivery option" where
  "delivery_of rt d = map_option (\<lambda>n. (snd d, n)) (note_of_bytes rt (fst d))"

section \<open>Facts about the table\<close>

lemma rendezvous_one_note: "length (snd (rendezvous who c a tab)) \<le> 1"
  by (cases c) (auto split: option.split)

lemma rendezvous_other: "k \<noteq> who \<Longrightarrow> fst (rendezvous who c a tab) k = tab k"
  by (cases c) (auto split: option.split)

lemma rendezvous_destination:
  "(b, t, n) \<in> set (snd (rendezvous who c a tab)) \<Longrightarrow> b = a \<or> b \<in> ran tab"
  by (cases c) (auto split: option.splits simp: ran_def)

section \<open>The responses of the servers\<close>

definition response :: "'u pb_rt \<Rightarrow> string \<Rightarrow> 'u RespCmd \<Rightarrow> 'u Response" where
  "response rt who cmd = (Response_new rt)\<lparr>resp_id := who, resp_cmd := Some cmd\<rparr>"

lemma new_sel [simp]:
  "redirect_id (Redirect_new rt) = []" "redirect_addr (Redirect_new rt) = []"
  "fsync_id (Fsync_new rt) = []" "fsync_addr (Fsync_new rt) = []"
  by (simp_all add: Redirect_new_def Fsync_new_def)

lemma show_addr_ok [simp]: "text_ok (show_addr a)"
  using show_addr_text[of a] by (simp add: text_ok_def ascii_utf8 max_text_def)

context pb_runtime
begin

lemma SpecialFields_new_clean [simp]: "no_unknown rt (SpecialFields_new rt)"
  by (simp add: no_unknown_def SpecialFields_new_def)

lemma response_clean:
  "text_ok who \<Longrightarrow> RespCmd_clean rt cmd \<Longrightarrow> Response_clean rt (response rt who cmd)"
  by (simp add: response_def Response_clean_def Response_new_def)

lemma delivery_of_response:
  assumes "text_ok who" "RespCmd_clean rt cmd"
  shows "delivery_of rt (Response_wire rt (response rt who cmd), a) = Some (a, who, note_of_cmd cmd)"
proof -
  have "note_of_cmd (RespCmd_forget cmd) = note_of_cmd cmd"
    by (cases cmd) (simp_all add: Redirect_forget_def Fsync_forget_def)
  then show ?thesis
    using Response_parse_wire[OF response_clean[OF assms]]
    by (simp add: delivery_of_def note_of_bytes_def Response_forget_def response_def)
qed

lemma pong_clean: "Pong_clean rt (Pong_new rt)"
  by (simp add: Pong_clean_def Pong_new_def)

lemma fsync_clean:
  "text_ok who \<Longrightarrow> text_ok t \<Longrightarrow> Fsync_clean rt ((Fsync_new rt)\<lparr>fsync_id := who, fsync_addr := t\<rparr>)"
  by (simp add: Fsync_clean_def Fsync_new_def)

lemma redirect_clean:
  "text_ok who \<Longrightarrow> text_ok t \<Longrightarrow> Redirect_clean rt ((Redirect_new rt)\<lparr>redirect_id := who, redirect_addr := t\<rparr>)"
  by (simp add: Redirect_clean_def Redirect_new_def)

lemma redirect_empty_clean:
  "text_ok who \<Longrightarrow> Redirect_clean rt ((Redirect_new rt)\<lparr>redirect_id := who\<rparr>)"
  by (simp add: Redirect_clean_def Redirect_new_def)

lemmas response_clean_simps = pong_clean fsync_clean redirect_clean redirect_empty_clean delivery_of_response

end

lemma ascii_ok: "\<forall>c \<in> set s. of_char c \<le> (127::nat) \<Longrightarrow> length s < 1000 \<Longrightarrow> text_ok s"
  by (simp add: text_ok_def max_text_def utf8_valid_ascii)

lemma note_of_bytesD:
  assumes "note_of_bytes rt bs = Some (who, n)"
  obtains resp c where "Response_parse_from_bytes rt bs = Some (Inr resp)" "resp_id resp = who" "resp_cmd resp = Some c"
    "note_of_cmd c = n"
  using assms by (auto simp: note_of_bytes_def split: option.splits sum.splits)

lemma note_redirectD:
  assumes "note_of_bytes rt bs = Some (who, NRedirect t a)"
  shows "\<exists>resp v. Response_parse_from_bytes rt bs = Some (Inr resp) \<and> resp_id resp = who
    \<and> resp_cmd resp = Some (RespRedirect v) \<and> redirect_id v = t \<and> redirect_addr v = a"
proof -
  obtain resp c where "Response_parse_from_bytes rt bs = Some (Inr resp)" "resp_id resp = who" "resp_cmd resp = Some c"
    "note_of_cmd c = NRedirect t a" by (rule note_of_bytesD[OF assms])
  then show ?thesis by (cases c) auto
qed

lemma note_fsyncD:
  assumes "note_of_bytes rt bs = Some (who, NFsync t a)"
  shows "\<exists>resp v. Response_parse_from_bytes rt bs = Some (Inr resp) \<and> resp_id resp = who
    \<and> resp_cmd resp = Some (RespFsync v) \<and> fsync_id v = t \<and> fsync_addr v = a"
proof -
  obtain resp c where "Response_parse_from_bytes rt bs = Some (Inr resp)" "resp_id resp = who" "resp_cmd resp = Some c"
    "note_of_cmd c = NFsync t a" by (rule note_of_bytesD[OF assms])
  then show ?thesis by (cases c) auto
qed

text \<open>The texts of a request are short enough and valid UTF-8.\<close>

definition texts_ok :: "'u Request \<Rightarrow> bool" where
  "texts_ok req \<longleftrightarrow> text_ok (req_id req)
     \<and> (case req_cmd req of Some (ReqIsync v) \<Rightarrow> text_ok (isync_id v) | Some (ReqRsync v) \<Rightarrow> text_ok (rsync_id v)
        | _ \<Rightarrow> True)"

lemma bounded_texts_ok: "Request_bounded N req \<Longrightarrow> N < max_text \<Longrightarrow> texts_ok req"
  by (auto simp: Request_bounded_def texts_ok_def bounded_text_ok split: option.splits ReqCmd.splits)

end
