(* ===== verification/Requests.thy ===== *)
theory Requests
  imports Rendezvous
begin

text \<open>
  The requests that the clients send, for identities of at most five hundred bytes: they
  are encoded without an error, fit in a datagram and in a frame, and are decoded as they
  were; and so do the answers of the servers to them.
\<close>

text \<open>Identities that leave room in a datagram of 1500 bytes.\<close>

definition name_ok :: "string \<Rightarrow> bool" where
  "name_ok s \<longleftrightarrow> text_ok s \<and> length s \<le> 500"

context pb_runtime
begin

lemma nested_le: "field_no n \<Longrightarrow> length b < 2000 \<Longrightarrow> length (message_field rt n b) \<le> length b + 11"
  using message_field_size[of n b] varint_size_le[of "of_nat (length b)"] by (simp add: max_len_def)

lemma name_field_le: "field_no n \<Longrightarrow> name_ok s \<Longrightarrow> length (opt_field rt n s) \<le> 506"
  using opt_field_le[of n s] by (simp add: name_ok_def)

lemma addr_field_le: "field_no n \<Longrightarrow> length (opt_field rt n (show_addr a)) \<le> 110"
  using opt_field_le[of n "show_addr a"] show_addr_text[of a] by simp

lemma field_nos [simp]: "field_no 1" "field_no 2" "field_no 3" "field_no 4" "field_no 5" "field_no 6"
  by (simp_all add: field_no_def)

text \<open>What the server sends for such identities fits in a datagram.\<close>

lemma response_fits:
  assumes "name_ok who"
  shows "length (Response_wire rt (response rt who (RespPong (Pong_new rt)))) \<le> 1500"
    and "name_ok t \<Longrightarrow> length (Response_wire rt (response rt who (RespRedirect ((Redirect_new rt)\<lparr>redirect_id := t, redirect_addr := show_addr a\<rparr>)))) \<le> 1500"
    and "name_ok t \<Longrightarrow> length (Response_wire rt (response rt who (RespRedirect ((Redirect_new rt)\<lparr>redirect_id := t\<rparr>)))) \<le> 1500"
    and "name_ok t \<Longrightarrow> length (Response_wire rt (response rt who (RespFsync ((Fsync_new rt)\<lparr>fsync_id := t, fsync_addr := show_addr a\<rparr>)))) \<le> 1500"
proof -
  note who = name_field_le[of 1, OF _ assms, simplified]
  show "length (Response_wire rt (response rt who (RespPong (Pong_new rt)))) \<le> 1500"
    using who nested_le[of 2 "[]"] by (simp add: Response_wire_def response_def Pong_wire_def)
next
  assume t: "name_ok t"
  note who = name_field_le[of 1, OF _ assms, simplified]
  note t1 = name_field_le[of 1, OF _ t, simplified]
  note a2 = addr_field_le[of 2 a, simplified]
  show "length (Response_wire rt (response rt who (RespRedirect ((Redirect_new rt)\<lparr>redirect_id := t, redirect_addr := show_addr a\<rparr>)))) \<le> 1500"
    using who t1 a2 nested_le[of 3 "opt_field rt 1 t @ opt_field rt 2 (show_addr a)"]
    by (simp add: Response_wire_def response_def Redirect_wire_def)
  show "length (Response_wire rt (response rt who (RespRedirect ((Redirect_new rt)\<lparr>redirect_id := t\<rparr>)))) \<le> 1500"
    using who t1 nested_le[of 3 "opt_field rt 1 t"]
    by (simp add: Response_wire_def response_def Redirect_wire_def opt_field_def)
  show "length (Response_wire rt (response rt who (RespFsync ((Fsync_new rt)\<lparr>fsync_id := t, fsync_addr := show_addr a\<rparr>)))) \<le> 1500"
    using who t1 a2 nested_le[of 4 "opt_field rt 1 t @ opt_field rt 2 (show_addr a)"]
    by (simp add: Response_wire_def response_def Fsync_wire_def)
qed

end

definition names_ok :: "'u Request \<Rightarrow> bool" where
  "names_ok req \<longleftrightarrow> name_ok (req_id req)
     \<and> (case req_cmd req of Some (ReqIsync v) \<Rightarrow> name_ok (isync_id v) | Some (ReqRsync v) \<Rightarrow> name_ok (rsync_id v)
        | _ \<Rightarrow> True)"

lemma names_texts: "names_ok req \<Longrightarrow> texts_ok req"
  by (auto simp: names_ok_def texts_ok_def name_ok_def split: option.splits ReqCmd.splits)

text \<open>The requests of the two clients, and the bytes of a request on the wire.\<close>

definition ask :: "'u pb_rt \<Rightarrow> string \<Rightarrow> 'u ReqCmd \<Rightarrow> 'u Request" where
  "ask rt who cmd = (Request_new rt)\<lparr>req_id := who, req_cmd := Some cmd\<rparr>"

definition ask_ok :: "'u pb_rt \<Rightarrow> string \<Rightarrow> 'u ReqCmd \<Rightarrow> bool" where
  "ask_ok rt who cmd \<longleftrightarrow> name_ok who \<and> ReqCmd_clean rt cmd
     \<and> (case cmd of ReqPing v \<Rightarrow> True | ReqIsync v \<Rightarrow> name_ok (isync_id v) | ReqRsync v \<Rightarrow> name_ok (rsync_id v) | _ \<Rightarrow> False)"

lemma ask_parse:
  assumes rt: "pb_runtime rt" and ok: "ask_ok rt who cmd"
  shows "Request_write_to_bytes rt (ask rt who cmd) = Inr (Request_wire rt (ask rt who cmd))"
    and "length (Request_wire rt (ask rt who cmd)) \<le> 1500"
    and "Request_parse_from_bytes rt (take 1500 (Request_wire rt (ask rt who cmd))) = Some (Inr (Request_forget (ask rt who cmd)))"
proof -
  note name = pb_runtime.name_field_le[OF rt] and nest = pb_runtime.nested_le[OF rt] and fields = pb_runtime.field_nos[OF rt]
  have clean: "Request_clean rt (ask rt who cmd)"
    using ok pb_runtime.SpecialFields_new_clean[OF rt]
    by (simp add: ask_ok_def name_ok_def Request_clean_def ask_def Request_new_def)
  then show "Request_write_to_bytes rt (ask rt who cmd) = Inr (Request_wire rt (ask rt who cmd))"
    by (rule pb_runtime.Request_write_clean[OF rt])
  have who: "length (opt_field rt 1 who) \<le> 506" using ok by (intro name fields) (simp add: ask_ok_def)
  show len: "length (Request_wire rt (ask rt who cmd)) \<le> 1500"
  proof (cases cmd)
    case (ReqPing v)
    then show ?thesis using who nest[OF fields(2), of "[]"] by (simp add: Request_wire_def ask_def Ping_wire_def)
  next
    case (ReqIsync v)
    then have "length (opt_field rt 1 (isync_id v)) \<le> 506" using ok by (intro name fields) (simp add: ask_ok_def)
    then show ?thesis
      using ReqIsync who nest[OF fields(3), of "opt_field rt 1 (isync_id v)"] by (simp add: Request_wire_def ask_def Isync_wire_def)
  next
    case (ReqRsync v)
    then have "length (opt_field rt 1 (rsync_id v)) \<le> 506" using ok by (intro name fields) (simp add: ask_ok_def)
    then show ?thesis
      using ReqRsync who nest[OF fields(5), of "opt_field rt 1 (rsync_id v)"] by (simp add: Request_wire_def ask_def Rsync_wire_def)
  qed (use ok in \<open>simp_all add: ask_ok_def\<close>)
  show "Request_parse_from_bytes rt (take 1500 (Request_wire rt (ask rt who cmd))) = Some (Inr (Request_forget (ask rt who cmd)))"
    using pb_runtime.Request_parse_wire[OF rt clean] len by simp
qed

lemma ask_call:
  "req_id (Request_forget (ask rt who cmd)) = who"
  "call_of (Request_forget (ask rt who cmd)) = (case cmd of ReqPing v \<Rightarrow> CPing | ReqIsync v \<Rightarrow> CIsync (isync_id v)
     | ReqRsync v \<Rightarrow> CRsync (rsync_id v) | ReqBye v \<Rightarrow> CBye | ReqFsync v \<Rightarrow> CUnknown)"
  "ask_ok rt who cmd \<Longrightarrow> names_ok (Request_forget (ask rt who cmd))"
  by (cases cmd; simp add: Request_forget_def ask_def call_of_def names_ok_def ask_ok_def Isync_forget_def Rsync_forget_def)+

lemma ask_ok_simps:
  assumes rt: "pb_runtime rt" and "name_ok who"
  shows "ask_ok rt who (ReqPing (Ping_new rt))"
    and "name_ok t \<Longrightarrow> ask_ok rt who (ReqIsync ((Isync_new rt)\<lparr>isync_id := t\<rparr>))"
    and "name_ok t \<Longrightarrow> ask_ok rt who (ReqRsync ((Rsync_new rt)\<lparr>rsync_id := t\<rparr>))"
  using assms(2) pb_runtime.SpecialFields_new_clean[OF rt]
  by (simp_all add: ask_ok_def name_ok_def Ping_clean_def Ping_new_def Isync_clean_def Isync_new_def Rsync_clean_def Rsync_new_def)

end
