(* ===== verification/Udp_Server.thy ===== *)
theory Udp_Server
  imports Requests Proto_Bounds Wire_Format
begin

text \<open>
  The UDP rendezvous server, \<open>src/udp/server.rs\<close>: the table of clients, the handler of
  each request, the garbage collection, and the receive loop, one \<open>turn\<close> per iteration.
  The socket is the list of datagrams sent so far; what it receives and what the clock
  shows are the arguments of a turn.

  The lemmas give the contract of every handler on every branch, its refinement of an
  abstract rendezvous table (\<open>rendezvous\<close>), and the invariants of the loop.
\<close>

section \<open>Creating sockets\<close>

text \<open>
  The results that the operating system gives for the calls of \<open>Server::new\<close>. The calls
  of the \<open>socket2\<close> crate are parameters; \<open>os_bind_std\<close> is \<open>UdpSocket::bind\<close>.
\<close>

record socket_os =
  os_new :: "io_error + unit"
  os_set_reuse_address :: "io_error + unit"
  os_set_reuse_port :: "io_error + unit"
  os_set_only_v6 :: "io_error + unit"
  os_bind :: "SocketAddr \<Rightarrow> io_error + unit"
  os_bind_std :: "SocketAddr \<Rightarrow> io_error + unit"

section \<open>State\<close>

record Client =
  addr :: SocketAddr
  last_ping :: instant

text \<open>\<open>Client::default()\<close>; the clock reading is an argument.\<close>

definition Client_default :: "instant \<Rightarrow> Client" where
  "Client_default now = \<lparr>addr = V4 (Ipv4 0 0 0 0) 0, last_ping = now\<rparr>"

record Server =
  clients :: "string \<rightharpoonup> Client"
  next_gc :: instant
  sent :: "(bytes \<times> SocketAddr) list"

definition next_gc_at :: "instant \<Rightarrow> instant" where
  "next_gc_at now = now + from_secs 60"

definition Server_new :: "socket_os \<Rightarrow> SocketAddr \<Rightarrow> bool \<Rightarrow> instant \<Rightarrow> io_error + Server" where
  "Server_new os listen_addr ipv6_only now =
     res_bind
       (if ipv6_only then
          res_bind (os_new os) (\<lambda>_.
          res_bind (os_set_reuse_address os) (\<lambda>_.
          res_bind (os_set_reuse_port os) (\<lambda>_.
          res_bind (os_set_only_v6 os) (\<lambda>_.
          res_bind (case listen_addr of
                      V6 ip p flow scope \<Rightarrow> Inr (V6 ip p flow scope)
                    | V4 ip p \<Rightarrow> Inl (new_error InvalidInput ''IPv4 address not supported in IPv6-only mode'')) (\<lambda>a.
          os_bind os a)))))
        else os_bind_std os listen_addr) (\<lambda>_.
     Inr \<lparr>clients = Map.empty, next_gc = next_gc_at now, sent = []\<rparr>)"

section \<open>Handlers\<close>

text \<open>
  \<open>send_response\<close> panics when the response cannot be encoded (the \<open>unwrap\<close>); the result
  of \<open>send_to\<close> is ignored by the code.
\<close>

definition send_response ::
  "'u pb_rt \<Rightarrow> 'u RespCmd \<Rightarrow> string \<Rightarrow> SocketAddr \<Rightarrow> Server \<Rightarrow> Server outcome" where
  "send_response rt cmd cid a s =
     (let resp = (Response_new rt)\<lparr>resp_id := cid, resp_cmd := Some cmd\<rparr> in
      and_then (unwrap (Response_write_to_bytes rt resp)) (\<lambda>vec.
      Ret (s\<lparr>sent := sent s @ [(vec, a)]\<rparr>)))"

text \<open>\<open>clients.entry(id).or_default()\<close> followed by the two assignments.\<close>

definition touch :: "string \<Rightarrow> SocketAddr \<Rightarrow> instant \<Rightarrow> Server \<Rightarrow> Server" where
  "touch cid a now s =
     (let (c, m) = or_insert cid (Client_default now) (clients s);
          c = c\<lparr>last_ping := now\<rparr>;
          c = c\<lparr>addr := a\<rparr>
      in s\<lparr>clients := m(cid \<mapsto> c)\<rparr>)"

definition handle_ping ::
  "'u pb_rt \<Rightarrow> string \<Rightarrow> 'u Ping \<Rightarrow> SocketAddr \<Rightarrow> instant \<Rightarrow> Server \<Rightarrow> Server outcome" where
  "handle_ping rt cid ping a now s =
     (let s = touch cid a now s in send_response rt (RespPong (Pong_new rt)) cid a s)"

definition handle_isync ::
  "'u pb_rt \<Rightarrow> string \<Rightarrow> 'u Isync \<Rightarrow> SocketAddr \<Rightarrow> instant \<Rightarrow> Server \<Rightarrow> Server outcome" where
  "handle_isync rt cid isync a now s =
     (let target_id = isync_id isync in
      case clients s target_id of
        Some t \<Rightarrow>
          (let s = touch cid a now s;
               fsync = (Fsync_new rt)\<lparr>fsync_id := cid, fsync_addr := show_addr a\<rparr>
           in send_response rt (RespFsync fsync) target_id (addr t) s)
      | None \<Rightarrow>
          (let rdr = (Redirect_new rt)\<lparr>redirect_id := target_id\<rparr>
           in send_response rt (RespRedirect rdr) cid a s))"

definition handle_rsync ::
  "'u pb_rt \<Rightarrow> string \<Rightarrow> 'u Rsync \<Rightarrow> SocketAddr \<Rightarrow> Server \<Rightarrow> Server outcome" where
  "handle_rsync rt cid rsync a s =
     (let target_id = rsync_id rsync in
      case clients s target_id of
        Some c \<Rightarrow>
          (let rdr = (Redirect_new rt)\<lparr>redirect_id := cid, redirect_addr := show_addr a\<rparr>
           in send_response rt (RespRedirect rdr) target_id (addr c) s)
      | None \<Rightarrow> Ret s)"

definition handle_bye :: "string \<Rightarrow> Server \<Rightarrow> Server" where
  "handle_bye cid s = s\<lparr>clients := remove_key cid (clients s)\<rparr>"

definition handle_request ::
  "'u pb_rt \<Rightarrow> 'u Request \<Rightarrow> SocketAddr \<Rightarrow> instant \<Rightarrow> Server \<Rightarrow> Server outcome" where
  "handle_request rt req a now s =
     (case req_cmd req of
        Some (ReqPing ping) \<Rightarrow> handle_ping rt (req_id req) ping a now s
      | Some (ReqIsync isync) \<Rightarrow> handle_isync rt (req_id req) isync a now s
      | Some (ReqRsync rsync) \<Rightarrow> handle_rsync rt (req_id req) rsync a s
      | Some (ReqBye _) \<Rightarrow> Ret (handle_bye (req_id req) s)
      | _ \<Rightarrow> Ret s)"

text \<open>\<open>gc\<close> reads the clock twice: for the expiry and for the next collection.\<close>

definition gc :: "instant \<Rightarrow> instant \<Rightarrow> Server \<Rightarrow> Server" where
  "gc now now' s =
     (let expire = now - from_secs 60
      in s\<lparr>clients := retain (\<lambda>cid c. expire < last_ping c) (clients s), next_gc := next_gc_at now'\<rparr>)"

section \<open>The receive loop\<close>

text \<open>
  One iteration: what \<open>recv_from\<close> returned (an error stands for the read timeout of
  thirty seconds too), and the clock readings in the handler, at the \<open>next_gc\<close> test and
  inside \<open>gc\<close>. The buffer has 1500 bytes: the operating system drops the rest of a
  longer datagram.
\<close>

datatype received = Datagram bytes SocketAddr | RecvError

record turn =
  input :: received
  t_handle :: instant
  t_check :: instant
  t_expire :: instant
  t_next :: instant

definition run_turn :: "'u pb_rt \<Rightarrow> turn \<Rightarrow> Server \<Rightarrow> Server outcome" where
  "run_turn rt t s =
     and_then
       (case input t of
          Datagram bs a \<Rightarrow>
            (case Request_parse_from_bytes rt (take 1500 bs) of
               None \<Rightarrow> Hang
             | Some (Inl e) \<Rightarrow> Ret s
             | Some (Inr req) \<Rightarrow> handle_request rt req a (t_handle t) s)
        | RecvError \<Rightarrow> Ret s) (\<lambda>s.
     Ret (if t_check t > next_gc s then gc (t_expire t) (t_next t) s else s))"

text \<open>\<open>run\<close> never returns once the read timeout is set; this is the state after some turns.\<close>

fun run :: "'u pb_rt \<Rightarrow> turn list \<Rightarrow> Server \<Rightarrow> Server outcome" where
  "run rt [] s = Ret s"
| "run rt (t # ts) s = and_then (run_turn rt t s) (run rt ts)"

definition server_run :: "'u pb_rt \<Rightarrow> io_error + unit \<Rightarrow> turn list \<Rightarrow> Server \<Rightarrow> (io_error + Server) outcome" where
  "server_run rt set_read_timeout ts s =
     ques set_read_timeout (\<lambda>_. and_then (run rt ts s) (\<lambda>s. Ret (Inr s)))"

section \<open>What a handler can do\<close>

lemma touch_simps [simp]:
  "clients (touch who a now s) = (clients s)(who \<mapsto> \<lparr>addr = a, last_ping = now\<rparr>)"
  "next_gc (touch who a now s) = next_gc s"
  "sent (touch who a now s) = sent s"
  by (auto simp: touch_def or_insert_def split: option.split)

lemma send_response_Ret:
  "send_response rt cmd who a s = Ret s' \<longleftrightarrow>
    (\<exists>v. Response_write_to_bytes rt ((Response_new rt)\<lparr>resp_id := who, resp_cmd := Some cmd\<rparr>) = Inr v
      \<and> s' = s\<lparr>sent := sent s @ [(v, a)]\<rparr>)"
  by (auto simp: send_response_def Let_def and_then_eq_Ret unwrap_eq_Ret)

lemmas handler_defs = handle_ping_def handle_isync_def handle_rsync_def handle_bye_def Let_def

text \<open>
  Whatever the encoder does, a handler that returns has changed the entry of the sender
  only, and has sent at most one datagram, to the sender or to a registered client.
\<close>

definition server_effect :: "string \<Rightarrow> SocketAddr \<Rightarrow> instant \<Rightarrow> Server \<Rightarrow> Server \<Rightarrow> bool" where
  "server_effect who a now s s' \<longleftrightarrow>
     (clients s' = clients s \<or> clients s' = (clients s)(who \<mapsto> \<lparr>addr = a, last_ping = now\<rparr>)
        \<or> clients s' = remove_key who (clients s))
     \<and> next_gc s' = next_gc s
     \<and> (\<exists>out. sent s' = sent s @ out \<and> length out \<le> 1 \<and> snd ` set out \<subseteq> insert a (addr ` ran (clients s)))"

lemma handle_request_effect:
  "handle_request rt req a now s = Ret s' \<Longrightarrow> server_effect (req_id req) a now s s'"
  unfolding server_effect_def
  by (fastforce simp: handle_request_def handler_defs send_response_Ret ran_def
      split: option.splits ReqCmd.splits)

lemma handle_request_bye:
  "handle_request rt req a now s = Ret s' \<Longrightarrow> clients s who \<noteq> None \<Longrightarrow> clients s' who = None \<Longrightarrow>
    req_id req = who \<and> call_of req = CBye"
  by (fastforce simp: handle_request_def handler_defs send_response_Ret call_of_def
      split: option.splits ReqCmd.splits if_splits)

section \<open>Handlers with a working encoder\<close>

context pb_runtime
begin

lemma send_response_clean:
  assumes "text_ok who" "RespCmd_clean rt cmd"
  shows "send_response rt cmd who a s = Ret (s\<lparr>sent := sent s @ [(Response_wire rt (response rt who cmd), a)]\<rparr>)"
  using Response_write_clean[OF response_clean[OF assms]]
  by (simp add: send_response_def response_def)

lemmas clean_simps = response_clean_simps send_response_clean

end

text \<open>The table of the specification, and the new deliveries between two states.\<close>

definition table_of :: "Server \<Rightarrow> table" where
  "table_of s k = map_option addr (clients s k)"

lemma handle_request_rendezvous:
  assumes rt: "pb_runtime rt" and ok: "texts_ok req"
  shows "\<exists>s' out. handle_request rt req a now s = Ret s' \<and> sent s' = sent s @ out
    \<and> rendezvous (req_id req) (call_of req) a (table_of s) = (table_of s', map (the \<circ> delivery_of rt) out)
    \<and> (\<forall>d \<in> set out. delivery_of rt d \<noteq> None)"
proof (cases "req_cmd req")
  case None
  then show ?thesis by (simp add: handle_request_def call_of_def)
next
  case (Some cmd)
  show ?thesis
    using ok Some
    by (cases cmd)
       (auto simp: handle_request_def handler_defs call_of_def texts_ok_def table_of_def fun_eq_iff
         pb_runtime.clean_simps[OF rt] split: option.split)
qed

section \<open>Invariants of the loop\<close>

lemma run_turn_Ret:
  assumes "run_turn rt t s = Ret s'"
  obtains s1 where "s1 = s \<or> (\<exists>bs a req. input t = Datagram bs a
        \<and> Request_parse_from_bytes rt (take 1500 bs) = Some (Inr req)
        \<and> handle_request rt req a (t_handle t) s = Ret s1)"
    and "s' = (if t_check t > next_gc s1 then gc (t_expire t) (t_next t) s1 else s1)"
  using assms
  by (auto simp: run_turn_def and_then_eq_Ret split: received.splits option.splits sum.splits)

lemma gc_simps [simp]:
  "clients (gc now now' s) = retain (\<lambda>_ c. now - from_secs 60 < last_ping c) (clients s)"
  "next_gc (gc now now' s) = now' + from_secs 60"
  "sent (gc now now' s) = sent s"
  by (simp_all add: gc_def next_gc_at_def)

text \<open>Every turn returns: the loop neither panics nor hangs, whatever it receives.\<close>

lemma run_turn_returns:
  assumes rt: "pb_runtime rt"
  shows "\<exists>s'. run_turn rt t s = Ret s'"
proof (cases "input t")
  case (Datagram bs a)
  obtain r where r: "Request_parse_from_bytes rt (take 1500 bs) = Some r"
    using pb_runtime.Request_parse_returns[OF rt] by blast
  show ?thesis
  proof (cases r)
    case (Inl e)
    with Datagram r show ?thesis by (simp add: run_turn_def)
  next
    case (Inr req)
    have "Request_bounded (length (take 1500 bs)) req"
      using r Inr by (intro pb_runtime.Request_parse_bounded[OF rt]) simp
    then have "texts_ok req" by (rule bounded_texts_ok) (simp add: max_text_def)
    then obtain s' where "handle_request rt req a (t_handle t) s = Ret s'"
      using handle_request_rendezvous[OF rt] by blast
    with Datagram r Inr show ?thesis by (simp add: run_turn_def)
  qed
next
  case RecvError
  then show ?thesis by (simp add: run_turn_def)
qed

lemma run_append: "run rt (ts @ us) s = and_then (run rt ts s) (run rt us)"
proof (induction ts arbitrary: s)
  case (Cons t ts)
  then show ?case by (cases "run_turn rt t s") simp_all
qed simp

lemma run_preserves:
  assumes "\<And>t s s'. t \<in> set ts \<Longrightarrow> P s \<Longrightarrow> run_turn rt t s = Ret s' \<Longrightarrow> P s'"
    and "P s" "run rt ts s = Ret s'"
  shows "P s'"
  using assms by (induction ts arbitrary: s) (auto simp: and_then_eq_Ret)

lemma run_returns: "pb_runtime rt \<Longrightarrow> \<exists>s'. run rt ts s = Ret s'"
proof (induction ts arbitrary: s)
  case Nil
  show ?case by simp
next
  case (Cons t ts)
  obtain s1 where "run_turn rt t s = Ret s1" using run_turn_returns[OF Cons.prems] by blast
  with Cons show ?case by simp
qed

text \<open>C5. Liveness of the server loop: for any datagrams, any clock and any state, the UDP
  server's loop goes on; no request makes it panic or hang.\<close>

theorem udp_server_never_stops:
  assumes "pb_runtime rt"
  shows "\<exists>s'. run rt ts s = Ret s'"
  by (rule run_returns [OF assms])

theorem udp_server_never_stops_witness:
  "\<exists>s'. run wire_rt [\<lparr>input = Datagram [10, 2, 99, 49, 18, 0] (V4 (Ipv4 1 2 3 4) 5), t_handle = 1,
       t_check = 2, t_expire = 3, t_next = 4\<rparr>] \<lparr>clients = Map.empty, next_gc = 60, sent = []\<rparr> = Ret s'"
  by (rule udp_server_never_stops [OF wire.pb_runtime_axioms])

subsection \<open>Where datagrams go\<close>

text \<open>The sources of the datagrams received in some turns.\<close>

definition heard :: "turn list \<Rightarrow> SocketAddr list" where
  "heard ts = concat (map (\<lambda>t. case input t of Datagram bs a \<Rightarrow> [a] | RecvError \<Rightarrow> []) ts)"

lemma run_turn_traffic:
  assumes "run_turn rt t s = Ret s'"
  shows "addr ` ran (clients s') \<subseteq> set (heard [t]) \<union> addr ` ran (clients s)"
    and "\<exists>out. sent s' = sent s @ out \<and> length out \<le> length (heard [t])
      \<and> snd ` set out \<subseteq> set (heard [t]) \<union> addr ` ran (clients s)"
proof -
  obtain s1 where h: "s1 = s \<or> (\<exists>bs a req. input t = Datagram bs a
        \<and> Request_parse_from_bytes rt (take 1500 bs) = Some (Inr req)
        \<and> handle_request rt req a (t_handle t) s = Ret s1)"
    and s': "s' = (if t_check t > next_gc s1 then gc (t_expire t) (t_next t) s1 else s1)"
    using run_turn_Ret[OF assms] by blast
  have ran: "ran (clients s') \<subseteq> ran (clients s1)" and sent': "sent s' = sent s1"
    using s' by (auto simp: ran_def split: if_splits)
  have "addr ` ran (clients s1) \<subseteq> set (heard [t]) \<union> addr ` ran (clients s)
    \<and> (\<exists>out. sent s1 = sent s @ out \<and> length out \<le> length (heard [t])
      \<and> snd ` set out \<subseteq> set (heard [t]) \<union> addr ` ran (clients s))"
    using h
  proof
    assume "s1 = s"
    then show ?thesis by auto
  next
    assume "\<exists>bs a req. input t = Datagram bs a
        \<and> Request_parse_from_bytes rt (take 1500 bs) = Some (Inr req)
        \<and> handle_request rt req a (t_handle t) s = Ret s1"
    then show ?thesis
      using handle_request_effect
      by (fastforce simp: server_effect_def heard_def ran_def split: if_splits)
  qed
  with ran sent' show "addr ` ran (clients s') \<subseteq> set (heard [t]) \<union> addr ` ran (clients s)"
    and "\<exists>out. sent s' = sent s @ out \<and> length out \<le> length (heard [t])
      \<and> snd ` set out \<subseteq> set (heard [t]) \<union> addr ` ran (clients s)"
    by auto
qed

lemma run_traffic:
  assumes "run rt ts s = Ret s'"
  shows "addr ` ran (clients s') \<subseteq> set (heard ts) \<union> addr ` ran (clients s)
    \<and> (\<exists>out. sent s' = sent s @ out \<and> length out \<le> length (heard ts)
      \<and> snd ` set out \<subseteq> set (heard ts) \<union> addr ` ran (clients s))"
  using assms
proof (induction ts arbitrary: s)
  case Nil
  then show ?case by simp
next
  case (Cons t ts)
  then obtain s1 where t: "run_turn rt t s = Ret s1" and ts: "run rt ts s1 = Ret s'"
    by (auto simp: and_then_eq_Ret)
  obtain out1 where out1: "sent s1 = sent s @ out1" "length out1 \<le> length (heard [t])"
      "snd ` set out1 \<subseteq> set (heard [t]) \<union> addr ` ran (clients s)"
    using run_turn_traffic(2)[OF t] by blast
  obtain out2 where out2: "sent s' = sent s1 @ out2" "length out2 \<le> length (heard ts)"
      "snd ` set out2 \<subseteq> set (heard ts) \<union> addr ` ran (clients s1)"
    using Cons.IH[OF ts] by blast
  have heard: "heard (t # ts) = heard [t] @ heard ts" by (simp add: heard_def)
  have "snd ` set (out1 @ out2) \<subseteq> set (heard (t # ts)) \<union> addr ` ran (clients s)"
    using out1(3) out2(3) run_turn_traffic(1)[OF t] unfolding heard set_append image_Un by blast
  then have "sent s' = sent s @ (out1 @ out2) \<and> length (out1 @ out2) \<le> length (heard (t # ts))
      \<and> snd ` set (out1 @ out2) \<subseteq> set (heard (t # ts)) \<union> addr ` ran (clients s)"
    using out1 out2 heard by simp
  moreover have "addr ` ran (clients s') \<subseteq> set (heard (t # ts)) \<union> addr ` ran (clients s)"
    using Cons.IH[OF ts] run_turn_traffic(1)[OF t] unfolding heard set_append by blast
  ultimately show ?case by blast
qed

text \<open>C6. No reflection and no amplification: a server that started empty sends only to
  addresses it has received a datagram from, and not more datagrams than it received.\<close>

theorem udp_sends_only_to_heard:
  assumes "clients s = Map.empty" "sent s = []" "run rt ts s = Ret s'"
  shows "snd ` set (sent s') \<subseteq> set (heard ts) \<and> length (sent s') \<le> length (heard ts)"
  using run_traffic[OF assms(3)] assms(1,2) by auto

theorem udp_sends_only_to_heard_witness:
  "\<exists>s'. run wire_rt [\<lparr>input = Datagram [10, 2, 99, 49, 18, 0] (V4 (Ipv4 1 2 3 4) 5), t_handle = 1,
        t_check = 2, t_expire = 3, t_next = 4\<rparr>] \<lparr>clients = Map.empty, next_gc = 60, sent = []\<rparr> = Ret s'
     \<and> snd ` set (sent s') \<subseteq> {V4 (Ipv4 1 2 3 4) 5} \<and> length (sent s') \<le> 1"
  (is "\<exists>s'. run wire_rt ?ts ?s = Ret s' \<and> _")
proof -
  obtain s' where r: "run wire_rt ?ts ?s = Ret s'"
    using run_returns[OF wire.pb_runtime_axioms] by blast
  have "snd ` set (sent s') \<subseteq> set (heard ?ts) \<and> length (sent s') \<le> length (heard ?ts)"
    by (rule udp_sends_only_to_heard[OF _ _ r]) simp_all
  with r show ?thesis by (auto simp: heard_def)
qed

subsection \<open>How long an entry lives\<close>

text \<open>
  The clock of a run: readings do not go back, and a collection takes at most \<open>D\<close>
  between its two readings.
\<close>

fun clock_ok :: "instant \<Rightarrow> duration \<Rightarrow> turn list \<Rightarrow> bool" where
  "clock_ok T D [] = True"
| "clock_ok T D (t # ts) =
     (T \<le> t_handle t \<and> t_handle t \<le> t_check t \<and> t_check t \<le> t_expire t \<and> t_expire t \<le> t_next t
      \<and> t_next t \<le> t_expire t + D \<and> clock_ok (t_next t) D ts)"

text \<open>
  The invariant between turns: no entry is older than two collection periods before the
  next collection, and that collection is at most one period away.
\<close>

definition young :: "instant \<Rightarrow> duration \<Rightarrow> Server \<Rightarrow> bool" where
  "young T D s \<longleftrightarrow> next_gc s \<le> T + from_secs 60
     \<and> (\<forall>c \<in> ran (clients s). next_gc s - from_secs 120 - D < last_ping c)"

lemma run_turn_young:
  assumes "run_turn rt t s = Ret s'" "young T D s" "clock_ok T D [t]" "0 \<le> D"
  shows "young (t_next t) D s' \<and> (\<forall>c \<in> ran (clients s'). t_check t - from_secs 120 - D < last_ping c)"
proof -
  obtain s1 where h: "s1 = s \<or> (\<exists>bs a req. input t = Datagram bs a
        \<and> Request_parse_from_bytes rt (take 1500 bs) = Some (Inr req)
        \<and> handle_request rt req a (t_handle t) s = Ret s1)"
    and s': "s' = (if t_check t > next_gc s1 then gc (t_expire t) (t_next t) s1 else s1)"
    using run_turn_Ret[OF assms(1)] by blast
  have s1: "next_gc s1 = next_gc s \<and> (\<forall>c \<in> ran (clients s1). c \<in> ran (clients s) \<or> last_ping c = t_handle t)"
    using h handle_request_effect by (fastforce simp: server_effect_def ran_def split: if_splits)
  have new: "next_gc s - from_secs 120 - D < t_handle t"
    using assms(2,3,4) by (simp add: young_def time_defs)
  have old: "\<forall>c \<in> ran (clients s1). next_gc s1 - from_secs 120 - D < last_ping c"
    using s1 new assms(2) by (auto simp: young_def)
  show ?thesis
  proof (cases "t_check t > next_gc s1")
    case True
    then show ?thesis using s' assms(3,4) by (auto simp: young_def ran_def time_defs)
  next
    case False
    then show ?thesis using s' s1 old assms(2,3) by (fastforce simp: young_def time_defs)
  qed
qed

lemma run_young:
  assumes "run rt ts s = Ret s'" "young T D s" "clock_ok T D ts" "0 \<le> D" "ts \<noteq> []"
  shows "\<forall>c \<in> ran (clients s'). t_check (last ts) - from_secs 120 - D < last_ping c"
  using assms
proof (induction ts arbitrary: s T)
  case Nil
  then show ?case by simp
next
  case (Cons t ts)
  then obtain s1 where t: "run_turn rt t s = Ret s1" and ts: "run rt ts s1 = Ret s'"
    by (auto simp: and_then_eq_Ret)
  have y: "young (t_next t) D s1 \<and> (\<forall>c \<in> ran (clients s1). t_check t - from_secs 120 - D < last_ping c)"
    using run_turn_young[OF t Cons.prems(2)] Cons.prems(3,4) by simp
  show ?case
  proof (cases "ts = []")
    case True
    with ts y show ?thesis by simp
  next
    case False
    then show ?thesis using Cons.IH[OF ts, of "t_next t"] y Cons.prems(3,4) by simp
  qed
qed

text \<open>Bounded staleness: after any turn of a server created at time \<open>T\<close>, every client
  still registered was heard from less than 120 seconds (plus the time of one
  collection) before the turn's clock reading: entries of silent clients go away.\<close>

theorem udp_entries_expire:
  assumes "Server_new os listen_addr ipv6_only T = Inr s" "run rt ts s = Ret s'"
    and "clock_ok T D ts" "0 \<le> D" "ts \<noteq> []" "clients s' who = Some c"
  shows "t_check (last ts) - from_secs 120 - D < last_ping c"
proof -
  have "young T D s"
    using assms(1) by (auto simp: Server_new_def res_bind_eq_Inr young_def next_gc_at_def)
  then show ?thesis
    using run_young[OF assms(2) _ assms(3,4,5)] assms(6) by (blast intro: ranI)
qed

text \<open>The witness: a client pings at time 1; its entry is there after that turn.\<close>

theorem udp_entries_expire_witness:
  "\<exists>s s' c. Server_new \<lparr>os_new = Inr (), os_set_reuse_address = Inr (), os_set_reuse_port = Inr (),
        os_set_only_v6 = Inr (), os_bind = (\<lambda>_. Inr ()), os_bind_std = (\<lambda>_. Inr ())\<rparr>
      (V4 (Ipv4 0 0 0 0) 8888) False 0 = Inr s
    \<and> run wire_rt [\<lparr>input = Datagram [10, 2, 99, 49, 18, 0] (V4 (Ipv4 1 2 3 4) 5), t_handle = 1,
        t_check = 2, t_expire = 3, t_next = 4\<rparr>] s = Ret s'
    \<and> clients s' ''c1'' = Some c \<and> 2 - from_secs 120 - 1 < last_ping c"
  (is "\<exists>s s' c. ?new = Inr s \<and> run wire_rt ?ts s = Ret s' \<and> _")
proof -
  let ?s = "\<lparr>clients = Map.empty, next_gc = from_secs 60, sent = []\<rparr>"
  have new: "?new = Inr ?s" by (simp add: Server_new_def next_gc_at_def)
  have "(case run wire_rt ?ts ?s of Ret s \<Rightarrow> clients s ''c1'' | _ \<Rightarrow> None) \<noteq> None" by code_simp
  then obtain s' c where r: "run wire_rt ?ts ?s = Ret s'" and c: "clients s' ''c1'' = Some c"
    by (auto split: outcome.splits)
  have "t_check (last ?ts) - from_secs 120 - 1 < last_ping c"
    by (rule udp_entries_expire[OF new r _ _ _ c]) simp_all
  with new r c show ?thesis by auto
qed

subsection \<open>How a client stays registered\<close>

definition says_bye :: "'u pb_rt \<Rightarrow> string \<Rightarrow> turn \<Rightarrow> bool" where
  "says_bye rt who t =
     (case input t of
        Datagram bs a \<Rightarrow>
          (case Request_parse_from_bytes rt (take 1500 bs) of
             Some (Inr req) \<Rightarrow> req_id req = who \<and> call_of req = CBye
           | _ \<Rightarrow> False)
      | RecvError \<Rightarrow> False)"

lemma run_turn_keeps:
  assumes "run_turn rt t s = Ret s'" "\<not> says_bye rt who t" "p \<le> t_handle t" "t_expire t < p + from_secs 60"
    and "\<exists>c. clients s who = Some c \<and> p \<le> last_ping c"
  shows "\<exists>c. clients s' who = Some c \<and> p \<le> last_ping c"
proof -
  obtain s1 where h: "s1 = s \<or> (\<exists>bs a req. input t = Datagram bs a
        \<and> Request_parse_from_bytes rt (take 1500 bs) = Some (Inr req)
        \<and> handle_request rt req a (t_handle t) s = Ret s1)"
    and s': "s' = (if t_check t > next_gc s1 then gc (t_expire t) (t_next t) s1 else s1)"
    using run_turn_Ret[OF assms(1)] by blast
  have "\<exists>c. clients s1 who = Some c \<and> p \<le> last_ping c"
    using h
  proof
    assume "\<exists>bs a req. input t = Datagram bs a
        \<and> Request_parse_from_bytes rt (take 1500 bs) = Some (Inr req)
        \<and> handle_request rt req a (t_handle t) s = Ret s1"
    then obtain bs a req where i: "input t = Datagram bs a"
        "Request_parse_from_bytes rt (take 1500 bs) = Some (Inr req)"
      and r: "handle_request rt req a (t_handle t) s = Ret s1" by blast
    have "clients s1 who \<noteq> None"
      using handle_request_bye[OF r, of who] assms(2,5) i by (auto simp: says_bye_def)
    then show ?thesis
      using handle_request_effect[OF r] assms(3,5) by (auto simp: server_effect_def split: if_splits)
  qed (use assms(5) in auto)
  then show ?thesis using s' assms(4) by auto
qed

text \<open>C37. Registration holds for sixty seconds: a client with an entry last refreshed at \<open>p\<close>
  or later keeps an entry through any turns before \<open>p\<close> plus sixty seconds, unless a
  datagram bids the server farewell in its name.\<close>

theorem udp_registration_holds:
  assumes "run rt ts s = Ret s'" "clients s who = Some c" "p \<le> last_ping c"
    and "\<forall>t \<in> set ts. \<not> says_bye rt who t \<and> p \<le> t_handle t \<and> t_expire t < p + from_secs 60"
  shows "\<exists>c'. clients s' who = Some c' \<and> p \<le> last_ping c'"
proof (rule run_preserves [where P = "\<lambda>s. \<exists>c. clients s who = Some c \<and> p \<le> last_ping c", OF _ _ assms(1)])
  show "\<exists>c. clients s who = Some c \<and> p \<le> last_ping c" using assms(2,3) by blast
next
  fix t s s'
  assume "t \<in> set ts" "\<exists>c. clients s who = Some c \<and> p \<le> last_ping c" "run_turn rt t s = Ret s'"
  then show "\<exists>c. clients s' who = Some c \<and> p \<le> last_ping c"
    using run_turn_keeps[of rt t s s' who p] assms(4) by blast
qed

theorem udp_registration_holds_witness:
  "\<exists>s' c'. run wire_rt [\<lparr>input = RecvError, t_handle = 31, t_check = 32, t_expire = 33, t_next = 34\<rparr>]
       \<lparr>clients = [''c1'' \<mapsto> \<lparr>addr = V4 (Ipv4 1 2 3 4) 5, last_ping = 1\<rparr>], next_gc = 20, sent = []\<rparr> = Ret s'
     \<and> clients s' ''c1'' = Some c' \<and> 1 \<le> last_ping c'"
  (is "\<exists>s' c'. run wire_rt ?ts ?s = Ret s' \<and> _")
proof -
  obtain s' where r: "run wire_rt ?ts ?s = Ret s'"
    using run_returns[OF wire.pb_runtime_axioms] by blast
  have "\<exists>c'. clients s' ''c1'' = Some c' \<and> 1 \<le> last_ping c'"
    by (rule udp_registration_holds[OF r, where c = "\<lparr>addr = V4 (Ipv4 1 2 3 4) 5, last_ping = 1\<rparr>"])
       (simp_all add: says_bye_def time_defs)
  with r show ?thesis by blast
qed

section \<open>Refinement of the rendezvous table\<close>

text \<open>C3. Refinement: every handler of the UDP server does to the table of observed
  addresses, and sends, exactly what the abstract rendezvous does, on every branch: a
  ping registers and is answered, a connection request to a known peer is forwarded with
  the observed address, to an unknown peer it is answered with an empty redirect, a
  reply is turned into a redirect, a farewell removes the entry, the rest is ignored.\<close>

theorem udp_refines_rendezvous:
  assumes "pb_runtime rt" "texts_ok req"
  shows "\<exists>s' out. handle_request rt req a now s = Ret s' \<and> sent s' = sent s @ out
    \<and> rendezvous (req_id req) (call_of req) a (table_of s) = (table_of s', map (the \<circ> delivery_of rt) out)
    \<and> (\<forall>d \<in> set out. delivery_of rt d \<noteq> None)"
  by (rule handle_request_rendezvous[OF assms])

theorem udp_refines_rendezvous_witness:
  "\<exists>s' out. handle_request wire_rt ((Request_new wire_rt)\<lparr>req_id := ''c2'', req_cmd := Some (ReqIsync ((Isync_new wire_rt)\<lparr>isync_id := ''c1''\<rparr>))\<rparr>)
        (V4 (Ipv4 5 6 7 8) 9) 2
        \<lparr>clients = [''c1'' \<mapsto> \<lparr>addr = V4 (Ipv4 1 2 3 4) 5, last_ping = 1\<rparr>], next_gc = 20, sent = []\<rparr> = Ret s'
      \<and> sent s' = out \<and> table_of s' ''c2'' = Some (V4 (Ipv4 5 6 7 8) 9)
      \<and> map (the \<circ> delivery_of wire_rt) out = [(V4 (Ipv4 1 2 3 4) 5, ''c1'', NFsync ''c2'' (show_addr (V4 (Ipv4 5 6 7 8) 9)))]"
  (is "\<exists>s' out. handle_request wire_rt ?req ?a 2 ?s = Ret s' \<and> _")
proof -
  have ok: "texts_ok ?req" by (simp add: texts_ok_def text_ok_def max_text_def utf8_valid_ascii)
  have call: "call_of ?req = CIsync ''c1''" "req_id ?req = ''c2''" by (simp_all add: call_of_def)
  have tab: "table_of ?s = [''c1'' \<mapsto> V4 (Ipv4 1 2 3 4) 5]" by (auto simp: table_of_def fun_eq_iff)
  show ?thesis
    using udp_refines_rendezvous[OF wire.pb_runtime_axioms ok, of ?a 2 ?s] unfolding call tab
    by (auto dest: fun_cong [where x = "''c2''"])
qed

section \<open>A hole punch through the server\<close>

lemma handle_request_fits:
  assumes "pb_runtime rt" "names_ok req" "handle_request rt req a now s = Ret s'" "sent s' = sent s @ out"
  shows "\<forall>d \<in> set out. length (fst d) \<le> 1500"
proof (cases "req_cmd req")
  case None
  with assms(3,4) show ?thesis by (simp add: handle_request_def)
next
  case (Some cmd)
  note fits = pb_runtime.response_fits[OF assms(1)]
  note send = pb_runtime.send_response_clean[OF assms(1)] pb_runtime.response_clean_simps[OF assms(1)]
  show ?thesis
    using assms(2-4) Some
    by (cases cmd)
       (auto simp: handle_request_def handler_defs names_ok_def name_ok_def send intro!: fits split: option.splits)
qed

lemma run_turn_request:
  assumes rt: "pb_runtime rt" and i: "input t = Datagram bs a"
    and p: "Request_parse_from_bytes rt (take 1500 bs) = Some (Inr req)"
    and ok: "names_ok req" and gc: "t_check t \<le> next_gc s"
  shows "\<exists>s' out. run_turn rt t s = Ret s' \<and> next_gc s' = next_gc s
    \<and> table_of s' = fst (rendezvous (req_id req) (call_of req) a (table_of s)) \<and> sent s' = sent s @ out
    \<and> map (delivery_of rt) out = map Some (snd (rendezvous (req_id req) (call_of req) a (table_of s)))
    \<and> (\<forall>d \<in> set out. length (fst d) \<le> 1500)"
proof -
  obtain s' out where h: "handle_request rt req a (t_handle t) s = Ret s'" "sent s' = sent s @ out"
      "rendezvous (req_id req) (call_of req) a (table_of s) = (table_of s', map (the \<circ> delivery_of rt) out)"
      "\<forall>d \<in> set out. delivery_of rt d \<noteq> None"
    using handle_request_rendezvous[OF rt names_texts[OF ok]] by blast
  have "next_gc s' = next_gc s" using handle_request_effect[OF h(1)] by (simp add: server_effect_def)
  moreover have "map (delivery_of rt) out = map Some (map (the \<circ> delivery_of rt) out)"
    using h(4) by (induction out) auto
  ultimately show ?thesis
    using h i p gc handle_request_fits[OF rt ok h(1,2)] by (simp add: run_turn_def)
qed

text \<open>A listener \<open>l\<close> at \<open>al\<close> pings, a connector \<open>c\<close> at \<open>ac\<close> asks for it, the listener replies.\<close>

lemma hole_punch_run:
  assumes rt: "pb_runtime rt" and ids: "name_ok l" "name_ok c"
    and t1: "input t1 = Datagram (Request_wire rt (ask rt l (ReqPing (Ping_new rt)))) al"
    and t2: "input t2 = Datagram (Request_wire rt (ask rt c (ReqIsync ((Isync_new rt)\<lparr>isync_id := l\<rparr>)))) ac"
    and t3: "input t3 = Datagram (Request_wire rt (ask rt l (ReqRsync ((Rsync_new rt)\<lparr>rsync_id := c\<rparr>)))) al"
    and new: "Server_new os addr6 v6 T = Inr s"
    and clock: "t_check t1 \<le> T + from_secs 60" "t_check t2 \<le> T + from_secs 60" "t_check t3 \<le> T + from_secs 60"
  shows "\<exists>s' bp bf br. run rt [t1, t2, t3] s = Ret s' \<and> sent s' = [(bp, al), (bf, al), (br, ac)]
    \<and> note_of_bytes rt bp = Some (l, NPong) \<and> note_of_bytes rt bf = Some (l, NFsync c (show_addr ac))
    \<and> note_of_bytes rt br = Some (c, NRedirect l (show_addr al)) \<and> length bf \<le> 1500 \<and> length br \<le> 1500"
proof -
  note ok = ask_ok_simps[OF rt]
  have s: "table_of s = Map.empty" "next_gc s = T + from_secs 60" "sent s = []"
    using new by (auto simp: Server_new_def res_bind_eq_Inr table_of_def next_gc_at_def fun_eq_iff)
  have one: "\<exists>b. out = [(b, d)] \<and> note_of_bytes rt b = Some n \<and> length b \<le> 1500"
    if "map (delivery_of rt) out = [Some (d, n)]" "\<forall>d \<in> set out. length (fst d) \<le> 1500" for out d n
    using that by (auto simp: delivery_of_def)
  obtain s1 out1 where 1: "run_turn rt t1 s = Ret s1" "next_gc s1 = T + from_secs 60" "table_of s1 = [l \<mapsto> al]"
      "sent s1 = out1" "map (delivery_of rt) out1 = [Some (al, l, NPong)]" "\<forall>d \<in> set out1. length (fst d) \<le> 1500"
    using run_turn_request[OF rt t1 ask_parse(3)[OF rt ok(1)[OF ids(1)]] ask_call(3)[OF ok(1)[OF ids(1)]], of s] clock(1) s
    by (auto simp: ask_call)
  obtain s2 out2 where 2: "run_turn rt t2 s1 = Ret s2" "next_gc s2 = T + from_secs 60" "table_of s2 = [l \<mapsto> al, c \<mapsto> ac]"
      "sent s2 = out1 @ out2" "map (delivery_of rt) out2 = [Some (al, l, NFsync c (show_addr ac))]" "\<forall>d \<in> set out2. length (fst d) \<le> 1500"
    using run_turn_request[OF rt t2 ask_parse(3)[OF rt ok(2)[OF ids(2,1)]] ask_call(3)[OF ok(2)[OF ids(2,1)]], of s1] clock(2) 1
    by (auto simp: ask_call)
  obtain s3 out3 where 3: "run_turn rt t3 s2 = Ret s3" "sent s3 = out1 @ out2 @ out3"
      "map (delivery_of rt) out3 = [Some (ac, c, NRedirect l (show_addr al))]" "\<forall>d \<in> set out3. length (fst d) \<le> 1500"
    using run_turn_request[OF rt t3 ask_parse(3)[OF rt ok(3)[OF ids]] ask_call(3)[OF ok(3)[OF ids]], of s2] clock(3) 2
    by (auto simp: ask_call)
  obtain bp where bp: "out1 = [(bp, al)]" "note_of_bytes rt bp = Some (l, NPong)" using one[OF 1(5,6)] by blast
  obtain bf where bf: "out2 = [(bf, al)]" "note_of_bytes rt bf = Some (l, NFsync c (show_addr ac))" "length bf \<le> 1500"
    using one[OF 2(5,6)] by blast
  obtain br where br: "out3 = [(br, ac)]" "note_of_bytes rt br = Some (c, NRedirect l (show_addr al))" "length br \<le> 1500"
    using one[OF 3(3,4)] by blast
  have "run rt [t1, t2, t3] s = Ret s3" using 1(1) 2(1) 3(1) by simp
  moreover have "sent s3 = [(bp, al), (bf, al), (br, ac)]" using 3(2) bp bf br by simp
  ultimately show ?thesis using bp bf br by blast
qed

text \<open>Hole punching end to end: a listener pings, a connector asks for it, the listener
  replies. The server then has sent the listener a Pong and an Fsync with the
  connector's observed address, and the connector a Redirect with the listener's; both
  addresses read back from their text. (The clock readings lie within the first
  collection period.)\<close>

theorem udp_hole_punch:
  assumes rt: "pb_runtime rt" and ids: "name_ok l" "name_ok c"
    and t1: "input t1 = Datagram (Request_wire rt (ask rt l (ReqPing (Ping_new rt)))) al"
    and t2: "input t2 = Datagram (Request_wire rt (ask rt c (ReqIsync ((Isync_new rt)\<lparr>isync_id := l\<rparr>)))) ac"
    and t3: "input t3 = Datagram (Request_wire rt (ask rt l (ReqRsync ((Rsync_new rt)\<lparr>rsync_id := c\<rparr>)))) al"
    and new: "Server_new os addr6 v6 T = Inr s"
    and clock: "t_check t1 \<le> T + from_secs 60" "t_check t2 \<le> T + from_secs 60" "t_check t3 \<le> T + from_secs 60"
  shows "\<exists>s'. run rt [t1, t2, t3] s = Ret s'
    \<and> map (delivery_of rt) (sent s') = map Some
        [(al, l, NPong), (al, l, NFsync c (show_addr ac)), (ac, c, NRedirect l (show_addr al))]
    \<and> parse_addr (show_addr ac) = Some (clear_flow ac) \<and> parse_addr (show_addr al) = Some (clear_flow al)"
proof -
  obtain s' bp bf br where "run rt [t1, t2, t3] s = Ret s'" "sent s' = [(bp, al), (bf, al), (br, ac)]"
    "note_of_bytes rt bp = Some (l, NPong)" "note_of_bytes rt bf = Some (l, NFsync c (show_addr ac))"
    "note_of_bytes rt br = Some (c, NRedirect l (show_addr al))"
    using hole_punch_run[OF assms] by blast
  then show ?thesis using parse_show_addr by (simp add: delivery_of_def)
qed

abbreviation at_one :: "bytes \<Rightarrow> SocketAddr \<Rightarrow> turn" where
  "at_one b a \<equiv> \<lparr>input = Datagram b a, t_handle = 1, t_check = 1, t_expire = 1, t_next = 1\<rparr>"

theorem udp_hole_punch_witness:
  "\<exists>s s'. Server_new \<lparr>os_new = Inr (), os_set_reuse_address = Inr (), os_set_reuse_port = Inr (),
        os_set_only_v6 = Inr (), os_bind = (\<lambda>_. Inr ()), os_bind_std = (\<lambda>_. Inr ())\<rparr>
      (V4 (Ipv4 0 0 0 0) 8888) False 0 = Inr s
    \<and> run wire_rt
       [at_one (Request_wire wire_rt (ask wire_rt ''l'' (ReqPing (Ping_new wire_rt)))) (V4 (Ipv4 1 2 3 4) 5),
        at_one (Request_wire wire_rt (ask wire_rt ''c'' (ReqIsync ((Isync_new wire_rt)\<lparr>isync_id := ''l''\<rparr>)))) (V4 (Ipv4 5 6 7 8) 9),
        at_one (Request_wire wire_rt (ask wire_rt ''l'' (ReqRsync ((Rsync_new wire_rt)\<lparr>rsync_id := ''c''\<rparr>)))) (V4 (Ipv4 1 2 3 4) 5)] s
      = Ret s'
    \<and> length (sent s') = 3"
  (is "\<exists>s s'. ?new = Inr s \<and> run wire_rt ?ts s = Ret s' \<and> _")
proof -
  let ?s = "\<lparr>clients = Map.empty, next_gc = from_secs 60, sent = []\<rparr>"
  have new: "?new = Inr ?s" by (simp add: Server_new_def next_gc_at_def)
  have ok: "name_ok ''l''" "name_ok ''c''" by (simp_all add: name_ok_def ascii_ok)
  have "\<exists>s'. run wire_rt ?ts ?s = Ret s' \<and> map (delivery_of wire_rt) (sent s') = map Some
      [(V4 (Ipv4 1 2 3 4) 5, ''l'', NPong), (V4 (Ipv4 1 2 3 4) 5, ''l'', NFsync ''c'' (show_addr (V4 (Ipv4 5 6 7 8) 9))),
       (V4 (Ipv4 5 6 7 8) 9, ''c'', NRedirect ''l'' (show_addr (V4 (Ipv4 1 2 3 4) 5)))]
    \<and> parse_addr (show_addr (V4 (Ipv4 5 6 7 8) 9)) = Some (clear_flow (V4 (Ipv4 5 6 7 8) 9))
    \<and> parse_addr (show_addr (V4 (Ipv4 1 2 3 4) 5)) = Some (clear_flow (V4 (Ipv4 1 2 3 4) 5))"
    by (rule udp_hole_punch[OF wire.pb_runtime_axioms ok _ _ _ new]) (simp_all only: turn.simps, simp_all add: time_defs)
  then obtain s' where "run wire_rt ?ts ?s = Ret s'" "length (sent s') = 3"
    by (auto dest: arg_cong [where f = length] simp del: run.simps)
  with new show ?thesis by blast
qed

end
