(* ===== verification/Udp_Client.thy ===== *)
theory Udp_Client
  imports Rendezvous Wire_Format
begin

text \<open>
  The UDP clients, \<open>src/udp/client.rs\<close>: the socket utilities, \<open>Connector::connect\<close> and the
  thread of \<open>Listener::listen\<close>.

  A socket is its addresses and the operating system's answers to the calls on it; what
  the clients send is the list \<open>outbox\<close> of socket number, datagram and destination. The
  iterations of the loops are the arguments of the definitions: one \<open>conn_turn\<close> (an endless
  stream of them for each round) or \<open>listen_turn\<close> for each, with the clock readings, the
  answer of \<open>poll\<close> and the datagrams.
  Name resolution, \<open>poll\<close> and the \<open>socket2\<close> crate are parameters.
\<close>

section \<open>Sockets\<close>

record sock_os =
  so_new :: "io_error + unit"
  so_config :: "io_error + unit"
  so_set_reuse_address :: "io_error + unit"
  so_bind :: "SocketAddr \<Rightarrow> io_error + unit"
  so_set_nonblocking :: "bool \<Rightarrow> io_error + unit"
  so_connect :: "SocketAddr \<Rightarrow> io_error + unit"
  so_peer_addr :: "io_error + SocketAddr"
  so_local_addr :: "io_error + SocketAddr"

record Socket =
  answers :: sock_os
  bound_to :: SocketAddr
  remote :: "SocketAddr option"

type_synonym outbox = "(nat \<times> bytes \<times> SocketAddr) list"

text \<open>\<open>sk_cfg\<close> tells whether a \<open>SocketConfigure\<close> was given.\<close>

record CommonConfig =
  sk_cfg :: bool
  cfg_id :: string
  cfg_local_addr :: "SocketAddr option"
  cfg_server_addrs :: "string list"

definition CommonConfig_new :: "string list \<Rightarrow> string \<Rightarrow> SocketAddr option \<Rightarrow> bool \<Rightarrow> io_error + CommonConfig" where
  "CommonConfig_new server_addrs who local_addr cfg =
     (if server_addrs = [] then Inl (new_error Other ''No server addresses provided'')
      else Inr \<lparr>sk_cfg = cfg, cfg_id = who, cfg_local_addr = local_addr, cfg_server_addrs = server_addrs\<rparr>)"

definition create_socket :: "sock_os \<Rightarrow> SocketAddr \<Rightarrow> bool \<Rightarrow> (io_error + Socket) outcome" where
  "create_socket os a cfg =
     and_then (unwrap (so_new os)) (\<lambda>_.
     ques (if cfg then so_config os else Inr ()) (\<lambda>_.
     ques (so_set_reuse_address os) (\<lambda>_.
     ques (so_bind os a) (\<lambda>_.
     Ret (Inr \<lparr>answers = os, bound_to = a, remote = None\<rparr>)))))"

definition connect_socket :: "Socket \<Rightarrow> SocketAddr \<Rightarrow> io_error + Socket" where
  "connect_socket sk a = res_bind (so_connect (answers sk) a) (\<lambda>_. Inr (sk\<lparr>remote := Some a\<rparr>))"

definition new_req :: "'u pb_rt \<Rightarrow> string \<Rightarrow> 'u Request" where
  "new_req rt myid = (Request_new rt)\<lparr>req_id := myid\<rparr>"

text \<open>The address family of the local address decides over that of the server's.\<close>

definition map_family :: "SocketAddr option \<Rightarrow> SocketAddr \<Rightarrow> SocketAddr" where
  "map_family local_addr server_addr =
     (if (case local_addr of Some a \<Rightarrow> is_ipv6 a | None \<Rightarrow> False) then
        (case server_addr of V4 ip p \<Rightarrow> V6 (to_ipv6_mapped ip) p 0 0 | V6 ip p fl sc \<Rightarrow> server_addr)
      else server_addr)"

definition default_local :: "SocketAddr \<Rightarrow> SocketAddr" where
  "default_local server_addr =
     (case server_addr of V4 ip p \<Rightarrow> V4 (Ipv4 0 0 0 0) 0 | V6 ip p fl sc \<Rightarrow> V6 (Ipv6 0 0 0 0 0 0 0 0) 0 0 0)"

definition connect_server ::
  "(string \<Rightarrow> io_error + SocketAddr list) \<Rightarrow> sock_os \<Rightarrow> string \<Rightarrow> SocketAddr option \<Rightarrow> bool \<Rightarrow> (io_error + Socket) outcome" where
  "connect_server resolve os server_addr local_addr cfg =
     ques (resolve server_addr) (\<lambda>addrs.
     case addrs of
       [] \<Rightarrow> Ret (Inl (new_error Other ''No address found''))
     | server_addr # _ \<Rightarrow>
         (let server_addr = map_family local_addr server_addr;
              local_addr = (case local_addr of Some a \<Rightarrow> a | None \<Rightarrow> default_local server_addr)
          in ques_call (create_socket os local_addr cfg) (\<lambda>svr_sk.
             ques (so_set_nonblocking (answers svr_sk) False) (\<lambda>_.
             ques (connect_socket svr_sk server_addr) (\<lambda>svr_sk.
             Ret (Inr svr_sk))))))"

definition with_port :: "SocketAddr \<Rightarrow> u16 \<Rightarrow> SocketAddr" where
  "with_port a p = (case a of V4 ip _ \<Rightarrow> V4 ip p | V6 ip _ flow scope \<Rightarrow> V6 ip p flow scope)"

text \<open>The loop of \<open>connect_multiple_servers\<close>; \<open>os i\<close> answers for its \<open>i\<close>-th socket.\<close>

fun connect_servers ::
  "(string \<Rightarrow> io_error + SocketAddr list) \<Rightarrow> (nat \<Rightarrow> sock_os) \<Rightarrow> SocketAddr option \<Rightarrow> bool
    \<Rightarrow> string list \<Rightarrow> (Socket \<times> SocketAddr) list \<Rightarrow> SocketAddr option
    \<Rightarrow> (io_error + (Socket \<times> SocketAddr) list \<times> SocketAddr option) outcome" where
  "connect_servers resolve os initial_addr cfg [] svr_sks local_addr = Ret (Inr (svr_sks, local_addr))"
| "connect_servers resolve os initial_addr cfg (server_addr # rest) svr_sks local_addr =
     ques_call (connect_server resolve (os (length svr_sks)) server_addr
                  (case local_addr of Some a \<Rightarrow> Some a | None \<Rightarrow> initial_addr) cfg) (\<lambda>svr_sk.
     and_then (unwrap (so_peer_addr (answers svr_sk))) (\<lambda>svr_addr.
     and_then
       (case local_addr of
          Some a \<Rightarrow> Ret a
        | None \<Rightarrow>
            and_then (unwrap (so_local_addr (answers svr_sk))) (\<lambda>la.
            Ret (case initial_addr of Some a \<Rightarrow> with_port a (port la) | None \<Rightarrow> la))) (\<lambda>local_addr.
     connect_servers resolve os initial_addr cfg rest (svr_sks @ [(svr_sk, svr_addr)]) (Some local_addr))))"

definition connect_multiple_servers ::
  "(string \<Rightarrow> io_error + SocketAddr list) \<Rightarrow> (nat \<Rightarrow> sock_os) \<Rightarrow> string list \<Rightarrow> SocketAddr option \<Rightarrow> bool
    \<Rightarrow> (io_error + (Socket \<times> SocketAddr) list \<times> SocketAddr) outcome" where
  "connect_multiple_servers resolve os server_addrs initial_addr cfg =
     ques_call (connect_servers resolve os initial_addr cfg server_addrs [] None) (\<lambda>(svr_sks, local_addr).
     case local_addr of None \<Rightarrow> Panic | Some a \<Rightarrow> Ret (Inr (svr_sks, a)))"

text \<open>\<open>set_nonblocking(true)?\<close> on every socket.\<close>

fun set_all_nonblocking :: "(Socket \<times> SocketAddr) list \<Rightarrow> io_error + unit" where
  "set_all_nonblocking [] = Inr ()"
| "set_all_nonblocking ((sk, a) # sks) =
     res_bind (so_set_nonblocking (answers sk) True) (\<lambda>_. set_all_nonblocking sks)"

section \<open>Polling\<close>

text \<open>
  What \<open>poll\<close> answers: an error, or the number of descriptors with events and the
  \<open>revents\<close> of each descriptor, \<open>None\<close> for bits the crate does not know.
\<close>

datatype poll_answer = PollError string | Polled nat "bool option list"

fun mark_ready :: "bool list \<Rightarrow> bool option list \<Rightarrow> nat \<Rightarrow> bool list \<Rightarrow> bool list" where
  "mark_ready revents_seen fds poll_idx [] = revents_seen"
| "mark_ready ready fds poll_idx (failed # rest) =
     (if failed then mark_ready (ready @ [False]) fds poll_idx rest
      else mark_ready (ready @ [case fds ! poll_idx of Some e \<Rightarrow> e | None \<Rightarrow> False]) fds (poll_idx + 1) rest)"

definition poll_sockets :: "bool list \<Rightarrow> poll_answer \<Rightarrow> io_error + bool list" where
  "poll_sockets failed_servers pa =
     (if filter (\<lambda>failed. \<not> failed) failed_servers = [] then Inr (replicate (length failed_servers) False)
      else
        (case pa of
           PollError e \<Rightarrow> Inl (new_error Other e)
         | Polled n fds \<Rightarrow>
             if n > 0 then Inr (mark_ready [] fds 0 failed_servers)
             else Inr (replicate (length failed_servers) False)))"

section \<open>Sending commands\<close>

text \<open>The result of \<open>send_to\<close> is ignored; an encoder error is a panic.\<close>

definition send_cmd :: "'u pb_rt \<Rightarrow> nat \<Rightarrow> string \<Rightarrow> 'u ReqCmd \<Rightarrow> SocketAddr \<Rightarrow> outbox \<Rightarrow> outbox outcome" where
  "send_cmd rt i myid cmd a out =
     (let req = (Request_new rt)\<lparr>req_id := myid, req_cmd := Some cmd\<rparr> in
      and_then (unwrap (Request_write_to_bytes rt req)) (\<lambda>b. Ret (out @ [(i, b, a)])))"

definition send_rsync :: "'u pb_rt \<Rightarrow> nat \<Rightarrow> string \<Rightarrow> string \<Rightarrow> SocketAddr \<Rightarrow> outbox \<Rightarrow> outbox outcome" where
  "send_rsync rt i myid target_id a out =
     send_cmd rt i myid (ReqRsync ((Rsync_new rt)\<lparr>rsync_id := target_id\<rparr>)) a out"

section \<open>Connector\<close>

record conn_state =
  failed_servers :: "bool list"
  last_error :: "io_error option"
  outbox_of :: outbox

text \<open>
  One iteration of the inner loop: the clock at its condition, the answer of \<open>poll\<close>, what
  each socket receives, and the answers for a peer socket made while handling it.
\<close>

record conn_turn =
  ct_now :: instant
  ct_poll :: poll_answer
  ct_recv :: "nat \<Rightarrow> io_error + bytes"
  ct_peer :: "nat \<Rightarrow> sock_os"

text \<open>
  A ready socket. \<open>Inl\<close> is a return from \<open>connect\<close>, \<open>Inr\<close> goes on with the loop.
\<close>

definition connector_ready ::
  "'u pb_rt \<Rightarrow> CommonConfig \<Rightarrow> conn_turn \<Rightarrow> nat \<Rightarrow> Socket \<Rightarrow> conn_state
    \<Rightarrow> ((io_error + Socket) \<times> conn_state + conn_state) outcome" where
  "connector_ready rt cfg t i sk st =
     (case ct_recv t i of
        Inl e \<Rightarrow> Ret (Inr (st\<lparr>last_error := Some e\<rparr>))
      | Inr bs \<Rightarrow>
          (case Response_parse_from_bytes rt (take 1500 bs) of
             None \<Rightarrow> Hang
           | Some (Inl e) \<Rightarrow> Ret (Inr st)
           | Some (Inr resp) \<Rightarrow>
               (if resp_id resp \<noteq> cfg_id cfg then Ret (Inr st)
                else
                  (case resp_cmd resp of
                     Some (RespRedirect rdr) \<Rightarrow>
                       (if redirect_addr rdr \<noteq> [] then
                          (case parse_addr (redirect_addr rdr) of
                             Some peer_addr \<Rightarrow>
                               and_then
                                 (ques (so_local_addr (answers sk)) (\<lambda>la.
                                  ques_call (create_socket (ct_peer t i) la (sk_cfg cfg)) (\<lambda>peer_sk.
                                  ques (connect_socket peer_sk peer_addr) (\<lambda>peer_sk.
                                  Ret (Inr peer_sk))))) (\<lambda>r.
                               Ret (Inl (r, st)))
                           | None \<Rightarrow> Ret (Inr st))
                        else
                          Ret (Inr (st\<lparr>last_error := Some (new_error Other ''Target not found''),
                                       failed_servers := (failed_servers st)[i := True]\<rparr>)))
                   | _ \<Rightarrow> Ret (Inr st)))))"

fun connector_scan ::
  "'u pb_rt \<Rightarrow> CommonConfig \<Rightarrow> conn_turn \<Rightarrow> bool list \<Rightarrow> nat \<Rightarrow> (Socket \<times> SocketAddr) list \<Rightarrow> conn_state
    \<Rightarrow> ((io_error + Socket) \<times> conn_state + conn_state) outcome" where
  "connector_scan rt cfg t ready i [] st = Ret (Inr st)"
| "connector_scan rt cfg t ready i ((sk, a) # sks) st =
     (if \<not> ready ! i then connector_scan rt cfg t ready (i + 1) sks st
      else
        ques_call (connector_ready rt cfg t i sk st) (\<lambda>st. connector_scan rt cfg t ready (i + 1) sks st))"

text \<open>
  \<open>while round_start.elapsed() < round_timeout\<close>. Nothing but its own tests ends the loop:
  its iterations \<open>turns n\<close> do not run out, and \<open>None\<close> is a loop that never
  ends.
\<close>

definition elapsed :: "instant \<Rightarrow> instant \<Rightarrow> duration" where
  "elapsed now t = max 0 (now - t)"

definition round_timeout :: duration where
  "round_timeout = from_secs 5"

partial_function (option) round_go ::
  "'u pb_rt \<Rightarrow> CommonConfig \<Rightarrow> (Socket \<times> SocketAddr) list \<Rightarrow> instant \<Rightarrow> (nat \<Rightarrow> conn_turn) \<Rightarrow> nat \<Rightarrow> conn_state
    \<Rightarrow> ((io_error + Socket) \<times> conn_state + conn_state) outcome option" where
  "round_go rt cfg sks round_start turns n st =
     (if \<not> elapsed (ct_now (turns n)) round_start < round_timeout then Some (Ret (Inr st))
      else if list_all (\<lambda>f. f) (failed_servers st) then Some (Ret (Inr st))
      else
        (case poll_sockets (failed_servers st) (ct_poll (turns n)) of
           Inl e \<Rightarrow> Some (Ret (Inr (st\<lparr>last_error := Some e\<rparr>)))
         | Inr ready \<Rightarrow>
             (case connector_scan rt cfg (turns n) ready 0 sks st of
                Ret r \<Rightarrow>
                  (case r of
                     Inl res \<Rightarrow> Some (Ret (Inl res))
                   | Inr st \<Rightarrow> round_go rt cfg sks round_start turns (n + 1) st)
              | Panic \<Rightarrow> Some Panic
              | Hang \<Rightarrow> Some Hang)))"

declare round_go.simps [code]

definition round_loop ::
  "'u pb_rt \<Rightarrow> CommonConfig \<Rightarrow> (Socket \<times> SocketAddr) list \<Rightarrow> instant \<Rightarrow> (nat \<Rightarrow> conn_turn) \<Rightarrow> conn_state
    \<Rightarrow> ((io_error + Socket) \<times> conn_state + conn_state) outcome" where
  "round_loop rt cfg sks round_start turns st =
     (case round_go rt cfg sks round_start turns 0 st of None \<Rightarrow> Hang | Some r \<Rightarrow> r)"

text \<open>The requests at the start of a round.\<close>

fun send_isyncs :: "bytes \<Rightarrow> bool list \<Rightarrow> nat \<Rightarrow> (Socket \<times> SocketAddr) list \<Rightarrow> outbox \<Rightarrow> outbox" where
  "send_isyncs isync failed i [] out = out"
| "send_isyncs isync failed i ((sk, a) # sks) out =
     send_isyncs isync failed (i + 1) sks (if \<not> failed ! i then out @ [(i, isync, a)] else out)"

text \<open>A round: the clock reading at its start and the iterations of its loop.\<close>

type_synonym conn_round = "instant \<times> (nat \<Rightarrow> conn_turn)"

fun sync_rounds ::
  "'u pb_rt \<Rightarrow> CommonConfig \<Rightarrow> (Socket \<times> SocketAddr) list \<Rightarrow> bytes \<Rightarrow> conn_round list \<Rightarrow> conn_state
    \<Rightarrow> ((io_error + Socket) \<times> conn_state + conn_state) outcome" where
  "sync_rounds rt cfg sks isync [] st = Ret (Inr st)"
| "sync_rounds rt cfg sks isync ((round_start, ts) # rounds) st =
     (if list_all (\<lambda>f. f) (failed_servers st) then Ret (Inr st)
      else
        (let st = st\<lparr>outbox_of := send_isyncs isync (failed_servers st) 0 sks (outbox_of st)\<rparr> in
         ques_call (round_loop rt cfg sks round_start ts st) (\<lambda>st. sync_rounds rt cfg sks isync rounds st)))"

text \<open>The encoded request of \<open>connect\<close>.\<close>

definition isync_bytes :: "'u pb_rt \<Rightarrow> string \<Rightarrow> string \<Rightarrow> pb_error + bytes" where
  "isync_bytes rt myid target_id =
     (let isync = (Isync_new rt)\<lparr>isync_id := target_id\<rparr>
      in Request_write_to_bytes rt (Request_set_Isync isync (new_req rt myid)))"

record Connector =
  con_cfg :: CommonConfig

definition Connector_new :: "string list \<Rightarrow> string \<Rightarrow> SocketAddr option \<Rightarrow> bool \<Rightarrow> io_error + Connector" where
  "Connector_new server_addrs who local_addr cfg =
     res_bind (CommonConfig_new server_addrs who local_addr cfg) (\<lambda>cfg. Inr \<lparr>con_cfg = cfg\<rparr>)"

text \<open>
  \<open>Connector::connect\<close> on the configuration of the connector: its result and what it sent. \<open>rounds k\<close> is the \<open>k\<close>-th of the
  three rounds.
\<close>

definition connector_connect ::
  "'u pb_rt \<Rightarrow> (string \<Rightarrow> io_error + SocketAddr list) \<Rightarrow> (nat \<Rightarrow> sock_os) \<Rightarrow> (nat \<Rightarrow> conn_round)
    \<Rightarrow> CommonConfig \<Rightarrow> string \<Rightarrow> ((io_error + Socket) \<times> outbox) outcome" where
  "connector_connect rt resolve os rounds cfg target_id =
     (case isync_bytes rt (cfg_id cfg) target_id of
        Inl e \<Rightarrow> Ret (Inl (rt_io_error rt e), [])
      | Inr isync \<Rightarrow>
          and_then (connect_multiple_servers resolve os (cfg_server_addrs cfg) (cfg_local_addr cfg) (sk_cfg cfg)) (\<lambda>r.
          case r of
            Inl e \<Rightarrow> Ret (Inl e, [])
          | Inr (svr_sks, _) \<Rightarrow>
              (case set_all_nonblocking svr_sks of
                 Inl e \<Rightarrow> Ret (Inl e, [])
               | Inr _ \<Rightarrow>
                   and_then
                     (sync_rounds rt cfg svr_sks isync (map rounds [0..<3])
                        \<lparr>failed_servers = replicate (length svr_sks) False, last_error = None, outbox_of = []\<rparr>) (\<lambda>r.
                   case r of
                     Inl (res, st) \<Rightarrow> Ret (res, outbox_of st)
                   | Inr st \<Rightarrow>
                       Ret (Inl (case last_error st of
                                   Some e \<Rightarrow> e
                                 | None \<Rightarrow> new_error Other ''No response from any server''), outbox_of st)))))"

section \<open>Listener\<close>

record Listener =
  l_cfg :: CommonConfig
  l_svr_sks :: "(Socket \<times> SocketAddr) list option"
  l_exit :: bool
  l_last_pong :: "instant option list"

definition Listener_new :: "string list \<Rightarrow> string \<Rightarrow> SocketAddr option \<Rightarrow> bool \<Rightarrow> io_error + Listener" where
  "Listener_new server_addrs who local_addr cfg =
     res_bind (CommonConfig_new server_addrs who local_addr cfg) (\<lambda>cfg.
     Inr \<lparr>l_cfg = cfg, l_svr_sks = None, l_exit = False,
          l_last_pong = replicate (length (cfg_server_addrs cfg)) None\<rparr>)"

text \<open>
  The state of the background thread. \<open>last_pong\<close> is shared with the listener, which reads
  there what the thread has written.
\<close>

record keeper =
  ping_times :: "instant option list"
  deaf :: "bool list"
  last_pong :: "instant option list"
  k_out :: outbox

text \<open>
  One iteration of the thread's loop: the exit flag, and for each socket the clock at the
  keepalive test and after the ping, the random variation in milliseconds, the datagram,
  and the clock when a Pong is noted.
\<close>

record listen_turn =
  lt_exit :: bool
  lt_now :: "nat \<Rightarrow> instant"
  lt_sent :: "nat \<Rightarrow> instant"
  lt_variation :: "nat \<Rightarrow> int"
  lt_poll :: poll_answer
  lt_recv :: "nat \<Rightarrow> io_error + bytes"
  lt_pong :: "nat \<Rightarrow> instant"

definition keepalive_to :: duration where
  "keepalive_to = from_secs 10"

fun send_pings :: "bytes \<Rightarrow> listen_turn \<Rightarrow> nat \<Rightarrow> (Socket \<times> SocketAddr) list \<Rightarrow> keeper \<Rightarrow> keeper" where
  "send_pings ping t i [] k = k"
| "send_pings ping t i ((sk, a) # sks) k =
     send_pings ping t (i + 1) sks
       (if (case ping_times k ! i of None \<Rightarrow> True | Some p \<Rightarrow> elapsed (lt_now t i) p > keepalive_to) then
          k\<lparr>k_out := k_out k @ [(i, ping, a)],
            ping_times := (ping_times k)[i := Some (lt_sent t i + from_millis (lt_variation t i))]\<rparr>
        else k)"

definition listener_ready ::
  "'u pb_rt \<Rightarrow> string \<Rightarrow> listen_turn \<Rightarrow> nat \<Rightarrow> SocketAddr \<Rightarrow> keeper \<Rightarrow> keeper outcome" where
  "listener_ready rt myid t i a k =
     (case lt_recv t i of
        Inl e \<Rightarrow> if kind e = WouldBlock then Ret k else Ret (k\<lparr>deaf := (deaf k)[i := True]\<rparr>)
      | Inr bs \<Rightarrow>
          (case Response_parse_from_bytes rt (take 1500 bs) of
             None \<Rightarrow> Hang
           | Some (Inl e) \<Rightarrow> Ret k
           | Some (Inr resp) \<Rightarrow>
               (if resp_id resp \<noteq> myid then Ret k
                else
                  (case resp_cmd resp of
                     Some (RespPong _) \<Rightarrow>
                       if i < length (last_pong k) then Ret (k\<lparr>last_pong := (last_pong k)[i := Some (lt_pong t i)]\<rparr>)
                       else Panic
                   | Some (RespFsync fsync) \<Rightarrow>
                       and_then (send_rsync rt i myid (fsync_id fsync) a (k_out k)) (\<lambda>out.
                       case parse_addr (fsync_addr fsync) of
                         Some peer_addr \<Rightarrow>
                           and_then (send_rsync rt i myid (fsync_id fsync) peer_addr out) (\<lambda>out. Ret (k\<lparr>k_out := out\<rparr>))
                       | None \<Rightarrow> Ret (k\<lparr>k_out := out\<rparr>))
                   | _ \<Rightarrow> Ret k))))"

fun listener_scan ::
  "'u pb_rt \<Rightarrow> string \<Rightarrow> listen_turn \<Rightarrow> bool list \<Rightarrow> nat \<Rightarrow> (Socket \<times> SocketAddr) list \<Rightarrow> keeper \<Rightarrow> keeper outcome" where
  "listener_scan rt myid t ready i [] k = Ret k"
| "listener_scan rt myid t ready i ((sk, a) # sks) k =
     (if \<not> ready ! i then listener_scan rt myid t ready (i + 1) sks k
      else and_then (listener_ready rt myid t i a k) (\<lambda>k. listener_scan rt myid t ready (i + 1) sks k))"

definition listener_turn ::
  "'u pb_rt \<Rightarrow> string \<Rightarrow> bytes \<Rightarrow> (Socket \<times> SocketAddr) list \<Rightarrow> listen_turn \<Rightarrow> keeper \<Rightarrow> keeper outcome" where
  "listener_turn rt myid ping sks t k =
     (let k = send_pings ping t 0 sks k in
      case poll_sockets (deaf k) (lt_poll t) of
        Inl e \<Rightarrow> Ret k
      | Inr ready \<Rightarrow> listener_scan rt myid t ready 0 sks k)"

text \<open>\<open>while !exit.load(Relaxed)\<close>: the flag is read before every iteration.\<close>

fun listener_thread ::
  "'u pb_rt \<Rightarrow> string \<Rightarrow> bytes \<Rightarrow> (Socket \<times> SocketAddr) list \<Rightarrow> listen_turn list \<Rightarrow> keeper \<Rightarrow> keeper outcome" where
  "listener_thread rt myid ping sks [] k = Ret k"
| "listener_thread rt myid ping sks (t # ts) k =
     (if lt_exit t then Ret k
      else and_then (listener_turn rt myid ping sks t k) (listener_thread rt myid ping sks ts))"

definition read_last_pong :: "Listener \<Rightarrow> keeper option \<Rightarrow> instant option list" where
  "read_last_pong l th = (case th of None \<Rightarrow> l_last_pong l | Some k \<Rightarrow> last_pong k)"

definition keeper_start :: "(Socket \<times> SocketAddr) list \<Rightarrow> instant option list \<Rightarrow> keeper" where
  "keeper_start sks pongs =
     \<lparr>ping_times = replicate (length sks) None, deaf = replicate (length sks) False, last_pong = pongs, k_out = []\<rparr>"

text \<open>
  What \<open>listen\<close> hands to the thread: the ping, the sockets, the identity. The result is
  the listener afterwards with the error, or the peer socket and the thread.
\<close>

record thread =
  th_id :: string
  th_ping :: bytes
  th_sks :: "(Socket \<times> SocketAddr) list"
  th_keeper :: keeper

definition listen_start ::
  "'u pb_rt \<Rightarrow> sock_os \<Rightarrow> Listener \<Rightarrow> (Listener \<times> (io_error + Socket \<times> thread)) outcome" where
  "listen_start rt peer_os l =
     (let myid = cfg_id (l_cfg l);
          req = Request_set_Ping (Ping_new rt) (new_req rt myid) in
      case Request_write_to_bytes rt req of
        Inl e \<Rightarrow> Ret (l, Inl (rt_io_error rt e))
      | Inr ping \<Rightarrow>
          (case l_svr_sks l of
             None \<Rightarrow> Panic
           | Some svr_sks \<Rightarrow>
               (let l = l\<lparr>l_svr_sks := None\<rparr> in
                case set_all_nonblocking svr_sks of
                  Inl e \<Rightarrow> Ret (l, Inl e)
                | Inr _ \<Rightarrow>
                    (case cfg_local_addr (l_cfg l) of
                       None \<Rightarrow> Panic
                     | Some la \<Rightarrow>
                         and_then (create_socket peer_os la (sk_cfg (l_cfg l))) (\<lambda>r.
                         case r of
                           Inl e \<Rightarrow> Ret (l, Inl e)
                         | Inr peer_sk \<Rightarrow>
                             Ret (l, Inr (peer_sk, \<lparr>th_id = myid, th_ping = ping, th_sks = svr_sks,
                                                    th_keeper = keeper_start svr_sks (l_last_pong l)\<rparr>)))))))"

definition listen ::
  "'u pb_rt \<Rightarrow> (string \<Rightarrow> io_error + SocketAddr list) \<Rightarrow> (nat \<Rightarrow> sock_os) \<Rightarrow> sock_os \<Rightarrow> Listener
    \<Rightarrow> (Listener \<times> (io_error + Socket \<times> thread)) outcome" where
  "listen rt resolve os peer_os l =
     (case l_svr_sks l of
        Some _ \<Rightarrow> listen_start rt peer_os l
      | None \<Rightarrow>
          and_then (connect_multiple_servers resolve os (cfg_server_addrs (l_cfg l)) (cfg_local_addr (l_cfg l)) (sk_cfg (l_cfg l))) (\<lambda>r.
          case r of
            Inl e \<Rightarrow> Ret (l, Inl e)
          | Inr (new_sks, local_addr) \<Rightarrow>
              listen_start rt peer_os
                (l\<lparr>l_svr_sks := Some new_sks, l_cfg := (l_cfg l)\<lparr>cfg_local_addr := Some local_addr\<rparr>\<rparr>)))"

fun send_byes :: "'u pb_rt \<Rightarrow> string \<Rightarrow> nat \<Rightarrow> (Socket \<times> SocketAddr) list \<Rightarrow> outbox \<Rightarrow> outbox outcome" where
  "send_byes rt myid i [] out = Ret out"
| "send_byes rt myid i ((sk, a) # sks) out =
     and_then (send_cmd rt i myid (ReqBye (Bye_new rt)) a out) (send_byes rt myid (i + 1) sks)"

text \<open>\<open>Drop for Listener\<close>: the listener afterwards and what was sent.\<close>

definition listener_drop :: "'u pb_rt \<Rightarrow> Listener \<Rightarrow> (Listener \<times> outbox) outcome" where
  "listener_drop rt l =
     (let l = l\<lparr>l_exit := True\<rparr> in
      case l_svr_sks l of
        None \<Rightarrow> Ret (l, [])
      | Some sks \<Rightarrow>
          and_then (send_byes rt (cfg_id (l_cfg l)) 0 sks []) (\<lambda>out. Ret (l\<lparr>l_svr_sks := None\<rparr>, out)))"

end
