(* ===== verification/Udp_Client_Correct.thy ===== *)
theory Udp_Client_Correct
  imports Udp_Client
begin

text \<open>
  The properties of the UDP clients: polling, the sockets to the servers, where the
  connector connects and what it sends, what the listener's thread answers, how often it
  pings, and what happens to it when sockets fail or the listener is dropped.
\<close>

section \<open>Polling\<close>

lemma mark_ready_eq:
  "mark_ready acc fds k failed =
    acc @ map (\<lambda>i. \<not> failed ! i \<and> fds ! (k + length (filter Not (take i failed))) = Some True) [0..<length failed]"
proof (induction failed arbitrary: acc k)
  case Nil
  then show ?case by simp
next
  case (Cons f failed)
  have up: "[0..<length (f # failed)] = 0 # map Suc [0..<length failed]"
    by (simp add: upt_conv_Cons map_Suc_upt del: upt_Suc)
  show ?case
    unfolding up by (simp add: Cons.IH) (auto split: option.split)
qed

lemma poll_sockets_flags:
  assumes "poll_sockets failed (Polled n fds) = Inr ready" "i < length failed"
  shows "length ready = length failed
    \<and> (ready ! i \<longleftrightarrow> 0 < n \<and> \<not> failed ! i \<and> fds ! length (filter Not (take i failed)) = Some True)"
proof (cases "filter (\<lambda>f. \<not> f) failed = []")
  case True
  then have "failed ! i" using assms(2) by (auto simp: filter_empty_conv)
  then show ?thesis using True assms by (auto simp: poll_sockets_def)
next
  case False
  then show ?thesis using assms by (auto simp: poll_sockets_def mark_ready_eq split: if_splits)
qed

text \<open>The ready flags of \<open>poll_sockets\<close> belong to the right sockets: although \<open>poll\<close> sees
  only the sockets that have not failed, flag \<open>i\<close> is set exactly when socket \<open>i\<close> has not
  failed and its own descriptor reported input.\<close>

theorem poll_sockets_spec:
  assumes "poll_sockets failed (Polled n fds) = Inr ready" "i < length failed"
  shows "length ready = length failed
    \<and> (ready ! i \<longleftrightarrow> 0 < n \<and> \<not> failed ! i \<and> fds ! length (filter Not (take i failed)) = Some True)"
  by (rule poll_sockets_flags[OF assms])

theorem poll_sockets_spec_witness:
  "poll_sockets [True, False, False] (Polled 1 [None, Some True]) = Inr [False, False, True]
    \<and> length [False, False, True] = length [True, False, False]"
proof -
  have p: "poll_sockets [True, False, False] (Polled 1 [None, Some True]) = Inr [False, False, True]" by code_simp
  show ?thesis using poll_sockets_spec[OF p, of 2] p by simp
qed

lemma poll_sockets_length: "poll_sockets failed pa = Inr ready \<Longrightarrow> length ready = length failed"
  by (auto simp: poll_sockets_def mark_ready_eq split: poll_answer.splits if_splits)

lemma poll_sockets_failed:
  "poll_sockets failed pa = Inr ready \<Longrightarrow> i < length failed \<Longrightarrow> failed ! i \<Longrightarrow> \<not> ready ! i"
  by (auto simp: poll_sockets_def mark_ready_eq split: poll_answer.splits if_splits)

section \<open>Connecting to the servers\<close>

lemma create_socket_Inr:
  "create_socket os a cfg = Ret (Inr sk) \<Longrightarrow> sk = \<lparr>answers = os, bound_to = a, remote = None\<rparr>"
  by (auto simp: create_socket_def and_then_eq_Ret ques_Ret)

lemma connect_socket_Inr: "connect_socket sk a = Inr sk' \<Longrightarrow> sk' = sk\<lparr>remote := Some a\<rparr>"
  by (auto simp: connect_socket_def res_bind_eq_Inr)

lemma connect_server_Inr:
  assumes "connect_server resolve os server la cfg = Ret (Inr sk)"
  shows "\<exists>a as. resolve server = Inr (a # as) \<and> remote sk = Some (map_family la a)
    \<and> bound_to sk = (case la of Some l \<Rightarrow> l | None \<Rightarrow> default_local a) \<and> answers sk = os"
proof -
  obtain addrs where r: "resolve server = Inr addrs"
    using assms by (auto simp: connect_server_def ques_Ret)
  show ?thesis
  proof (cases addrs)
    case Nil
    with assms r show ?thesis by (simp add: connect_server_def)
  next
    case (Cons a as)
    with assms r obtain sk0 where c: "create_socket os (case la of Some l \<Rightarrow> l | None \<Rightarrow> default_local (map_family la a)) cfg = Ret (Inr sk0)"
      and k: "connect_socket sk0 (map_family la a) = Inr sk"
      by (auto simp: connect_server_def ques_Ret ques_call_Inr Let_def)
    have "map_family None a = a" by (simp add: map_family_def)
    with create_socket_Inr[OF c] connect_socket_Inr[OF k] r Cons show ?thesis by (cases la) auto
  qed
qed

lemma connect_servers_Inr:
  assumes "connect_servers resolve os init cfg servers sks la = Ret (Inr (sks', la'))"
  shows "\<exists>new. sks' = sks @ new \<and> length new = length servers
    \<and> (la \<noteq> None \<longrightarrow> la' = la \<and> (\<forall>p \<in> set new. Some (bound_to (fst p)) = la))
    \<and> (servers \<noteq> [] \<longrightarrow> la' \<noteq> None \<and> (\<forall>p \<in> set (tl new). Some (bound_to (fst p)) = la'))
    \<and> (\<forall>p \<in> set new. remote (fst p) \<noteq> None \<and> so_peer_addr (answers (fst p)) = Inr (snd p))"
  using assms
proof (induction servers arbitrary: sks la)
  case Nil
  then show ?case by simp
next
  case (Cons server servers)
  from Cons.prems obtain sk a l where
    c: "connect_server resolve (os (length sks)) server (case la of Some a \<Rightarrow> Some a | None \<Rightarrow> init) cfg = Ret (Inr sk)"
    and a: "so_peer_addr (answers sk) = Inr a"
    and l: "la \<noteq> None \<longrightarrow> la = Some l"
    and rest: "connect_servers resolve os init cfg servers (sks @ [(sk, a)]) (Some l) = Ret (Inr (sks', la'))"
    by (auto simp: ques_call_Inr and_then_eq_Ret unwrap_eq_Ret split: option.splits)
  from Cons.IH[OF rest] obtain new where n: "sks' = (sks @ [(sk, a)]) @ new" "length new = length servers"
      "la' = Some l" "\<forall>p \<in> set new. Some (bound_to (fst p)) = Some l"
      "\<forall>p \<in> set new. remote (fst p) \<noteq> None \<and> so_peer_addr (answers (fst p)) = Inr (snd p)"
    by auto
  have sk: "remote sk \<noteq> None" "la \<noteq> None \<longrightarrow> Some (bound_to sk) = la"
    using connect_server_Inr[OF c] by (auto split: option.splits)
  have "sks' = sks @ ((sk, a) # new)" using n(1) by simp
  moreover have "la \<noteq> None \<longrightarrow> la' = la \<and> (\<forall>p \<in> set ((sk, a) # new). Some (bound_to (fst p)) = la)"
    using n(3,4) l sk by auto
  moreover have "la' \<noteq> None \<and> (\<forall>p \<in> set (tl ((sk, a) # new)). Some (bound_to (fst p)) = la')"
    using n(3,4) by simp
  moreover have "\<forall>p \<in> set ((sk, a) # new). remote (fst p) \<noteq> None \<and> so_peer_addr (answers (fst p)) = Inr (snd p)"
    using n(5) sk a by simp
  ultimately show ?case using n(2) by (metis length_Cons)
qed

lemma connect_multiple_Inr:
  assumes "connect_multiple_servers resolve os servers init cfg = Ret (Inr (sks, la))"
  shows "length sks = length servers \<and> (\<forall>p \<in> set (tl sks). bound_to (fst p) = la)
    \<and> (\<forall>p \<in> set sks. remote (fst p) \<noteq> None \<and> so_peer_addr (answers (fst p)) = Inr (snd p))"
proof -
  obtain l where c: "connect_servers resolve os init cfg servers [] None = Ret (Inr (sks, l))" and l: "l = Some la"
    using assms by (auto simp: connect_multiple_servers_def ques_call_Inr split: option.splits)
  have ne: "servers \<noteq> []" using c l by auto
  show ?thesis using connect_servers_Inr[OF c] ne l by auto
qed

lemma connect_multiple_length:
  "connect_multiple_servers resolve os servers init cfg = Ret (Inr (sks, la)) \<Longrightarrow> length sks = length servers"
  using connect_multiple_Inr by blast

text \<open>One local address for all servers: the clients open one socket per server, in
  order, each connected; every socket after the first is bound to the local address
  that is returned, so all servers see the same port.\<close>

theorem udp_one_local_address:
  assumes "connect_multiple_servers resolve os servers init cfg = Ret (Inr (sks, la))"
  shows "length sks = length servers \<and> (\<forall>p \<in> set (tl sks). bound_to (fst p) = la)
    \<and> (\<forall>p \<in> set sks. remote (fst p) \<noteq> None \<and> so_peer_addr (answers (fst p)) = Inr (snd p))"
  by (rule connect_multiple_Inr[OF assms])

section \<open>What the connector returns\<close>

text \<open>A datagram that redirects the connector to an address, or tells it there is no target.\<close>

definition redirects :: "'u pb_rt \<Rightarrow> string \<Rightarrow> bytes \<Rightarrow> SocketAddr \<Rightarrow> bool" where
  "redirects rt who bs a \<longleftrightarrow> (\<exists>resp rdr. Response_parse_from_bytes rt (take 1500 bs) = Some (Inr resp)
     \<and> resp_id resp = who \<and> resp_cmd resp = Some (RespRedirect rdr) \<and> parse_addr (redirect_addr rdr) = Some a)"

definition no_target :: "'u pb_rt \<Rightarrow> string \<Rightarrow> bytes \<Rightarrow> bool" where
  "no_target rt who bs \<longleftrightarrow> (\<exists>resp rdr. Response_parse_from_bytes rt (take 1500 bs) = Some (Inr resp)
     \<and> resp_id resp = who \<and> resp_cmd resp = Some (RespRedirect rdr) \<and> redirect_addr rdr = [])"

text \<open>The socket that \<open>connect\<close> may return in a turn.\<close>

definition peer_socket :: "'u pb_rt \<Rightarrow> string \<Rightarrow> conn_turn \<Rightarrow> (Socket \<times> SocketAddr) list \<Rightarrow> Socket \<Rightarrow> bool" where
  "peer_socket rt who t sks sk \<longleftrightarrow> (\<exists>i bs a. i < length sks \<and> ct_recv t i = Inr bs \<and> redirects rt who bs a
     \<and> remote sk = Some a \<and> so_local_addr (answers (fst (sks ! i))) = Inr (bound_to sk))"

lemma connector_ready_stop:
  assumes "connector_ready rt cfg t i sk st = Ret (Inl (res, st'))"
  shows "st' = st \<and> (\<forall>peer. res = Inr peer \<longrightarrow> (\<exists>bs a. ct_recv t i = Inr bs \<and> redirects rt (cfg_id cfg) bs a
     \<and> remote peer = Some a \<and> so_local_addr (answers sk) = Inr (bound_to peer)))"
  using assms
  by (fastforce simp: connector_ready_def redirects_def and_then_eq_Ret ques_Ret ques_call_Inr ques_call_Inl
      dest!: create_socket_Inr connect_socket_Inr
      split: sum.splits option.splits if_splits RespCmd.splits)

lemma connector_ready_go:
  assumes "connector_ready rt cfg t i sk st = Ret (Inr st')"
  shows "outbox_of st' = outbox_of st \<and> length (failed_servers st') = length (failed_servers st)"
  using assms
  by (auto simp: connector_ready_def and_then_eq_Ret split: sum.splits option.splits if_splits RespCmd.splits)

text \<open>The scan over the sockets, from socket \<open>i\<close> on.\<close>

lemma connector_scan_stop:
  assumes "connector_scan rt cfg t ready (length pre) sks st = Ret (Inl (res, st'))"
  shows "outbox_of st' = outbox_of st \<and> (\<forall>peer. res = Inr peer \<longrightarrow> peer_socket rt (cfg_id cfg) t (pre @ sks) peer)"
  using assms
proof (induction sks arbitrary: pre st)
  case Nil
  then show ?case by simp
next
  case (Cons p sks)
  obtain sk a where p: "p = (sk, a)" by fastforce
  have IH: "connector_scan rt cfg t ready (length pre + 1) sks s1 = Ret (Inl (res, st')) \<Longrightarrow>
      outbox_of st' = outbox_of s1 \<and> (\<forall>peer. res = Inr peer \<longrightarrow> peer_socket rt (cfg_id cfg) t (pre @ p # sks) peer)" for s1
    using Cons.IH[of "pre @ [p]" s1] by simp
  show ?case
  proof (cases "ready ! length pre")
    case False
    then show ?thesis using Cons.prems p IH[of st] by simp
  next
    case True
    then consider "connector_ready rt cfg t (length pre) sk st = Ret (Inl (res, st'))"
      | s1 where "connector_ready rt cfg t (length pre) sk st = Ret (Inr s1)"
          "connector_scan rt cfg t ready (length pre + 1) sks s1 = Ret (Inl (res, st'))"
      using Cons.prems p by (auto simp: ques_call_Inl)
    then show ?thesis
    proof cases
      case 1
      from connector_ready_stop[OF this] have st: "st' = st"
        and peer: "\<And>peer. res = Inr peer \<Longrightarrow> \<exists>bs a. ct_recv t (length pre) = Inr bs \<and> redirects rt (cfg_id cfg) bs a
           \<and> remote peer = Some a \<and> so_local_addr (answers sk) = Inr (bound_to peer)"
        by blast+
      have "length pre < length (pre @ p # sks)" "fst ((pre @ p # sks) ! length pre) = sk" using p by simp_all
      then have "peer_socket rt (cfg_id cfg) t (pre @ p # sks) peer" if "res = Inr peer" for peer
        using peer[OF that] unfolding peer_socket_def by metis
      with st show ?thesis by simp
    next
      case (2 s1)
      then show ?thesis using IH[of s1] connector_ready_go[of rt cfg t "length pre" sk st s1] by simp
    qed
  qed
qed

lemma connector_scan_go:
  assumes "connector_scan rt cfg t ready i sks st = Ret (Inr st')"
  shows "outbox_of st' = outbox_of st \<and> length (failed_servers st') = length (failed_servers st)"
  using assms
proof (induction sks arbitrary: i st)
  case Nil
  then show ?case by simp
next
  case (Cons p sks)
  obtain sk a where p: "p = (sk, a)" by fastforce
  show ?case
  proof (cases "ready ! i")
    case False
    then show ?thesis using Cons.prems p Cons.IH[of "i + 1" st] by simp
  next
    case True
    then obtain s1 where "connector_ready rt cfg t i sk st = Ret (Inr s1)"
        "connector_scan rt cfg t ready (i + 1) sks s1 = Ret (Inr st')"
      using Cons.prems p by (auto simp: ques_call_Inr)
    then show ?thesis using Cons.IH[of "i + 1" s1] connector_ready_go[of rt cfg t i sk st s1] by simp
  qed
qed

lemmas round_go_induct = round_go.raw_induct [rotated, consumes 1, case_names step]

text \<open>The turns that a round reaches: the clock has passed its timeout in none up to them.\<close>

definition reached :: "conn_round \<Rightarrow> conn_turn \<Rightarrow> bool" where
  "reached rd t \<longleftrightarrow> (\<exists>n. t = snd rd n \<and> (\<forall>m \<le> n. elapsed (ct_now (snd rd m)) (fst rd) < round_timeout))"

lemma round_go_out:
  assumes "round_go rt cfg sks start turns n st = Some (Ret r)"
    and "\<forall>m < n. elapsed (ct_now (turns m)) start < round_timeout"
  shows "(\<forall>st'. r = Inr st' \<longrightarrow> outbox_of st' = outbox_of st \<and> length (failed_servers st') = length (failed_servers st))
    \<and> (\<forall>res st'. r = Inl (res, st') \<longrightarrow> outbox_of st' = outbox_of st
        \<and> (\<forall>peer. res = Inr peer \<longrightarrow> (\<exists>t. reached (start, turns) t \<and> peer_socket rt (cfg_id cfg) t sks peer)))"
proof -
  have "\<forall>r. q = Ret r \<longrightarrow> (\<forall>m < n. elapsed (ct_now (turns m)) start < round_timeout) \<longrightarrow>
      (\<forall>st'. r = Inr st' \<longrightarrow> outbox_of st' = outbox_of st \<and> length (failed_servers st') = length (failed_servers st))
    \<and> (\<forall>res st'. r = Inl (res, st') \<longrightarrow> outbox_of st' = outbox_of st
        \<and> (\<forall>peer. res = Inr peer \<longrightarrow> (\<exists>t. reached (start, turns) t \<and> peer_socket rt (cfg_id cfg) t sks peer)))"
    if "round_go rt cfg sks start turns n st = Some q" for q
    using that
  proof (induction rule: round_go_induct)
    case (step go rt cfg sks start turns n st q)
    let ?scan = "connector_scan rt cfg (turns n)"
    show ?case
    proof (intro allI impI)
      fix r
      assume q: "q = Ret r" and time: "\<forall>m < n. elapsed (ct_now (turns m)) start < round_timeout"
      from step(2) q consider (stop) e where "r = Inr (st\<lparr>last_error := e\<rparr>)"
        | (found) ready x where "elapsed (ct_now (turns n)) start < round_timeout" "?scan ready 0 sks st = Ret (Inl x)" "r = Inl x"
        | (go) ready s1 where "elapsed (ct_now (turns n)) start < round_timeout" "?scan ready 0 sks st = Ret (Inr s1)"
            "go rt cfg sks start turns (n + 1) s1 = Some q"
        by (cases "\<not> elapsed (ct_now (turns n)) start < round_timeout \<or> list_all (\<lambda>f. f) (failed_servers st)")
           (auto split: if_splits sum.splits outcome.splits intro: stop[of "last_error st"])
      then show "(\<forall>st'. r = Inr st' \<longrightarrow> outbox_of st' = outbox_of st \<and> length (failed_servers st') = length (failed_servers st))
        \<and> (\<forall>res st'. r = Inl (res, st') \<longrightarrow> outbox_of st' = outbox_of st
            \<and> (\<forall>peer. res = Inr peer \<longrightarrow> (\<exists>t. reached (start, turns) t \<and> peer_socket rt (cfg_id cfg) t sks peer)))"
      proof cases
        case stop
        then show ?thesis by simp
      next
        case (found ready x)
        have "reached (start, turns) (turns n)"
          using time found(1) by (auto simp: reached_def le_less)
        then show ?thesis
          using connector_scan_stop[of rt cfg "turns n" ready "[]" sks st "fst x" "snd x"] found by (cases x) auto
      next
        case (go ready s1)
        have "\<forall>m < n + 1. elapsed (ct_now (turns m)) start < round_timeout"
          using time go(1) by (auto simp: less_Suc_eq)
        then show ?thesis
          using step(1)[OF go(3), rule_format, OF q] connector_scan_go[OF go(2)] by auto
      qed
    qed
  qed
  then show ?thesis using assms by blast
qed

lemma round_loop_go_Ret: "round_loop rt cfg sks start turns st = Ret r \<Longrightarrow> round_go rt cfg sks start turns 0 st = Some (Ret r)"
  by (auto simp: round_loop_def split: option.splits)

lemma round_loop_stop:
  assumes "round_loop rt cfg sks start turns st = Ret (Inl (res, st'))"
  shows "outbox_of st' = outbox_of st
    \<and> (\<forall>peer. res = Inr peer \<longrightarrow> (\<exists>t. reached (start, turns) t \<and> peer_socket rt (cfg_id cfg) t sks peer))"
  using round_go_out[OF round_loop_go_Ret[OF assms]] by simp

lemma round_loop_go:
  assumes "round_loop rt cfg sks start turns st = Ret (Inr st')"
  shows "outbox_of st' = outbox_of st \<and> length (failed_servers st') = length (failed_servers st)"
  using round_go_out[OF round_loop_go_Ret[OF assms]] by simp

text \<open>The requests of a round: at most one to each server, all the same bytes.\<close>

lemma send_isyncs_out:
  "\<exists>new. send_isyncs isync failed i sks out = out @ new \<and> length new \<le> length sks
    \<and> (\<forall>(j, b, a) \<in> set new. b = isync \<and> a \<in> snd ` set sks)"
proof (induction sks arbitrary: i out)
  case Nil
  then show ?case by simp
next
  case (Cons p sks)
  obtain sk a where p: "p = (sk, a)" by fastforce
  obtain new where n: "send_isyncs isync failed (i + 1) sks (if \<not> failed ! i then out @ [(i, isync, a)] else out)
      = (if \<not> failed ! i then out @ [(i, isync, a)] else out) @ new" "length new \<le> length sks"
      "\<forall>(j, b, a) \<in> set new. b = isync \<and> a \<in> snd ` set sks"
    using Cons.IH by blast
  have "send_isyncs isync failed i (p # sks) out = out @ ((if \<not> failed ! i then [(i, isync, a)] else []) @ new)"
    using n(1) by (simp add: p)
  then show ?case using n(2,3) p by (intro exI[of _ "(if \<not> failed ! i then [(i, isync, a)] else []) @ new"]) auto
qed

lemma sync_rounds_out:
  assumes "sync_rounds rt cfg sks isync rounds st = Ret r"
  shows "\<exists>new. outbox_of (case r of Inl (res, st') \<Rightarrow> st' | Inr st' \<Rightarrow> st') = outbox_of st @ new
    \<and> length new \<le> length rounds * length sks \<and> (\<forall>(j, b, a) \<in> set new. b = isync \<and> a \<in> snd ` set sks)
    \<and> (\<forall>peer st'. r = Inl (Inr peer, st') \<longrightarrow> (\<exists>rd \<in> set rounds. \<exists>t. reached rd t \<and> peer_socket rt (cfg_id cfg) t sks peer))"
  using assms
proof (induction rounds arbitrary: st)
  case Nil
  then show ?case by auto
next
  case (Cons rd rounds)
  obtain start ts where rd: "rd = (start, ts)" by fastforce
  show ?case
  proof (cases "list_all (\<lambda>f. f) (failed_servers st)")
    case True
    then show ?thesis using Cons.prems rd by auto
  next
    case False
    let ?st = "st\<lparr>outbox_of := send_isyncs isync (failed_servers st) 0 sks (outbox_of st)\<rparr>"
    obtain new where new: "outbox_of ?st = outbox_of st @ new" "length new \<le> length sks"
        "\<forall>(j, b, a) \<in> set new. b = isync \<and> a \<in> snd ` set sks"
      using send_isyncs_out[of isync "failed_servers st" 0 sks "outbox_of st"] by auto
    have "ques_call (round_loop rt cfg sks start ts ?st) (sync_rounds rt cfg sks isync rounds) = Ret r"
      using Cons.prems rd False by (simp add: Let_def)
    then consider x where "round_loop rt cfg sks start ts ?st = Ret (Inl x)" "r = Inl x"
      | s1 where "round_loop rt cfg sks start ts ?st = Ret (Inr s1)" "sync_rounds rt cfg sks isync rounds s1 = Ret r"
      by (cases r) (auto simp: ques_call_Inl ques_call_Inr)
    then show ?thesis
    proof cases
      case (1 x)
      obtain res s1 where x: "x = (res, s1)" by fastforce
      have "outbox_of s1 = outbox_of ?st \<and> (\<forall>peer. res = Inr peer \<longrightarrow> (\<exists>t. reached (start, ts) t \<and> peer_socket rt (cfg_id cfg) t sks peer))"
        using round_loop_stop 1(1) x by blast
      then show ?thesis using 1(2) x new rd by (intro exI[of _ new]) auto
    next
      case (2 s1)
      obtain new2 where n2: "outbox_of (case r of Inl (res, st') \<Rightarrow> st' | Inr st' \<Rightarrow> st') = outbox_of s1 @ new2"
          "length new2 \<le> length rounds * length sks" "\<forall>(j, b, a) \<in> set new2. b = isync \<and> a \<in> snd ` set sks"
          "\<forall>peer st'. r = Inl (Inr peer, st') \<longrightarrow> (\<exists>rd \<in> set rounds. \<exists>t. reached rd t \<and> peer_socket rt (cfg_id cfg) t sks peer)"
        using Cons.IH[OF 2(2)] by auto
      have "outbox_of s1 = outbox_of ?st" using round_loop_go[OF 2(1)] by simp
      then have "outbox_of (case r of Inl (res, st') \<Rightarrow> st' | Inr st' \<Rightarrow> st') = outbox_of st @ (new @ new2)"
        using n2(1) new(1) by simp
      moreover have "length (new @ new2) \<le> length (rd # rounds) * length sks" using n2(2) new(2) by simp
      moreover have "\<forall>(j, b, a) \<in> set (new @ new2). b = isync \<and> a \<in> snd ` set sks" using n2(3) new(3) by auto
      ultimately show ?thesis using n2(4) by (metis list.set_intros(2))
    qed
  qed
qed

lemma connector_connect_Ret:
  assumes "connector_connect rt resolve os rounds cfg target = Ret (res, out)"
  obtains (early) e where "res = Inl e" "out = []"
    | (ran) isync sks la r where "isync_bytes rt (cfg_id cfg) target = Inr isync"
        "connect_multiple_servers resolve os (cfg_server_addrs cfg) (cfg_local_addr cfg) (sk_cfg cfg) = Ret (Inr (sks, la))"
        "sync_rounds rt cfg sks isync (map rounds [0..<3])
           \<lparr>failed_servers = replicate (length sks) False, last_error = None, outbox_of = []\<rparr> = Ret r"
        "out = outbox_of (case r of Inl (res, st') \<Rightarrow> st' | Inr st' \<Rightarrow> st')"
        "\<And>peer. res = Inr peer \<Longrightarrow> \<exists>st'. r = Inl (Inr peer, st')"
proof (cases "isync_bytes rt (cfg_id cfg) target")
  case (Inl e)
  with assms show ?thesis by (auto simp: connector_connect_def intro: early)
next
  case isync: (Inr isync)
  then obtain r0 where c: "connect_multiple_servers resolve os (cfg_server_addrs cfg) (cfg_local_addr cfg) (sk_cfg cfg) = Ret r0"
    using assms by (auto simp: connector_connect_def and_then_eq_Ret)
  show ?thesis
  proof (cases r0)
    case (Inl e)
    with assms isync c show ?thesis by (auto simp: connector_connect_def intro: early)
  next
    case (Inr x)
    obtain sks la where x: "x = (sks, la)" by fastforce
    show ?thesis
    proof (cases "set_all_nonblocking sks")
      case (Inl e)
      with assms isync c Inr x show ?thesis
        using \<open>r0 = Inr x\<close> by (auto simp: connector_connect_def intro: early)
    next
      case nb: (Inr u)
      let ?st = "\<lparr>failed_servers = replicate (length sks) False, last_error = None, outbox_of = []\<rparr>"
      let ?fin = "\<lambda>r. case r of Inl (res, st) \<Rightarrow> Ret (res, outbox_of st)
        | Inr st \<Rightarrow> Ret (Inl (case last_error st of Some e \<Rightarrow> e
            | None \<Rightarrow> new_error Other ''No response from any server''), outbox_of st)"
      have "and_then (sync_rounds rt cfg sks isync (map rounds [0..<3]) ?st) ?fin = Ret (res, out)"
        using assms isync c Inr x nb by (simp add: connector_connect_def del: upt_Suc)
      then obtain r where r: "sync_rounds rt cfg sks isync (map rounds [0..<3]) ?st = Ret r" "?fin r = Ret (res, out)"
        unfolding and_then_eq_Ret by blast
      show ?thesis
      proof (rule ran[OF isync _ r(1)])
        show "connect_multiple_servers resolve os (cfg_server_addrs cfg) (cfg_local_addr cfg) (sk_cfg cfg) = Ret (Inr (sks, la))"
          using c Inr x by simp
        show "out = outbox_of (case r of Inl (res, st') \<Rightarrow> st' | Inr st' \<Rightarrow> st')"
          using r(2) by (auto split: sum.splits)
        show "\<exists>st'. r = Inl (Inr peer, st')" if "res = Inr peer" for peer
          using r(2) that by (auto split: sum.splits)
      qed
    qed
  qed
qed

lemma connector_redirected:
  assumes "connector_connect rt resolve os rounds cfg target = Ret (Inr peer, out)"
  shows "\<exists>sks la k t. connect_multiple_servers resolve os (cfg_server_addrs cfg) (cfg_local_addr cfg) (sk_cfg cfg) = Ret (Inr (sks, la))
    \<and> k < 3 \<and> reached (rounds k) t \<and> peer_socket rt (cfg_id cfg) t sks peer"
  using assms
proof (cases rule: connector_connect_Ret)
  case (ran isync sks la r)
  obtain st' where r: "r = Inl (Inr peer, st')" using ran(5) by blast
  obtain rd t where "rd \<in> set (map rounds [0..<3])" "reached rd t" "peer_socket rt (cfg_id cfg) t sks peer"
    using sync_rounds_out[OF ran(3)] r by blast
  then show ?thesis using ran(2) by auto
qed simp

text \<open>C18. The connector connects only where it was sent: a socket that \<open>connect\<close> returns is
  connected to the address in a redirect addressed to the connector's own identity that
  arrived on one of the server sockets before the round's timeout had passed, and it is bound
  to the local address of that server socket.\<close>

theorem udp_connect_follows_redirect:
  assumes "connector_connect rt resolve os rounds cfg target = Ret (Inr peer, out)"
  shows "\<exists>sks la k t. connect_multiple_servers resolve os (cfg_server_addrs cfg) (cfg_local_addr cfg) (sk_cfg cfg) = Ret (Inr (sks, la))
    \<and> k < 3 \<and> reached (rounds k) t \<and> peer_socket rt (cfg_id cfg) t sks peer"
  by (rule connector_redirected[OF assms])

text \<open>What \<open>connect\<close> sends: at most three datagrams for each configured server, all of
  them the one encoded connection request.\<close>

theorem udp_connect_traffic:
  assumes "connector_connect rt resolve os rounds cfg target = Ret (res, out)"
  shows "length out \<le> 3 * length (cfg_server_addrs cfg)
    \<and> (\<forall>(i, b, a) \<in> set out. isync_bytes rt (cfg_id cfg) target = Inr b)"
  using assms
proof (cases rule: connector_connect_Ret)
  case (ran isync sks la r)
  have "length sks = length (cfg_server_addrs cfg)"
    using connect_multiple_length[OF ran(2)] .
  then show ?thesis using sync_rounds_out[OF ran(3)] ran(1,4) by fastforce
qed simp

section \<open>The connector always returns\<close>

text \<open>The calls whose failure is an \<open>unwrap\<close> in the code succeed.\<close>

definition sane :: "sock_os \<Rightarrow> bool" where
  "sane os \<longleftrightarrow> so_new os = Inr () \<and> (\<exists>a. so_peer_addr os = Inr a) \<and> (\<exists>a. so_local_addr os = Inr a)"

lemma create_socket_returns: "so_new os = Inr () \<Longrightarrow> \<exists>r. create_socket os a cfg = Ret r"
  by (auto simp: create_socket_def intro!: ques_returns)

lemma connect_server_returns: "so_new os = Inr () \<Longrightarrow> \<exists>r. connect_server resolve os server la cfg = Ret r"
  unfolding connect_server_def
  by (rule ques_returns) (auto simp: Let_def intro!: ques_call_returns ques_returns create_socket_returns split: list.split)

lemma connect_servers_returns:
  assumes "\<forall>i. sane (os i)"
  shows "\<exists>r. connect_servers resolve os init cfg servers sks la = Ret r"
proof (induction servers arbitrary: sks la)
  case Nil
  then show ?case by simp
next
  case (Cons server servers)
  show ?case
    unfolding connect_servers.simps
  proof (rule ques_call_returns)
    show "\<exists>y. connect_server resolve (os (length sks)) server (case la of None \<Rightarrow> init | Some x \<Rightarrow> Some x) cfg = Ret y"
      using connect_server_returns assms by (simp add: sane_def)
  next
    fix sk
    assume "connect_server resolve (os (length sks)) server (case la of None \<Rightarrow> init | Some x \<Rightarrow> Some x) cfg = Ret (Inr sk)"
    then have "answers sk = os (length sks)" using connect_server_Inr by blast
    moreover have "sane (os (length sks))" using assms by blast
    ultimately obtain a l where "so_peer_addr (answers sk) = Inr a" "so_local_addr (answers sk) = Inr l"
      by (auto simp: sane_def)
    then show "\<exists>y. and_then (unwrap (so_peer_addr (answers sk))) (\<lambda>svr_addr.
          and_then (case la of None \<Rightarrow> and_then (unwrap (so_local_addr (answers sk))) (\<lambda>la. Ret (case init of None \<Rightarrow> la | Some a \<Rightarrow> with_port a (port la)))
                    | Some a \<Rightarrow> Ret a) (\<lambda>local_addr.
          connect_servers resolve os init cfg servers (sks @ [(sk, svr_addr)]) (Some local_addr))) = Ret y"
      using Cons.IH by (auto split: option.split)
  qed
qed

lemma connect_multiple_returns:
  assumes "\<forall>i. sane (os i)" "servers \<noteq> []"
  shows "\<exists>r. connect_multiple_servers resolve os servers init cfg = Ret r"
  unfolding connect_multiple_servers_def
proof (rule ques_call_returns)
  show "\<exists>y. connect_servers resolve os init cfg servers [] None = Ret y"
    by (rule connect_servers_returns[OF assms(1)])
next
  fix x assume x: "connect_servers resolve os init cfg servers [] None = Ret (Inr x)"
  obtain sks la where "x = (sks, la)" by fastforce
  then show "\<exists>y. (case x of (svr_sks, local_addr) \<Rightarrow> case local_addr of None \<Rightarrow> Panic | Some a \<Rightarrow> Ret (Inr (svr_sks, a))) = Ret y"
    using connect_servers_Inr[of resolve os init cfg servers "[]" None sks la] x assms(2) by auto
qed

lemma connector_ready_returns:
  assumes "pb_runtime rt" "so_new (ct_peer t i) = Inr ()"
  shows "\<exists>r. connector_ready rt cfg t i sk st = Ret r"
proof (cases "ct_recv t i")
  case (Inl e)
  then show ?thesis by (simp add: connector_ready_def)
next
  case (Inr bs)
  obtain r where r: "Response_parse_from_bytes rt (take 1500 bs) = Some r"
    using pb_runtime.Response_parse_returns[OF assms(1)] by blast
  have p: "\<exists>y. ques (so_local_addr (answers sk)) (\<lambda>la. ques_call (create_socket (ct_peer t i) la (sk_cfg cfg))
      (\<lambda>peer_sk. ques (connect_socket peer_sk a) (\<lambda>peer_sk. Ret (Inr peer_sk)))) = Ret y" for a
    using assms(2) by (intro ques_returns ques_call_returns create_socket_returns) auto
  show ?thesis
    using Inr r by (auto simp: connector_ready_def intro!: and_then_returns p split: sum.split option.split RespCmd.split)
qed

lemma connector_scan_returns:
  assumes "pb_runtime rt" "\<forall>i. so_new (ct_peer t i) = Inr ()"
  shows "\<exists>r. connector_scan rt cfg t ready i sks st = Ret r"
proof (induction sks arbitrary: i st)
  case (Cons p sks)
  then show ?case
    using connector_ready_returns[OF assms(1), of t i cfg "fst p" st] assms(2)
    by (cases p) (auto intro!: ques_call_returns)
qed simp

text \<open>Only the loops can hang.\<close>

lemma and_then_Hang: "and_then m f = Hang \<longleftrightarrow> m = Hang \<or> (\<exists>x. m = Ret x \<and> f x = Hang)"
  by (cases m) simp_all

lemma ques_Hang: "ques r f = Hang \<longleftrightarrow> (\<exists>x. r = Inr x \<and> f x = Hang)"
  by (auto simp: ques_def split: sum.split)

lemma unwrap_Hang: "unwrap r \<noteq> Hang"
  by (auto simp: unwrap_def split: sum.split)

lemma ques_call_Hang: "ques_call m f = Hang \<longleftrightarrow> m = Hang \<or> (\<exists>x. m = Ret (Inr x) \<and> f x = Hang)"
  by (auto simp: ques_call_def and_then_Hang ques_Hang)

lemmas hang_simps = and_then_Hang ques_Hang unwrap_Hang ques_call_Hang

lemma create_socket_no_hang: "create_socket os a cfg \<noteq> Hang"
  by (simp add: create_socket_def hang_simps)

lemma connect_server_no_hang: "connect_server resolve os server la cfg \<noteq> Hang"
  by (auto simp: connect_server_def Let_def hang_simps create_socket_no_hang split: list.splits)

lemma connect_servers_no_hang: "connect_servers resolve os init cfg servers sks la \<noteq> Hang"
  by (induction servers arbitrary: sks la)
     (auto simp: hang_simps connect_server_no_hang split: option.split)

lemma connect_multiple_no_hang: "connect_multiple_servers resolve os servers init cfg \<noteq> Hang"
  by (auto simp: connect_multiple_servers_def hang_simps connect_servers_no_hang split: option.splits)

lemma connector_ready_no_hang:
  assumes "pb_runtime rt"
  shows "connector_ready rt cfg t i sk st \<noteq> Hang"
proof (cases "ct_recv t i")
  case (Inr bs)
  obtain r where "Response_parse_from_bytes rt (take 1500 bs) = Some r"
    using pb_runtime.Response_parse_returns[OF assms] by blast
  then show ?thesis
    using Inr by (auto simp: connector_ready_def hang_simps create_socket_no_hang split: sum.splits option.splits RespCmd.splits if_splits)
qed (simp add: connector_ready_def)

lemma connector_scan_no_hang:
  assumes "pb_runtime rt"
  shows "connector_scan rt cfg t ready i sks st \<noteq> Hang"
  by (induction sks arbitrary: i st) (auto simp: hang_simps connector_ready_no_hang[OF assms] split: if_splits)

text \<open>Once the clock has passed the timeout in some turn, the loop of the round has ended: it
  does not hang, and where peer sockets can be created it does not panic.\<close>

lemma round_go_ends:
  assumes "pb_runtime rt" "\<not> elapsed (ct_now (turns N)) start < round_timeout" "n \<le> N"
  shows "\<exists>q. round_go rt cfg sks start turns n st = Some q \<and> q \<noteq> Hang
    \<and> ((\<forall>m i. so_new (ct_peer (turns m) i) = Inr ()) \<longrightarrow> (\<exists>r. q = Ret r))"
  using assms(3)
proof (induction "N - n" arbitrary: n st)
  case 0
  then show ?case using assms(2) by (subst round_go.simps) simp
next
  case (Suc d)
  have IH: "\<exists>q. round_go rt cfg sks start turns (n + 1) s1 = Some q \<and> q \<noteq> Hang
    \<and> ((\<forall>m i. so_new (ct_peer (turns m) i) = Inr ()) \<longrightarrow> (\<exists>r. q = Ret r))" for s1
    using Suc.hyps(1)[of "n + 1" s1] Suc.hyps(2) Suc.prems by simp
  have scan: "connector_scan rt cfg (turns n) ready 0 sks st \<noteq> Hang" for ready
    by (rule connector_scan_no_hang[OF assms(1)])
  have ret: "\<exists>r. connector_scan rt cfg (turns n) ready 0 sks st = Ret r" if "\<forall>m i. so_new (ct_peer (turns m) i) = Inr ()" for ready
    using connector_scan_returns[OF assms(1)] that by blast
  show ?case
  proof (cases "elapsed (ct_now (turns n)) start < round_timeout \<and> \<not> list_all (\<lambda>f. f) (failed_servers st)")
    case False
    then show ?thesis by (subst round_go.simps) auto
  next
    case True
    show ?thesis
    proof (cases "poll_sockets (failed_servers st) (ct_poll (turns n))")
      case (Inl e)
      then show ?thesis using True by (subst round_go.simps) simp
    next
      case (Inr ready)
      then show ?thesis
        using True IH scan[of ready] ret[of ready]
        by (cases "connector_scan rt cfg (turns n) ready 0 sks st"; subst round_go.simps) (auto split: sum.split)
    qed
  qed
qed

lemma round_loop_ends:
  assumes "pb_runtime rt" "\<not> elapsed (ct_now (turns N)) start < round_timeout"
  shows "round_loop rt cfg sks start turns st \<noteq> Hang
    \<and> ((\<forall>m i. so_new (ct_peer (turns m) i) = Inr ()) \<longrightarrow> (\<exists>r. round_loop rt cfg sks start turns st = Ret r))"
  using round_go_ends[where turns = turns and n = 0 and N = N, OF assms, of cfg sks st] by (auto simp: round_loop_def)

text \<open>A clock that stands still, and servers that never answer: then the loop does not end.\<close>

lemma round_loop_stuck:
  fixes rt :: "'a pb_rt"
  assumes "\<forall>n. elapsed (ct_now (turns n)) start < round_timeout \<and> ct_poll (turns n) = Polled 0 []"
    and "\<not> list_all (\<lambda>f. f) (failed_servers st)" "length sks = length (failed_servers st)"
  shows "round_loop rt cfg sks start turns st = Hang"
proof -
  have scan: "connector_scan rt cfg t (replicate m False) i ks s = Ret (Inr s)" if "i + length ks \<le> m"
    for rt :: "'a pb_rt" and cfg t m i ks s
    using that by (induction ks arbitrary: i) auto
  have "(\<forall>n. elapsed (ct_now (turns n)) start < round_timeout \<and> ct_poll (turns n) = Polled 0 [])
      \<longrightarrow> \<not> list_all (\<lambda>f. f) (failed_servers st) \<longrightarrow> length sks = length (failed_servers st) \<longrightarrow> False"
    if "round_go rt cfg sks start turns n st = Some q" for n q
    using that
  proof (induction rule: round_go_induct)
    case (step go rt cfg sks start turns n st q)
    show ?case
    proof (intro impI)
      assume idle: "\<forall>n. elapsed (ct_now (turns n)) start < round_timeout \<and> ct_poll (turns n) = Polled 0 []"
        and some: "\<not> list_all (\<lambda>f. f) (failed_servers st)" and len: "length sks = length (failed_servers st)"
      then have "poll_sockets (failed_servers st) (ct_poll (turns n)) = Inr (replicate (length (failed_servers st)) False)"
        by (simp add: poll_sockets_def)
      then have "go rt cfg sks start turns (n + 1) st = Some q"
        using step(2) scan[of 0 sks "length (failed_servers st)" rt cfg "turns n" st] idle some len by simp
      from step(1)[OF this] show False using idle some len by blast
    qed
  qed
  then have "round_go rt cfg sks start turns 0 st = None" using assms by (metis not_Some_eq)
  then show ?thesis by (simp add: round_loop_def)
qed

lemma sync_rounds_ends:
  assumes "pb_runtime rt" "\<forall>rd \<in> set rounds. \<exists>n. \<not> elapsed (ct_now (snd rd n)) (fst rd) < round_timeout"
  shows "sync_rounds rt cfg sks isync rounds st \<noteq> Hang
    \<and> ((\<forall>rd \<in> set rounds. \<forall>n i. so_new (ct_peer (snd rd n) i) = Inr ()) \<longrightarrow> (\<exists>r. sync_rounds rt cfg sks isync rounds st = Ret r))"
  using assms(2)
proof (induction rounds arbitrary: st)
  case (Cons rd rounds)
  obtain start turns where rd: "rd = (start, turns)" by fastforce
  obtain N where "\<not> elapsed (ct_now (turns N)) start < round_timeout" using Cons.prems rd by auto
  note loop = round_loop_ends[where turns = turns and N = N, OF assms(1) this, of cfg sks]
  show ?case
    using loop Cons.IH Cons.prems by (auto simp: rd Let_def hang_simps intro!: ques_call_returns)
qed simp

text \<open>C19. \<open>connect\<close> returns once time passes: when in each of the three rounds the clock passes
  five seconds after the round's start at some iteration, then \<open>connect\<close> does not loop,
  whatever arrives on its sockets, whatever \<open>poll\<close> answers and whichever socket calls fail;
  and if sockets can be created and asked for their addresses, which the code
  unwraps, it does not panic either but gives a socket or an error.\<close>

theorem udp_connect_returns:
  assumes "pb_runtime rt" "CommonConfig_new servers who local_addr sc = Inr cfg"
    and "\<forall>k < 3. \<exists>n. \<not> elapsed (ct_now (snd (rounds k) n)) (fst (rounds k)) < round_timeout"
  shows "connector_connect rt resolve os rounds cfg target \<noteq> Hang
    \<and> ((\<forall>i. sane (os i)) \<and> (\<forall>k n i. so_new (ct_peer (snd (rounds k) n) i) = Inr ())
        \<longrightarrow> (\<exists>res out. connector_connect rt resolve os rounds cfg target = Ret (res, out)))"
proof (intro conjI impI)
  have rounds: "sync_rounds rt cfg sks isync (map rounds [0..<3]) st \<noteq> Hang
      \<and> ((\<forall>k n i. so_new (ct_peer (snd (rounds k) n) i) = Inr ()) \<longrightarrow> (\<exists>x. sync_rounds rt cfg sks isync (map rounds [0..<3]) st = Ret x))"
    for sks isync st
    using sync_rounds_ends[OF assms(1), of "map rounds [0..<3]" cfg sks isync st] assms(3) by (auto simp del: upt_Suc)
  then have loops: "sync_rounds rt cfg sks isync (map rounds [0..<3]) st \<noteq> Hang" for sks isync st by blast
  show "connector_connect rt resolve os rounds cfg target \<noteq> Hang"
    by (auto simp: connector_connect_def hang_simps loops connect_multiple_no_hang simp del: upt_Suc split: sum.splits)
  assume ok: "(\<forall>i. sane (os i)) \<and> (\<forall>k n i. so_new (ct_peer (snd (rounds k) n) i) = Inr ())"
  then have runs: "\<exists>x. sync_rounds rt cfg sks isync (map rounds [0..<3]) st = Ret x" for sks isync st using rounds by blast
  have "cfg_server_addrs cfg \<noteq> []" using assms(2) by (auto simp: CommonConfig_new_def split: if_splits)
  then have "\<exists>r. connect_multiple_servers resolve os (cfg_server_addrs cfg) (cfg_local_addr cfg) (sk_cfg cfg) = Ret r"
    using connect_multiple_returns ok by blast
  then have "\<exists>x. connector_connect rt resolve os rounds cfg target = Ret x"
    by (auto simp: connector_connect_def simp del: upt_Suc split_paired_Ex intro!: and_then_returns runs split: sum.split prod.split)
  then show "\<exists>res out. connector_connect rt resolve os rounds cfg target = Ret (res, out)" by auto
qed

section \<open>A target nobody knows\<close>

lemma connector_ready_no_target:
  assumes "ct_recv t i = Inr bs" "no_target rt (cfg_id cfg) bs"
  shows "connector_ready rt cfg t i sk st
    = Ret (Inr (st\<lparr>last_error := Some (new_error Other ''Target not found''), failed_servers := (failed_servers st)[i := True]\<rparr>))"
  using assms by (auto simp: connector_ready_def no_target_def)

lemma connector_scan_no_target:
  assumes "\<forall>j < i + length sks. \<exists>bs. ct_recv t j = Inr bs \<and> no_target rt (cfg_id cfg) bs"
    and "\<forall>j < i + length sks. ready ! j"
    and "length (failed_servers st) = i + length sks" "\<forall>j < i. failed_servers st ! j"
    and "sks = [] \<longrightarrow> last_error st = Some (new_error Other ''Target not found'')"
  shows "\<exists>st'. connector_scan rt cfg t ready i sks st = Ret (Inr st') \<and> list_all (\<lambda>f. f) (failed_servers st')
    \<and> last_error st' = Some (new_error Other ''Target not found'') \<and> outbox_of st' = outbox_of st"
  using assms
proof (induction sks arbitrary: i st)
  case Nil
  then show ?case by (simp add: list_all_length)
next
  case (Cons p sks)
  obtain sk a where p: "p = (sk, a)" by fastforce
  obtain bs where bs: "ct_recv t i = Inr bs" "no_target rt (cfg_id cfg) bs"
    using Cons.prems(1)[rule_format, of i] by auto
  let ?st = "st\<lparr>last_error := Some (new_error Other ''Target not found''), failed_servers := (failed_servers st)[i := True]\<rparr>"
  have "\<exists>st'. connector_scan rt cfg t ready (i + 1) sks ?st = Ret (Inr st') \<and> list_all (\<lambda>f. f) (failed_servers st')
    \<and> last_error st' = Some (new_error Other ''Target not found'') \<and> outbox_of st' = outbox_of ?st"
    using Cons.prems by (intro Cons.IH) (auto simp: nth_list_update less_Suc_eq)
  then show ?case
    using connector_ready_no_target[OF bs, of sk st] Cons.prems(2) by (simp add: p)
qed

lemma send_isyncs_all:
  "\<forall>j < i + length sks. \<not> failed ! j \<Longrightarrow> length (send_isyncs isync failed i sks out) = length out + length sks"
proof (induction sks arbitrary: i out)
  case (Cons p sks)
  then show ?case using Cons.prems[rule_format, of i] by (cases p) simp
qed simp

text \<open>An unknown target is reported: when every server answers the first request with an
  empty redirect, \<open>connect\<close> returns the error \<open>Target not found\<close> after that one round, with
  one request sent to each server.\<close>

theorem udp_connect_no_target:
  assumes "isync_bytes rt (cfg_id cfg) target = Inr isync"
    and "connect_multiple_servers resolve os (cfg_server_addrs cfg) (cfg_local_addr cfg) (sk_cfg cfg) = Ret (Inr (sks, la))"
    and "set_all_nonblocking sks = Inr ()" "sks \<noteq> []"
    and "rounds 0 = (start, turns)" "turns 0 = t" "elapsed (ct_now t) start < round_timeout"
    and "ct_poll t = Polled (length sks) (replicate (length sks) (Some True))"
    and "\<forall>i < length sks. \<exists>bs. ct_recv t i = Inr bs \<and> no_target rt (cfg_id cfg) bs"
  shows "\<exists>out. connector_connect rt resolve os rounds cfg target = Ret (Inl (new_error Other ''Target not found''), out)
    \<and> length out = length sks"
proof -
  let ?f = "replicate (length sks) False"
  let ?out = "send_isyncs isync ?f 0 sks []"
  let ?st = "\<lparr>failed_servers = ?f, last_error = None, outbox_of = ?out\<rparr>"
  have some: "\<not> list_all (\<lambda>f. f) ?f" using assms(4) by (cases sks) auto
  obtain ready where ready: "poll_sockets ?f (ct_poll t) = Inr ready"
    using assms(4,8) by (cases sks) (auto simp: poll_sockets_def)
  have all: "\<forall>i < length sks. ready ! i"
  proof (intro allI impI)
    fix i assume i: "i < length sks"
    have "length (filter Not (take i ?f)) \<le> i" by (metis length_filter_le length_take min.bounded_iff)
    then show "ready ! i"
      using poll_sockets_flags[OF ready[unfolded assms(8)], of i] i by auto
  qed
  obtain st' where st': "connector_scan rt cfg t ready 0 sks ?st = Ret (Inr st')" "list_all (\<lambda>f. f) (failed_servers st')"
      "last_error st' = Some (new_error Other ''Target not found'')" "outbox_of st' = ?out"
    using connector_scan_no_target[of 0 sks t rt cfg ready ?st] assms(4,9) all by auto
  have round: "round_loop rt cfg sks start turns ?st = Ret (Inr st')"
  proof -
    have "round_go rt cfg sks start turns 1 st' = Some (Ret (Inr st'))" using st'(2) by (subst round_go.simps) simp
    then have "round_go rt cfg sks start turns 0 ?st = Some (Ret (Inr st'))"
      using assms(6,7) some ready st'(1) by (subst round_go.simps) simp
    then show ?thesis by (simp add: round_loop_def)
  qed
  have rounds: "map rounds [0..<3] = (start, turns) # map rounds [1..<3]"
    using assms(5) by (simp add: upt_conv_Cons)
  have "sync_rounds rt cfg sks isync (map rounds [1..<3]) st' = Ret (Inr st')"
    using st'(2) by (cases "map rounds [1..<3]") auto
  then have "sync_rounds rt cfg sks isync (map rounds [0..<3]) \<lparr>failed_servers = ?f, last_error = None, outbox_of = []\<rparr> = Ret (Inr st')"
    using round some unfolding rounds by (simp add: Let_def)
  then have "connector_connect rt resolve os rounds cfg target = Ret (Inl (new_error Other ''Target not found''), ?out)"
    using assms(1-3) st'(3,4) by (simp add: connector_connect_def del: upt_Suc)
  then show ?thesis using send_isyncs_all[of 0 sks ?f isync "[]"] by auto
qed

section \<open>What the listener's thread does\<close>

text \<open>Handling the sockets in \<open>J\<close>: nothing else changes, and nothing is taken back.\<close>

definition keeper_step :: "nat set \<Rightarrow> keeper \<Rightarrow> keeper \<Rightarrow> bool" where
  "keeper_step J k k' \<longleftrightarrow> ping_times k' = ping_times k \<and> length (deaf k') = length (deaf k)
     \<and> length (last_pong k') = length (last_pong k)
     \<and> (\<forall>i < length (deaf k). deaf k ! i \<longrightarrow> deaf k' ! i)
     \<and> (\<forall>i. i \<notin> J \<longrightarrow> deaf k' ! i = deaf k ! i \<and> last_pong k' ! i = last_pong k ! i)
     \<and> (\<exists>new. k_out k' = k_out k @ new \<and> fst ` set new \<subseteq> J)"

lemma keeper_step_refl [simp]: "keeper_step J k k"
  by (simp add: keeper_step_def)

lemma keeper_step_trans: "keeper_step I k k1 \<Longrightarrow> keeper_step J k1 k2 \<Longrightarrow> I \<subseteq> H \<Longrightarrow> J \<subseteq> H \<Longrightarrow> keeper_step H k k2"
proof -
  assume k: "keeper_step I k k1" "keeper_step J k1 k2" and sub: "I \<subseteq> H" "J \<subseteq> H"
  obtain new1 new2 where "k_out k2 = k_out k @ (new1 @ new2)" "fst ` set new1 \<subseteq> I" "fst ` set new2 \<subseteq> J"
    using k by (auto simp: keeper_step_def)
  then have "\<exists>new. k_out k2 = k_out k @ new \<and> fst ` set new \<subseteq> H"
    using sub by (intro exI[of _ "new1 @ new2"]) auto
  moreover have "\<forall>i. i \<notin> H \<longrightarrow> deaf k2 ! i = deaf k ! i \<and> last_pong k2 ! i = last_pong k ! i"
    using k sub unfolding keeper_step_def by (metis subsetD)
  ultimately show "keeper_step H k k2" using k unfolding keeper_step_def by metis
qed

lemma send_rsync_Ret:
  "send_rsync rt i myid target a out = Ret out' \<Longrightarrow> \<exists>b. out' = out @ [(i, b, a)]"
  by (auto simp: send_rsync_def send_cmd_def Let_def and_then_eq_Ret)

lemma listener_ready_step:
  "listener_ready rt myid t i a k = Ret k' \<Longrightarrow> keeper_step {i} k k'"
  unfolding keeper_step_def listener_ready_def
  by (auto simp: and_then_eq_Ret nth_update split: sum.splits option.splits if_splits RespCmd.splits
      dest!: send_rsync_Ret)

lemma listener_scan_step:
  assumes "listener_scan rt myid t ready i sks k = Ret k'"
  shows "keeper_step {j. i \<le> j \<and> j < i + length sks \<and> ready ! j} k k'"
  using assms
proof (induction sks arbitrary: i k)
  case Nil
  then show ?case by simp
next
  case (Cons p sks)
  obtain sk a where p: "p = (sk, a)" by fastforce
  let ?J = "{j. i \<le> j \<and> j < i + length (p # sks) \<and> ready ! j}"
  have sub: "{j. i + 1 \<le> j \<and> j < i + 1 + length sks \<and> ready ! j} \<subseteq> ?J" by auto
  show ?case
  proof (cases "ready ! i")
    case False
    then have "keeper_step {j. i + 1 \<le> j \<and> j < i + 1 + length sks \<and> ready ! j} k k'"
      using Cons.prems p Cons.IH[of "i + 1" k] by simp
    then show ?thesis using keeper_step_trans[OF _ keeper_step_refl[of "{}"] sub] by blast
  next
    case True
    then obtain k1 where k1: "listener_ready rt myid t i a k = Ret k1" "listener_scan rt myid t ready (i + 1) sks k1 = Ret k'"
      using Cons.prems p by (auto simp: and_then_eq_Ret)
    have "{i} \<subseteq> ?J" using True by auto
    from keeper_step_trans[OF listener_ready_step[OF k1(1)] Cons.IH[OF k1(2)] this sub] show ?thesis .
  qed
qed

text \<open>When a ping is due, and how many pings went to socket \<open>i\<close>.\<close>

definition due :: "listen_turn \<Rightarrow> nat \<Rightarrow> keeper \<Rightarrow> bool" where
  "due t i k \<longleftrightarrow> (case ping_times k ! i of None \<Rightarrow> True | Some p \<Rightarrow> elapsed (lt_now t i) p > keepalive_to)"

definition pings_on :: "bytes \<Rightarrow> nat \<Rightarrow> outbox \<Rightarrow> nat" where
  "pings_on ping i out = length (filter (\<lambda>(j, b, a). j = i \<and> b = ping) out)"

lemma pings_on_append [simp]: "pings_on ping i (xs @ ys) = pings_on ping i xs + pings_on ping i ys"
  by (simp add: pings_on_def)

lemma pings_on_one [simp]: "pings_on ping i [(j, ping, a)] = (if j = i then 1 else 0)"
  by (simp add: pings_on_def)

lemma send_pings_effect:
  assumes "i + length sks \<le> length (ping_times k)"
  shows "deaf (send_pings ping t i sks k) = deaf k \<and> last_pong (send_pings ping t i sks k) = last_pong k
    \<and> length (ping_times (send_pings ping t i sks k)) = length (ping_times k)
    \<and> (\<exists>new. k_out (send_pings ping t i sks k) = k_out k @ new \<and> (\<forall>(j, b, a) \<in> set new. b = ping))
    \<and> (\<forall>j < length (ping_times k).
        if i \<le> j \<and> j < i + length sks \<and> due t j k
        then ping_times (send_pings ping t i sks k) ! j = Some (lt_sent t j + from_millis (lt_variation t j))
          \<and> pings_on ping j (k_out (send_pings ping t i sks k)) = pings_on ping j (k_out k) + 1
        else ping_times (send_pings ping t i sks k) ! j = ping_times k ! j
          \<and> pings_on ping j (k_out (send_pings ping t i sks k)) = pings_on ping j (k_out k))"
  using assms
proof (induction sks arbitrary: i k)
  case Nil
  then show ?case by simp
next
  case (Cons p sks)
  obtain sk a where p: "p = (sk, a)" by fastforce
  define k1 where "k1 = (if due t i k then k\<lparr>k_out := k_out k @ [(i, ping, a)],
      ping_times := (ping_times k)[i := Some (lt_sent t i + from_millis (lt_variation t i))]\<rparr> else k)"
  have eq: "send_pings ping t i (p # sks) k = send_pings ping t (Suc i) sks k1"
    by (simp add: p due_def k1_def)
  have len: "length (ping_times k1) = length (ping_times k)" by (simp add: k1_def)
  then have "Suc i + length sks \<le> length (ping_times k1)" using Cons.prems by simp
  note IH = Cons.IH[OF this, unfolded len]
  have same: "due t j k1 = due t j k \<and> ping_times k1 ! j = ping_times k ! j \<and> pings_on ping j (k_out k1) = pings_on ping j (k_out k)"
    if "j \<noteq> i" for j using that by (auto simp: due_def k1_def)
  have at_i: "ping_times k1 ! i = (if due t i k then Some (lt_sent t i + from_millis (lt_variation t i)) else ping_times k ! i)
      \<and> pings_on ping i (k_out k1) = pings_on ping i (k_out k) + (if due t i k then 1 else 0)"
    using Cons.prems by (simp add: k1_def)
  have "\<forall>j < length (ping_times k).
        if i \<le> j \<and> j < i + length (p # sks) \<and> due t j k
        then ping_times (send_pings ping t i (p # sks) k) ! j = Some (lt_sent t j + from_millis (lt_variation t j))
          \<and> pings_on ping j (k_out (send_pings ping t i (p # sks) k)) = pings_on ping j (k_out k) + 1
        else ping_times (send_pings ping t i (p # sks) k) ! j = ping_times k ! j
          \<and> pings_on ping j (k_out (send_pings ping t i (p # sks) k)) = pings_on ping j (k_out k)"
  proof (intro allI impI)
    fix j assume j: "j < length (ping_times k)"
    have IHj: "if Suc i \<le> j \<and> j < Suc i + length sks \<and> due t j k1
        then ping_times (send_pings ping t (Suc i) sks k1) ! j = Some (lt_sent t j + from_millis (lt_variation t j))
          \<and> pings_on ping j (k_out (send_pings ping t (Suc i) sks k1)) = pings_on ping j (k_out k1) + 1
        else ping_times (send_pings ping t (Suc i) sks k1) ! j = ping_times k1 ! j
          \<and> pings_on ping j (k_out (send_pings ping t (Suc i) sks k1)) = pings_on ping j (k_out k1)"
      using IH j by blast
    show "if i \<le> j \<and> j < i + length (p # sks) \<and> due t j k
        then ping_times (send_pings ping t i (p # sks) k) ! j = Some (lt_sent t j + from_millis (lt_variation t j))
          \<and> pings_on ping j (k_out (send_pings ping t i (p # sks) k)) = pings_on ping j (k_out k) + 1
        else ping_times (send_pings ping t i (p # sks) k) ! j = ping_times k ! j
          \<and> pings_on ping j (k_out (send_pings ping t i (p # sks) k)) = pings_on ping j (k_out k)"
    proof (cases "j = i")
      case True
      then show ?thesis using IHj at_i unfolding eq by (cases "due t i k") simp_all
    next
      case False
      have "Suc i \<le> j \<longleftrightarrow> i \<le> j" using False by auto
      then show ?thesis using IHj same[OF False] unfolding eq by (simp split: if_splits)
    qed
  qed
  moreover have "deaf (send_pings ping t i (p # sks) k) = deaf k \<and> last_pong (send_pings ping t i (p # sks) k) = last_pong k
    \<and> length (ping_times (send_pings ping t i (p # sks) k)) = length (ping_times k)"
    unfolding eq using IH by (simp add: k1_def)
  moreover have "\<exists>new. k_out (send_pings ping t i (p # sks) k) = k_out k @ new \<and> (\<forall>(j, b, a) \<in> set new. b = ping)"
  proof -
    obtain new where n: "k_out (send_pings ping t (Suc i) sks k1) = k_out k1 @ new" "\<forall>(j, b, a) \<in> set new. b = ping"
      using IH by blast
    then show ?thesis
      unfolding eq by (intro exI[of _ "(if due t i k then [(i, ping, a)] else []) @ new"]) (auto simp: k1_def)
  qed
  ultimately show ?case by blast
qed

text \<open>A whole turn.\<close>

lemma listener_turn_step:
  assumes "listener_turn rt myid ping sks t k = Ret k'" "length (deaf k) = length sks" "length (ping_times k) = length sks"
  obtains J where "keeper_step J (send_pings ping t 0 sks k) k'" "\<forall>j \<in> J. j < length sks \<and> \<not> deaf k ! j"
proof (cases "poll_sockets (deaf (send_pings ping t 0 sks k)) (lt_poll t)")
  case (Inl e)
  then have "keeper_step {} (send_pings ping t 0 sks k) k'" using assms(1) by (simp add: listener_turn_def Let_def)
  then show ?thesis by (rule that) simp
next
  case (Inr ready)
  have d: "deaf (send_pings ping t 0 sks k) = deaf k" using send_pings_effect[of 0 sks k ping t] assms(3) by simp
  have "listener_scan rt myid t ready 0 sks (send_pings ping t 0 sks k) = Ret k'"
    using assms(1) Inr by (simp add: listener_turn_def Let_def)
  from listener_scan_step[OF this]
  have "keeper_step {j. 0 \<le> j \<and> j < 0 + length sks \<and> ready ! j} (send_pings ping t 0 sks k) k'" .
  moreover have "\<forall>j \<in> {j. 0 \<le> j \<and> j < 0 + length sks \<and> ready ! j}. j < length sks \<and> \<not> deaf k ! j"
    using poll_sockets_failed[OF Inr] d assms(2) by auto
  ultimately show ?thesis by (rule that)
qed

lemma listener_turn_lengths:
  assumes "listener_turn rt myid ping sks t k = Ret k'" "length (deaf k) = length sks" "length (ping_times k) = length sks"
  shows "length (deaf k') = length sks \<and> length (ping_times k') = length sks \<and> length (last_pong k') = length (last_pong k)"
proof -
  obtain J where "keeper_step J (send_pings ping t 0 sks k) k'" using listener_turn_step[OF assms] by blast
  then show ?thesis using send_pings_effect[of 0 sks k ping t] assms(2,3) by (simp add: keeper_step_def)
qed

section \<open>The times of the last answers\<close>

text \<open>Socket \<open>i\<close> received a \<open>Pong\<close> for the listener in this turn.\<close>

definition pong_received :: "'u pb_rt \<Rightarrow> string \<Rightarrow> listen_turn \<Rightarrow> nat \<Rightarrow> bool" where
  "pong_received rt myid t i \<longleftrightarrow>
     (\<exists>bs resp p. lt_recv t i = Inr bs \<and> Response_parse_from_bytes rt (take 1500 bs) = Some (Inr resp)
        \<and> resp_id resp = myid \<and> resp_cmd resp = Some (RespPong p))"

text \<open>Entry \<open>i\<close> is as it was, or it is the time of a \<open>Pong\<close> of this turn.\<close>

definition pong_noted :: "'u pb_rt \<Rightarrow> string \<Rightarrow> listen_turn \<Rightarrow> nat \<Rightarrow> keeper \<Rightarrow> keeper \<Rightarrow> bool" where
  "pong_noted rt myid t i k k' \<longleftrightarrow>
     last_pong k' ! i = last_pong k ! i \<or> pong_received rt myid t i \<and> last_pong k' ! i = Some (lt_pong t i)"

lemma listener_ready_pong:
  assumes "listener_ready rt myid t j a k = Ret k'"
  shows "pong_noted rt myid t i k k'"
proof (cases "i = j")
  case False
  then show ?thesis using listener_ready_step[OF assms] by (simp add: pong_noted_def keeper_step_def)
next
  case True
  show ?thesis
    using assms unfolding pong_noted_def pong_received_def listener_ready_def True
    by (auto simp: and_then_eq_Ret split: sum.splits option.splits if_splits RespCmd.splits)
qed

lemma listener_scan_pong:
  "listener_scan rt myid t ready j sks k = Ret k' \<Longrightarrow> pong_noted rt myid t i k k'"
proof (induction sks arbitrary: j k)
  case (Cons p sks)
  obtain sk a where p: "p = (sk, a)" by fastforce
  show ?case
  proof (cases "ready ! j")
    case True
    then obtain k1 where k1: "listener_ready rt myid t j a k = Ret k1" "listener_scan rt myid t ready (j + 1) sks k1 = Ret k'"
      using Cons.prems p by (auto simp: and_then_eq_Ret)
    show ?thesis using listener_ready_pong[OF k1(1), of i] Cons.IH[OF k1(2)] by (auto simp: pong_noted_def)
  qed (use Cons p in simp)
qed (simp add: pong_noted_def)

lemma listener_turn_pong:
  assumes "listener_turn rt myid ping sks t k = Ret k'" "length (ping_times k) = length sks"
  shows "pong_noted rt myid t i k k'"
proof -
  have "last_pong (send_pings ping t 0 sks k) = last_pong k"
    using send_pings_effect[of 0 sks k ping t] assms(2) by simp
  then show ?thesis
    using assms(1) listener_scan_pong[of rt myid t _ 0 sks "send_pings ping t 0 sks k" k' i]
    by (auto simp: listener_turn_def Let_def pong_noted_def split: sum.splits)
qed

text \<open>\<open>last_pong()\<close> is honest: a time that the listener reports for a server is one it held
  before the thread started, or that of a \<open>Pong\<close> in the name of the listener which the
  thread received on the socket of that server.\<close>

theorem udp_last_pong:
  assumes "listener_thread rt myid ping sks ts k = Ret k'"
    and "length (ping_times k) = length sks" "length (deaf k) = length sks"
    and "read_last_pong l (Some k') ! i = Some x"
  shows "last_pong k ! i = Some x \<or> (\<exists>t \<in> set ts. pong_received rt myid t i \<and> x = lt_pong t i)"
  using assms
proof (induction ts arbitrary: k)
  case (Cons t ts)
  show ?case
  proof (cases "lt_exit t")
    case False
    then obtain k1 where k1: "listener_turn rt myid ping sks t k = Ret k1" "listener_thread rt myid ping sks ts k1 = Ret k'"
      using Cons.prems(1) by (auto simp: and_then_eq_Ret)
    have "last_pong k1 ! i = Some x \<or> (\<exists>t \<in> set ts. pong_received rt myid t i \<and> x = lt_pong t i)"
      using Cons.IH[OF k1(2)] listener_turn_lengths[OF k1(1) Cons.prems(3,2)] Cons.prems(4) by blast
    then show ?thesis
      using listener_turn_pong[OF k1(1) Cons.prems(2), of i] by (auto simp: pong_noted_def)
  qed (use Cons.prems in \<open>simp add: read_last_pong_def\<close>)
qed (simp add: read_last_pong_def)

section \<open>The listener's answers\<close>

text \<open>The decoded requests of some sent datagrams: destination, sender, call.\<close>

definition request_of_bytes :: "'u pb_rt \<Rightarrow> bytes \<Rightarrow> (string \<times> call) option" where
  "request_of_bytes rt b =
     (case Request_parse_from_bytes rt (take 1500 b) of Some (Inr req) \<Rightarrow> Some (req_id req, call_of req) | _ \<Rightarrow> None)"

context pb_runtime
begin

lemma send_rsync_clean:
  assumes "text_ok myid" "text_ok target"
  shows "\<exists>b. send_rsync rt i myid target a out = Ret (out @ [(i, b, a)])
    \<and> b = Request_wire rt ((Request_new rt)\<lparr>req_id := myid, req_cmd := Some (ReqRsync ((Rsync_new rt)\<lparr>rsync_id := target\<rparr>))\<rparr>)"
proof -
  let ?req = "(Request_new rt)\<lparr>req_id := myid, req_cmd := Some (ReqRsync ((Rsync_new rt)\<lparr>rsync_id := target\<rparr>))\<rparr>"
  have "Request_clean rt ?req"
    using assms by (simp add: Request_clean_def Request_new_def Rsync_clean_def Rsync_new_def)
  from Request_write_clean[OF this] show ?thesis by (simp add: send_rsync_def send_cmd_def Let_def)
qed

lemma rsync_wire_request:
  assumes "text_ok myid" "text_ok target"
    and "length (Request_wire rt ((Request_new rt)\<lparr>req_id := myid, req_cmd := Some (ReqRsync ((Rsync_new rt)\<lparr>rsync_id := target\<rparr>))\<rparr>)) \<le> 1500"
  shows "request_of_bytes rt (Request_wire rt ((Request_new rt)\<lparr>req_id := myid, req_cmd := Some (ReqRsync ((Rsync_new rt)\<lparr>rsync_id := target\<rparr>))\<rparr>))
    = Some (myid, CRsync target)"
proof -
  let ?req = "(Request_new rt)\<lparr>req_id := myid, req_cmd := Some (ReqRsync ((Rsync_new rt)\<lparr>rsync_id := target\<rparr>))\<rparr>"
  have "Request_clean rt ?req"
    using assms by (simp add: Request_clean_def Request_new_def Rsync_clean_def Rsync_new_def)
  from Request_parse_wire[OF this] show ?thesis
    using assms(3) by (simp add: request_of_bytes_def Request_forget_def call_of_def Rsync_forget_def)
qed

text \<open>A datagram of at most 1500 bytes has short texts.\<close>

lemma datagram_texts:
  assumes "Response_parse_from_bytes rt (take 1500 bs) = Some (Inr resp)" "resp_cmd resp = Some (RespFsync f)"
  shows "text_ok (fsync_id f)"
proof -
  have "Response_bounded (length (take 1500 bs)) resp" by (rule Response_parse_bounded[OF assms(1)])
  then have "bounded (length (take 1500 bs)) (fsync_id f)" using assms(2) by (simp add: Response_bounded_def)
  then show ?thesis by (rule bounded_text_ok) (simp add: max_text_def)
qed

lemma listener_ready_returns:
  assumes "text_ok myid" "i < length (last_pong k)"
  shows "\<exists>k'. listener_ready rt myid t i a k = Ret k'"
proof (cases "lt_recv t i")
  case (Inl e)
  then show ?thesis by (simp add: listener_ready_def)
next
  case (Inr bs)
  obtain r where r: "Response_parse_from_bytes rt (take 1500 bs) = Some r" using Response_parse_returns by blast
  have send: "\<exists>y. send_rsync rt i who (fsync_id f) a out = Ret y"
    if "text_ok who" "Response_parse_from_bytes rt (take 1500 bs) = Some (Inr resp)" "resp_cmd resp = Some (RespFsync f)" for who resp f a out
    using send_rsync_clean[OF that(1) datagram_texts[OF that(2,3)]] by metis
  show ?thesis
    using Inr r assms
    by (auto simp: listener_ready_def intro!: and_then_returns send split: sum.split option.split RespCmd.split)
qed

lemma listener_scan_returns:
  assumes "text_ok myid" "i + length sks \<le> length (last_pong k)"
  shows "\<exists>k'. listener_scan rt myid t ready i sks k = Ret k'"
  using assms(2)
proof (induction sks arbitrary: i k)
  case (Cons p sks)
  obtain sk a where p: "p = (sk, a)" by fastforce
  show ?case
  proof (cases "ready ! i")
    case False
    then show ?thesis using Cons.IH[of "i + 1" k] Cons.prems p by simp
  next
    case True
    obtain k1 where k1: "listener_ready rt myid t i a k = Ret k1"
      using listener_ready_returns[OF assms(1), of i k] Cons.prems by auto
    have "length (last_pong k1) = length (last_pong k)" using listener_ready_step[OF k1] by (simp add: keeper_step_def)
    then show ?thesis using Cons.IH[of "i + 1" k1] Cons.prems p True k1 by simp
  qed
qed simp

lemma listener_turn_returns:
  assumes "text_ok myid" "length sks \<le> length (last_pong k)" "length (ping_times k) = length sks"
  shows "\<exists>k'. listener_turn rt myid ping sks t k = Ret k'"
proof -
  have "last_pong (send_pings ping t 0 sks k) = last_pong k"
    using send_pings_effect[of 0 sks k ping t] assms(3) by simp
  then show ?thesis
    using listener_scan_returns[OF assms(1), of 0 sks "send_pings ping t 0 sks k"] assms(2)
    by (auto simp: listener_turn_def Let_def split: sum.split)
qed

lemma listener_thread_returns:
  assumes "text_ok myid" "length sks \<le> length (last_pong k)" "length (ping_times k) = length sks" "length (deaf k) = length sks"
  shows "\<exists>k'. listener_thread rt myid ping sks ts k = Ret k'"
  using assms(2-4)
proof (induction ts arbitrary: k)
  case (Cons t ts)
  obtain k1 where k1: "listener_turn rt myid ping sks t k = Ret k1"
    using listener_turn_returns[OF assms(1) Cons.prems(1,2)] by blast
  show ?case
    using Cons.IH[of k1] listener_turn_lengths[OF k1 Cons.prems(3,2)] Cons.prems(1) k1 by simp
qed simp

end

text \<open>C21. The listener opens the path: an Fsync addressed to the listener makes it send two
  datagrams from the same socket, one to the server and one to the peer's address in the
  Fsync, and both are the reply \<open>Rsync\<close> to that peer in the listener's name.\<close>

theorem udp_listener_answers_fsync:
  assumes "pb_runtime rt" "text_ok myid" "lt_recv t i = Inr bs"
    and "Response_parse_from_bytes rt (take 1500 bs) = Some (Inr resp)"
    and "resp_id resp = myid" "resp_cmd resp = Some (RespFsync f)" "parse_addr (fsync_addr f) = Some peer"
    and "length (Request_wire rt ((Request_new rt)\<lparr>req_id := myid, req_cmd := Some (ReqRsync ((Rsync_new rt)\<lparr>rsync_id := fsync_id f\<rparr>))\<rparr>)) \<le> 1500"
  shows "\<exists>b. listener_ready rt myid t i a k = Ret (k\<lparr>k_out := k_out k @ [(i, b, a), (i, b, peer)]\<rparr>)
    \<and> request_of_bytes rt b = Some (myid, CRsync (fsync_id f))"
proof -
  have ok: "text_ok (fsync_id f)" by (rule pb_runtime.datagram_texts[OF assms(1,4,6)])
  let ?b = "Request_wire rt ((Request_new rt)\<lparr>req_id := myid, req_cmd := Some (ReqRsync ((Rsync_new rt)\<lparr>rsync_id := fsync_id f\<rparr>))\<rparr>)"
  have send: "send_rsync rt i myid (fsync_id f) d out = Ret (out @ [(i, ?b, d)])" for d out
    using pb_runtime.send_rsync_clean[OF assms(1,2) ok] by blast
  have "listener_ready rt myid t i a k = Ret (k\<lparr>k_out := k_out k @ [(i, ?b, a), (i, ?b, peer)]\<rparr>)"
    using assms(3-7) by (simp add: listener_ready_def send)
  then show ?thesis using pb_runtime.rsync_wire_request[OF assms(1,2) ok assms(8)] by blast
qed

lemma listen_start_Inr:
  assumes "listen_start rt peer_os l = Ret (l', Inr (sk, th))"
  shows "l_svr_sks l' = None \<and> (\<exists>sks. l_svr_sks l = Some sks \<and> th_sks th = sks
     \<and> th_keeper th = keeper_start sks (l_last_pong l) \<and> th_id th = cfg_id (l_cfg l))"
  using assms
  by (auto simp: listen_start_def Let_def and_then_sum split: sum.split_asm option.split_asm)

text \<open>C20. The listener's thread never dies: after \<open>listen\<close> succeeded on a new listener, no
  datagrams, poll answers, errors or clock readings make its thread panic or hang.\<close>

theorem udp_listener_never_stops:
  assumes "pb_runtime rt" "text_ok who" "Listener_new servers who local_addr sc = Inr l"
    and "listen rt resolve os peer_os l = Ret (l', Inr (sk, th))"
  shows "\<exists>k. listener_thread rt (th_id th) (th_ping th) (th_sks th) ts (th_keeper th) = Ret k"
proof -
  have l: "l_svr_sks l = None" "cfg_id (l_cfg l) = who"
      "length (l_last_pong l) = length (cfg_server_addrs (l_cfg l))"
    using assms(3) by (auto simp: Listener_new_def CommonConfig_new_def res_bind_eq_Inr split: if_splits)
  then obtain sks la where c: "connect_multiple_servers resolve os (cfg_server_addrs (l_cfg l)) (cfg_local_addr (l_cfg l)) (sk_cfg (l_cfg l)) = Ret (Inr (sks, la))"
    and s: "listen_start rt peer_os (l\<lparr>l_svr_sks := Some sks, l_cfg := (l_cfg l)\<lparr>cfg_local_addr := Some la\<rparr>\<rparr>) = Ret (l', Inr (sk, th))"
    using assms(4) by (auto simp: listen_def and_then_sum split: sum.split_asm)
  have th: "th_sks th = sks" "th_keeper th = keeper_start sks (l_last_pong l)" "th_id th = who"
    using listen_start_Inr[OF s] l by simp_all
  show ?thesis
    unfolding th
    by (rule pb_runtime.listener_thread_returns[OF assms(1,2)])
       (simp_all add: keeper_start_def l connect_multiple_length[OF c])
qed

text \<open>The farewell is never sent: a listener that is listening has given its server sockets
  to the thread, so dropping it sends nothing, although \<open>drop\<close> has code to send a Bye to
  every server; the servers learn of it only when the registration expires.\<close>

theorem udp_drop_sends_nothing:
  assumes "listen rt resolve os peer_os l = Ret (l', Inr (sk, th))"
  shows "listener_drop rt l' = Ret (l'\<lparr>l_exit := True\<rparr>, [])"
proof -
  obtain l1 where "listen_start rt peer_os l1 = Ret (l', Inr (sk, th))"
    using assms by (auto simp: listen_def and_then_sum split: option.split_asm sum.split_asm)
  from listen_start_Inr[OF this] show ?thesis by (simp add: listener_drop_def)
qed

section \<open>Sockets that failed\<close>

lemma deaf_turn:
  assumes "listener_turn rt myid ping sks t k = Ret k'" "length (deaf k) = length sks" "length (ping_times k) = length sks"
    and "i < length sks" "deaf k ! i"
  shows "deaf k' ! i \<and> last_pong k' ! i = last_pong k ! i
    \<and> (\<exists>new. k_out k' = k_out k @ new \<and> (\<forall>(j, b, a) \<in> set new. j = i \<longrightarrow> b = ping))"
proof -
  let ?k = "send_pings ping t 0 sks k"
  obtain J where J: "keeper_step J ?k k'" "\<forall>j \<in> J. j < length sks \<and> \<not> deaf k ! j"
    using listener_turn_step[OF assms(1-3)] by blast
  have e: "deaf ?k = deaf k" "last_pong ?k = last_pong k"
    using send_pings_effect[of 0 sks k ping t] assms(3) by simp_all
  obtain new where new: "k_out ?k = k_out k @ new" "\<forall>(j, b, a) \<in> set new. b = ping"
    using send_pings_effect[of 0 sks k ping t] assms(3) by auto
  have i: "i \<notin> J" using J(2) assms(5) by blast
  obtain new2 where new2: "k_out k' = k_out ?k @ new2" "fst ` set new2 \<subseteq> J" using J(1) by (auto simp: keeper_step_def)
  have "\<forall>(j, b, a) \<in> set (new @ new2). j = i \<longrightarrow> b = ping"
  proof -
    have "j \<noteq> i" if "(j, b, a) \<in> set new2" for j b a
      using that new2(2) i by (metis fst_conv image_eqI subsetD)
    then show ?thesis using new(2) by auto
  qed
  moreover have "k_out k' = k_out k @ (new @ new2)" using new(1) new2(1) by simp
  moreover have "deaf k' ! i \<and> last_pong k' ! i = last_pong k ! i"
    using J(1) i e assms(5) by (simp add: keeper_step_def)
  ultimately show ?thesis by blast
qed

text \<open>A receive error makes the listener deaf: once a receive on a server's socket has
  failed, the thread goes on pinging that server for ever, which keeps the registration
  alive, but it handles nothing that arrives from it: no Pong is noted and no request is
  answered.\<close>

theorem udp_deaf_forever:
  assumes "listener_thread rt myid ping sks ts k = Ret k'" "length (deaf k) = length sks" "length (ping_times k) = length sks"
    and "i < length sks" "deaf k ! i"
  shows "deaf k' ! i \<and> last_pong k' ! i = last_pong k ! i
    \<and> (\<exists>new. k_out k' = k_out k @ new \<and> (\<forall>(j, b, a) \<in> set new. j = i \<longrightarrow> b = ping))"
  using assms(1-3,5)
proof (induction ts arbitrary: k)
  case Nil
  then show ?case by simp
next
  case (Cons t ts)
  show ?case
  proof (cases "lt_exit t")
    case True
    then show ?thesis using Cons.prems by simp
  next
    case False
    then obtain k1 where k1: "listener_turn rt myid ping sks t k = Ret k1" "listener_thread rt myid ping sks ts k1 = Ret k'"
      using Cons.prems(1) by (auto simp: and_then_eq_Ret)
    have d: "deaf k1 ! i \<and> last_pong k1 ! i = last_pong k ! i"
      and o1: "\<exists>new. k_out k1 = k_out k @ new \<and> (\<forall>(j, b, a) \<in> set new. j = i \<longrightarrow> b = ping)"
      using deaf_turn[OF k1(1) Cons.prems(2,3) assms(4) Cons.prems(4)] by blast+
    have d2: "deaf k' ! i \<and> last_pong k' ! i = last_pong k1 ! i"
      and o2: "\<exists>new. k_out k' = k_out k1 @ new \<and> (\<forall>(j, b, a) \<in> set new. j = i \<longrightarrow> b = ping)"
      using Cons.IH[OF k1(2)] listener_turn_lengths[OF k1(1) Cons.prems(2,3)] d by blast+
    have "\<exists>new. k_out k' = k_out k @ new \<and> (\<forall>(j, b, a) \<in> set new. j = i \<longrightarrow> b = ping)"
      using o1 o2 by (metis (no_types, lifting) Un_iff append_assoc set_append)
    then show ?thesis using d d2 by simp
  qed
qed

text \<open>When every server socket has failed the thread spins: a turn does not consult \<open>poll\<close>,
  which is the only place where it waits, so it returns at once, whatever \<open>poll\<close> would
  have answered.\<close>

theorem udp_listener_spins:
  assumes "list_all (\<lambda>f. f) (deaf k)" "length (deaf k) = length sks" "length (ping_times k) = length sks"
  shows "listener_turn rt myid ping sks t k = Ret (send_pings ping t 0 sks k)"
proof -
  have d: "deaf (send_pings ping t 0 sks k) = deaf k" using send_pings_effect[of 0 sks k ping t] assms(3) by simp
  have "poll_sockets (deaf k) (lt_poll t) = Inr (replicate (length sks) False)"
    using assms(1,2) by (auto simp: poll_sockets_def list_all_iff filter_empty_conv)
  moreover have "listener_scan rt myid t (replicate n False) i sks' k' = Ret k'" if "i + length sks' \<le> n" for i sks' k' n
    using that by (induction sks' arbitrary: i) auto
  ultimately show ?thesis by (simp add: listener_turn_def Let_def d)
qed

section \<open>Keepalive\<close>

lemma turn_ping:
  assumes "listener_turn rt myid ping sks t k = Ret k'" "length (deaf k) = length sks" "length (ping_times k) = length sks"
    and "i < length sks"
  shows "if due t i k
    then ping_times k' ! i = Some (lt_sent t i + from_millis (lt_variation t i)) \<and> pings_on ping i (k_out k) + 1 \<le> pings_on ping i (k_out k')
    else ping_times k' ! i = ping_times k ! i \<and> pings_on ping i (k_out k) \<le> pings_on ping i (k_out k')"
proof -
  obtain J where J: "keeper_step J (send_pings ping t 0 sks k) k'" using listener_turn_step[OF assms(1-3)] by blast
  then obtain new where "k_out k' = k_out (send_pings ping t 0 sks k) @ new" by (auto simp: keeper_step_def)
  then show ?thesis
    using send_pings_effect[of 0 sks k ping t] assms(3,4) J by (auto simp: keeper_step_def)
qed

text \<open>While no ping is due on a socket, its last ping time stays and is at most ten seconds old.\<close>

lemma thread_no_ping:
  assumes "listener_thread rt myid ping sks ts k = Ret k'" "length (deaf k) = length sks" "length (ping_times k) = length sks"
    and "i < length sks" "ping_times k ! i = Some p" "\<forall>t \<in> set ts. \<not> lt_exit t"
  shows "pings_on ping i (k_out k) \<le> pings_on ping i (k_out k')
    \<and> (pings_on ping i (k_out k') = pings_on ping i (k_out k) \<longrightarrow> (\<forall>t \<in> set ts. elapsed (lt_now t i) p \<le> keepalive_to))"
  using assms(1-3,5,6)
proof (induction ts arbitrary: k p)
  case Nil
  then show ?case by simp
next
  case (Cons t ts)
  obtain k1 where k1: "listener_turn rt myid ping sks t k = Ret k1" "listener_thread rt myid ping sks ts k1 = Ret k'"
    using Cons.prems(1,5) by (auto simp: and_then_eq_Ret)
  note len = listener_turn_lengths[OF k1(1) Cons.prems(2,3)]
  note ping = turn_ping[OF k1(1) Cons.prems(2,3) assms(4)]
  show ?case
  proof (cases "due t i k")
    case True
    then have now: "ping_times k1 ! i = Some (lt_sent t i + from_millis (lt_variation t i))"
        "pings_on ping i (k_out k) + 1 \<le> pings_on ping i (k_out k1)"
      using ping by simp_all
    then show ?thesis using Cons.IH[OF k1(2) _ _ now(1)] len Cons.prems(5) now(2) by simp
  next
    case False
    then have same: "ping_times k1 ! i = Some p" "pings_on ping i (k_out k) \<le> pings_on ping i (k_out k1)"
      using ping Cons.prems(4) by simp_all
    have "elapsed (lt_now t i) p \<le> keepalive_to" using False Cons.prems(4) by (simp add: due_def)
    then show ?thesis using Cons.IH[OF k1(2) _ _ same(1)] len Cons.prems(5) same(2) by auto
  qed
qed

text \<open>C36. Pings are frequent enough: after any turn in which the thread pinged a server, the
  first ping or a later one, no turn is more than fifteen seconds past that ping unless
  another ping was sent on the socket in between: ten seconds of keepalive time and less
  than five of random variation. A server's entry lives for sixty seconds at least.\<close>

theorem udp_keepalive:
  assumes "length (deaf k) = length sks" "length (ping_times k) = length sks" "i < length sks"
    and "listener_turn rt myid ping sks t0 k = Ret k1" "listener_thread rt myid ping sks ts k1 = Ret k'" "\<forall>t \<in> set ts. \<not> lt_exit t"
    and "pings_on ping i (k_out k) < pings_on ping i (k_out (send_pings ping t0 0 sks k))" "lt_variation t0 i < 5000"
    and "pings_on ping i (k_out k') = pings_on ping i (k_out k1)"
  shows "\<forall>t \<in> set ts. lt_now t i < lt_sent t0 i + from_secs 15"
proof -
  have "due t0 i k" using send_pings_effect[of 0 sks k ping t0] assms(2,3,7) by (auto split: if_splits)
  then have p: "ping_times k1 ! i = Some (lt_sent t0 i + from_millis (lt_variation t0 i))"
    using turn_ping[OF assms(4,1,2,3)] by simp
  have "\<forall>t \<in> set ts. elapsed (lt_now t i) (lt_sent t0 i + from_millis (lt_variation t0 i)) \<le> keepalive_to"
    using thread_no_ping[OF assms(5) _ _ assms(3) p assms(6)] listener_turn_lengths[OF assms(4,1,2)] assms(9) by simp
  then show ?thesis using assms(8) by (auto simp: elapsed_def keepalive_to_def time_defs)
qed

section \<open>Witnesses\<close>

definition returns_snd :: "('a \<times> ('e + 'b)) outcome \<Rightarrow> bool" where
  "returns_snd m = (case m of Ret r \<Rightarrow> (case snd r of Inl e \<Rightarrow> False | Inr x \<Rightarrow> True) | _ \<Rightarrow> False)"

definition returns_fst :: "(('e + 'b) \<times> 'a) outcome \<Rightarrow> bool" where
  "returns_fst m = (case m of Ret r \<Rightarrow> (case fst r of Inl e \<Rightarrow> False | Inr x \<Rightarrow> True) | _ \<Rightarrow> False)"

lemma returns_sndD: "returns_snd m \<Longrightarrow> \<exists>a x. m = Ret (a, Inr x)"
  by (auto simp: returns_snd_def split: outcome.splits sum.splits)

lemma returns_fstD: "returns_fst m \<Longrightarrow> \<exists>a x. m = Ret (Inr x, a)"
  by (auto simp: returns_fst_def split: outcome.splits sum.splits)

abbreviation calm_os :: sock_os where
  "calm_os \<equiv> \<lparr>so_new = Inr (), so_config = Inr (), so_set_reuse_address = Inr (), so_bind = (\<lambda>_. Inr ()),
     so_set_nonblocking = (\<lambda>_. Inr ()), so_connect = (\<lambda>_. Inr ()), so_peer_addr = Inr (V4 (Ipv4 9 9 9 9) 8888),
     so_local_addr = Inr (V4 (Ipv4 1 2 3 4) 5)\<rparr>"

abbreviation one_server :: "string \<Rightarrow> io_error + SocketAddr list" where
  "one_server \<equiv> \<lambda>_. Inr [V4 (Ipv4 9 9 9 9) 8888]"

abbreviation server_sk :: Socket where
  "server_sk \<equiv> \<lparr>answers = calm_os, bound_to = V4 (Ipv4 0 0 0 0) 0, remote = Some (V4 (Ipv4 9 9 9 9) 8888)\<rparr>"

abbreviation config :: "string \<Rightarrow> CommonConfig" where
  "config who \<equiv> \<lparr>sk_cfg = False, cfg_id = who, cfg_local_addr = None, cfg_server_addrs = [''s'']\<rparr>"

lemma connect_one: "connect_multiple_servers one_server (\<lambda>_. calm_os) [''s''] None False
    = Ret (Inr ([(server_sk, V4 (Ipv4 9 9 9 9) 8888)], V4 (Ipv4 1 2 3 4) 5))"
  by (simp add: connect_multiple_servers_def connect_server_def create_socket_def connect_socket_def map_family_def default_local_def Let_def)

theorem udp_one_local_address_witness:
  "connect_multiple_servers one_server (\<lambda>_. calm_os) [''s''] None False
      = Ret (Inr ([(server_sk, V4 (Ipv4 9 9 9 9) 8888)], V4 (Ipv4 1 2 3 4) 5))
    \<and> remote server_sk \<noteq> None"
  using udp_one_local_address[OF connect_one] connect_one by simp

text \<open>A turn in which the one server sends \<open>bs\<close>.\<close>

abbreviation hears :: "bytes \<Rightarrow> conn_turn" where
  "hears bs \<equiv> \<lparr>ct_now = 1, ct_poll = Polled (Suc 0) [Some True], ct_recv = (\<lambda>_. Inr bs), ct_peer = (\<lambda>_. calm_os)\<rparr>"

text \<open>A redirect of \<open>c\<close> to \<open>l\<close> at \<open>5.6.7.8:9\<close>.\<close>

abbreviation redirect_msg :: bytes where
  "redirect_msg \<equiv> [10, 1, 99, 26, 14, 10, 1, 108, 18, 9, 53, 46, 54, 46, 55, 46, 56, 58, 57]"

lemma parse_example: "parse_addr ''5.6.7.8:9'' = Some (V4 (Ipv4 5 6 7 8) 9)"
proof -
  have "show_addr (V4 (Ipv4 5 6 7 8) 9) = ''5.6.7.8:9''" by code_simp
  then show ?thesis using parse_show_addr[of "V4 (Ipv4 5 6 7 8) 9"] by simp
qed

lemma isync_example: "isync_bytes wire_rt ''c'' ''l'' = Inr [10, 1, 99, 26, 3, 10, 1, 108]"
  by code_simp

text \<open>The connector hears the redirect and returns the connected peer socket.\<close>

lemma connect_example:
  "connector_connect wire_rt one_server (\<lambda>_. calm_os) (\<lambda>_. (0, \<lambda>_. hears redirect_msg)) (config ''c'') ''l''
    = Ret (Inr \<lparr>answers = calm_os, bound_to = V4 (Ipv4 1 2 3 4) 5, remote = Some (V4 (Ipv4 5 6 7 8) 9)\<rparr>,
        [(0, [10, 1, 99, 26, 3, 10, 1, 108], V4 (Ipv4 9 9 9 9) 8888)])"
proof -
  have "note_of_bytes wire_rt (take 1500 redirect_msg) = Some (''c'', NRedirect ''l'' ''5.6.7.8:9'')" by code_simp
  from note_redirectD[OF this] obtain resp v where p: "Response_parse_from_bytes wire_rt (take 1500 redirect_msg) = Some (Inr resp)"
      "resp_id resp = ''c''" "resp_cmd resp = Some (RespRedirect v)" "redirect_addr v = ''5.6.7.8:9''"
    by blast
  have ready: "connector_ready wire_rt (config ''c'') (hears redirect_msg) 0 server_sk st
      = Ret (Inl (Inr \<lparr>answers = calm_os, bound_to = V4 (Ipv4 1 2 3 4) 5, remote = Some (V4 (Ipv4 5 6 7 8) 9)\<rparr>, st))" for st
    using p by (simp add: connector_ready_def parse_example create_socket_def connect_socket_def del: take.simps take_Cons_numeral)
  have poll: "poll_sockets [False] (Polled (Suc 0) [Some True]) = Inr [True]" by code_simp
  have rounds: "[0..<3::nat] = [0, 1, 2]" by code_simp
  have loop: "round_loop wire_rt (config ''c'') [(server_sk, V4 (Ipv4 9 9 9 9) 8888)] 0 (\<lambda>_. hears redirect_msg) st
      = Ret (Inl (Inr \<lparr>answers = calm_os, bound_to = V4 (Ipv4 1 2 3 4) 5, remote = Some (V4 (Ipv4 5 6 7 8) 9)\<rparr>, st))"
    if "failed_servers st = [False]" for st
    unfolding round_loop_def
    by (subst round_go.simps) (simp add: that ready poll elapsed_def round_timeout_def time_defs)
  show ?thesis
    by (simp add: connector_connect_def isync_example connect_one rounds loop Let_def)
qed

theorem udp_connect_follows_redirect_witness:
  "\<exists>t. connector_connect wire_rt one_server (\<lambda>_. calm_os) (\<lambda>_. (0, \<lambda>_. hears redirect_msg)) (config ''c'') ''l''
      = Ret (Inr \<lparr>answers = calm_os, bound_to = V4 (Ipv4 1 2 3 4) 5, remote = Some (V4 (Ipv4 5 6 7 8) 9)\<rparr>,
          [(0, [10, 1, 99, 26, 3, 10, 1, 108], V4 (Ipv4 9 9 9 9) 8888)])
    \<and> peer_socket wire_rt ''c'' t [(server_sk, V4 (Ipv4 9 9 9 9) 8888)]
        \<lparr>answers = calm_os, bound_to = V4 (Ipv4 1 2 3 4) 5, remote = Some (V4 (Ipv4 5 6 7 8) 9)\<rparr>"
  using udp_connect_follows_redirect[OF connect_example] connect_example connect_one by auto

theorem udp_connect_traffic_witness:
  "\<exists>res out. connector_connect wire_rt one_server (\<lambda>_. calm_os) (\<lambda>_. (0, \<lambda>_. hears redirect_msg)) (config ''c'') ''l'' = Ret (res, out)
    \<and> length out \<le> 3"
  using udp_connect_traffic[OF connect_example] connect_example by simp

theorem udp_connect_returns_witness:
  "\<exists>res out. connector_connect wire_rt one_server (\<lambda>_. calm_os) (\<lambda>_. (0, \<lambda>n. (hears [255])\<lparr>ct_now := int n * from_secs 1\<rparr>)) (config ''c'') ''l'' = Ret (res, out)"
proof -
  let ?rounds = "\<lambda>_. (0, \<lambda>n. (hears [255])\<lparr>ct_now := int n * from_secs 1\<rparr>)"
  have "CommonConfig_new [''s''] ''c'' None False = Inr (config ''c'')" by (simp add: CommonConfig_new_def)
  moreover have "\<forall>k < 3 :: nat. \<exists>n. \<not> elapsed (ct_now (snd (?rounds k) n)) (fst (?rounds k)) < round_timeout"
    by (intro allI impI exI[of _ 5]) (simp add: elapsed_def round_timeout_def time_defs)
  ultimately show ?thesis
    using udp_connect_returns[OF wire.pb_runtime_axioms, of "[''s'']" "''c''" None False "config ''c''" ?rounds one_server "\<lambda>_. calm_os" "''l''"]
    by (simp add: sane_def)
qed

text \<open>An empty redirect of \<open>c\<close> for \<open>l\<close>.\<close>

theorem udp_connect_no_target_witness:
  "\<exists>out. connector_connect wire_rt one_server (\<lambda>_. calm_os) (\<lambda>_. (0, \<lambda>_. hears [10, 1, 99, 26, 3, 10, 1, 108])) (config ''c'') ''l''
      = Ret (Inl (new_error Other ''Target not found''), out) \<and> length out = 1"
proof -
  have "note_of_bytes wire_rt (take 1500 [10, 1, 99, 26, 3, 10, 1, 108]) = Some (''c'', NRedirect ''l'' [])" by code_simp
  from note_redirectD[OF this] have n: "no_target wire_rt ''c'' [10, 1, 99, 26, 3, 10, 1, 108]"
    by (auto simp: no_target_def)
  have i: "isync_bytes wire_rt (cfg_id (config ''c'')) ''l'' = Inr [10, 1, 99, 26, 3, 10, 1, 108]"
    by (simp add: isync_example)
  show ?thesis
    using udp_connect_no_target[OF i, where resolve = one_server and os = "\<lambda>_. calm_os" and start = 0 and turns = "\<lambda>_. hears [10, 1, 99, 26, 3, 10, 1, 108]"
        and rounds = "\<lambda>_. (0, \<lambda>_. hears [10, 1, 99, 26, 3, 10, 1, 108])" and t = "hears [10, 1, 99, 26, 3, 10, 1, 108]"
        and sks = "[(server_sk, V4 (Ipv4 9 9 9 9) 8888)]" and la = "V4 (Ipv4 1 2 3 4) 5"]
      connect_one n
    by (simp add: elapsed_def round_timeout_def time_defs)
qed

text \<open>The listener \<open>l\<close> and its thread.\<close>

abbreviation quiet_turn :: "io_error + bytes \<Rightarrow> listen_turn" where
  "quiet_turn r \<equiv> \<lparr>lt_exit = False, lt_now = (\<lambda>_. 1), lt_sent = (\<lambda>_. 1), lt_variation = (\<lambda>_. 0),
     lt_poll = Polled (Suc 0) [Some True], lt_recv = (\<lambda>_. r), lt_pong = (\<lambda>_. 2)\<rparr>"

abbreviation new_keeper :: keeper where
  "new_keeper \<equiv> \<lparr>ping_times = [None], deaf = [False], last_pong = [None], k_out = []\<rparr>"

abbreviation fsync_msg :: bytes where
  "fsync_msg \<equiv> [10, 1, 108, 34, 14, 10, 1, 99, 18, 9, 53, 46, 54, 46, 55, 46, 56, 58, 57]"

theorem udp_listener_answers_fsync_witness:
  "\<exists>b. listener_ready wire_rt ''l'' (quiet_turn (Inr fsync_msg)) 0 (V4 (Ipv4 9 9 9 9) 8888) new_keeper
      = Ret (new_keeper\<lparr>k_out := [(0, b, V4 (Ipv4 9 9 9 9) 8888), (0, b, V4 (Ipv4 5 6 7 8) 9)]\<rparr>)
    \<and> request_of_bytes wire_rt b = Some (''l'', CRsync ''c'')"
proof -
  have "note_of_bytes wire_rt (take 1500 fsync_msg) = Some (''l'', NFsync ''c'' ''5.6.7.8:9'')" by code_simp
  from note_fsyncD[OF this] obtain resp f where p: "Response_parse_from_bytes wire_rt (take 1500 fsync_msg) = Some (Inr resp)"
      "resp_id resp = ''l''" "resp_cmd resp = Some (RespFsync f)" and fa: "fsync_addr f = ''5.6.7.8:9''" "fsync_id f = ''c''"
    by blast
  have f: "parse_addr (fsync_addr f) = Some (V4 (Ipv4 5 6 7 8) 9)" unfolding fa by (rule parse_example)
  have l: "text_ok ''l''" by (simp add: text_ok_def max_text_def utf8_valid_ascii)
  have "length (Request_wire wire_rt ((Request_new wire_rt)\<lparr>req_id := ''l'', req_cmd := Some (ReqRsync ((Rsync_new wire_rt)\<lparr>rsync_id := ''c''\<rparr>))\<rparr>)) = 8"
    by code_simp
  then show ?thesis
    using udp_listener_answers_fsync[OF wire.pb_runtime_axioms l, of "quiet_turn (Inr fsync_msg)" 0 fsync_msg resp f
        "V4 (Ipv4 5 6 7 8) 9" "V4 (Ipv4 9 9 9 9) 8888" new_keeper] p f fa(2) by (simp del: take.simps take_Cons_numeral)
qed

lemma listen_one:
  "\<exists>l l' sk th. Listener_new [''s''] ''l'' None False = Inr l
    \<and> listen wire_rt one_server (\<lambda>_. calm_os) calm_os l = Ret (l', Inr (sk, th))"
proof -
  obtain l where l: "Listener_new [''s''] ''l'' None False = Inr l"
    by (simp add: Listener_new_def CommonConfig_new_def)
  have "(case Listener_new [''s''] ''l'' None False of Inl e \<Rightarrow> False
     | Inr l \<Rightarrow> returns_snd (listen wire_rt one_server (\<lambda>_. calm_os) calm_os l))"
    by code_simp
  then have "returns_snd (listen wire_rt one_server (\<lambda>_. calm_os) calm_os l)" by (simp add: l)
  from returns_sndD[OF this] show ?thesis using l by fastforce
qed

theorem udp_listener_never_stops_witness:
  "\<exists>l l' sk th k. Listener_new [''s''] ''l'' None False = Inr l
    \<and> listen wire_rt one_server (\<lambda>_. calm_os) calm_os l = Ret (l', Inr (sk, th))
    \<and> listener_thread wire_rt (th_id th) (th_ping th) (th_sks th) [quiet_turn (Inr fsync_msg)] (th_keeper th) = Ret k"
proof -
  have ok: "text_ok ''l''" by (simp add: text_ok_def max_text_def utf8_valid_ascii)
  obtain l l' sk th where l: "Listener_new [''s''] ''l'' None False = Inr l"
      "listen wire_rt one_server (\<lambda>_. calm_os) calm_os l = Ret (l', Inr (sk, th))"
    using listen_one by blast
  show ?thesis using udp_listener_never_stops[OF wire.pb_runtime_axioms ok l, of "[quiet_turn (Inr fsync_msg)]"] l by blast
qed

theorem udp_drop_sends_nothing_witness:
  "\<exists>l l' sk th. listen wire_rt one_server (\<lambda>_. calm_os) calm_os l = Ret (l', Inr (sk, th))
    \<and> listener_drop wire_rt l' = Ret (l'\<lparr>l_exit := True\<rparr>, [])"
proof -
  obtain l l' sk th where l: "listen wire_rt one_server (\<lambda>_. calm_os) calm_os l = Ret (l', Inr (sk, th))"
    using listen_one by blast
  show ?thesis using udp_drop_sends_nothing[OF l] l by blast
qed

abbreviation deaf_keeper :: keeper where
  "deaf_keeper \<equiv> new_keeper\<lparr>deaf := [True]\<rparr>"

theorem udp_deaf_forever_witness:
  "\<exists>k'. listener_thread wire_rt ''l'' [1] [(server_sk, V4 (Ipv4 9 9 9 9) 8888)] [quiet_turn (Inr fsync_msg)] deaf_keeper = Ret k'
    \<and> deaf k' ! 0 \<and> last_pong k' ! 0 = None"
proof -
  have ok: "text_ok ''l''" by (simp add: text_ok_def max_text_def utf8_valid_ascii)
  obtain k' where k: "listener_thread wire_rt ''l'' [1] [(server_sk, V4 (Ipv4 9 9 9 9) 8888)] [quiet_turn (Inr fsync_msg)] deaf_keeper = Ret k'"
    using wire.listener_thread_returns[OF ok, of "[(server_sk, V4 (Ipv4 9 9 9 9) 8888)]" deaf_keeper "[1]" "[quiet_turn (Inr fsync_msg)]"] by auto
  show ?thesis using udp_deaf_forever[OF k, of 0] k by simp
qed

theorem udp_listener_spins_witness:
  "listener_turn wire_rt ''l'' [1] [(server_sk, V4 (Ipv4 9 9 9 9) 8888)] (quiet_turn (Inr fsync_msg)) deaf_keeper
    = Ret (send_pings [1] (quiet_turn (Inr fsync_msg)) 0 [(server_sk, V4 (Ipv4 9 9 9 9) 8888)] deaf_keeper)"
  by (rule udp_listener_spins) simp_all

abbreviation wouldblock :: "io_error + bytes" where
  "wouldblock \<equiv> Inl (new_error WouldBlock ''again'')"

text \<open>A keeper that pinged eleven seconds before time zero pings again.\<close>

abbreviation pinged_keeper :: keeper where
  "pinged_keeper \<equiv> new_keeper\<lparr>ping_times := [Some (- from_secs 11)]\<rparr>"

theorem udp_keepalive_witness:
  "\<exists>k1 k'. listener_turn wire_rt ''l'' [1] [(server_sk, V4 (Ipv4 9 9 9 9) 8888)] (quiet_turn wouldblock) pinged_keeper = Ret k1
    \<and> listener_thread wire_rt ''l'' [1] [(server_sk, V4 (Ipv4 9 9 9 9) 8888)] [quiet_turn wouldblock] k1 = Ret k'
    \<and> lt_now (quiet_turn wouldblock) 0 < 1 + from_secs 15"
proof -
  let ?sks = "[(server_sk, V4 (Ipv4 9 9 9 9) 8888)]"
  let ?k = "new_keeper\<lparr>ping_times := [Some 1], k_out := [(0, [1], V4 (Ipv4 9 9 9 9) 8888)]\<rparr>"
  have k: "listener_turn wire_rt ''l'' [1] ?sks (quiet_turn wouldblock) pinged_keeper = Ret ?k"
      "listener_thread wire_rt ''l'' [1] ?sks [quiet_turn wouldblock] ?k = Ret ?k"
    by (simp_all add: listener_turn_def poll_sockets_def listener_ready_def elapsed_def keepalive_to_def time_defs)
  have "\<forall>t \<in> set [quiet_turn wouldblock]. lt_now t 0 < lt_sent (quiet_turn wouldblock) 0 + from_secs 15"
    by (rule udp_keepalive[OF _ _ _ k])
       (simp_all add: pings_on_def elapsed_def keepalive_to_def time_defs)
  then show ?thesis using k by simp
qed

end
