(* ===== verification/Udp_Session.thy ===== *)
theory Udp_Session
  imports Udp_Server Udp_Client_Correct
begin

text \<open>
  The UDP parts together: the server, a listener and a connector, with the datagrams of
  one as the input of the other.
\<close>

text \<open>C1. A session from end to end: the listener's ping, the connector's request and the
  listener's reply, in this order and as the clients encode them, make the server send
  one datagram to the listener and one to the connector, such that the listener's thread
  answers the first with its reply to the server and a packet to the connector's observed
  address, and the connector, on the second, returns a socket connected to the listener's
  observed address from the local address it used with the server.\<close>

theorem udp_session:
  assumes rt: "pb_runtime rt" and ids: "name_ok l" "name_ok c"
    and ping: "Request_write_to_bytes rt (Request_set_Ping (Ping_new rt) (new_req rt l)) = Inr ping"
    and isync: "isync_bytes rt c l = Inr isync"
    and reply: "send_rsync rt i l c server [] = Ret [(i, rsync, server)]"
    and t: "input t1 = Datagram ping al" "input t2 = Datagram isync ac" "input t3 = Datagram rsync al"
    and new: "Server_new os addr6 v6 T = Inr s"
    and clock: "t_check t1 \<le> T + from_secs 60" "t_check t2 \<le> T + from_secs 60" "t_check t3 \<le> T + from_secs 60"
  shows "\<exists>s' to_l to_c. run rt [t1, t2, t3] s = Ret s' \<and> (to_l, al) \<in> set (sent s') \<and> (to_c, ac) \<in> set (sent s')
    \<and> (\<forall>lt k. lt_recv lt i = Inr to_l \<longrightarrow>
         listener_ready rt l lt i server k = Ret (k\<lparr>k_out := k_out k @ [(i, rsync, server), (i, rsync, clear_flow ac)]\<rparr>))
    \<and> (\<forall>ct j sk st cfg la. ct_recv ct j = Inr to_c \<and> cfg_id cfg = c \<and> so_local_addr (answers sk) = Inr la
         \<and> create_socket (ct_peer ct j) la (sk_cfg cfg) = Ret (Inr \<lparr>answers = ct_peer ct j, bound_to = la, remote = None\<rparr>)
         \<and> so_connect (ct_peer ct j) (clear_flow al) = Inr () \<longrightarrow>
         connector_ready rt cfg ct j sk st
           = Ret (Inl (Inr \<lparr>answers = ct_peer ct j, bound_to = la, remote = Some (clear_flow al)\<rparr>, st)))"
proof -
  note ok = ask_ok_simps[OF rt] and parse = ask_parse[OF rt]
  have ping': "ping = Request_wire rt (ask rt l (ReqPing (Ping_new rt)))"
    using ping parse(1)[OF ok(1)[OF ids(1)]] by (simp add: Request_set_Ping_def new_req_def ask_def)
  have isync': "isync = Request_wire rt (ask rt c (ReqIsync ((Isync_new rt)\<lparr>isync_id := l\<rparr>)))"
    using isync parse(1)[OF ok(2)[OF ids(2,1)]]
    by (simp add: isync_bytes_def Request_set_Isync_def new_req_def ask_def Let_def)
  have send: "send_rsync rt i l c a out = Ret (out @ [(i, Request_wire rt (ask rt l (ReqRsync ((Rsync_new rt)\<lparr>rsync_id := c\<rparr>))), a)])"
    for a out
    using parse(1)[OF ok(3)[OF ids]] by (simp add: send_rsync_def send_cmd_def ask_def Let_def)
  have rsync': "rsync = Request_wire rt (ask rt l (ReqRsync ((Rsync_new rt)\<lparr>rsync_id := c\<rparr>)))"
    using reply send[of server "[]"] by simp
  obtain s' bp bf br where run: "run rt [t1, t2, t3] s = Ret s'" "sent s' = [(bp, al), (bf, al), (br, ac)]"
    and bf: "note_of_bytes rt bf = Some (l, NFsync c (show_addr ac))" "length bf \<le> 1500"
    and br: "note_of_bytes rt br = Some (c, NRedirect l (show_addr al))" "length br \<le> 1500"
    using hole_punch_run[OF rt ids t(1)[unfolded ping'] t(2)[unfolded isync'] t(3)[unfolded rsync'] new clock] by blast
  have "listener_ready rt l lt i server k = Ret (k\<lparr>k_out := k_out k @ [(i, rsync, server), (i, rsync, clear_flow ac)]\<rparr>)"
    if "lt_recv lt i = Inr bf" for lt k
  proof -
    obtain resp v where "Response_parse_from_bytes rt (take 1500 bf) = Some (Inr resp)" "resp_id resp = l"
        "resp_cmd resp = Some (RespFsync v)" "fsync_id v = c" "fsync_addr v = show_addr ac"
      using note_fsyncD[OF bf(1)] bf(2) by auto
    then show ?thesis using that by (simp add: listener_ready_def send rsync' parse_show_addr)
  qed
  moreover have "connector_ready rt cfg ct j sk st
      = Ret (Inl (Inr \<lparr>answers = ct_peer ct j, bound_to = la, remote = Some (clear_flow al)\<rparr>, st))"
    if "ct_recv ct j = Inr br" "cfg_id cfg = c" "so_local_addr (answers sk) = Inr la"
      "create_socket (ct_peer ct j) la (sk_cfg cfg) = Ret (Inr \<lparr>answers = ct_peer ct j, bound_to = la, remote = None\<rparr>)"
      "so_connect (ct_peer ct j) (clear_flow al) = Inr ()" for cfg ct j sk st la
  proof -
    obtain resp v where "Response_parse_from_bytes rt (take 1500 br) = Some (Inr resp)" "resp_id resp = c"
        "resp_cmd resp = Some (RespRedirect v)" "redirect_addr v = show_addr al"
      using note_redirectD[OF br(1)] br(2) by auto
    then show ?thesis
      using that parse_show_addr[of al] show_addr_not_Nil[of al] by (simp add: connector_ready_def connect_socket_def)
  qed
  ultimately show ?thesis using run by (intro exI[of _ s'] exI[of _ bf] exI[of _ br]) auto
qed

theorem udp_session_witness:
  "\<exists>s' to_c. run wire_rt
       [at_one [10, 1, 108, 18, 0] (V4 (Ipv4 5 6 7 8) 9), at_one [10, 1, 99, 26, 3, 10, 1, 108] (V4 (Ipv4 1 2 3 4) 5),
        at_one [10, 1, 108, 42, 3, 10, 1, 99] (V4 (Ipv4 5 6 7 8) 9)]
       \<lparr>clients = Map.empty, next_gc = from_secs 60, sent = []\<rparr> = Ret s'
     \<and> (to_c, V4 (Ipv4 1 2 3 4) 5) \<in> set (sent s')
     \<and> (\<forall>st. connector_ready wire_rt (config ''c'') (hears to_c) 0 server_sk st
       = Ret (Inl (Inr \<lparr>answers = calm_os, bound_to = V4 (Ipv4 1 2 3 4) 5, remote = Some (V4 (Ipv4 5 6 7 8) 9)\<rparr>, st)))"
  (is "\<exists>s' to_c. run wire_rt [?t1, ?t2, ?t3] ?s = Ret s' \<and> _")
proof -
  have ok: "name_ok ''l''" "name_ok ''c''" by (simp_all add: name_ok_def ascii_ok)
  have ping: "Request_write_to_bytes wire_rt (Request_set_Ping (Ping_new wire_rt) (new_req wire_rt ''l'')) = Inr [10, 1, 108, 18, 0]"
    by code_simp
  have reply: "send_rsync wire_rt 0 ''l'' ''c'' (V4 (Ipv4 9 9 9 9) 8888) []
      = Ret [(0, [10, 1, 108, 42, 3, 10, 1, 99], V4 (Ipv4 9 9 9 9) 8888)]"
    by code_simp
  have new: "Server_new \<lparr>os_new = Inr (), os_set_reuse_address = Inr (), os_set_reuse_port = Inr (),
        os_set_only_v6 = Inr (), os_bind = (\<lambda>_. Inr ()), os_bind_std = (\<lambda>_. Inr ())\<rparr>
      (V4 (Ipv4 0 0 0 0) 8888) False 0 = Inr ?s" by (simp add: Server_new_def next_gc_at_def)
  obtain s' to_c where r: "run wire_rt [?t1, ?t2, ?t3] ?s = Ret s'" "(to_c, V4 (Ipv4 1 2 3 4) 5) \<in> set (sent s')"
    and c: "\<forall>ct j sk st cfg la. ct_recv ct j = Inr to_c \<and> cfg_id cfg = ''c'' \<and> so_local_addr (answers sk) = Inr la
         \<and> create_socket (ct_peer ct j) la (sk_cfg cfg) = Ret (Inr \<lparr>answers = ct_peer ct j, bound_to = la, remote = None\<rparr>)
         \<and> so_connect (ct_peer ct j) (clear_flow (V4 (Ipv4 5 6 7 8) 9)) = Inr () \<longrightarrow>
         connector_ready wire_rt cfg ct j sk st
           = Ret (Inl (Inr \<lparr>answers = ct_peer ct j, bound_to = la, remote = Some (clear_flow (V4 (Ipv4 5 6 7 8) 9))\<rparr>, st))"
    using udp_session[OF wire.pb_runtime_axioms ok ping isync_example reply, of ?t1 "V4 (Ipv4 5 6 7 8) 9" ?t2
        "V4 (Ipv4 1 2 3 4) 5" ?t3, OF _ _ _ new]
    by (auto simp: time_defs simp del: run.simps)
  have "connector_ready wire_rt (config ''c'') (hears to_c) 0 server_sk st
      = Ret (Inl (Inr \<lparr>answers = calm_os, bound_to = V4 (Ipv4 1 2 3 4) 5, remote = Some (V4 (Ipv4 5 6 7 8) 9)\<rparr>, st))" for st
    using c[rule_format, of "hears to_c" 0 "config ''c''" server_sk "V4 (Ipv4 1 2 3 4) 5" st] by (simp add: create_socket_def)
  with r show ?thesis by blast
qed

end
