(* ===== verification/Udp_Punching.thy ===== *)
theory Udp_Punching
  imports Udp_Session
begin

text \<open>
  Servers and clients over UDP together, for any number of clients and in any order of their
  datagrams: what a server has sent has a reason in what it received, and a client acts
  only on datagrams of its servers. So where a client sends to or connects to can be traced
  back to the requests of other clients.
\<close>

section \<open>Every datagram of the server has a reason\<close>

text \<open>A datagram from \<open>a\<close> with the request \<open>c\<close> in the name of \<open>who\<close> is among the turns.\<close>

definition asked :: "'u pb_rt \<Rightarrow> turn list \<Rightarrow> SocketAddr \<Rightarrow> string \<Rightarrow> call \<Rightarrow> bool" where
  "asked rt ts a who c \<longleftrightarrow>
     (\<exists>t \<in> set ts. \<exists>bs req. input t = Datagram bs a \<and> Request_parse_from_bytes rt (take 1500 bs) = Some (Inr req)
        \<and> req_id req = who \<and> call_of req = c)"

definition claimed :: "'u pb_rt \<Rightarrow> turn list \<Rightarrow> SocketAddr \<Rightarrow> string \<Rightarrow> bool" where
  "claimed rt ts a who \<longleftrightarrow> asked rt ts a who CPing \<or> (\<exists>x. asked rt ts a who (CIsync x))"

fun reasoned :: "'u pb_rt \<Rightarrow> turn list \<Rightarrow> delivery \<Rightarrow> bool" where
  "reasoned rt ts (b, who, NPong) \<longleftrightarrow> asked rt ts b who CPing"
| "reasoned rt ts (b, who, NFsync x t) \<longleftrightarrow> (\<exists>a. asked rt ts a x (CIsync who) \<and> t = show_addr a) \<and> claimed rt ts b who"
| "reasoned rt ts (b, who, NRedirect x t) \<longleftrightarrow>
     t = [] \<and> asked rt ts b who (CIsync x)
     \<or> (\<exists>a. asked rt ts a x (CRsync who) \<and> t = show_addr a) \<and> claimed rt ts b who"

definition table_reasoned :: "'u pb_rt \<Rightarrow> turn list \<Rightarrow> table \<Rightarrow> bool" where
  "table_reasoned rt ts tab \<longleftrightarrow> (\<forall>k b. tab k = Some b \<longrightarrow> claimed rt ts b k)"

lemma rendezvous_reasoned:
  assumes "table_reasoned rt ts tab" "asked rt ts a who c"
  shows "table_reasoned rt ts (fst (rendezvous who c a tab)) \<and> (\<forall>d \<in> set (snd (rendezvous who c a tab)). reasoned rt ts d)"
proof (cases c)
  case CPing
  then show ?thesis using assms by (auto simp: table_reasoned_def claimed_def)
next
  case (CIsync target)
  then have "claimed rt ts a who" using assms(2) by (auto simp: claimed_def)
  then show ?thesis using assms CIsync by (cases "tab target") (auto simp: table_reasoned_def)
next
  case (CRsync target)
  then show ?thesis using assms by (cases "tab target") (auto simp: table_reasoned_def)
qed (use assms in \<open>auto simp: table_reasoned_def remove_key_apply split: if_splits\<close>)

definition server_reasoned :: "'u pb_rt \<Rightarrow> turn list \<Rightarrow> Server \<Rightarrow> bool" where
  "server_reasoned rt ts s \<longleftrightarrow>
     table_reasoned rt ts (table_of s) \<and> (\<forall>d \<in> set (sent s). \<exists>del. delivery_of rt d = Some del \<and> reasoned rt ts del)"

lemma turn_reasoned:
  assumes rt: "pb_runtime rt" and t: "t \<in> set ts" and ok: "server_reasoned rt ts s" and run: "run_turn rt t s = Ret s'"
  shows "server_reasoned rt ts s'"
proof -
  obtain s1 where h: "s1 = s \<or> (\<exists>bs a req. input t = Datagram bs a
        \<and> Request_parse_from_bytes rt (take 1500 bs) = Some (Inr req)
        \<and> handle_request rt req a (t_handle t) s = Ret s1)"
    and s': "s' = (if t_check t > next_gc s1 then gc (t_expire t) (t_next t) s1 else s1)"
    using run_turn_Ret[OF run] by blast
  have "server_reasoned rt ts s1"
    using h
  proof
    assume "\<exists>bs a req. input t = Datagram bs a \<and> Request_parse_from_bytes rt (take 1500 bs) = Some (Inr req)
        \<and> handle_request rt req a (t_handle t) s = Ret s1"
    then obtain bs a req where req: "input t = Datagram bs a" "Request_parse_from_bytes rt (take 1500 bs) = Some (Inr req)"
        "handle_request rt req a (t_handle t) s = Ret s1" by blast
    have "texts_ok req"
      using pb_runtime.Request_parse_bounded[OF rt req(2)] by (rule bounded_texts_ok) (simp add: max_text_def)
    from handle_request_rendezvous[OF rt this, of a "t_handle t" s] obtain out where out: "sent s1 = sent s @ out"
        "rendezvous (req_id req) (call_of req) a (table_of s) = (table_of s1, map (the \<circ> delivery_of rt) out)"
        "\<forall>d \<in> set out. delivery_of rt d \<noteq> None"
      using req(3) by auto
    have "asked rt ts a (req_id req) (call_of req)" using t req(1,2) by (auto simp: asked_def)
    from rendezvous_reasoned[OF _ this, of "table_of s"] ok out show ?thesis
      by (fastforce simp: server_reasoned_def)
  qed (use ok in simp)
  then show ?thesis
    by (auto simp: s' server_reasoned_def table_reasoned_def table_of_def retain_Some)
qed

lemma run_reasoned:
  assumes "pb_runtime rt" "clients s = Map.empty" "sent s = []" "run rt ts s = Ret s'"
  shows "server_reasoned rt ts s'"
proof (rule run_preserves[OF _ _ assms(4)])
  show "server_reasoned rt ts s" using assms(2,3) by (simp add: server_reasoned_def table_reasoned_def table_of_def)
qed (rule turn_reasoned[OF assms(1)])

section \<open>Where the listener's thread sends\<close>

text \<open>The datagram on socket \<open>i\<close> in the turn tells the client \<open>me\<close> to send to \<open>d\<close>.\<close>

definition told :: "'u pb_rt \<Rightarrow> string \<Rightarrow> listen_turn \<Rightarrow> nat \<Rightarrow> SocketAddr \<Rightarrow> bool" where
  "told rt me t i d \<longleftrightarrow>
     (\<exists>bs who x. lt_recv t i = Inr bs \<and> note_of_bytes rt (take 1500 bs) = Some (me, NFsync who x) \<and> parse_addr x = Some d)"

definition goes_to :: "(SocketAddr \<Rightarrow> bool) \<Rightarrow> keeper \<Rightarrow> bool" where
  "goes_to Q k \<longleftrightarrow> (\<forall>(j, b, d) \<in> set (k_out k). Q d)"

lemma pings_go: "goes_to Q k \<Longrightarrow> \<forall>(sk, a) \<in> set sks. Q a \<Longrightarrow> goes_to Q (send_pings ping t i sks k)"
proof (induction sks arbitrary: i k)
  case (Cons p sks)
  obtain sk a where p: "p = (sk, a)" by fastforce
  then have "goes_to Q (k\<lparr>k_out := k_out k @ [(i, ping, a)], ping_times := x\<rparr>)" for x using Cons.prems by (simp add: goes_to_def)
  then show ?case using Cons p by simp
qed simp

lemma ready_goes:
  assumes "listener_ready rt me t i a k = Ret k'" "goes_to Q k" "Q a" "\<And>d. told rt me t i d \<Longrightarrow> Q d"
  shows "goes_to Q k'"
proof (cases "k_out k' = k_out k")
  case True
  then show ?thesis using assms(2) by (simp add: goes_to_def)
next
  case False
  obtain bs resp f where f: "lt_recv t i = Inr bs" "Response_parse_from_bytes rt (take 1500 bs) = Some (Inr resp)" "resp_id resp = me"
      "resp_cmd resp = Some (RespFsync f)"
    using assms(1) False
    by (auto simp: listener_ready_def split: sum.splits option.splits if_splits RespCmd.splits)
  obtain b where b: "send_rsync rt i me (fsync_id f) a (k_out k) = Ret (k_out k @ [(i, b, a)])"
    using assms(1) f by (auto simp: listener_ready_def and_then_eq_Ret dest: send_rsync_Ret)
  show ?thesis
  proof (cases "parse_addr (fsync_addr f)")
    case None
    then have "k_out k' = k_out k @ [(i, b, a)]" using assms(1) f b by (auto simp: listener_ready_def)
    then show ?thesis using assms(2,3) by (simp add: goes_to_def)
  next
    case (Some d)
    then obtain b' where "k_out k' = k_out k @ [(i, b, a), (i, b', d)]"
      using assms(1) f b by (auto simp: listener_ready_def and_then_eq_Ret dest: send_rsync_Ret)
    moreover have "told rt me t i d" using f Some by (auto simp: told_def note_of_bytes_def)
    ultimately show ?thesis using assms(2-4) by (simp add: goes_to_def)
  qed
qed

lemma scan_goes:
  assumes "listener_scan rt me t ready i sks k = Ret k'" "goes_to Q k" "\<forall>(sk, a) \<in> set sks. Q a"
    and "\<And>j d. j < i + length sks \<Longrightarrow> told rt me t j d \<Longrightarrow> Q d"
  shows "goes_to Q k'"
  using assms
proof (induction rt me t ready i sks k rule: listener_scan.induct)
  case (2 rt me t ready i sk a sks k)
  show ?case
  proof (cases "ready ! i")
    case False
    then show ?thesis using 2 by simp
  next
    case True
    then obtain k1 where k1: "listener_ready rt me t i a k = Ret k1" "listener_scan rt me t ready (i + 1) sks k1 = Ret k'"
      using "2.prems"(1) by (auto simp: and_then_eq_Ret)
    have "i < i + length ((sk, a) # sks)" by simp
    note here = "2.prems"(4)[OF this]
    have "goes_to Q k1" by (rule ready_goes[OF k1(1) "2.prems"(2) _ here]) (use "2.prems"(3) in auto)
    moreover have "told rt me t j d \<Longrightarrow> Q d" if "j < i + 1 + length sks" for j d using "2.prems"(4)[of j d] that by simp
    moreover have "\<forall>(sk, a) \<in> set sks. Q a" using "2.prems"(3) by simp
    ultimately show ?thesis by (intro "2.IH"(2)[OF _ k1]) (use True in simp_all)
  qed
qed simp

lemma thread_goes:
  assumes "listener_thread rt me ping sks ts k = Ret k'" "goes_to Q k" "\<forall>(sk, a) \<in> set sks. Q a"
    and "\<And>t j d. t \<in> set ts \<Longrightarrow> j < length sks \<Longrightarrow> told rt me t j d \<Longrightarrow> Q d"
  shows "goes_to Q k'"
  using assms
proof (induction ts arbitrary: k)
  case (Cons t ts)
  show ?case
  proof (cases "lt_exit t")
    case False
    then obtain k1 where k1: "listener_turn rt me ping sks t k = Ret k1" "listener_thread rt me ping sks ts k1 = Ret k'"
      using Cons.prems(1) by (auto simp: and_then_eq_Ret)
    have p: "goes_to Q (send_pings ping t 0 sks k)" by (rule pings_go[OF Cons.prems(2,3)])
    have "goes_to Q k1"
    proof (cases "poll_sockets (deaf (send_pings ping t 0 sks k)) (lt_poll t)")
      case (Inl e)
      then show ?thesis using k1(1) p by (simp add: listener_turn_def Let_def)
    next
      case (Inr ready)
      then have "listener_scan rt me t ready 0 sks (send_pings ping t 0 sks k) = Ret k1"
        using k1(1) by (simp add: listener_turn_def Let_def)
      from scan_goes[OF this p Cons.prems(3)] show ?thesis using Cons.prems(4)[of t] by simp
    qed
    then show ?thesis by (rule Cons.IH[OF k1(2) _ Cons.prems(3)]) (rule Cons.prems(4), simp_all)
  qed (use Cons in simp)
qed simp

section \<open>Clients of several servers\<close>

text \<open>\<open>bs\<close> was sent by a server that was empty at first and received \<open>ts i\<close>, and is short enough to arrive whole.\<close>

definition from_server :: "'u pb_rt \<Rightarrow> (nat \<Rightarrow> turn list) \<Rightarrow> nat \<Rightarrow> bytes \<Rightarrow> bool" where
  "from_server rt ts i bs \<longleftrightarrow> length bs \<le> 1500
     \<and> (\<exists>s s'. clients s = Map.empty \<and> sent s = [] \<and> run rt (ts i) s = Ret s' \<and> bs \<in> fst ` set (sent s'))"

lemma from_server_reasoned:
  assumes "pb_runtime rt" "from_server rt ts i bs"
  shows "\<exists>b who n. note_of_bytes rt (take 1500 bs) = Some (who, n) \<and> reasoned rt (ts i) (b, who, n)"
proof -
  obtain s s' b where s: "clients s = Map.empty" "sent s = []" "run rt (ts i) s = Ret s'" "(bs, b) \<in> set (sent s')" and len: "length bs \<le> 1500"
    using assms(2) by (auto simp: from_server_def)
  have "server_reasoned rt (ts i) s'" by (rule run_reasoned[OF assms(1) s(1-3)])
  then obtain del where "delivery_of rt (bs, b) = Some del" "reasoned rt (ts i) del"
    using s(4) by (auto simp: server_reasoned_def)
  then show ?thesis using len by (auto simp: delivery_of_def)
qed

lemma told_wanted:
  assumes "pb_runtime rt" "\<And>bs. lt_recv t i = Inr bs \<Longrightarrow> from_server rt ts i bs" "told rt me t i d"
  shows "\<exists>a who. asked rt (ts i) a who (CIsync me) \<and> d = clear_flow a"
proof -
  obtain bs who x where b: "lt_recv t i = Inr bs" "note_of_bytes rt (take 1500 bs) = Some (me, NFsync who x)" "parse_addr x = Some d"
    using assms(3) by (auto simp: told_def)
  obtain b where "reasoned rt (ts i) (b, me, NFsync who x)" using from_server_reasoned[OF assms(1) assms(2)[OF b(1)]] b(2) by auto
  then obtain a where "asked rt (ts i) a who (CIsync me)" "x = show_addr a" by auto
  with b(3) show ?thesis using parse_show_addr[of a] by auto
qed

lemma redirect_wanted:
  assumes "pb_runtime rt" "from_server rt ts i bs" "redirects rt me bs d"
  shows "\<exists>a who. asked rt (ts i) a who (CRsync me) \<and> d = clear_flow a"
proof -
  obtain resp rdr where r: "Response_parse_from_bytes rt (take 1500 bs) = Some (Inr resp)" "resp_id resp = me"
      "resp_cmd resp = Some (RespRedirect rdr)" "parse_addr (redirect_addr rdr) = Some d"
    using assms(3) by (auto simp: redirects_def)
  then have "note_of_bytes rt (take 1500 bs) = Some (me, NRedirect (redirect_id rdr) (redirect_addr rdr))"
    by (simp add: note_of_bytes_def)
  then obtain b where "reasoned rt (ts i) (b, me, NRedirect (redirect_id rdr) (redirect_addr rdr))"
    using from_server_reasoned[OF assms(1,2)] by auto
  moreover have "redirect_addr rdr \<noteq> []" using r(4) parse_empty by auto
  ultimately obtain a where "asked rt (ts i) a (redirect_id rdr) (CRsync me)" "redirect_addr rdr = show_addr a" by auto
  with r(4) show ?thesis using parse_show_addr[of a] by auto
qed

section \<open>Runs for the witnesses\<close>

text \<open>\<open>l\<close> registers from \<open>5.6.7.8:9\<close>, \<open>c\<close> asks for it from \<open>1.2.3.4:5\<close>, and \<open>l\<close> replies.\<close>

abbreviation heard_from :: "bytes \<Rightarrow> SocketAddr \<Rightarrow> turn" where
  "heard_from bs a \<equiv> \<lparr>input = Datagram bs a, t_handle = 1, t_check = 2, t_expire = 3, t_next = 4\<rparr>"

abbreviation empty_server :: Server where
  "empty_server \<equiv> \<lparr>clients = Map.empty, next_gc = 60, sent = []\<rparr>"

abbreviation reply_turns :: "turn list" where
  "reply_turns \<equiv> [heard_from [10, 1, 108, 18, 0] (V4 (Ipv4 5 6 7 8) 9),
     heard_from [10, 1, 99, 26, 3, 10, 1, 108] (V4 (Ipv4 1 2 3 4) 5),
     heard_from [10, 1, 108, 42, 3, 10, 1, 99] (V4 (Ipv4 5 6 7 8) 9)]"

lemma reply_served: "from_server wire_rt (\<lambda>_. reply_turns) 0 redirect_msg"
proof -
  have "(case run wire_rt reply_turns empty_server of Ret s \<Rightarrow> redirect_msg \<in> fst ` set (sent s) | _ \<Rightarrow> False)" by code_simp
  then obtain s where "run wire_rt reply_turns empty_server = Ret s" "redirect_msg \<in> fst ` set (sent s)"
    by (auto split: outcome.splits)
  then show ?thesis unfolding from_server_def by (intro conjI exI[of _ empty_server] exI[of _ s]) simp_all
qed

text \<open>Here \<open>c\<close> asks from \<open>5.6.7.8:9\<close> for \<open>l\<close>, whose thread hears of it.\<close>

abbreviation call_turns :: "turn list" where
  "call_turns \<equiv> [heard_from [10, 1, 108, 18, 0] (V4 (Ipv4 1 2 3 4) 5),
     heard_from [10, 1, 99, 26, 3, 10, 1, 108] (V4 (Ipv4 5 6 7 8) 9)]"

lemma call_served: "from_server wire_rt (\<lambda>_. call_turns) 0 fsync_msg"
proof -
  have "(case run wire_rt call_turns empty_server of Ret s \<Rightarrow> fsync_msg \<in> fst ` set (sent s) | _ \<Rightarrow> False)" by code_simp
  then obtain s where "run wire_rt call_turns empty_server = Ret s" "fsync_msg \<in> fst ` set (sent s)"
    by (auto split: outcome.splits)
  then show ?thesis unfolding from_server_def by (intro conjI exI[of _ empty_server] exI[of _ s]) simp_all
qed

lemma call_heard:
  obtains k b where "listener_thread wire_rt ''l'' [] [(server_sk, V4 (Ipv4 9 9 9 9) 8888)] [quiet_turn (Inr fsync_msg)]
      (keeper_start [(server_sk, V4 (Ipv4 9 9 9 9) 8888)] [None]) = Ret k" "(0, b, V4 (Ipv4 5 6 7 8) 9) \<in> set (k_out k)"
proof -
  have "note_of_bytes wire_rt (take 1500 fsync_msg) = Some (''l'', NFsync ''c'' ''5.6.7.8:9'')" by code_simp
  from note_fsyncD[OF this] obtain resp f where p: "Response_parse_from_bytes wire_rt (take 1500 fsync_msg) = Some (Inr resp)"
      "resp_id resp = ''l''" "resp_cmd resp = Some (RespFsync f)" and fa: "fsync_addr f = ''5.6.7.8:9''" "fsync_id f = ''c''"
    by blast
  have f: "parse_addr (fsync_addr f) = Some (V4 (Ipv4 5 6 7 8) 9)" unfolding fa by (rule parse_example)
  have ok: "text_ok ''l''" "text_ok ''c''" by (simp_all add: text_ok_def max_text_def utf8_valid_ascii)
  obtain b where b: "send_rsync wire_rt 0 ''l'' ''c'' d out = Ret (out @ [(0, b, d)])" for d out
    using pb_runtime.send_rsync_clean[OF wire.pb_runtime_axioms ok] by blast
  have ready: "listener_ready wire_rt ''l'' (quiet_turn (Inr fsync_msg)) 0 a k
      = Ret (k\<lparr>k_out := k_out k @ [(0, b, a), (0, b, V4 (Ipv4 5 6 7 8) 9)]\<rparr>)" for a k
    using p f by (simp add: listener_ready_def fa(2) b del: take.simps take_Cons_numeral)
  have poll: "poll_sockets [False] (Polled (Suc 0) [Some True]) = Inr [True]" by code_simp
  show thesis
    by (rule that[of _ b]) (simp add: listener_turn_def keeper_start_def poll ready Let_def, simp)
qed

section \<open>Properties\<close>

text \<open>C16. A UDP listener sends only to its servers and to those who asked for it. Whatever
  its servers have received, and whatever the clocks: if every datagram that the
  listener's thread hears on a socket was sent, whole, by the server of that socket, then every
  datagram that the thread sends goes to one of the servers, or to the address from which that server
  received a request for the listener's identity.\<close>

theorem udp_holes_wanted:
  assumes "pb_runtime rt" "listener_thread rt me ping sks lts (keeper_start sks pongs) = Ret k"
    and "\<forall>t \<in> set lts. \<forall>i < length sks. \<forall>bs. lt_recv t i = Inr bs \<longrightarrow> from_server rt ts i bs"
  shows "\<forall>(j, b, d) \<in> set (k_out k). d \<in> snd ` set sks
    \<or> (\<exists>i < length sks. \<exists>a who. asked rt (ts i) a who (CIsync me) \<and> d = clear_flow a)"
proof -
  let ?Q = "\<lambda>d. d \<in> snd ` set sks \<or> (\<exists>i < length sks. \<exists>a who. asked rt (ts i) a who (CIsync me) \<and> d = clear_flow a)"
  have "goes_to ?Q k"
  proof (rule thread_goes[OF assms(2)])
    show "goes_to ?Q (keeper_start sks pongs)" by (simp add: goes_to_def keeper_start_def)
    show "\<forall>(sk, a) \<in> set sks. ?Q a" by force
    show "?Q d" if "t \<in> set lts" "j < length sks" "told rt me t j d" for t j d
      using told_wanted[OF assms(1) _ that(3), of ts] assms(3) that(1,2) by blast
  qed
  then show ?thesis by (simp add: goes_to_def)
qed

theorem udp_holes_wanted_witness:
  "\<exists>k b. listener_thread wire_rt ''l'' [] [(server_sk, V4 (Ipv4 9 9 9 9) 8888)] [quiet_turn (Inr fsync_msg)]
      (keeper_start [(server_sk, V4 (Ipv4 9 9 9 9) 8888)] [None]) = Ret k \<and> (0, b, V4 (Ipv4 5 6 7 8) 9) \<in> set (k_out k)
    \<and> (\<exists>a who. asked wire_rt call_turns a who (CIsync ''l'') \<and> V4 (Ipv4 5 6 7 8) 9 = clear_flow a)"
proof -
  obtain k b where k: "listener_thread wire_rt ''l'' [] [(server_sk, V4 (Ipv4 9 9 9 9) 8888)] [quiet_turn (Inr fsync_msg)]
      (keeper_start [(server_sk, V4 (Ipv4 9 9 9 9) 8888)] [None]) = Ret k" "(0, b, V4 (Ipv4 5 6 7 8) 9) \<in> set (k_out k)"
    by (rule call_heard)
  have "\<forall>t \<in> set [quiet_turn (Inr fsync_msg)]. \<forall>i < length [(server_sk, V4 (Ipv4 9 9 9 9) 8888)]. \<forall>bs. lt_recv t i = Inr bs
      \<longrightarrow> from_server wire_rt (\<lambda>_. call_turns) i bs"
    using call_served by simp
  from udp_holes_wanted[OF wire.pb_runtime_axioms k(1) this]
  have "\<exists>a who. asked wire_rt call_turns a who (CIsync ''l'') \<and> V4 (Ipv4 5 6 7 8) 9 = clear_flow a"
    using k(2) by fastforce
  with k show ?thesis by blast
qed

text \<open>C17. A UDP connector connects only to somebody who replied to it. Whatever the servers
  have received: if every datagram that \<open>connect\<close> hears on a socket was sent, whole, by the
  server of that socket, then a socket that it returns is connected to an address from
  which that server received a reply to the connector's identity.\<close>

theorem udp_sockets_wanted:
  assumes "pb_runtime rt" "connector_connect rt resolve os rounds cfg target = Ret (Inr peer, out)"
    and "\<forall>k < 3. \<forall>t. reached (rounds k) t \<longrightarrow> (\<forall>i bs. ct_recv t i = Inr bs \<longrightarrow> from_server rt ts i bs)"
  shows "\<exists>i a who. asked rt (ts i) a who (CRsync (cfg_id cfg)) \<and> remote peer = Some (clear_flow a)"
proof -
  obtain k t sks where t: "k < 3" "reached (rounds k) t" "peer_socket rt (cfg_id cfg) t sks peer"
    using connector_redirected[OF assms(2)] by blast
  then obtain i bs d where d: "ct_recv t i = Inr bs" "redirects rt (cfg_id cfg) bs d" "remote peer = Some d"
    by (auto simp: peer_socket_def)
  have "from_server rt ts i bs" using assms(3) t(1,2) d(1) by blast
  from redirect_wanted[OF assms(1) this d(2)] d(3) show ?thesis by auto
qed

theorem udp_sockets_wanted_witness:
  "\<exists>a who. asked wire_rt reply_turns a who (CRsync ''c'') \<and> V4 (Ipv4 5 6 7 8) 9 = clear_flow a"
proof -
  have "\<forall>k < 3 :: nat. \<forall>t. reached (0, \<lambda>_. hears redirect_msg) t \<longrightarrow> (\<forall>i bs. ct_recv t i = Inr bs
      \<longrightarrow> from_server wire_rt (\<lambda>_. reply_turns) i bs)"
    using reply_served by (simp add: from_server_def reached_def)
  from udp_sockets_wanted[OF wire.pb_runtime_axioms connect_example, of "\<lambda>_. reply_turns"] this show ?thesis by simp
qed

end
