(* ===== verification/Framing.thy ===== *)
theory Framing
  imports Net_Addr Proto_Bounds Wire_Format
begin

text \<open>
  The framing of the TCP connections: a message is preceded by its length as a 16-bit
  big-endian number. The receiving side is \<open>PeerHandler::read_req\<close> of
  \<open>src/tcp/server.rs\<close>, which refuses more than 1500 bytes, and \<open>Client::read_resp\<close> of
  the two clients; the sending side is \<open>send_response\<close> and \<open>write_req\<close>. The length is
  cast with \<open>as u16\<close>, so it wraps around.

  A stream is the list of bytes that arrive before the connection ends. \<open>read_exact\<close> is
  an interface with two providers: the standard library's, which is modelled here, and
  tokio's, which is a parameter of the definitions that use it.
\<close>

section \<open>Reading an exact number of bytes\<close>

type_synonym exact_read = "nat \<Rightarrow> bytes \<Rightarrow> io_error + bytes \<times> bytes"

locale exact_reader =
  fixes rd :: exact_read
  assumes read_enough: "n \<le> length bs \<Longrightarrow> rd n bs = Inr (take n bs, drop n bs)"
    and read_short: "length bs < n \<Longrightarrow> \<exists>e. rd n bs = Inl e"

definition std_read_exact :: exact_read where
  "std_read_exact n bs =
     (if n \<le> length bs then Inr (take n bs, drop n bs)
      else Inl (new_error UnexpectedEof ''failed to fill whole buffer''))"

interpretation std_reader: exact_reader std_read_exact
  by unfold_locales (simp_all add: std_read_exact_def)

text \<open>
  \<open>write_all\<close>: the bytes on the stream, and how the call ended. When it fails, the
  operating system has taken some of the bytes.
\<close>

type_synonym write_result = "io_error \<times> nat + unit"

definition write_all :: "write_result \<Rightarrow> bytes \<Rightarrow> bytes \<Rightarrow> bytes \<times> (io_error + unit)" where
  "write_all r b out =
     (case r of Inl (e, n) \<Rightarrow> (out @ take n b, Inl e) | Inr _ \<Rightarrow> (out @ b, Inr ()))"

section \<open>Frames\<close>

definition to_be_bytes :: "u16 \<Rightarrow> bytes" where
  "to_be_bytes w = [high_byte w, low_byte w]"

definition from_be_bytes :: "bytes \<Rightarrow> u16" where
  "from_be_bytes b = (case b of [x, y] \<Rightarrow> u16_of_bytes x y | _ \<Rightarrow> 0)"

definition send_frame ::
  "write_result \<Rightarrow> write_result \<Rightarrow> bytes \<Rightarrow> bytes \<Rightarrow> bytes \<times> (io_error + unit)" where
  "send_frame r1 r2 buf out =
     (case write_all r1 (to_be_bytes (of_nat (length buf))) out of
        (out, Inl e) \<Rightarrow> (out, Inl e)
      | (out, Inr _) \<Rightarrow> write_all r2 buf out)"

text \<open>\<open>PeerHandler::read_req\<close> of the server.\<close>

definition read_req :: "'u pb_rt \<Rightarrow> exact_read \<Rightarrow> bytes \<Rightarrow> (io_error + 'u Request \<times> bytes) outcome" where
  "read_req rt rd bs =
     ques (rd 2 bs) (\<lambda>(buf, bs).
     (let size = unat (from_be_bytes buf) in
      if size > 1500 then Ret (Inl (new_error Other ''invalid message size''))
      else
        ques (rd size bs) (\<lambda>(buf, bs).
          case Request_parse_from_bytes rt buf of
            None \<Rightarrow> Hang
          | Some (Inl e) \<Rightarrow> Ret (Inl (new_error Other ''failed to parse request''))
          | Some (Inr req) \<Rightarrow> Ret (Inr (req, bs)))))"

text \<open>\<open>Client::read_resp\<close> of both clients.\<close>

definition read_resp :: "'u pb_rt \<Rightarrow> exact_read \<Rightarrow> bytes \<Rightarrow> (io_error + 'u Response \<times> bytes) outcome" where
  "read_resp rt rd bs =
     ques (rd 2 bs) (\<lambda>(buf, bs).
     ques (rd (unat (from_be_bytes buf)) bs) (\<lambda>(buf, bs).
       case Response_parse_from_bytes rt buf of
         None \<Rightarrow> Hang
       | Some (Inl e) \<Rightarrow> Ret (Inl (new_error Other ''invalid message''))
       | Some (Inr resp) \<Rightarrow> Ret (Inr (resp, bs))))"

text \<open>\<open>Client::new_req\<close> and \<open>Client::write_req\<close> of both clients.\<close>

definition new_req :: "'u pb_rt \<Rightarrow> string \<Rightarrow> 'u Request" where
  "new_req rt who = (Request_new rt)\<lparr>req_id := who\<rparr>"

definition write_req ::
  "'u pb_rt \<Rightarrow> write_result \<Rightarrow> write_result \<Rightarrow> string \<Rightarrow> 'u ReqCmd \<Rightarrow> bytes \<Rightarrow> bytes \<times> (io_error + unit)" where
  "write_req rt r1 r2 who cmd out =
     (let req = (new_req rt who)\<lparr>req_cmd := Some cmd\<rparr> in
      case Request_write_to_bytes rt req of
        Inl e \<Rightarrow> (out, Inl (rt_io_error rt e))
      | Inr buf \<Rightarrow> send_frame r1 r2 buf out)"

section \<open>Lemmas\<close>

definition frame :: "bytes \<Rightarrow> bytes" where
  "frame buf = to_be_bytes (of_nat (length buf)) @ buf"

lemma length_to_be_bytes [simp]: "length (to_be_bytes w) = 2"
  by (simp add: to_be_bytes_def)

lemma from_to_be_bytes [simp]: "from_be_bytes (to_be_bytes w) = w"
  by (simp add: from_be_bytes_def to_be_bytes_def)

lemma send_frame_ok [simp]: "send_frame (Inr u) (Inr v) buf out = (out @ frame buf, Inr ())"
  by (simp add: send_frame_def write_all_def frame_def)

lemma send_frame_Inr: "send_frame r1 r2 buf out = (out', Inr x) \<Longrightarrow> out' = out @ frame buf"
  by (auto simp: send_frame_def write_all_def frame_def split: sum.splits prod.splits)

text \<open>A failed write leaves a part of the frame on the stream.\<close>

lemma send_frame_prefix: "\<exists>n. fst (send_frame r1 r2 buf out) = out @ take n (frame buf)"
proof (cases r1)
  case (Inl a)
  then show ?thesis
    by (cases a) (auto simp: send_frame_def write_all_def frame_def
        intro!: exI[of _ "min (snd a) 2"] split: nat_diff_split)
next
  case (Inr u)
  show ?thesis
  proof (cases r2)
    case (Inl b)
    with Inr show ?thesis
      by (cases b) (auto simp: send_frame_def write_all_def frame_def intro!: exI[of _ "snd b + 2"])
  next
    case r2: (Inr v)
    with Inr show ?thesis by (intro exI[of _ "length (frame buf)"]) simp
  qed
qed

text \<open>The length field holds the length modulo 65536.\<close>

lemma unat_length: "unat (of_nat (length buf) :: u16) = length buf mod 65536"
  by (simp add: unat_of_nat)

context exact_reader
begin

lemma read_header:
  "rd 2 (frame buf @ r) = Inr (to_be_bytes (of_nat (length buf)), buf @ r)"
  by (simp add: frame_def read_enough)

lemma read_body: "rd (unat (of_nat (length buf) :: u16)) (buf @ r)
    = Inr (take (length buf mod 65536) buf, drop (length buf mod 65536) buf @ r)"
proof -
  have "length buf mod 65536 \<le> length buf" by simp
  then show ?thesis unfolding unat_length by (subst read_enough) simp_all
qed

text \<open>A reader of a frame sees its bytes up to the length modulo 65536.\<close>

lemma read_req_frame:
  "read_req rt rd (frame buf @ r) =
     (if length buf mod 65536 > 1500 then Ret (Inl (new_error Other ''invalid message size''))
      else case Request_parse_from_bytes rt (take (length buf mod 65536) buf) of
         None \<Rightarrow> Hang
       | Some (Inl e) \<Rightarrow> Ret (Inl (new_error Other ''failed to parse request''))
       | Some (Inr req) \<Rightarrow> Ret (Inr (req, drop (length buf mod 65536) buf @ r)))"
  using read_body[of buf r] by (simp add: read_req_def read_header unat_length Let_def)

lemma read_resp_frame:
  "read_resp rt rd (frame buf @ r) =
     (case Response_parse_from_bytes rt (take (length buf mod 65536) buf) of
         None \<Rightarrow> Hang
       | Some (Inl e) \<Rightarrow> Ret (Inl (new_error Other ''invalid message''))
       | Some (Inr resp) \<Rightarrow> Ret (Inr (resp, drop (length buf mod 65536) buf @ r)))"
  using read_body[of buf r] by (simp add: read_resp_def read_header)

lemma read_req_returns:
  assumes "pb_runtime rt"
  shows "\<exists>x. read_req rt rd bs = Ret x"
proof (cases "2 \<le> length bs")
  case False
  then show ?thesis using read_short[of bs 2] by (auto simp: read_req_def Let_def)
next
  case True
  let ?n = "unat (from_be_bytes (take 2 bs))"
  obtain p where p: "Request_parse_from_bytes rt (take ?n (drop 2 bs)) = Some p"
    using pb_runtime.Request_parse_returns[OF assms] by blast
  show ?thesis
  proof (cases "?n \<le> length (drop 2 bs)")
    case False
    then show ?thesis using read_short[of "drop 2 bs" ?n] by (auto simp: read_req_def Let_def read_enough[OF True])
  next
    case ok: True
    show ?thesis
      using p by (cases p) (auto simp: read_req_def Let_def read_enough[OF True] read_enough[OF ok])
  qed
qed

lemma read_resp_returns:
  assumes "pb_runtime rt"
  shows "\<exists>x. read_resp rt rd bs = Ret x"
proof (cases "2 \<le> length bs")
  case False
  then show ?thesis using read_short[of bs 2] by (auto simp: read_resp_def)
next
  case True
  let ?n = "unat (from_be_bytes (take 2 bs))"
  obtain p where p: "Response_parse_from_bytes rt (take ?n (drop 2 bs)) = Some p"
    using pb_runtime.Response_parse_returns[OF assms] by blast
  show ?thesis
  proof (cases "?n \<le> length (drop 2 bs)")
    case False
    then show ?thesis using read_short[of "drop 2 bs" ?n] by (auto simp: read_resp_def read_enough[OF True])
  next
    case ok: True
    show ?thesis
      using p by (cases p) (auto simp: read_resp_def read_enough[OF True] read_enough[OF ok])
  qed
qed

end

lemma write_req_clean:
  assumes "pb_runtime rt" "Request_clean rt ((new_req rt who)\<lparr>req_cmd := Some cmd\<rparr>)"
  shows "write_req rt r1 r2 who cmd out = send_frame r1 r2 (Request_wire rt ((new_req rt who)\<lparr>req_cmd := Some cmd\<rparr>)) out"
  using pb_runtime.Request_write_clean[OF assms] by (simp add: write_req_def Let_def)

section \<open>What a frame carries\<close>

text \<open>A request survives the TCP framing: when its encoding fits the server's limit of 1500
  bytes, what a client's \<open>write_req\<close> puts on the stream is read back by the server's
  \<open>read_req\<close>, up to cached sizes, and the reader stops exactly behind the frame.\<close>

theorem request_frame_roundtrip:
  assumes "pb_runtime rt" "exact_reader rd" "Request_clean rt ((new_req rt who)\<lparr>req_cmd := Some cmd\<rparr>)"
    and "length (Request_wire rt ((new_req rt who)\<lparr>req_cmd := Some cmd\<rparr>)) \<le> 1500"
  shows "\<exists>f. write_req rt (Inr ()) (Inr ()) who cmd out = (out @ f, Inr ())
    \<and> read_req rt rd (f @ r) = Ret (Inr (Request_forget ((new_req rt who)\<lparr>req_cmd := Some cmd\<rparr>), r))"
  using assms
  by (simp add: write_req_clean exact_reader.read_req_frame pb_runtime.Request_parse_wire)

theorem request_frame_roundtrip_witness:
  "\<exists>f. write_req wire_rt (Inr ()) (Inr ()) ''c1'' (ReqPing (Ping_new wire_rt)) [] = (f, Inr ())
    \<and> read_req wire_rt std_read_exact (f @ [7])
      = Ret (Inr (Request_forget ((new_req wire_rt ''c1'')\<lparr>req_cmd := Some (ReqPing (Ping_new wire_rt))\<rparr>), [7]))"
proof -
  let ?req = "(new_req wire_rt ''c1'')\<lparr>req_cmd := Some (ReqPing (Ping_new wire_rt))\<rparr>"
  have c: "Request_clean wire_rt ?req"
    by (simp add: Request_clean_def new_req_def Request_new_def Ping_clean_def Ping_new_def no_unknown_def
        SpecialFields_new_def text_ok_def max_text_def utf8_valid_ascii)
  have "length (Request_wire wire_rt ?req) = 6" by code_simp
  then show ?thesis
    using request_frame_roundtrip[OF wire.pb_runtime_axioms std_reader.exact_reader_axioms c, of "[]" "[7]"] by simp
qed

text \<open>A response survives the TCP framing when its encoding is shorter than 65536 bytes,
  which is what the two length bytes can express.\<close>

theorem response_frame_roundtrip:
  assumes "pb_runtime rt" "exact_reader rd" "Response_clean rt m" "length (Response_wire rt m) < 65536"
  shows "Response_write_to_bytes rt m = Inr (Response_wire rt m)
    \<and> send_frame (Inr ()) (Inr ()) (Response_wire rt m) out = (out @ frame (Response_wire rt m), Inr ())
    \<and> read_resp rt rd (frame (Response_wire rt m) @ r) = Ret (Inr (Response_forget m, r))"
  using assms
  by (simp add: exact_reader.read_resp_frame pb_runtime.Response_parse_wire pb_runtime.Response_write_clean)

theorem response_frame_roundtrip_witness:
  "read_resp wire_rt std_read_exact (frame (Response_wire wire_rt (Response_new wire_rt)) @ [7])
    = Ret (Inr (Response_forget (Response_new wire_rt), [7]))"
proof -
  have c: "Response_clean wire_rt (Response_new wire_rt)"
    by (simp add: Response_clean_def Response_new_def no_unknown_def SpecialFields_new_def)
  have "length (Response_wire wire_rt (Response_new wire_rt)) = 0" by code_simp
  then show ?thesis
    using response_frame_roundtrip[OF wire.pb_runtime_axioms std_reader.exact_reader_axioms c] by simp
qed

text \<open>The server's reader is total and refuses what it must: on every stream it returns,
  and a frame that announces more than 1500 bytes, or a stream that ends early, gives an
  error.\<close>

theorem read_req_total:
  assumes "pb_runtime rt" "exact_reader rd"
  shows "\<exists>x. read_req rt rd bs = Ret x
    \<and> (length bs < 2 \<or> unat (from_be_bytes (take 2 bs)) > 1500 \<or> length bs < 2 + unat (from_be_bytes (take 2 bs))
         \<longrightarrow> (\<exists>e. x = Inl e))"
proof -
  obtain x where x: "read_req rt rd bs = Ret x" using exact_reader.read_req_returns[OF assms(2,1)] by blast
  let ?n = "unat (from_be_bytes (take 2 bs))"
  have "\<exists>e. x = Inl e" if bad: "length bs < 2 \<or> ?n > 1500 \<or> length bs < 2 + ?n"
  proof (cases "length bs < 2")
    case True
    then show ?thesis using x exact_reader.read_short[OF assms(2) True] by (auto simp: read_req_def)
  next
    case False
    then have two: "rd 2 bs = Inr (take 2 bs, drop 2 bs)"
      using exact_reader.read_enough[OF assms(2), of 2 bs] by simp
    show ?thesis
    proof (cases "?n > 1500")
      case True
      then show ?thesis using x by (auto simp: read_req_def two Let_def)
    next
      case small: False
      then have "length (drop 2 bs) < ?n" using bad False by auto
      from exact_reader.read_short[OF assms(2) this] show ?thesis
        using x small by (auto simp: read_req_def two Let_def)
    qed
  qed
  with x show ?thesis by blast
qed

theorem read_req_total_witness:
  "\<exists>e. read_req wire_rt std_read_exact [5, 221] = Ret (Inl e)"
proof -
  have "unat (from_be_bytes (take 2 [5, 221])) > 1500" by code_simp
  then show ?thesis
    using read_req_total[OF wire.pb_runtime_axioms std_reader.exact_reader_axioms, of "[5, 221]"] by auto
qed

text \<open>The length of a frame wraps around: the sender casts it to 16 bits without a check,
  so a message of 65536 bytes or more is cut to its length modulo 65536, and its
  remaining bytes are taken for the next frames.\<close>

theorem response_frame_wraps:
  assumes "exact_reader rd" "length buf = 65536 + k" "k < 65536"
  shows "read_resp rt rd (frame buf @ r) =
     (case Response_parse_from_bytes rt (take k buf) of
         None \<Rightarrow> Hang
       | Some (Inl e) \<Rightarrow> Ret (Inl (new_error Other ''invalid message''))
       | Some (Inr resp) \<Rightarrow> Ret (Inr (resp, drop k buf @ r)))"
proof -
  have k: "length buf mod 65536 = k" using assms(2,3) by simp
  show ?thesis using exact_reader.read_resp_frame[OF assms(1), of rt buf r] unfolding k .
qed

theorem response_frame_wraps_witness:
  "read_resp wire_rt std_read_exact (frame (replicate 65536 65) @ [7])
    = Ret (Inr (Response_new wire_rt, replicate 65536 65 @ [7]))"
proof -
  have "Response_parse_from_bytes wire_rt [] = Some (Inr (Response_new wire_rt))"
    by (simp add: Response_parse_from_bytes_def Response_merge_from_def wire.merge_loop_Nil)
  then show ?thesis
    using response_frame_wraps[OF std_reader.exact_reader_axioms, of "replicate 65536 65" 0 wire_rt "[7]"] by simp
qed

end
