(* ===== verification/Channel.thy ===== *)
theory Channel
  imports Prelude
begin

text \<open>
  The bounded message queue between the reading and the writing half of a connection.
  The TCP clients use \<open>std::sync::mpsc::sync_channel\<close> and \<open>tokio::sync::mpsc::channel\<close>,
  the TCP server the latter. The record \<open>mpsc\<close> is the interface; the locale
  \<open>bounded_channel\<close> states what both document: messages come out in the order they went
  in, at most \<open>capacity\<close> of them are inside, and a send has to wait (here: \<open>None\<close>) while
  the queue is full. The standard library's channel is modelled and interprets the
  locale; tokio's is a parameter of the definitions that use it.
\<close>

record ('q, 'm) mpsc =
  mpsc_new :: "nat \<Rightarrow> 'q"
  mpsc_send :: "'m \<Rightarrow> 'q \<Rightarrow> 'q option"
  mpsc_recv :: "'q \<Rightarrow> ('m \<times> 'q) option"

locale bounded_channel =
  fixes ch :: "('q, 'm) mpsc"
    and items :: "'q \<Rightarrow> 'm list"
    and capacity :: "'q \<Rightarrow> nat"
  assumes new_channel: "items (mpsc_new ch k) = [] \<and> capacity (mpsc_new ch k) = k"
    and send_room: "length (items q) < capacity q \<Longrightarrow>
      \<exists>q'. mpsc_send ch m q = Some q' \<and> items q' = items q @ [m] \<and> capacity q' = capacity q"
    and send_full: "capacity q \<le> length (items q) \<Longrightarrow> mpsc_send ch m q = None"
    and recv_empty: "items q = [] \<Longrightarrow> mpsc_recv ch q = None"
    and recv_first: "items q = m # ms \<Longrightarrow>
      \<exists>q'. mpsc_recv ch q = Some (m, q') \<and> items q' = ms \<and> capacity q' = capacity q"
begin

lemma send_Some:
  "mpsc_send ch m q = Some q' \<longleftrightarrow>
    length (items q) < capacity q \<and> mpsc_send ch m q = Some q' \<and> items q' = items q @ [m] \<and> capacity q' = capacity q"
proof (cases "length (items q) < capacity q")
  case True
  then show ?thesis using send_room[of q m] by auto
next
  case False
  then show ?thesis using send_full[of q m] by auto
qed

lemma sendD:
  assumes "mpsc_send ch m q = Some q'"
  shows "length (items q) < capacity q" "items q' = items q @ [m]" "capacity q' = capacity q"
  using assms send_Some by blast+

lemma recvD:
  assumes "mpsc_recv ch q = Some (m, q')"
  shows "items q = m # items q' \<and> capacity q' = capacity q"
proof (cases "items q")
  case Nil
  then show ?thesis using recv_empty assms by simp
next
  case (Cons x xs)
  then show ?thesis using recv_first[OF Cons] assms by auto
qed

text \<open>A channel never holds more than its capacity.\<close>

lemma send_bounded: "mpsc_send ch m q = Some q' \<Longrightarrow> length (items q') \<le> capacity q'"
  using sendD[of m q q'] by simp

lemma recv_bounded:
  "mpsc_recv ch q = Some (m, q') \<Longrightarrow> length (items q) \<le> capacity q \<Longrightarrow> length (items q') \<le> capacity q'"
  using recvD[of q m q'] by auto

end

section \<open>The channel of the standard library\<close>

record 'm sync_channel =
  bound :: nat
  buffer :: "'m list"

definition std_channel :: "('m sync_channel, 'm) mpsc" where
  "std_channel =
     \<lparr>mpsc_new = (\<lambda>k. \<lparr>bound = k, buffer = []\<rparr>),
      mpsc_send = (\<lambda>m q. if length (buffer q) < bound q then Some (q\<lparr>buffer := buffer q @ [m]\<rparr>) else None),
      mpsc_recv = (\<lambda>q. case buffer q of [] \<Rightarrow> None | m # ms \<Rightarrow> Some (m, q\<lparr>buffer := ms\<rparr>))\<rparr>"

lemma std_channel_sel [simp]:
  "mpsc_new std_channel k = \<lparr>bound = k, buffer = []\<rparr>"
  "mpsc_send std_channel m q = (if length (buffer q) < bound q then Some (q\<lparr>buffer := buffer q @ [m]\<rparr>) else None)"
  "mpsc_recv std_channel q = (case buffer q of [] \<Rightarrow> None | m # ms \<Rightarrow> Some (m, q\<lparr>buffer := ms\<rparr>))"
  by (simp_all add: std_channel_def)

interpretation std_chan: bounded_channel std_channel buffer bound
  by unfold_locales auto

end
