(* ===== verification/Tcp_Server.thy ===== *)
theory Tcp_Server
  imports Rendezvous Framing Channel
begin

text \<open>
  The TCP rendezvous server, \<open>src/tcp/server.rs\<close>. Every accepted connection is a task
  with two halves that run as one \<open>select!\<close>: \<open>read_reqs\<close> turns the bytes of the stream
  into requests and puts them into the task's queue; \<open>handle_cmds\<close> takes them out and
  answers. Tasks meet in the shared table \<open>peers\<close>, a mutex around a map from identities
  to \<open>PeerState\<close>, whose \<open>req_tx\<close> is a sender of another task's queue.

  The handlers are functions on the table and the own task. They end at their next
  suspension point (\<open>await\<close>). The scheduler is \<open>exec\<close>: a label says which task moves, and
  what the operating system and the clock answer; \<open>None\<close> means that the task cannot
  move there. So every interleaving of the tasks is a list of labels.

  The queue is tokio's channel and \<open>read_exact\<close> is tokio's: both are parameters.
\<close>

section \<open>Creating the server\<close>

text \<open>The results of the calls of \<open>Server::new\<close>.\<close>

record listen_os =
  lo_new :: "io_error + unit"
  lo_set_nonblocking :: "io_error + unit"
  lo_set_reuse_address :: "io_error + unit"
  lo_set_reuse_port :: "io_error + unit"
  lo_set_only_v6 :: "io_error + unit"
  lo_bind :: "SocketAddr \<Rightarrow> io_error + unit"
  lo_listen :: "nat \<Rightarrow> io_error + unit"
  lo_from_std :: "io_error + unit"
  lo_bind_tokio :: "SocketAddr \<Rightarrow> io_error + unit"

section \<open>State\<close>

record PeerState =
  p_id :: u64
  last_ping :: instant
  req_tx :: nat
  addr :: SocketAddr

text \<open>\<open>Arc<Mutex<HashMap<..>>>\<close>: a panic of the holder poisons the mutex.\<close>

record PeerMap =
  entries :: "string \<rightharpoonup> PeerState"
  poisoned :: bool

text \<open>
  Where \<open>read_reqs\<close> and \<open>handle_cmds\<close> are suspended. \<open>Queueing\<close>: in \<open>req_tx.send\<close>, with
  the flag for the farewell that ends the loop. \<open>AtSend\<close>: sending to the queue of a task,
  then calling \<open>insert_peerstate\<close> or not. \<open>AtWrite\<close>: writing a response.
\<close>

datatype 'u reading = Reading | Queueing "'u Request" bool

datatype 'u waiting = AtRecv | AtSend nat "'u Request" "string option" | AtWrite bytes

datatype stage = Running | Closing | Closed | Panicked

record ('q, 'u) PeerHandler =
  stream_in :: bytes
  stream_out :: bytes
  peer_id :: string
  h_id :: u64
  h_req_tx :: nat
  req_rx :: 'q
  reads :: "'u reading"
  cmds :: "'u waiting"
  stage_of :: stage

record ('q, 'u) Server =
  peers :: PeerMap
  count :: u64
  accepting :: bool
  tasks :: "('q, 'u) PeerHandler list"

definition Server_new :: "listen_os \<Rightarrow> SocketAddr \<Rightarrow> bool \<Rightarrow> io_error + ('q, 'u) Server" where
  "Server_new os listen_addr ipv6_only =
     res_bind
       (if ipv6_only then
          res_bind (lo_new os) (\<lambda>_.
          res_bind (lo_set_nonblocking os) (\<lambda>_.
          res_bind (lo_set_reuse_address os) (\<lambda>_.
          res_bind (lo_set_reuse_port os) (\<lambda>_.
          res_bind (lo_set_only_v6 os) (\<lambda>_.
          res_bind (case listen_addr of
                      V6 ip p flow scope \<Rightarrow> Inr (V6 ip p flow scope)
                    | V4 ip p \<Rightarrow> Inl (new_error Other ''IPv4 address not supported in IPv6-only mode'')) (\<lambda>a.
          res_bind (lo_bind os a) (\<lambda>_.
          res_bind (lo_listen os 1024) (\<lambda>_.
          lo_from_std os))))))))
        else lo_bind_tokio os listen_addr) (\<lambda>_.
     Inr \<lparr>peers = \<lparr>entries = Map.empty, poisoned = False\<rparr>, count = 0, accepting = True, tasks = []\<rparr>)"

text \<open>The addition wraps, as it does in a release build.\<close>

definition next_id :: "('q, 'u) Server \<Rightarrow> u64 \<times> ('q, 'u) Server" where
  "next_id s = (let s = s\<lparr>count := count s + 1\<rparr> in (count s, s))"

text \<open>The body of \<open>run\<close>: \<open>spawn\<close> makes the task with its queue of ten.\<close>

definition accept :: "('q, 'u Request) mpsc \<Rightarrow> bytes \<Rightarrow> ('q, 'u) Server \<Rightarrow> ('q, 'u) Server" where
  "accept ch stream s =
     (let (i, s) = next_id s in
      s\<lparr>tasks := tasks s @
          [\<lparr>stream_in = stream, stream_out = [], peer_id = '''', h_id = i, h_req_tx = length (tasks s),
            req_rx = mpsc_new ch 10, reads = Reading, cmds = AtRecv, stage_of = Running\<rparr>]\<rparr>)"

section \<open>Handlers\<close>

text \<open>What the operating system and the clock answer during a handler.\<close>

record answers =
  peer_addr :: "io_error + SocketAddr"
  now_new :: instant
  now_ping :: instant

text \<open>A handler ends, waits, or panics; the result is the result of the Rust call.\<close>

datatype 'u flow = Ends "io_error + unit" | Waits "'u waiting" | Panics

text \<open>\<open>peers.lock().unwrap()\<close>.\<close>

definition lock :: "PeerMap \<Rightarrow> (string \<rightharpoonup> PeerState) outcome" where
  "lock m = (if poisoned m then Panic else Ret (entries m))"

text \<open>
  \<open>insert_peerstate\<close>: the guard is held to the end, so the \<open>unwrap\<close> of \<open>peer_addr\<close>
  panics with the mutex locked.
\<close>

definition insert_peerstate ::
  "answers \<Rightarrow> string \<Rightarrow> PeerMap \<times> ('q, 'u) PeerHandler \<Rightarrow> (PeerMap \<times> ('q, 'u) PeerHandler) \<times> unit outcome" where
  "insert_peerstate w who mh =
     (let (m, h) = mh; h = h\<lparr>peer_id := who\<rparr> in
      case lock m of
        Ret ps \<Rightarrow>
          (let ps = (case ps who of
                       Some p \<Rightarrow> if p_id p \<noteq> h_id h then remove_key who ps else ps
                     | None \<Rightarrow> ps)
           in case ps who of
                Some p \<Rightarrow> ((m\<lparr>entries := ps(who \<mapsto> p\<lparr>last_ping := now_ping w\<rparr>)\<rparr>, h), Ret ())
              | None \<Rightarrow>
                  (case peer_addr w of
                     Inl e \<Rightarrow> ((m\<lparr>entries := ps, poisoned := True\<rparr>, h), Panic)
                   | Inr a \<Rightarrow>
                       (let p = \<lparr>p_id = h_id h, last_ping = now_new w, req_tx = h_req_tx h, addr = a\<rparr>
                        in ((m\<lparr>entries := ps(who \<mapsto> p\<lparr>last_ping := now_ping w\<rparr>)\<rparr>, h), Ret ()))))
      | _ \<Rightarrow> ((m, h), Panic))"

text \<open>\<open>send_response\<close> up to its first \<open>await\<close>; an encoder error is a panic.\<close>

definition send_response :: "'u pb_rt \<Rightarrow> 'u RespCmd \<Rightarrow> 'u flow" where
  "send_response rt cmd =
     (let resp = (Response_new rt)\<lparr>resp_cmd := Some cmd\<rparr> in
      case Response_write_to_bytes rt resp of
        Inl e \<Rightarrow> Panics
      | Inr vec \<Rightarrow> Waits (AtWrite vec))"

definition handle_ping ::
  "'u pb_rt \<Rightarrow> answers \<Rightarrow> string \<Rightarrow> 'u Ping \<Rightarrow> PeerMap \<times> ('q, 'u) PeerHandler
     \<Rightarrow> (PeerMap \<times> ('q, 'u) PeerHandler) \<times> 'u flow" where
  "handle_ping rt w src_id ping mh =
     (case insert_peerstate w src_id mh of
        (mh, Ret _) \<Rightarrow> (mh, send_response rt (RespPong (Pong_new rt)))
      | (mh, _) \<Rightarrow> (mh, Panics))"

text \<open>
  \<open>handle_isync\<close> up to the send to the other task; \<open>insert_peerstate\<close> comes after it, in
  \<open>resume_send\<close>.
\<close>

definition handle_isync ::
  "'u pb_rt \<Rightarrow> answers \<Rightarrow> string \<Rightarrow> 'u Isync \<Rightarrow> PeerMap \<times> ('q, 'u) PeerHandler
     \<Rightarrow> (PeerMap \<times> ('q, 'u) PeerHandler) \<times> 'u flow" where
  "handle_isync rt w src_id isync mh =
     (let dst_id = isync_id isync;
          rdr = (Redirect_new rt)\<lparr>redirect_id := dst_id\<rparr> in
      case lock (fst mh) of
        Ret ps \<Rightarrow>
          (case ps dst_id of
             Some peer \<Rightarrow>
               (let rdr = rdr\<lparr>redirect_addr := show_addr (addr peer)\<rparr> in
                case peer_addr w of
                  Inl e \<Rightarrow> (mh, Panics)
                | Inr a \<Rightarrow>
                    (let fsync = (Fsync_new rt)\<lparr>fsync_id := src_id, fsync_addr := show_addr a\<rparr>;
                         req = Request_set_Fsync fsync (Request_new rt)
                     in (mh, Waits (AtSend (req_tx peer) req (Some src_id)))))
           | None \<Rightarrow> (mh, send_response rt (RespRedirect rdr)))
      | _ \<Rightarrow> (mh, Panics))"

definition handle_fsync :: "'u pb_rt \<Rightarrow> 'u Fsync \<Rightarrow> 'u flow" where
  "handle_fsync rt fsync = send_response rt (RespFsync fsync)"

definition handle_rsync ::
  "'u pb_rt \<Rightarrow> string \<Rightarrow> 'u Rsync \<Rightarrow> PeerMap \<times> ('q, 'u) PeerHandler \<Rightarrow> 'u flow" where
  "handle_rsync rt src_id rsync mh =
     (let dst_id = rsync_id rsync in
      case lock (fst mh) of
        Ret ps \<Rightarrow>
          (if dst_id = peer_id (snd mh) then
             (case ps src_id of
                Some peer \<Rightarrow>
                  send_response rt (RespRedirect
                    ((Redirect_new rt)\<lparr>redirect_id := src_id, redirect_addr := show_addr (addr peer)\<rparr>))
              | None \<Rightarrow> Ends (Inr ()))
           else
             (case ps dst_id of
                Some peer \<Rightarrow>
                  Waits (AtSend (req_tx peer) ((Request_new rt)\<lparr>req_id := src_id, req_cmd := Some (ReqRsync rsync)\<rparr>) None)
              | None \<Rightarrow> Ends (Inr ())))
      | _ \<Rightarrow> Panics)"

text \<open>The body of the loop of \<open>handle_cmds\<close>.\<close>

definition handle_cmd ::
  "'u pb_rt \<Rightarrow> answers \<Rightarrow> 'u Request \<Rightarrow> PeerMap \<times> ('q, 'u) PeerHandler
     \<Rightarrow> (PeerMap \<times> ('q, 'u) PeerHandler) \<times> 'u flow" where
  "handle_cmd rt w req mh =
     (let src_id = req_id req in
      case req_cmd req of
        Some (ReqPing ping) \<Rightarrow> handle_ping rt w src_id ping mh
      | Some (ReqIsync isync) \<Rightarrow> handle_isync rt w src_id isync mh
      | Some (ReqFsync fsync) \<Rightarrow> (mh, handle_fsync rt fsync)
      | Some (ReqRsync rsync) \<Rightarrow> (mh, handle_rsync rt src_id rsync mh)
      | Some (ReqBye _) \<Rightarrow> (mh, Ends (Inl (new_error Other ''received bye command'')))
      | _ \<Rightarrow> (mh, Ends (Inl (new_error Other ''unknown command received''))))"

text \<open>
  Where a handler's end leaves the task: a result of the loop ends the \<open>select!\<close>, and a
  panic ends the task at once, without the code after the \<open>select!\<close>.
\<close>

definition follow :: "'u flow \<Rightarrow> ('q, 'u) PeerHandler \<Rightarrow> ('q, 'u) PeerHandler" where
  "follow f h =
     (case f of
        Ends (Inr _) \<Rightarrow> h\<lparr>cmds := AtRecv\<rparr>
      | Ends (Inl e) \<Rightarrow> h\<lparr>stage_of := Closing\<rparr>
      | Waits a \<Rightarrow> h\<lparr>cmds := a\<rparr>
      | Panics \<Rightarrow> h\<lparr>stage_of := Panicked\<rparr>)"

text \<open>After the send to the other task.\<close>

definition resume_send ::
  "answers \<Rightarrow> string option \<Rightarrow> PeerMap \<times> ('q, 'u) PeerHandler
     \<Rightarrow> (PeerMap \<times> ('q, 'u) PeerHandler) \<times> 'u flow" where
  "resume_send w after mh =
     (case after of
        None \<Rightarrow> (mh, Ends (Inr ()))
      | Some src_id \<Rightarrow>
          (case insert_peerstate w src_id mh of
             (mh, Ret _) \<Rightarrow> (mh, Ends (Inr ()))
           | (mh, _) \<Rightarrow> (mh, Panics)))"

text \<open>The end of \<open>send_response\<close>.\<close>

definition resume_write ::
  "write_result \<Rightarrow> write_result \<Rightarrow> bytes \<Rightarrow> ('q, 'u) PeerHandler \<Rightarrow> ('q, 'u) PeerHandler" where
  "resume_write r1 r2 vec h =
     (let (out, r) = send_frame r1 r2 vec (stream_out h) in follow (Ends r) (h\<lparr>stream_out := out\<rparr>))"

section \<open>The reading half\<close>

text \<open>
  One round of \<open>read_reqs\<close> up to its send: the request, or a farewell on an error.
  \<open>None\<close> when the decoder does not return.
\<close>

definition read_round ::
  "'u pb_rt \<Rightarrow> exact_read \<Rightarrow> ('q, 'u) PeerHandler \<Rightarrow> ('q, 'u) PeerHandler option" where
  "read_round rt rd h =
     (case read_req rt rd (stream_in h) of
        Ret (Inr (req, rest)) \<Rightarrow> Some (h\<lparr>reads := Queueing req False, stream_in := rest\<rparr>)
      | Ret (Inl e) \<Rightarrow> Some (h\<lparr>reads := Queueing (Request_set_Bye (Bye_new rt) (Request_new rt)) True\<rparr>)
      | _ \<Rightarrow> None)"

text \<open>The send to the own queue; \<open>None\<close> while the queue is full.\<close>

definition enqueue :: "('q, 'u Request) mpsc \<Rightarrow> ('q, 'u) PeerHandler \<Rightarrow> ('q, 'u) PeerHandler option" where
  "enqueue ch h =
     (case reads h of
        Reading \<Rightarrow> None
      | Queueing req final \<Rightarrow>
          map_option
            (\<lambda>q. if final then h\<lparr>req_rx := q, stage_of := Closing\<rparr> else h\<lparr>req_rx := q, reads := Reading\<rparr>)
            (mpsc_send ch req (req_rx h)))"

section \<open>The end of a connection\<close>

text \<open>\<open>handle_stream\<close> after its \<open>select!\<close>.\<close>

definition handle_stream_end :: "PeerMap \<times> ('q, 'u) PeerHandler \<Rightarrow> PeerMap \<times> ('q, 'u) PeerHandler" where
  "handle_stream_end mh =
     (let (m, h) = mh in
      case lock m of
        Ret ps \<Rightarrow>
          (m\<lparr>entries :=
               (case ps (peer_id h) of
                  Some p \<Rightarrow> if p_id p = h_id h then remove_key (peer_id h) ps else ps
                | None \<Rightarrow> ps)\<rparr>,
           h\<lparr>stage_of := Closed\<rparr>)
      | _ \<Rightarrow> (m, h\<lparr>stage_of := Panicked\<rparr>))"

section \<open>The scheduler\<close>

text \<open>
  The moves. \<open>Accept\<close> carries the bytes the peer is going to send before the connection
  ends; \<open>AcceptError\<close> ends the loop of \<open>run\<close>. \<open>Elapsed\<close> is the timeout of thirty seconds
  around \<open>read_req\<close>.
\<close>

datatype label =
    Accept bytes | AcceptError | Read nat | Elapsed nat | Enqueue nat | Receive nat answers
  | Forward nat answers | Written nat write_result write_result | Finish nat

text \<open>Sending to another task's queue: \<open>None\<close> while full, no effect once its receiver is gone.\<close>

definition push ::
  "('q, 'u Request) mpsc \<Rightarrow> nat \<Rightarrow> 'u Request \<Rightarrow> ('q, 'u) PeerHandler list \<Rightarrow> ('q, 'u) PeerHandler list option" where
  "push ch j req ts =
     (if j < length ts \<and> stage_of (ts ! j) \<in> {Running, Closing} then
        map_option (\<lambda>q. ts[j := (ts ! j)\<lparr>req_rx := q\<rparr>]) (mpsc_send ch req (req_rx (ts ! j)))
      else Some ts)"

text \<open>A move of the task \<open>i\<close> that touches the table and the task itself.\<close>

definition put ::
  "nat \<Rightarrow> PeerMap \<times> ('q, 'u) PeerHandler \<Rightarrow> ('q, 'u) Server \<Rightarrow> ('q, 'u) Server" where
  "put i mh s = s\<lparr>peers := fst mh, tasks := (tasks s)[i := snd mh]\<rparr>"

definition settle :: "(PeerMap \<times> ('q, 'u) PeerHandler) \<times> 'u flow \<Rightarrow> PeerMap \<times> ('q, 'u) PeerHandler" where
  "settle r = (fst (fst r), follow (snd r) (snd (fst r)))"

definition running :: "nat \<Rightarrow> ('q, 'u) Server \<Rightarrow> bool" where
  "running i s \<longleftrightarrow> i < length (tasks s) \<and> stage_of (tasks s ! i) = Running"

fun exec ::
  "'u pb_rt \<Rightarrow> ('q, 'u Request) mpsc \<Rightarrow> exact_read \<Rightarrow> label \<Rightarrow> ('q, 'u) Server \<Rightarrow> ('q, 'u) Server option" where
  "exec rt ch rd (Accept stream) s = (if accepting s then Some (accept ch stream s) else None)"
| "exec rt ch rd AcceptError s = (if accepting s then Some (s\<lparr>accepting := False\<rparr>) else None)"
| "exec rt ch rd (Read i) s =
     (if running i s \<and> reads (tasks s ! i) = Reading then
        map_option (\<lambda>h. put i (peers s, h) s) (read_round rt rd (tasks s ! i))
      else None)"
| "exec rt ch rd (Elapsed i) s =
     (if running i s \<and> reads (tasks s ! i) = Reading then
        Some (put i (peers s, (tasks s ! i)\<lparr>stage_of := Closing\<rparr>) s)
      else None)"
| "exec rt ch rd (Enqueue i) s =
     (if running i s then map_option (\<lambda>h. put i (peers s, h) s) (enqueue ch (tasks s ! i)) else None)"
| "exec rt ch rd (Receive i w) s =
     (if running i s \<and> cmds (tasks s ! i) = AtRecv then
        map_option
          (\<lambda>(req, q). put i (settle (handle_cmd rt w req (peers s, (tasks s ! i)\<lparr>req_rx := q\<rparr>))) s)
          (mpsc_recv ch (req_rx (tasks s ! i)))
      else None)"
| "exec rt ch rd (Forward i w) s =
     (if running i s then
        (case cmds (tasks s ! i) of
           AtSend j req after \<Rightarrow>
             map_option
               (\<lambda>ts. put i (settle (resume_send w after (peers s, ts ! i))) (s\<lparr>tasks := ts\<rparr>))
               (push ch j req (tasks s))
         | _ \<Rightarrow> None)
      else None)"
| "exec rt ch rd (Written i r1 r2) s =
     (if running i s then
        (case cmds (tasks s ! i) of
           AtWrite vec \<Rightarrow> Some (put i (peers s, resume_write r1 r2 vec (tasks s ! i)) s)
         | _ \<Rightarrow> None)
      else None)"
| "exec rt ch rd (Finish i) s =
     (if i < length (tasks s) \<and> stage_of (tasks s ! i) = Closing then
        Some (put i (handle_stream_end (peers s, tasks s ! i)) s)
      else None)"

fun execs ::
  "'u pb_rt \<Rightarrow> ('q, 'u Request) mpsc \<Rightarrow> exact_read \<Rightarrow> label list \<Rightarrow> ('q, 'u) Server \<Rightarrow> ('q, 'u) Server option" where
  "execs rt ch rd [] s = Some s"
| "execs rt ch rd (l # ls) s = (case exec rt ch rd l s of None \<Rightarrow> None | Some s' \<Rightarrow> execs rt ch rd ls s')"

text \<open>The states of a server that was created and ran for a while, in any order of moves.\<close>

inductive reachable ::
  "'u pb_rt \<Rightarrow> ('q, 'u Request) mpsc \<Rightarrow> exact_read \<Rightarrow> ('q, 'u) Server \<Rightarrow> bool"
  for rt ch rd where
  created: "Server_new os a v6 = Inr s \<Longrightarrow> reachable rt ch rd s"
| moved: "reachable rt ch rd s \<Longrightarrow> exec rt ch rd l s = Some s' \<Longrightarrow> reachable rt ch rd s'"

section \<open>What a move can do\<close>

lemma lock_simps [simp]:
  "lock m = Ret ps \<longleftrightarrow> \<not> poisoned m \<and> ps = entries m" "lock m = Panic \<longleftrightarrow> poisoned m" "lock m \<noteq> Hang"
  "\<not> poisoned m \<Longrightarrow> lock m = Ret (entries m)" "poisoned m \<Longrightarrow> lock m = Panic"
  by (auto simp: lock_def)

text \<open>Every entry afterwards is an old one, up to its clock reading, or the task's own.\<close>

definition table_step :: "('q, 'u) PeerHandler \<Rightarrow> PeerMap \<Rightarrow> PeerMap \<Rightarrow> bool" where
  "table_step h m m' \<longleftrightarrow> (\<forall>k p. entries m' k = Some p \<longrightarrow>
     (\<exists>p0. entries m k = Some p0 \<and> p_id p0 = p_id p \<and> req_tx p0 = req_tx p)
     \<or> (p_id p = h_id h \<and> req_tx p = h_req_tx h))
   \<and> (poisoned m \<longrightarrow> m' = m)"

lemma table_step_refl [simp]: "table_step h m m"
  by (simp add: table_step_def)

lemma insert_peerstate_effect:
  assumes "insert_peerstate w who (m, h) = ((m', h'), r)"
  shows "table_step h m m' \<and> h' = h\<lparr>peer_id := who\<rparr>"
  using assms
  by (auto simp: insert_peerstate_def table_step_def Let_def lock_def split: if_splits option.splits sum.splits)

lemma handle_cmd_effect:
  assumes "handle_cmd rt w req (m, h) = ((m', h'), f)"
  shows "table_step h m m' \<and> (\<exists>who. h' = h\<lparr>peer_id := who\<rparr>)"
proof (cases "\<exists>ping. req_cmd req = Some (ReqPing ping)")
  case True
  then show ?thesis
    using assms insert_peerstate_effect[of w "req_id req" m h]
    by (fastforce simp: handle_cmd_def Let_def handle_ping_def split: prod.splits outcome.splits)
next
  case False
  then have "m' = m \<and> h' = h"
    using assms
    by (auto simp: handle_cmd_def handle_isync_def Let_def split: option.splits ReqCmd.splits outcome.splits sum.splits)
  then show ?thesis by (intro conjI exI[of _ "peer_id h"]) simp_all
qed

lemma resume_send_effect:
  assumes "resume_send w after (m, h) = ((m', h'), f)"
  shows "table_step h m m' \<and> (\<exists>who. h' = h\<lparr>peer_id := who\<rparr>)"
proof (cases after)
  case None
  with assms show ?thesis by (intro conjI exI[of _ "peer_id h"]) (simp_all add: resume_send_def)
next
  case (Some who)
  with assms show ?thesis
    using insert_peerstate_effect[of w who m h]
    by (fastforce simp: resume_send_def split: prod.splits outcome.splits)
qed

lemma follow_simps [simp]:
  "h_id (follow f h) = h_id h" "h_req_tx (follow f h) = h_req_tx h" "peer_id (follow f h) = peer_id h"
  "req_rx (follow f h) = req_rx h" "stream_in (follow f h) = stream_in h" "stream_out (follow f h) = stream_out h"
  "reads (follow f h) = reads h"
  by (auto simp: follow_def split: flow.split sum.split)

lemma follow_stage: "stage_of (follow f h) \<in> {stage_of h, Closing, Panicked}"
  by (auto simp: follow_def split: flow.split sum.split)

text \<open>
  A move of an existing task \<open>i\<close>: it changes the table by its own entries, only its own
  identity and stage, and no task's number.
\<close>

definition task_step :: "nat \<Rightarrow> ('q, 'u) Server \<Rightarrow> ('q, 'u) Server \<Rightarrow> bool" where
  "task_step i s s' \<longleftrightarrow> i < length (tasks s) \<and> stage_of (tasks s ! i) = Running
     \<and> count s' = count s \<and> length (tasks s') = length (tasks s)
     \<and> (\<forall>j < length (tasks s). h_id (tasks s' ! j) = h_id (tasks s ! j) \<and> h_req_tx (tasks s' ! j) = h_req_tx (tasks s ! j)
          \<and> (j \<noteq> i \<longrightarrow> stage_of (tasks s' ! j) = stage_of (tasks s ! j) \<and> peer_id (tasks s' ! j) = peer_id (tasks s ! j)))
     \<and> stage_of (tasks s' ! i) \<noteq> Closed
     \<and> table_step (tasks s ! i) (peers s) (peers s')"

lemma push_effect:
  assumes "push ch j req ts = Some ts'"
  shows "length ts' = length ts \<and> (\<forall>k < length ts. h_id (ts' ! k) = h_id (ts ! k) \<and> h_req_tx (ts' ! k) = h_req_tx (ts ! k)
    \<and> stage_of (ts' ! k) = stage_of (ts ! k) \<and> peer_id (ts' ! k) = peer_id (ts ! k)
    \<and> cmds (ts' ! k) = cmds (ts ! k) \<and> reads (ts' ! k) = reads (ts ! k))"
  using assms by (auto simp: push_def nth_list_update split: if_splits)

lemma put_sel [simp]:
  "peers (put i mh s) = fst mh" "count (put i mh s) = count s" "tasks (put i mh s) = (tasks s)[i := snd mh]"
  "accepting (put i mh s) = accepting s"
  by (simp_all add: put_def)

lemma exec_cases:
  assumes "exec rt ch rd l s = Some s'"
  obtains (accept) stream where "l = Accept stream" "accepting s" "s' = accept ch stream s"
    | (stop) "l = AcceptError" "s' = s\<lparr>accepting := False\<rparr>"
    | (task) i where "task_step i s s'"
    | (finish) i where "l = Finish i" "i < length (tasks s)" "stage_of (tasks s ! i) = Closing"
        "s' = put i (handle_stream_end (peers s, tasks s ! i)) s"
proof (cases l)
  case (Accept stream)
  with assms accept show ?thesis by (auto split: if_splits)
next
  case AcceptError
  with assms stop show ?thesis by (auto split: if_splits)
next
  case (Read i)
  with assms have "task_step i s s'"
    by (auto simp: task_step_def running_def read_round_def nth_list_update split: if_splits outcome.splits sum.splits)
  then show ?thesis by (rule task)
next
  case (Elapsed i)
  with assms have "task_step i s s'"
    by (auto simp: task_step_def running_def nth_list_update split: if_splits)
  then show ?thesis by (rule task)
next
  case (Enqueue i)
  with assms have "task_step i s s'"
    by (auto simp: task_step_def running_def enqueue_def nth_list_update split: if_splits reading.splits)
  then show ?thesis by (rule task)
next
  case (Receive i w)
  with assms obtain req q where run: "running i s"
    and s': "s' = put i (settle (handle_cmd rt w req (peers s, (tasks s ! i)\<lparr>req_rx := q\<rparr>))) s"
    by (auto split: if_splits)
  obtain m' h' f where r: "handle_cmd rt w req (peers s, (tasks s ! i)\<lparr>req_rx := q\<rparr>) = ((m', h'), f)"
    by (metis prod.collapse)
  have "task_step i s s'"
    using handle_cmd_effect[OF r] run follow_stage[of f h']
    by (auto simp: s' r settle_def task_step_def running_def nth_list_update table_step_def)
  then show ?thesis by (rule task)
next
  case (Forward i w)
  with assms obtain j req after ts where run: "running i s" and p: "push ch j req (tasks s) = Some ts"
    and s': "s' = put i (settle (resume_send w after (peers s, ts ! i))) (s\<lparr>tasks := ts\<rparr>)"
    by (auto split: if_splits waiting.splits)
  obtain m' h' f where r: "resume_send w after (peers s, ts ! i) = ((m', h'), f)"
    by (metis prod.collapse)
  have "task_step i s s'"
    using resume_send_effect[OF r] push_effect[OF p] run follow_stage[of f h']
    by (auto simp: s' r settle_def task_step_def running_def nth_list_update table_step_def)
  then show ?thesis by (rule task)
next
  case (Written i r1 r2)
  with assms obtain vec where run: "running i s" and s': "s' = put i (peers s, resume_write r1 r2 vec (tasks s ! i)) s"
    by (auto split: if_splits waiting.splits)
  obtain out r where sf: "send_frame r1 r2 vec (stream_out (tasks s ! i)) = (out, r)" by fastforce
  have "task_step i s s'"
    using run follow_stage[of "Ends r" "(tasks s ! i)\<lparr>stream_out := out\<rparr>"]
    by (auto simp: s' sf resume_write_def task_step_def running_def nth_list_update)
  then show ?thesis by (rule task)
next
  case (Finish i)
  with assms finish show ?thesis by (auto split: if_splits)
qed

section \<open>Who owns an entry\<close>

text \<open>
  The invariant of the table. Tasks are numbered from one, so task \<open>i\<close> has the number
  \<open>i + 1\<close> modulo 2 to the 64. Every entry belongs to an accepted task and holds its
  number; a task that has closed has no entry under the last identity it used.
\<close>

definition server_ok :: "('q, 'u) Server \<Rightarrow> bool" where
  "server_ok s \<longleftrightarrow> count s = of_nat (length (tasks s))
     \<and> (\<forall>i < length (tasks s). h_id (tasks s ! i) = of_nat (Suc i) \<and> h_req_tx (tasks s ! i) = i)
     \<and> (\<forall>k p. entries (peers s) k = Some p \<longrightarrow>
          req_tx p < length (tasks s) \<and> p_id p = of_nat (Suc (req_tx p))
          \<and> (stage_of (tasks s ! req_tx p) = Closed \<longrightarrow> peer_id (tasks s ! req_tx p) \<noteq> k))"

lemma server_ok_accept: "server_ok s \<Longrightarrow> server_ok (accept ch stream s)"
  by (fastforce simp: server_ok_def accept_def next_id_def Let_def nth_append less_Suc_eq)

lemma server_ok_task:
  assumes "server_ok s" "task_step i s s'"
  shows "server_ok s'"
  unfolding server_ok_def
proof (intro conjI allI impI)
  show "count s' = of_nat (length (tasks s'))" using assms by (simp add: server_ok_def task_step_def)
next
  fix j assume "j < length (tasks s')"
  then show "h_id (tasks s' ! j) = of_nat (Suc j)" "h_req_tx (tasks s' ! j) = j"
    using assms by (simp_all add: server_ok_def task_step_def)
next
  fix k p assume p: "entries (peers s') k = Some p"
  have i: "i < length (tasks s)" "h_id (tasks s ! i) = of_nat (Suc i)" "h_req_tx (tasks s ! i) = i"
    using assms by (auto simp: server_ok_def task_step_def)
  have new: "(\<exists>p0. entries (peers s) k = Some p0 \<and> p_id p0 = p_id p \<and> req_tx p0 = req_tx p)
      \<or> (p_id p = of_nat (Suc i) \<and> req_tx p = i)"
    using assms(2) p i by (auto simp: task_step_def table_step_def)
  have ids: "req_tx p < length (tasks s) \<and> p_id p = of_nat (Suc (req_tx p))
      \<and> (req_tx p \<noteq> i \<longrightarrow> stage_of (tasks s ! req_tx p) = Closed \<longrightarrow> peer_id (tasks s ! req_tx p) \<noteq> k)"
    using new
  proof
    assume "\<exists>p0. entries (peers s) k = Some p0 \<and> p_id p0 = p_id p \<and> req_tx p0 = req_tx p"
    then show ?thesis using assms(1) unfolding server_ok_def by metis
  qed (use i in simp)
  show "req_tx p < length (tasks s')" "p_id p = of_nat (Suc (req_tx p))"
    using ids assms(2) by (simp_all add: task_step_def)
  show "peer_id (tasks s' ! req_tx p) \<noteq> k" if "stage_of (tasks s' ! req_tx p) = Closed"
    using ids assms(2) that by (cases "req_tx p = i") (auto simp: task_step_def)
qed

lemma handle_stream_end_effect:
  assumes "handle_stream_end (m, h) = (m', h')"
  shows "(if poisoned m then m' = m \<and> h' = h\<lparr>stage_of := Panicked\<rparr>
     else h' = h\<lparr>stage_of := Closed\<rparr> \<and> \<not> poisoned m'
       \<and> entries m' = (\<lambda>k. if k = peer_id h \<and> (\<exists>p. entries m k = Some p \<and> p_id p = h_id h) then None else entries m k))"
  using assms by (auto simp: handle_stream_end_def Let_def lock_def fun_eq_iff split: if_splits option.splits)

lemma server_ok_finish:
  assumes ok: "server_ok s" and i: "i < length (tasks s)" "stage_of (tasks s ! i) = Closing"
  shows "server_ok (put i (handle_stream_end (peers s, tasks s ! i)) s)"
proof -
  obtain m' h' where e: "handle_stream_end (peers s, tasks s ! i) = (m', h')" by fastforce
  show ?thesis
  proof (cases "poisoned (peers s)")
    case True
    then show ?thesis
      using ok i handle_stream_end_effect[OF e] by (auto simp: e server_ok_def nth_list_update)
  next
    case False
    then show ?thesis
      using ok i handle_stream_end_effect[OF e]
      by (auto simp: e server_ok_def nth_list_update split: if_splits)
  qed
qed

lemma exec_ok:
  assumes "exec rt ch rd l s = Some s'" "server_ok s"
  shows "server_ok s'"
  using assms(1)
proof (cases rule: exec_cases)
  case (accept stream)
  with assms(2) show ?thesis by (simp add: server_ok_accept)
next
  case stop
  with assms(2) show ?thesis by (simp add: server_ok_def)
next
  case (task i)
  show ?thesis by (rule server_ok_task[OF assms(2) task])
next
  case (finish i)
  with assms(2) show ?thesis by (simp add: server_ok_finish)
qed

lemma server_new_ok: "Server_new os a v6 = Inr s \<Longrightarrow> server_ok s"
  by (auto simp: Server_new_def res_bind_eq_Inr server_ok_def)

lemma reachable_ok: "reachable rt ch rd s \<Longrightarrow> server_ok s"
  by (induction rule: reachable.induct) (auto simp: server_new_ok exec_ok)

lemma reachable_execs: "execs rt ch rd ls s = Some s' \<Longrightarrow> reachable rt ch rd s \<Longrightarrow> reachable rt ch rd s'"
  by (induction ls arbitrary: s) (auto split: option.splits intro: reachable.moved)

lemma execs_preserves:
  assumes "\<And>l s s'. P s \<Longrightarrow> exec rt ch rd l s = Some s' \<Longrightarrow> P s'" and "P s" "execs rt ch rd ls s = Some s'"
  shows "P s'"
  using assms(2,3) by (induction ls arbitrary: s) (auto split: option.splits dest: assms(1))

end
