(* ===== verification/Tcp_Server_Correct.thy ===== *)
theory Tcp_Server_Correct
  imports Tcp_Server
begin

text \<open>
  The properties of the TCP server: what every handler answers, who owns an entry of the
  table, how much a queue holds, how a connection ends; and the behaviours that its
  shared state makes possible: a poisoned mutex, a connection that waits for itself, a
  registration that outlives its connection. Concrete runs of the scheduler witness
  them.
\<close>

section \<open>Runs of the server\<close>

text \<open>The server of the witnesses.\<close>

abbreviation started :: "('q, 'u) Server" where
  "started \<equiv> \<lparr>peers = \<lparr>entries = Map.empty, poisoned = False\<rparr>, count = 0, accepting = True, tasks = []\<rparr>"

lemma started_new:
  "Server_new \<lparr>lo_new = Inr (), lo_set_nonblocking = Inr (), lo_set_reuse_address = Inr (), lo_set_reuse_port = Inr (),
     lo_set_only_v6 = Inr (), lo_bind = (\<lambda>_. Inr ()), lo_listen = (\<lambda>_. Inr ()), lo_from_std = Inr (),
     lo_bind_tokio = (\<lambda>_. Inr ())\<rparr> a False = Inr started"
  by (simp add: Server_new_def)

lemma started_reachable: "reachable rt ch rd started"
  by (rule reachable.created[OF started_new])

abbreviation wire_execs :: "label list \<Rightarrow> (raw_fields Request sync_channel, raw_fields) Server option" where
  "wire_execs ls \<equiv> execs wire_rt std_channel std_read_exact ls started"

abbreviation idle_task :: "nat \<Rightarrow> string \<Rightarrow> (raw_fields Request sync_channel, raw_fields) PeerHandler" where
  "idle_task i who \<equiv>
     \<lparr>stream_in = [], stream_out = [], peer_id = who, h_id = of_nat (Suc i), h_req_tx = i,
      req_rx = \<lparr>bound = 10, buffer = []\<rparr>, reads = Reading, cmds = AtRecv, stage_of = Running\<rparr>"

abbreviation answers_from :: "SocketAddr \<Rightarrow> answers" where
  "answers_from a \<equiv> \<lparr>peer_addr = Inr a, now_new = 1, now_ping = 2\<rparr>"

abbreviation request_of :: "string \<Rightarrow> raw_fields ReqCmd \<Rightarrow> raw_fields Request" where
  "request_of who c \<equiv> (Request_new wire_rt)\<lparr>req_id := who, req_cmd := Some c\<rparr>"

abbreviation peer_of :: "nat \<Rightarrow> SocketAddr \<Rightarrow> PeerState" where
  "peer_of i a \<equiv> \<lparr>p_id = of_nat (Suc i), last_ping = 1, req_tx = i, addr = a\<rparr>"

text \<open>
  Executions on concrete frames, with the concrete codec and channel: a ping of \<open>a\<close> is
  \<open>0 5 10 1 97 18 0\<close> on the stream.
\<close>

abbreviation ping_frame :: "u8 \<Rightarrow> bytes" where
  "ping_frame c \<equiv> [0, 5, 10, 1, c, 18, 0]"

abbreviation isync_frame :: "u8 \<Rightarrow> u8 \<Rightarrow> bytes" where
  "isync_frame c d \<equiv> [0, 8, 10, 1, c, 26, 3, 10, 1, d]"

abbreviation refused :: answers where
  "refused \<equiv> \<lparr>peer_addr = Inl (new_error OsError ''not connected''), now_new = 1, now_ping = 2\<rparr>"

abbreviation from_a :: answers where
  "from_a \<equiv> answers_from (V4 (Ipv4 1 2 3 4) 5)"

abbreviation handled :: "nat \<Rightarrow> label list" where
  "handled i \<equiv> [Read i, Enqueue i, Receive i from_a, Written i (Inr ()) (Inr ())]"

lemma run_reachable: "wire_execs ls = Some s \<Longrightarrow> reachable wire_rt std_channel std_read_exact s"
  by (rule reachable_execs[OF _ started_reachable])

section \<open>What the handlers answer\<close>

definition tcp_table :: "PeerMap \<Rightarrow> table" where
  "tcp_table m k = map_option addr (entries m k)"

context pb_runtime
begin

lemma tcp_response:
  assumes "RespCmd_clean rt cmd"
  shows "\<exists>vec. send_response rt cmd = Waits (AtWrite vec) \<and> note_of_bytes rt vec = Some ([], note_of_cmd cmd)"
proof -
  have eq: "(Response_new rt)\<lparr>resp_cmd := Some cmd\<rparr> = response rt [] cmd"
    by (simp add: response_def Response_new_def)
  have "Response_write_to_bytes rt (response rt [] cmd) = Inr (Response_wire rt (response rt [] cmd))"
    by (rule Response_write_clean[OF response_clean[OF text_ok_Nil assms]])
  moreover have "note_of_bytes rt (Response_wire rt (response rt [] cmd)) = Some ([], note_of_cmd cmd)"
    using delivery_of_response[OF text_ok_Nil assms, of undefined] by (simp add: delivery_of_def)
  ultimately show ?thesis by (simp add: send_response_def eq Let_def)
qed

end

lemma insert_peerstate_table:
  assumes "\<not> poisoned m" "peer_addr w = Inr a"
    and "\<And>p. entries m who = Some p \<Longrightarrow> p_id p = h_id h \<Longrightarrow> addr p = a"
  shows "\<exists>m'. insert_peerstate w who (m, h) = ((m', h\<lparr>peer_id := who\<rparr>), Ret ())
    \<and> tcp_table m' = (tcp_table m)(who \<mapsto> a) \<and> \<not> poisoned m'
    \<and> (\<exists>p. entries m' who = Some p \<and> p_id p = h_id h
         \<and> (\<forall>p0. entries m who = Some p0 \<and> p_id p0 = h_id h \<longrightarrow> req_tx p = req_tx p0)
         \<and> ((\<forall>p0. entries m who = Some p0 \<longrightarrow> p_id p0 \<noteq> h_id h) \<longrightarrow> req_tx p = h_req_tx h))"
proof (cases "entries m who")
  case None
  then show ?thesis
    using assms(1,2) by (auto simp: insert_peerstate_def tcp_table_def Let_def fun_eq_iff)
next
  case (Some p)
  then show ?thesis
    using assms by (cases "p_id p = h_id h") (auto simp: insert_peerstate_def tcp_table_def Let_def fun_eq_iff)
qed

text \<open>Registration over TCP: a ping puts the sender's observed address into the table
  under its identity, as in the abstract rendezvous, replaces an entry of another
  connection, and is answered with a Pong on the same connection.\<close>

theorem tcp_ping_registers:
  assumes "pb_runtime rt" "req_cmd req = Some (ReqPing ping)" "req_id req = who"
    and "\<not> poisoned m" "peer_addr w = Inr a"
    and "\<forall>p. entries m who = Some p \<and> p_id p = h_id h \<longrightarrow> addr p = a \<and> req_tx p = h_req_tx h"
  shows "\<exists>m' h' vec p n. handle_cmd rt w req (m, h) = ((m', h'), Waits (AtWrite vec))
    \<and> note_of_bytes rt vec = Some ([], n)
    \<and> rendezvous who CPing a (tcp_table m) = (tcp_table m', [(a, who, n)])
    \<and> peer_id h' = who \<and> entries m' who = Some p \<and> p_id p = h_id h \<and> req_tx p = h_req_tx h"
proof -
  have c: "RespCmd_clean rt (RespPong (Pong_new rt))"
    using pb_runtime.pong_clean[OF assms(1)] by simp
  obtain vec where vec: "send_response rt (RespPong (Pong_new rt)) = Waits (AtWrite vec)"
      "note_of_bytes rt vec = Some ([], NPong)"
    using pb_runtime.tcp_response[OF assms(1) c] by auto
  obtain m' p where m': "insert_peerstate w who (m, h) = ((m', h\<lparr>peer_id := who\<rparr>), Ret ())"
      "tcp_table m' = (tcp_table m)(who \<mapsto> a)" "entries m' who = Some p" "p_id p = h_id h"
      "\<forall>p0. entries m who = Some p0 \<and> p_id p0 = h_id h \<longrightarrow> req_tx p = req_tx p0"
      "(\<forall>p0. entries m who = Some p0 \<longrightarrow> p_id p0 \<noteq> h_id h) \<longrightarrow> req_tx p = h_req_tx h"
    using insert_peerstate_table[of m w a who h] assms(4,5,6) by blast
  then have "req_tx p = h_req_tx h" using assms(6) by (metis (no_types))
  with m' vec assms(2,3) show ?thesis by (simp add: handle_cmd_def handle_ping_def Let_def)
qed

text \<open>A connection request over TCP to a registered peer: the request is forwarded to
  the connection that owns the entry, which writes an Fsync with the requester's
  observed address, and the requester is registered, as in the abstract rendezvous.\<close>

theorem tcp_isync_forwarded:
  assumes "pb_runtime rt" "req_cmd req = Some (ReqIsync isync)" "req_id req = who" "texts_ok req"
    and "\<not> poisoned m" "peer_addr w = Inr a" "entries m (isync_id isync) = Some peer"
    and "\<forall>p. entries m who = Some p \<and> p_id p = h_id h \<longrightarrow> addr p = a"
  shows "\<exists>fwd m' h' n. handle_cmd rt w req (m, h) = ((m, h), Waits (AtSend (req_tx peer) fwd (Some who)))
    \<and> resume_send w (Some who) (m, h) = ((m', h'), Ends (Inr ()))
    \<and> rendezvous who (CIsync (isync_id isync)) a (tcp_table m) = (tcp_table m', [(addr peer, isync_id isync, n)])
    \<and> (\<forall>w2 mh2. \<exists>vec. handle_cmd rt w2 fwd mh2 = (mh2, Waits (AtWrite vec)) \<and> note_of_bytes rt vec = Some ([], n))"
proof -
  let ?f = "(Fsync_new rt)\<lparr>fsync_id := who, fsync_addr := show_addr a\<rparr>"
  have "text_ok who" using assms(3,4) by (simp add: texts_ok_def)
  then have c: "RespCmd_clean rt (RespFsync ?f)"
    using pb_runtime.fsync_clean[OF assms(1)] by simp
  obtain vec where vec: "send_response rt (RespFsync ?f) = Waits (AtWrite vec)"
      "note_of_bytes rt vec = Some ([], NFsync who (show_addr a))"
    using pb_runtime.tcp_response[OF assms(1) c] by auto
  obtain m' where m': "insert_peerstate w who (m, h) = ((m', h\<lparr>peer_id := who\<rparr>), Ret ())"
      "tcp_table m' = (tcp_table m)(who \<mapsto> a)"
    using insert_peerstate_table[of m w a who h] assms(5,6,8) by blast
  show ?thesis
    using vec m' assms(2,3,5,6,7)
    by (auto simp: handle_cmd_def handle_isync_def handle_fsync_def resume_send_def Request_set_Fsync_def
        tcp_table_def Let_def)
qed

text \<open>A connection request over TCP to an unknown peer changes nothing and is answered
  with a redirect that has no address.\<close>

theorem tcp_isync_unknown:
  assumes "pb_runtime rt" "req_cmd req = Some (ReqIsync isync)" "texts_ok req"
    and "\<not> poisoned m" "entries m (isync_id isync) = None"
  shows "\<exists>vec n. handle_cmd rt w req (m, h) = ((m, h), Waits (AtWrite vec)) \<and> note_of_bytes rt vec = Some ([], n)
    \<and> rendezvous (req_id req) (CIsync (isync_id isync)) a (tcp_table m) = (tcp_table m, [(a, req_id req, n)])"
proof -
  let ?r = "(Redirect_new rt)\<lparr>redirect_id := isync_id isync\<rparr>"
  have "text_ok (isync_id isync)" using assms(2,3) by (simp add: texts_ok_def)
  then have c: "RespCmd_clean rt (RespRedirect ?r)"
    using pb_runtime.redirect_empty_clean[OF assms(1)] by simp
  obtain vec where vec: "send_response rt (RespRedirect ?r) = Waits (AtWrite vec)"
      "note_of_bytes rt vec = Some ([], NRedirect (isync_id isync) [])"
    using pb_runtime.tcp_response[OF assms(1) c] by auto
  then show ?thesis
    using assms(2,4,5) by (simp add: handle_cmd_def handle_isync_def tcp_table_def Let_def)
qed

text \<open>A reply over TCP: it is forwarded to the connection registered under the
  requester's identity, and that connection writes the redirect with the address of the
  replying peer, as in the abstract rendezvous.\<close>

theorem tcp_rsync_redirects:
  assumes "pb_runtime rt" "req_cmd req = Some (ReqRsync rsync)" "req_id req = who" "texts_ok req"
    and "\<not> poisoned m" "entries m (rsync_id rsync) = Some peer" "rsync_id rsync \<noteq> peer_id h"
    and "\<not> poisoned m2" "peer_id h2 = rsync_id rsync" "entries m2 who = Some src" "addr src = a"
  shows "\<exists>fwd vec n. handle_cmd rt w req (m, h) = ((m, h), Waits (AtSend (req_tx peer) fwd None))
    \<and> handle_cmd rt w2 fwd (m2, h2) = ((m2, h2), Waits (AtWrite vec)) \<and> note_of_bytes rt vec = Some ([], n)
    \<and> rendezvous who (CRsync (rsync_id rsync)) a (tcp_table m) = (tcp_table m, [(addr peer, rsync_id rsync, n)])"
proof -
  let ?r = "(Redirect_new rt)\<lparr>redirect_id := who, redirect_addr := show_addr a\<rparr>"
  have "text_ok who" using assms(3,4) by (simp add: texts_ok_def)
  then have c: "RespCmd_clean rt (RespRedirect ?r)"
    using pb_runtime.redirect_clean[OF assms(1)] by simp
  obtain vec where vec: "send_response rt (RespRedirect ?r) = Waits (AtWrite vec)"
      "note_of_bytes rt vec = Some ([], NRedirect who (show_addr a))"
    using pb_runtime.tcp_response[OF assms(1) c] by auto
  then show ?thesis
    using assms(2,3,5-11) by (auto simp: handle_cmd_def handle_rsync_def tcp_table_def Let_def)
qed

theorem tcp_ping_registers_witness:
  "\<exists>m' h' vec p. handle_cmd wire_rt (answers_from (V4 (Ipv4 1 2 3 4) 5)) (request_of ''c1'' (ReqPing (Ping_new wire_rt)))
      (\<lparr>entries = Map.empty, poisoned = False\<rparr>, idle_task 0 '''') = ((m', h'), Waits (AtWrite vec))
    \<and> entries m' ''c1'' = Some p \<and> req_tx p = 0"
  using tcp_ping_registers[OF wire.pb_runtime_axioms, of "request_of ''c1'' (ReqPing (Ping_new wire_rt))" "Ping_new wire_rt"
      "''c1''" "\<lparr>entries = Map.empty, poisoned = False\<rparr>" "answers_from (V4 (Ipv4 1 2 3 4) 5)" "V4 (Ipv4 1 2 3 4) 5" "idle_task 0 ''''"]
  by fastforce

theorem tcp_isync_forwarded_witness:
  "\<exists>fwd m' h'. handle_cmd wire_rt (answers_from (V4 (Ipv4 1 2 3 4) 5))
        (request_of ''c2'' (ReqIsync ((Isync_new wire_rt)\<lparr>isync_id := ''c1''\<rparr>)))
        (\<lparr>entries = [''c1'' \<mapsto> peer_of 0 (V4 (Ipv4 5 6 7 8) 9)], poisoned = False\<rparr>, idle_task 1 '''')
      = ((\<lparr>entries = [''c1'' \<mapsto> peer_of 0 (V4 (Ipv4 5 6 7 8) 9)], poisoned = False\<rparr>, idle_task 1 ''''), Waits (AtSend 0 fwd (Some ''c2'')))
    \<and> resume_send (answers_from (V4 (Ipv4 1 2 3 4) 5)) (Some ''c2'')
        (\<lparr>entries = [''c1'' \<mapsto> peer_of 0 (V4 (Ipv4 5 6 7 8) 9)], poisoned = False\<rparr>, idle_task 1 '''') = ((m', h'), Ends (Inr ()))"
  (is "\<exists>fwd m' h'. handle_cmd wire_rt ?w ?req (?m, ?h) = _ \<and> _")
proof -
  have ok: "texts_ok ?req" by (simp add: texts_ok_def ascii_ok)
  show ?thesis
    using tcp_isync_forwarded[OF wire.pb_runtime_axioms _ _ ok, of "(Isync_new wire_rt)\<lparr>isync_id := ''c1''\<rparr>"
        "''c2''" ?m ?w "V4 (Ipv4 1 2 3 4) 5" "peer_of 0 (V4 (Ipv4 5 6 7 8) 9)" ?h]
    by fastforce
qed

theorem tcp_isync_unknown_witness:
  "\<exists>vec. handle_cmd wire_rt (answers_from (V4 (Ipv4 1 2 3 4) 5))
        (request_of ''c2'' (ReqIsync ((Isync_new wire_rt)\<lparr>isync_id := ''c1''\<rparr>)))
        (\<lparr>entries = Map.empty, poisoned = False\<rparr>, idle_task 1 '''')
      = ((\<lparr>entries = Map.empty, poisoned = False\<rparr>, idle_task 1 ''''), Waits (AtWrite vec))"
  (is "\<exists>vec. handle_cmd wire_rt ?w ?req (?m, ?h) = _")
proof -
  have ok: "texts_ok ?req" by (simp add: texts_ok_def ascii_ok)
  show ?thesis
    using tcp_isync_unknown[OF wire.pb_runtime_axioms _ ok, of "(Isync_new wire_rt)\<lparr>isync_id := ''c1''\<rparr>" ?m ?w ?h]
    by fastforce
qed

theorem tcp_rsync_redirects_witness:
  "\<exists>fwd vec. handle_cmd wire_rt (answers_from (V4 (Ipv4 1 2 3 4) 5))
        (request_of ''c1'' (ReqRsync ((Rsync_new wire_rt)\<lparr>rsync_id := ''c2''\<rparr>)))
        (\<lparr>entries = [''c2'' \<mapsto> peer_of 1 (V4 (Ipv4 5 6 7 8) 9), ''c1'' \<mapsto> peer_of 0 (V4 (Ipv4 1 2 3 4) 5)], poisoned = False\<rparr>,
          idle_task 0 ''c1'')
      = ((\<lparr>entries = [''c2'' \<mapsto> peer_of 1 (V4 (Ipv4 5 6 7 8) 9), ''c1'' \<mapsto> peer_of 0 (V4 (Ipv4 1 2 3 4) 5)], poisoned = False\<rparr>,
          idle_task 0 ''c1''), Waits (AtSend 1 fwd None))
    \<and> handle_cmd wire_rt (answers_from (V4 (Ipv4 5 6 7 8) 9)) fwd
        (\<lparr>entries = [''c2'' \<mapsto> peer_of 1 (V4 (Ipv4 5 6 7 8) 9), ''c1'' \<mapsto> peer_of 0 (V4 (Ipv4 1 2 3 4) 5)], poisoned = False\<rparr>,
          idle_task 1 ''c2'')
      = ((\<lparr>entries = [''c2'' \<mapsto> peer_of 1 (V4 (Ipv4 5 6 7 8) 9), ''c1'' \<mapsto> peer_of 0 (V4 (Ipv4 1 2 3 4) 5)], poisoned = False\<rparr>,
          idle_task 1 ''c2''), Waits (AtWrite vec))"
  (is "\<exists>fwd vec. handle_cmd wire_rt ?w ?req (?m, ?h) = _ \<and> handle_cmd wire_rt ?w2 fwd (?m, ?h2) = _")
proof -
  have ok: "texts_ok ?req" by (simp add: texts_ok_def ascii_ok)
  show ?thesis
    using tcp_rsync_redirects[OF wire.pb_runtime_axioms _ _ ok, of "(Rsync_new wire_rt)\<lparr>rsync_id := ''c2''\<rparr>"
        "''c1''" ?m "peer_of 1 (V4 (Ipv4 5 6 7 8) 9)" ?h ?m ?h2 "peer_of 0 (V4 (Ipv4 1 2 3 4) 5)" _ ?w ?w2]
    by fastforce
qed

text \<open>C4. Who owns an entry: in every reachable state, each entry of the table belongs to an
  accepted connection and carries its number, and a connection that has closed has no
  entry under the last identity it used.\<close>

theorem tcp_entries_owned:
  assumes "reachable rt ch rd s" "entries (peers s) k = Some p"
  shows "req_tx p < length (tasks s) \<and> p_id p = h_id (tasks s ! req_tx p)
    \<and> (stage_of (tasks s ! req_tx p) = Closed \<longrightarrow> peer_id (tasks s ! req_tx p) \<noteq> k)"
  using reachable_ok[OF assms(1)] assms(2) by (auto simp: server_ok_def)

lemma numbers_differ:
  assumes "of_nat (Suc i) = (of_nat (Suc j) :: u64)" "i < 2 ^ 64 - 1" "j < 2 ^ 64 - 1"
  shows "i = j"
proof -
  have "unat (of_nat (Suc i) :: u64) = Suc i" "unat (of_nat (Suc j) :: u64) = Suc j"
    using assms(2,3) by (intro unat_of_nat_small; simp)+
  then show ?thesis using assms(1) by (metis nat.inject)
qed

text \<open>C7. A newer registration survives the end of an older connection: with fewer than
  2 to the 64 connections, the end of a connection removes no entry of another one.\<close>

theorem tcp_newer_connection_kept:
  assumes "reachable rt ch rd s" "length (tasks s) < 2 ^ 64"
    and "exec rt ch rd (Finish i) s = Some s'" "entries (peers s) k = Some p" "req_tx p \<noteq> i"
  shows "entries (peers s') k = Some p"
proof -
  have ok: "server_ok s" by (rule reachable_ok[OF assms(1)])
  have i: "i < length (tasks s)" and s': "s' = put i (handle_stream_end (peers s, tasks s ! i)) s"
    using assms(3) by (auto split: if_splits)
  obtain m' h' where e: "handle_stream_end (peers s, tasks s ! i) = (m', h')" by fastforce
  have p: "req_tx p < length (tasks s)" "p_id p = of_nat (Suc (req_tx p))" "h_id (tasks s ! i) = of_nat (Suc i)"
    using ok assms(4) i unfolding server_ok_def by blast+
  have "p_id p \<noteq> h_id (tasks s ! i)"
    using numbers_differ[of "req_tx p" i] assms(2,5) p i by auto
  then show ?thesis
    using handle_stream_end_effect[OF e] assms(4) by (auto simp: s' e split: if_splits)
qed

section \<open>The queues\<close>

text \<open>A move leaves each queue alone, puts one request in, or takes one out.\<close>

definition queue_step :: "('q, 'm) mpsc \<Rightarrow> 'q \<Rightarrow> 'q \<Rightarrow> bool" where
  "queue_step ch q q' \<longleftrightarrow> q' = q \<or> (\<exists>m. mpsc_send ch m q = Some q') \<or> (\<exists>m. mpsc_recv ch q = Some (m, q'))"

lemma queue_step_refl [simp]: "queue_step ch q q"
  by (simp add: queue_step_def)

lemma settle_queue:
  "req_rx (snd (settle (handle_cmd rt w req (m, h)))) = req_rx h"
  "req_rx (snd (settle (resume_send w after (m, h)))) = req_rx h"
proof -
  obtain m' h' f where r: "handle_cmd rt w req (m, h) = ((m', h'), f)" by (metis prod.collapse)
  show "req_rx (snd (settle (handle_cmd rt w req (m, h)))) = req_rx h"
    using handle_cmd_effect[OF r] by (auto simp: r settle_def)
  obtain m' h' f where r: "resume_send w after (m, h) = ((m', h'), f)" by (metis prod.collapse)
  show "req_rx (snd (settle (resume_send w after (m, h)))) = req_rx h"
    using resume_send_effect[OF r] by (auto simp: r settle_def)
qed

lemma exec_queue:
  assumes "exec rt ch rd l s = Some s'" "j < length (tasks s')"
  shows "if j < length (tasks s) then queue_step ch (req_rx (tasks s ! j)) (req_rx (tasks s' ! j))
    else req_rx (tasks s' ! j) = mpsc_new ch 10"
proof (cases l)
  case (Accept stream)
  with assms show ?thesis by (auto simp: accept_def next_id_def Let_def nth_append less_Suc_eq split: if_splits)
next
  case (Read i)
  with assms show ?thesis
    by (auto simp: read_round_def nth_update split: if_splits outcome.splits sum.splits)
next
  case (Enqueue i)
  with assms show ?thesis
    by (auto simp: enqueue_def nth_update queue_step_def split: if_splits reading.splits)
next
  case (Receive i w)
  with assms(1) obtain req q where "mpsc_recv ch (req_rx (tasks s ! i)) = Some (req, q)"
    and "s' = put i (settle (handle_cmd rt w req (peers s, (tasks s ! i)\<lparr>req_rx := q\<rparr>))) s"
    by (auto split: if_splits)
  then show ?thesis using assms(2) by (simp add: nth_update settle_queue) (auto simp: queue_step_def)
next
  case (Forward i w)
  with assms(1) obtain k req after ts where p: "push ch k req (tasks s) = Some ts"
    and s': "s' = put i (settle (resume_send w after (peers s, ts ! i))) (s\<lparr>tasks := ts\<rparr>)"
    by (auto split: if_splits waiting.splits)
  have "j < length (tasks s) \<Longrightarrow> queue_step ch (req_rx (tasks s ! j)) (req_rx (ts ! j))"
    using p by (auto simp: push_def nth_update queue_step_def split: if_splits)
  then show ?thesis using assms(2) push_effect[OF p] by (simp add: s' nth_update settle_queue)
next
  case (Written i r1 r2)
  with assms show ?thesis
    by (auto simp: nth_update resume_write_def split: if_splits waiting.splits prod.splits)
next
  case (Finish i)
  with assms show ?thesis
    by (auto simp: nth_update handle_stream_end_def Let_def split: if_splits outcome.splits)
qed (use assms in \<open>auto simp: nth_update split: if_splits\<close>)

context bounded_channel
begin

lemma queue_step_bounded:
  assumes "queue_step ch q q'" "capacity q = n \<and> length (items q) \<le> n"
  shows "capacity q' = n \<and> length (items q') \<le> n"
proof -
  consider "q' = q" | m where "mpsc_send ch m q = Some q'" | m where "mpsc_recv ch q = Some (m, q')"
    using assms(1) unfolding queue_step_def by blast
  then show ?thesis
  proof cases
    case (2 m)
    then show ?thesis using sendD[OF 2] send_bounded[OF 2] assms(2) by simp
  next
    case (3 m)
    then show ?thesis using recvD[OF 3] recv_bounded[OF 3] assms(2) by simp
  qed (use assms(2) in simp)
qed

end

lemma exec_bounded:
  assumes ch: "bounded_channel ch items capacity" and "exec rt ch rd l s = Some s'"
    and "\<forall>i < length (tasks s). capacity (req_rx (tasks s ! i)) = 10 \<and> length (items (req_rx (tasks s ! i))) \<le> 10"
  shows "\<forall>i < length (tasks s'). capacity (req_rx (tasks s' ! i)) = 10 \<and> length (items (req_rx (tasks s' ! i))) \<le> 10"
proof (intro allI impI)
  fix i assume i: "i < length (tasks s')"
  show "capacity (req_rx (tasks s' ! i)) = 10 \<and> length (items (req_rx (tasks s' ! i))) \<le> 10"
  proof (cases "i < length (tasks s)")
    case True
    then show ?thesis
      using bounded_channel.queue_step_bounded[OF ch, of "req_rx (tasks s ! i)" "req_rx (tasks s' ! i)" 10]
        exec_queue[OF assms(2) i] assms(3) by simp
  next
    case False
    then show ?thesis
      using exec_queue[OF assms(2) i] bounded_channel.new_channel[OF ch, of 10] by simp
  qed
qed

lemma reachable_bounded:
  assumes "bounded_channel ch items capacity" "reachable rt ch rd s"
  shows "\<forall>i < length (tasks s). capacity (req_rx (tasks s ! i)) = 10 \<and> length (items (req_rx (tasks s ! i))) \<le> 10"
  using assms(2)
proof (induction rule: reachable.induct)
  case (created os a v6 s)
  then show ?case by (auto simp: Server_new_def res_bind_eq_Inr)
next
  case (moved s l s')
  then show ?case using exec_bounded[OF assms(1)] by blast
qed

text \<open>Bounded memory: in every reachable state no connection's queue holds more than the
  ten requests it was created for.\<close>

theorem tcp_queues_bounded:
  assumes "bounded_channel ch items capacity" "reachable rt ch rd s" "i < length (tasks s)"
  shows "length (items (req_rx (tasks s ! i))) \<le> 10"
  using reachable_bounded[OF assms(1,2)] assms(3) by blast

section \<open>A connection that waits for itself\<close>

text \<open>
  The task waits for room in its own full queue: the half that handles requests does, and in
  \<open>self_wait\<close> the half that reads does too, with one more request in its hands.
\<close>

definition self_send :: "('q \<Rightarrow> 'm list) \<Rightarrow> ('q \<Rightarrow> nat) \<Rightarrow> nat \<Rightarrow> ('q, 'u) Server \<Rightarrow> bool" where
  "self_send items capacity i s \<longleftrightarrow> running i s
     \<and> (case cmds (tasks s ! i) of AtSend j req after \<Rightarrow> j = i | _ \<Rightarrow> False)
     \<and> capacity (req_rx (tasks s ! i)) \<le> length (items (req_rx (tasks s ! i)))"

definition self_wait :: "('q \<Rightarrow> 'm list) \<Rightarrow> ('q \<Rightarrow> nat) \<Rightarrow> nat \<Rightarrow> ('q, 'u) Server \<Rightarrow> bool" where
  "self_wait items capacity i s \<longleftrightarrow> self_send items capacity i s \<and> reads (tasks s ! i) \<noteq> Reading"

text \<open>The half that handles requests never moves again before the read timeout.\<close>

definition same_task :: "('q, 'u) PeerHandler \<Rightarrow> ('q, 'u) PeerHandler \<Rightarrow> bool" where
  "same_task h h' \<longleftrightarrow> cmds h' = cmds h \<and> req_rx h' = req_rx h \<and> stream_out h' = stream_out h \<and> stage_of h' = stage_of h
     \<and> (reads h \<noteq> Reading \<longrightarrow> h' = h)"

lemma same_task_refl [simp]: "same_task h h"
  by (simp add: same_task_def)

lemma same_task_trans: "same_task h h1 \<Longrightarrow> same_task h1 h2 \<Longrightarrow> same_task h h2"
  by (auto simp: same_task_def)

lemma read_round_same: "read_round rt rd h = Some h' \<Longrightarrow> reads h = Reading \<Longrightarrow> same_task h h' \<and> reads h' \<noteq> Reading"
  by (auto simp: read_round_def same_task_def Let_def split: outcome.splits sum.splits prod.splits)

lemma self_send_kept:
  assumes "bounded_channel ch items capacity" "self_send items capacity i s" "exec rt ch rd l s = Some s'"
    and "l = Elapsed i \<longrightarrow> reads (tasks s ! i) \<noteq> Reading"
  shows "same_task (tasks s ! i) (tasks s' ! i) \<and> running i s'"
proof -
  obtain req after where i: "i < length (tasks s)" "stage_of (tasks s ! i) = Running"
    and c: "cmds (tasks s ! i) = AtSend i req after"
    and full: "\<And>m. mpsc_send ch m (req_rx (tasks s ! i)) = None"
    using assms(2) bounded_channel.send_full[OF assms(1)] by (auto simp: self_send_def running_def split: waiting.splits)
  show ?thesis
  proof (cases l)
    case (Accept stream)
    with assms(3) i show ?thesis by (auto simp: running_def accept_def next_id_def Let_def nth_append split: if_splits)
  next
    case (Read k)
    show ?thesis
    proof (cases "k = i")
      case True
      then obtain h where h: "reads (tasks s ! i) = Reading" "read_round rt rd (tasks s ! i) = Some h" "s' = put i (peers s, h) s"
        using assms(3) Read by (auto split: if_splits)
      then show ?thesis using read_round_same[OF h(2,1)] i by (simp add: running_def same_task_def)
    next
      case False
      with assms(3) i Read show ?thesis by (auto simp: running_def split: if_splits)
    qed
  next
    case (Enqueue k)
    with assms(3) i full show ?thesis
      by (auto simp: running_def enqueue_def nth_list_update split: if_splits reading.splits)
  next
    case (Forward k w)
    with assms(3) i c full show ?thesis
      by (auto simp: running_def push_def nth_list_update split: if_splits waiting.splits)
  next
    case (Written k r1 r2)
    with assms(3) i c show ?thesis
      by (auto simp: running_def nth_list_update split: if_splits waiting.splits)
  qed (use assms(3,4) i c in \<open>auto simp: running_def nth_list_update split: if_splits\<close>)
qed

lemma self_send_same:
  assumes "self_send items capacity i s" "same_task (tasks s ! i) (tasks s' ! i)" "running i s'"
  shows "self_send items capacity i s'"
  using assms by (simp add: self_send_def same_task_def)

lemma self_send_execs:
  assumes "bounded_channel ch items capacity" "self_send items capacity i s" "execs rt ch rd ls s = Some s'"
    and "reads (tasks s ! i) = Reading \<longrightarrow> Elapsed i \<notin> set ls"
  shows "self_send items capacity i s' \<and> same_task (tasks s ! i) (tasks s' ! i)"
  using assms(2-4)
proof (induction ls arbitrary: s)
  case Nil
  then show ?case by simp
next
  case (Cons l ls)
  then obtain s1 where s1: "exec rt ch rd l s = Some s1" "execs rt ch rd ls s1 = Some s'" by (auto split: option.splits)
  have k: "same_task (tasks s ! i) (tasks s1 ! i) \<and> running i s1"
    using self_send_kept[OF assms(1) Cons.prems(1) s1(1)] Cons.prems(3) by auto
  then have "reads (tasks s1 ! i) = Reading \<longrightarrow> Elapsed i \<notin> set ls"
    using Cons.prems(3) by (auto simp: same_task_def)
  with Cons.IH[OF _ s1(2)] self_send_same[OF Cons.prems(1)] k same_task_trans show ?case by blast
qed

text \<open>C32. Self-deadlock: take a connection that has asked for a connection to its own identity
  while its queue is full, and waits for room in it. If its reader holds one more request,
  for which it waits for room as well, then no further move, of any connection and not
  even the read timeout or the end of the stream, changes its task. If its reader is still reading,
  then only the thirty seconds of the read timeout can end it: until they have passed it
  handles nothing and answers nothing, and the next request it reads, or the end of its stream, before that
  leaves it in the first state, for ever.\<close>

theorem tcp_self_wait_forever:
  assumes "bounded_channel ch items capacity" "self_send items capacity i s" "execs rt ch rd ls s = Some s'"
  shows "(self_wait items capacity i s \<longrightarrow> tasks s' ! i = tasks s ! i \<and> running i s')
    \<and> (Elapsed i \<notin> set ls \<longrightarrow> self_send items capacity i s' \<and> cmds (tasks s' ! i) = cmds (tasks s ! i)
        \<and> stream_out (tasks s' ! i) = stream_out (tasks s ! i)
        \<and> (\<forall>s''. exec rt ch rd (Read i) s' = Some s'' \<longrightarrow> self_wait items capacity i s''))"
proof (intro conjI impI)
  note run = self_send_execs[OF assms]
  show "tasks s' ! i = tasks s ! i" "running i s'" if "self_wait items capacity i s"
    using run that by (auto simp: self_wait_def self_send_def same_task_def)
  assume none: "Elapsed i \<notin> set ls"
  then have s': "self_send items capacity i s'" "same_task (tasks s ! i) (tasks s' ! i)" using run by blast+
  then show "self_send items capacity i s'" "cmds (tasks s' ! i) = cmds (tasks s ! i)"
      "stream_out (tasks s' ! i) = stream_out (tasks s ! i)"
    by (simp_all add: same_task_def)
  show "\<forall>s''. exec rt ch rd (Read i) s' = Some s'' \<longrightarrow> self_wait items capacity i s''"
  proof (intro allI impI)
    fix s'' assume e: "exec rt ch rd (Read i) s' = Some s''"
    then obtain h where h: "reads (tasks s' ! i) = Reading" "read_round rt rd (tasks s' ! i) = Some h" "s'' = put i (peers s', h) s'"
      by (auto split: if_splits)
    have i: "i < length (tasks s')" using s'(1) by (simp add: self_send_def running_def)
    have "self_send items capacity i s''"
      using self_send_kept[OF assms(1) s'(1) e] self_send_same[OF s'(1)] by simp
    then show "self_wait items capacity i s''" using read_round_same[OF h(2,1)] h(3) i by (simp add: self_wait_def)
  qed
qed

section \<open>A poisoned table\<close>

lemma poisoned_exec:
  assumes "exec rt ch rd l s = Some s'" "poisoned (peers s)"
  shows "peers s' = peers s"
  using assms(1)
proof (cases rule: exec_cases)
  case (finish i)
  obtain m' h' where e: "handle_stream_end (peers s, tasks s ! i) = (m', h')" by fastforce
  then show ?thesis using assms(2) finish handle_stream_end_effect[OF e] by (simp split: if_splits)
qed (use assms(2) in \<open>auto simp: accept_def next_id_def Let_def task_step_def table_step_def\<close>)

lemma poisoned_handle_cmd:
  assumes "poisoned m" "call_of req \<noteq> CBye" "call_of req \<noteq> CUnknown"
  shows "\<exists>h'. handle_cmd rt w req (m, h) = ((m, h'), Panics)"
  using assms
  by (auto simp: handle_cmd_def handle_ping_def handle_isync_def handle_rsync_def insert_peerstate_def call_of_def Let_def
      split: option.splits ReqCmd.splits)

text \<open>C31. A poisoned table is for ever: once one task has panicked with the mutex locked, no
  move changes the table any more, and every task that takes a ping, a connection
  request or a reply from its queue panics, on every connection.\<close>

theorem tcp_poison_forever:
  assumes "poisoned (peers s)" "execs rt ch rd ls s = Some s'"
    and "exec rt ch rd (Receive i w) s' = Some s''" "mpsc_recv ch (req_rx (tasks s' ! i)) = Some (req, q)"
    and "call_of req \<noteq> CBye" "call_of req \<noteq> CUnknown"
  shows "peers s'' = peers s \<and> stage_of (tasks s'' ! i) = Panicked"
proof -
  have p: "peers s' = peers s"
    by (rule execs_preserves[where P = "\<lambda>t. peers t = peers s", OF _ _ assms(2)]) (use poisoned_exec assms(1) in force)+
  obtain h' where "handle_cmd rt w req (peers s', (tasks s' ! i)\<lparr>req_rx := q\<rparr>) = ((peers s', h'), Panics)"
    using poisoned_handle_cmd[of "peers s'" req] p assms(1,5,6) by metis
  then show ?thesis
    using assms(3,4) p by (auto simp: running_def settle_def follow_def split: if_splits)
qed

section \<open>The end of a connection\<close>

text \<open>A bad frame ends the connection: when the stream ends, a frame announces more than
  1500 bytes or its bytes are not a request, the farewell goes into the queue, the
  task closes, and its registration is removed.\<close>

theorem tcp_bad_frame_closes:
  assumes "bounded_channel ch items capacity" "running i s" "reads (tasks s ! i) = Reading"
    and "read_req rt rd (stream_in (tasks s ! i)) = Ret (Inl e)"
    and "length (items (req_rx (tasks s ! i))) < capacity (req_rx (tasks s ! i))" "\<not> poisoned (peers s)"
  shows "\<exists>s'. execs rt ch rd [Read i, Enqueue i, Finish i] s = Some s' \<and> stage_of (tasks s' ! i) = Closed
    \<and> (\<forall>p. entries (peers s') (peer_id (tasks s ! i)) = Some p \<longrightarrow> p_id p \<noteq> h_id (tasks s ! i))"
proof -
  obtain q where q: "mpsc_send ch (Request_set_Bye (Bye_new rt) (Request_new rt)) (req_rx (tasks s ! i)) = Some q"
    using bounded_channel.send_room[OF assms(1,5)] by blast
  then show ?thesis
    using assms(2,3,4,6)
    by (auto simp: running_def read_round_def enqueue_def handle_stream_end_def Let_def split: option.split)
qed

text \<open>Stale registrations: a connection that has used two identities leaves the first in
  the table when it closes, and a later request to that identity is neither forwarded
  nor answered: its sender is registered and waits for a reply that cannot come.\<close>

theorem tcp_stale_entry:
  "\<exists>ls s p. wire_execs ls = Some s
    \<and> entries (peers s) ''a'' = Some p \<and> stage_of (tasks s ! req_tx p) = Closed
    \<and> stream_in (tasks s ! 1) = [] \<and> stream_out (tasks s ! 1) = [] \<and> cmds (tasks s ! 1) = AtRecv
    \<and> req_rx (tasks s ! 1) = \<lparr>bound = 10, buffer = []\<rparr>"
proof -
  let ?ls = "Accept (ping_frame 97 @ ping_frame 98) # handled 0 @ handled 0 @ [Read 0, Enqueue 0, Finish 0]
    @ [Accept (isync_frame 99 97), Read 1, Enqueue 1, Receive 1 from_a, Forward 1 from_a]"
  have "(case wire_execs ?ls of None \<Rightarrow> False
    | Some s \<Rightarrow> (case entries (peers s) ''a'' of None \<Rightarrow> False
      | Some p \<Rightarrow> stage_of (tasks s ! req_tx p) = Closed) \<and> stream_in (tasks s ! 1) = [] \<and> stream_out (tasks s ! 1) = []
        \<and> cmds (tasks s ! 1) = AtRecv \<and> req_rx (tasks s ! 1) = \<lparr>bound = 10, buffer = []\<rparr>)"
    by code_simp
  from case_SomeD[OF this] show ?thesis by (blast dest: case_SomeD)
qed

text \<open>One connection can poison the table: when its peer is gone before its first ping is
  handled, \<open>peer_addr\<close> fails, and the task panics with the mutex locked.\<close>

theorem tcp_poison_reachable:
  "\<exists>ls s. wire_execs ls = Some s \<and> poisoned (peers s) \<and> stage_of (tasks s ! 0) = Panicked"
proof -
  let ?ls = "[Accept (ping_frame 97), Read 0, Enqueue 0, Receive 0 refused]"
  have "(case wire_execs ?ls of None \<Rightarrow> False | Some s \<Rightarrow> poisoned (peers s) \<and> stage_of (tasks s ! 0) = Panicked)"
    by code_simp
  from case_SomeD[OF this] show ?thesis by blast
qed

theorem tcp_poison_forever_witness:
  "\<exists>s s' s''. poisoned (peers s) \<and> execs wire_rt std_channel std_read_exact [Read 0, Enqueue 0] s = Some s'
    \<and> exec wire_rt std_channel std_read_exact (Receive 0 from_a) s' = Some s'' \<and> stage_of (tasks s'' ! 0) = Panicked"
proof -
  let ?s = "\<lparr>peers = \<lparr>entries = Map.empty, poisoned = True\<rparr>, count = 1, accepting = True,
    tasks = [(idle_task 0 '''')\<lparr>stream_in := ping_frame 97\<rparr>]\<rparr>"
  have "(case execs wire_rt std_channel std_read_exact [Read 0, Enqueue 0] ?s of None \<Rightarrow> False
    | Some s' \<Rightarrow> (case mpsc_recv std_channel (req_rx (tasks s' ! 0)) of None \<Rightarrow> False
        | Some (req, q) \<Rightarrow> call_of req = CPing
           \<and> (case exec wire_rt std_channel std_read_exact (Receive 0 from_a) s' of None \<Rightarrow> False | Some _ \<Rightarrow> True)))"
    by code_simp
  from case_SomeD[OF this] obtain s' where r: "execs wire_rt std_channel std_read_exact [Read 0, Enqueue 0] ?s = Some s'"
    and "(case mpsc_recv std_channel (req_rx (tasks s' ! 0)) of None \<Rightarrow> False
        | Some (req, q) \<Rightarrow> call_of req = CPing
           \<and> (case exec wire_rt std_channel std_read_exact (Receive 0 from_a) s' of None \<Rightarrow> False | Some _ \<Rightarrow> True))"
    by blast
  from this(2) obtain req q s'' where q: "mpsc_recv std_channel (req_rx (tasks s' ! 0)) = Some (req, q)"
    and c: "call_of req = CPing" and e: "exec wire_rt std_channel std_read_exact (Receive 0 from_a) s' = Some s''"
    by (auto split: option.splits simp del: std_channel_sel exec.simps)
  have "stage_of (tasks s'' ! 0) = Panicked"
    using tcp_poison_forever[OF _ r e q] c by simp
  with r e show ?thesis by (intro exI[of _ ?s] exI[of _ s'] exI[of _ s'']) (simp del: exec.simps execs.simps)
qed

text \<open>The witness of the self-deadlock: a client that registers as \<open>a\<close> and sends a request to
  \<open>a\<close> followed by eleven pings.\<close>

theorem tcp_self_wait_forever_witness:
  "\<exists>ls s. wire_execs ls = Some s \<and> self_wait buffer bound 0 s
    \<and> execs wire_rt std_channel std_read_exact [Accept []] s = Some (accept std_channel [] s)
    \<and> tasks (accept std_channel [] s) ! 0 = tasks s ! 0"
proof -
  let ?ls = "Accept (concat (ping_frame 97 # isync_frame 97 97 # replicate 11 (ping_frame 97))) # handled 0
    @ concat (replicate 10 [Read 0, Enqueue 0]) @ [Read 0, Receive 0 from_a, Enqueue 0, Read 0]"
  have "(case wire_execs ?ls of None \<Rightarrow> False
    | Some s \<Rightarrow> accepting s \<and> self_wait buffer bound 0 s)"
    by code_simp
  from case_SomeD[OF this] obtain s where s: "wire_execs ?ls = Some s" and a: "accepting s"
    and w: "self_wait buffer bound 0 s" by blast
  have e: "execs wire_rt std_channel std_read_exact [Accept []] s = Some (accept std_channel [] s)"
    using a by simp
  have "self_send buffer bound 0 s" using w by (simp add: self_wait_def)
  from tcp_self_wait_forever[OF std_chan.bounded_channel_axioms this e]
  have "tasks (accept std_channel [] s) ! 0 = tasks s ! 0" using w by blast
  with s w e show ?thesis by blast
qed

theorem tcp_entries_owned_witness:
  "\<exists>ls s p. wire_execs ls = Some s \<and> entries (peers s) ''a'' = Some p \<and> req_tx p < length (tasks s)
    \<and> p_id p = h_id (tasks s ! req_tx p)"
proof -
  let ?ls = "Accept (ping_frame 97) # handled 0"
  have "(case wire_execs ?ls of None \<Rightarrow> False | Some s \<Rightarrow> entries (peers s) ''a'' \<noteq> None)"
    by code_simp
  from case_SomeD[OF this] obtain s p where s: "wire_execs ?ls = Some s" and p: "entries (peers s) ''a'' = Some p"
    by blast
  show ?thesis using tcp_entries_owned[OF run_reachable[OF s] p] s p by blast
qed

theorem tcp_newer_connection_kept_witness:
  "\<exists>ls s s' p. wire_execs ls = Some s \<and> exec wire_rt std_channel std_read_exact (Finish 0) s = Some s'
    \<and> entries (peers s') ''a'' = Some p \<and> req_tx p = 1"
proof -
  let ?ls = "[Accept (ping_frame 97), Accept (ping_frame 97)] @ handled 0 @ handled 1 @ [Read 0, Enqueue 0]"
  have "(case wire_execs ?ls of None \<Rightarrow> False | Some s \<Rightarrow> length (tasks s) = 2 \<and>
    (case entries (peers s) ''a'' of None \<Rightarrow> False | Some p \<Rightarrow> req_tx p = 1
      \<and> (case exec wire_rt std_channel std_read_exact (Finish 0) s of None \<Rightarrow> False | Some _ \<Rightarrow> True)))"
    by code_simp
  from case_SomeD[OF this] obtain s where s: "wire_execs ?ls = Some s" and n: "length (tasks s) = 2" and
    "(case entries (peers s) ''a'' of None \<Rightarrow> False | Some p \<Rightarrow> req_tx p = 1
      \<and> (case exec wire_rt std_channel std_read_exact (Finish 0) s of None \<Rightarrow> False | Some _ \<Rightarrow> True))"
    by blast
  from case_SomeD[OF this(3)] obtain p s' where p: "entries (peers s) ''a'' = Some p" "req_tx p = 1"
    and e: "exec wire_rt std_channel std_read_exact (Finish 0) s = Some s'"
    by (blast dest: case_SomeD)
  have "entries (peers s') ''a'' = Some p"
    using tcp_newer_connection_kept[OF run_reachable[OF s] _ e p(1)] n p(2) by simp
  with s p e show ?thesis by blast
qed

theorem tcp_queues_bounded_witness:
  "\<exists>s. wire_execs [Accept (ping_frame 97), Read 0, Enqueue 0] = Some s \<and> length (tasks s) = 1
    \<and> length (buffer (req_rx (tasks s ! 0))) \<le> 10"
proof -
  have "(case wire_execs [Accept (ping_frame 97), Read 0, Enqueue 0] of None \<Rightarrow> False | Some s \<Rightarrow> length (tasks s) = 1)"
    by code_simp
  from case_SomeD[OF this] obtain s where s: "wire_execs [Accept (ping_frame 97), Read 0, Enqueue 0] = Some s"
    and n: "length (tasks s) = 1" by blast
  show ?thesis
    using tcp_queues_bounded[OF std_chan.bounded_channel_axioms run_reachable[OF s], of 0] s n by auto
qed

theorem tcp_bad_frame_closes_witness:
  "\<exists>s'. execs wire_rt std_channel std_read_exact [Read 0, Enqueue 0, Finish 0]
      \<lparr>peers = \<lparr>entries = [''a'' \<mapsto> peer_of 0 (V4 (Ipv4 1 2 3 4) 5)], poisoned = False\<rparr>, count = 1, accepting = True,
       tasks = [(idle_task 0 ''a'')\<lparr>stream_in := [255, 255]\<rparr>]\<rparr> = Some s'
    \<and> stage_of (tasks s' ! 0) = Closed \<and> (\<forall>p. entries (peers s') ''a'' = Some p \<longrightarrow> p_id p \<noteq> 1)"
  (is "\<exists>s'. execs wire_rt std_channel std_read_exact _ ?s = Some s' \<and> _")
proof -
  have r: "running 0 ?s" by (simp add: running_def)
  have e: "read_req wire_rt std_read_exact (stream_in (tasks ?s ! 0))
      = Ret (Inl (new_error Other ''invalid message size''))"
    by (simp add: read_req_def std_read_exact_def from_be_bytes_def u16_of_bytes_def Let_def)
  show ?thesis
    using tcp_bad_frame_closes[OF std_chan.bounded_channel_axioms r _ e] by simp
qed

end
