(* ===== verification/Tcp_Client.thy ===== *)
theory Tcp_Client
  imports Rendezvous Framing Channel
begin

text \<open>
  The blocking TCP client, \<open>src/tcp/client.rs\<close>: the builder, its sockets, \<open>Client::connect\<close>,
  and the loops of the two threads that serve a connection with the server. The threads
  around these loops, with the signal they share, are in \<open>Tcp_Background\<close>.

  A socket is the operating system's answers to the calls on it and its two addresses.
  Name resolution and \<open>socket2\<close> are parameters; \<open>resolve k\<close> answers the \<open>k\<close>-th
  resolution of a call, since the code resolves the server's name twice.
\<close>

section \<open>Sockets\<close>

text \<open>
  \<open>local_addr\<close> of \<open>socket2\<close> gives an address that need not be an internet address, hence
  the \<open>option\<close>. \<open>to_try_clone k\<close> answers the \<open>k\<close>-th \<open>try_clone\<close>.
\<close>

record tcp_os =
  to_new :: "io_error + unit"
  to_set_reuse_address :: "io_error + unit"
  to_set_reuse_port :: "io_error + unit"
  to_bind :: "SocketAddr \<Rightarrow> io_error + unit"
  to_connect :: "SocketAddr \<Rightarrow> io_error + unit"
  to_local_addr :: "io_error + SocketAddr option"
  to_listen :: "nat \<Rightarrow> io_error + unit"
  to_try_clone :: "nat \<Rightarrow> io_error + unit"

record Socket =
  sk_os :: tcp_os
  bound_to :: SocketAddr
  remote :: "SocketAddr option"

type_synonym resolver = "nat \<Rightarrow> string \<Rightarrow> io_error + SocketAddr list"

record Client =
  server_addr :: string
  client_id :: string
  listener :: "Socket option"
  local_addr :: "SocketAddr option"

definition new :: "string \<Rightarrow> string \<Rightarrow> SocketAddr option \<Rightarrow> io_error + Client" where
  "new server who la = Inr \<lparr>server_addr = server, client_id = who, listener = None, local_addr = la\<rparr>"

definition as_socket :: "Client \<Rightarrow> Socket option outcome" where
  "as_socket c =
     (case listener c of
        None \<Rightarrow> Ret None
      | Some l \<Rightarrow> and_then (unwrap (to_try_clone (sk_os l) 0)) (\<lambda>_. Ret (Some l)))"

text \<open>\<open>to_socket_addrs()?.next().ok_or_else(..)?\<close>.\<close>

definition resolve_first :: "(string \<Rightarrow> io_error + SocketAddr list) \<Rightarrow> string \<Rightarrow> io_error + SocketAddr" where
  "resolve_first resolve name =
     res_bind (resolve name) (\<lambda>addrs.
     case addrs of [] \<Rightarrow> Inl (new_error Other ''server name resolve fail'') | a # _ \<Rightarrow> Inr a)"

definition choose_bind_addr :: "(string \<Rightarrow> io_error + SocketAddr list) \<Rightarrow> Client \<Rightarrow> (io_error + SocketAddr) outcome" where
  "choose_bind_addr resolve c =
     (case local_addr c of
        Some a \<Rightarrow> Ret (Inr a)
      | None \<Rightarrow>
          ques (resolve_first resolve (server_addr c)) (\<lambda>server.
          and_then
            (case server of
               V4 ip p \<Rightarrow> unwrap_some (parse_addr ''0.0.0.0:0'')
             | V6 ip p fl sc \<Rightarrow> unwrap_some (parse_addr ''[::]:0'')) (\<lambda>a.
          Ret (Inr a))))"

definition bind :: "tcp_os \<Rightarrow> SocketAddr \<Rightarrow> (io_error + Socket) outcome" where
  "bind os a =
     and_then (unwrap (to_new os)) (\<lambda>_.
     ques (to_set_reuse_address os) (\<lambda>_.
     ques (to_set_reuse_port os) (\<lambda>_.
     ques (to_bind os a) (\<lambda>_.
     Ret (Inr \<lparr>sk_os = os, bound_to = a, remote = None\<rparr>)))))"

definition connect_socket :: "Socket \<Rightarrow> SocketAddr \<Rightarrow> io_error + Socket" where
  "connect_socket sk a = res_bind (to_connect (sk_os sk) a) (\<lambda>_. Inr (sk\<lparr>remote := Some a\<rparr>))"

definition connect_server ::
  "(string \<Rightarrow> io_error + SocketAddr list) \<Rightarrow> tcp_os \<Rightarrow> SocketAddr \<Rightarrow> string \<Rightarrow> (io_error + Socket) outcome" where
  "connect_server resolve os la server =
     ques_call (bind os la) (\<lambda>svr.
     ques (resolve_first resolve server) (\<lambda>a.
     ques (connect_socket svr a) (\<lambda>svr.
     Ret (Inr svr))))"

text \<open>\<open>local_addr().unwrap().as_socket().unwrap()\<close>.\<close>

definition socket_addr :: "tcp_os \<Rightarrow> SocketAddr outcome" where
  "socket_addr os = and_then (unwrap (to_local_addr os)) unwrap_some"

section \<open>Connecting to a peer\<close>

text \<open>
  What \<open>connect\<close> meets: the answers for the socket to the server and for that to the
  peer, the results of the two writes, and the bytes that the server sends.
\<close>

record connect_env =
  ce_resolve :: resolver
  ce_server :: tcp_os
  ce_peer :: tcp_os
  ce_write1 :: write_result
  ce_write2 :: write_result
  ce_in :: bytes

text \<open>From the response on.\<close>

definition connect_redirected ::
  "'u pb_rt \<Rightarrow> connect_env \<Rightarrow> Socket \<Rightarrow> (io_error + Socket) outcome" where
  "connect_redirected rt env svr =
     ques_call (read_resp rt std_read_exact (ce_in env)) (\<lambda>(resp, _).
     ques (case resp_cmd resp of
             Some (RespRedirect rdr) \<Rightarrow> Inr (redirect_addr rdr)
           | _ \<Rightarrow> Inl (new_error Other ''invalid server response'')) (\<lambda>addr.
     ques (case parse_addr addr of
             Some a \<Rightarrow> Inr a
           | None \<Rightarrow> Inl (new_error Other ''target id not found'')) (\<lambda>target_addr.
     and_then (socket_addr (sk_os svr)) (\<lambda>la.
     ques_call (bind (ce_peer env) la) (\<lambda>s.
     ques (connect_socket s target_addr) (\<lambda>s.
     Ret (Inr s)))))))"

text \<open>\<open>Client::connect\<close>: its result and the bytes it sent to the server.\<close>

definition connect ::
  "'u pb_rt \<Rightarrow> connect_env \<Rightarrow> Client \<Rightarrow> string \<Rightarrow> ((io_error + Socket) \<times> bytes) outcome" where
  "connect rt env c target_id =
     and_then
       (ques_call (choose_bind_addr (ce_resolve env 0) c) (\<lambda>la.
        connect_server (ce_resolve env 1) (ce_server env) la (server_addr c))) (\<lambda>r.
     case r of
       Inl e \<Rightarrow> Ret (Inl e, [])
     | Inr svr \<Rightarrow>
         (let isync = (Isync_new rt)\<lparr>isync_id := target_id\<rparr> in
          case write_req rt (ce_write1 env) (ce_write2 env) (client_id c) (ReqIsync isync) [] of
            (out, Inl e) \<Rightarrow> Ret (Inl e, out)
          | (out, Inr _) \<Rightarrow> and_then (connect_redirected rt env svr) (\<lambda>r. Ret (r, out))))"

section \<open>The writing loop\<close>

text \<open>\<open>recv_timeout\<close> of ten seconds.\<close>

datatype 'u received = Got "'u ReqCmd" | Timeout | Disconnected

primrec next_req :: "'u pb_rt \<Rightarrow> 'u received \<Rightarrow> 'u ReqCmd option" where
  "next_req rt (Got req) = Some req"
| "next_req rt Timeout = Some (ReqPing (Ping_new rt))"
| "next_req rt Disconnected = None"

record 'u write_turn =
  wt_recv :: "'u received"
  wt_write1 :: write_result
  wt_write2 :: write_result

text \<open>
  The stream after some iterations, and whether the loop has ended; its result is then
  \<open>Ok(())\<close>.
\<close>

fun write_loop :: "'u pb_rt \<Rightarrow> string \<Rightarrow> 'u write_turn list \<Rightarrow> bytes \<Rightarrow> bytes \<times> bool" where
  "write_loop rt who [] out = (out, False)"
| "write_loop rt who (t # ts) out =
     (case next_req rt (wt_recv t) of
        None \<Rightarrow> (out, True)
      | Some req \<Rightarrow>
          (case write_req rt (wt_write1 t) (wt_write2 t) who req out of
             (out, Inl e) \<Rightarrow> (out, True)
           | (out, Inr _) \<Rightarrow> write_loop rt who ts out))"

section \<open>The reading loop\<close>

text \<open>
  One response: what is put into the queue, and the connection attempt that opens the
  way for the peer, as local and remote address. \<open>os\<close> answers for its socket.
\<close>

type_synonym attempt = "SocketAddr \<times> SocketAddr"

definition read_turn ::
  "'u pb_rt \<Rightarrow> tcp_os \<Rightarrow> SocketAddr \<Rightarrow> 'u Response \<Rightarrow> (io_error + 'u ReqCmd option \<times> attempt list) outcome" where
  "read_turn rt os la resp =
     (case resp_cmd resp of
        Some (RespPong _) \<Rightarrow> Ret (Inr (None, []))
      | Some (RespFsync fsync) \<Rightarrow>
          ques (case parse_addr (fsync_addr fsync) of
                  Some a \<Rightarrow> Inr a
                | None \<Rightarrow> Inl (new_error Other ''invalid fsync addr'')) (\<lambda>dst_addr.
          and_then (bind os la) (\<lambda>r.
          (let rsync = (Rsync_new rt)\<lparr>rsync_id := fsync_id fsync\<rparr> in
           Ret (Inr (Some (ReqRsync rsync), case r of Inl e \<Rightarrow> [] | Inr s \<Rightarrow> [(la, dst_addr)])))))
      | _ \<Rightarrow> Ret (Inr (None, [])))"

lemma std_read_exact_rest: "std_read_exact n bs = Inr (b, r) \<Longrightarrow> length bs = length r + n"
  by (auto simp: std_read_exact_def split: if_splits)

lemma read_resp_Ret:
  assumes "read_resp rt std_read_exact bs = Ret (Inr (resp, r))"
  shows "length r < length bs \<and> (\<exists>buf. Response_parse_from_bytes rt buf = Some (Inr resp))"
proof -
  obtain h bs' where h: "std_read_exact 2 bs = Inr (h, bs')"
    using assms by (cases "std_read_exact 2 bs") (auto simp: read_resp_def)
  obtain buf r' where b: "std_read_exact (unat (from_be_bytes h)) bs' = Inr (buf, r')"
    using assms h by (cases "std_read_exact (unat (from_be_bytes h)) bs'") (auto simp: read_resp_def)
  obtain p where p: "Response_parse_from_bytes rt buf = Some p"
    using assms h b by (cases "Response_parse_from_bytes rt buf") (auto simp: read_resp_def)
  show ?thesis
    using assms h b p std_read_exact_rest[OF h] std_read_exact_rest[OF b] by (cases p) (auto simp: read_resp_def)
qed

text \<open>
  What the loop put into the queue, its connection attempts, and how it ended. \<open>alive k\<close>
  tells whether the receiver still exists when the \<open>k\<close>-th response is handled, and \<open>os k\<close>
  answers for the socket made then.
\<close>

function read_loop ::
  "'u pb_rt \<Rightarrow> (nat \<Rightarrow> tcp_os) \<Rightarrow> SocketAddr \<Rightarrow> (nat \<Rightarrow> bool) \<Rightarrow> nat \<Rightarrow> bytes
     \<Rightarrow> 'u ReqCmd list \<times> attempt list \<times> (io_error + unit) outcome" where
  "read_loop rt os la alive k bs =
     (case read_resp rt std_read_exact bs of
        Ret (Inr (resp, bs')) \<Rightarrow>
          (case read_turn rt (os k) la resp of
             Ret (Inr (req, attempts)) \<Rightarrow>
               (case req of
                  Some cmd \<Rightarrow>
                    (if \<not> alive k then ([], attempts, Panic)
                     else
                       (case read_loop rt os la alive (Suc k) bs' of
                          (reqs, others, r) \<Rightarrow> (cmd # reqs, attempts @ others, r)))
                | None \<Rightarrow>
                    (case read_loop rt os la alive (Suc k) bs' of (reqs, others, r) \<Rightarrow> (reqs, attempts @ others, r)))
           | Ret (Inl e) \<Rightarrow> ([], [], Ret (Inl e))
           | Panic \<Rightarrow> ([], [], Panic)
           | Hang \<Rightarrow> ([], [], Hang))
      | Ret (Inl e) \<Rightarrow> ([], [], Ret (Inr ()))
      | Panic \<Rightarrow> ([], [], Panic)
      | Hang \<Rightarrow> ([], [], Hang))"
  by pat_completeness auto

termination
  by (relation "measure (\<lambda>(rt, os, la, alive, k, bs). length bs)") (auto dest: read_resp_Ret)

declare read_loop.simps [simp del]

section \<open>Accepting\<close>

text \<open>\<open>ans\<close> is the operating system's answer to \<open>accept\<close>.\<close>

definition accept ::
  "(io_error + Socket \<times> SocketAddr option) \<Rightarrow> Client \<Rightarrow> (io_error + Socket \<times> SocketAddr) outcome" where
  "accept ans c =
     (case listener c of
        None \<Rightarrow> Ret (Inl (new_error Other ''not listening''))
      | Some l \<Rightarrow> ques ans (\<lambda>(s, a). and_then (unwrap_some a) (\<lambda>a. Ret (Inr (s, a)))))"

end
