(* ===== verification/Tcp_Client_Correct.thy ===== *)
theory Tcp_Client_Correct
  imports Tcp_Client
begin

text \<open>
  The properties of the blocking TCP client that do not depend on how its threads
  interleave: what \<open>connect\<close> sends and connects to, how it fails, that it ends, what the
  reading loop answers and what the writing loop puts on the stream.
\<close>

section \<open>A client for the witnesses\<close>

text \<open>The operating system refuses nothing.\<close>

abbreviation easy_os :: "SocketAddr \<Rightarrow> tcp_os" where
  "easy_os a \<equiv> \<lparr>to_new = Inr (), to_set_reuse_address = Inr (), to_set_reuse_port = Inr (), to_bind = (\<lambda>_. Inr ()),
     to_connect = (\<lambda>_. Inr ()), to_local_addr = Inr (Some a), to_listen = (\<lambda>_. Inr ()), to_try_clone = (\<lambda>_. Inr ())\<rparr>"

abbreviation any_v4 :: SocketAddr where "any_v4 \<equiv> V4 (Ipv4 0 0 0 0) 7"

abbreviation some_client :: Client where
  "some_client \<equiv> \<lparr>server_addr = ''s'', client_id = ''l'', listener = None, local_addr = Some any_v4\<rparr>"

section \<open>connect\<close>

text \<open>The request of \<open>connect\<close>.\<close>

abbreviation isync_req :: "'u pb_rt \<Rightarrow> string \<Rightarrow> string \<Rightarrow> 'u Request" where
  "isync_req rt who target \<equiv> (new_req rt who)\<lparr>req_cmd := Some (ReqIsync ((Isync_new rt)\<lparr>isync_id := target\<rparr>))\<rparr>"

lemma connect_Ret:
  assumes "connect rt env c target_id = Ret (r, out)"
  shows "(\<exists>e. r = Inl e \<and> out = [])
    \<or> (\<exists>svr w. ques_call (choose_bind_addr (ce_resolve env 0) c) (\<lambda>la. connect_server (ce_resolve env 1) (ce_server env) la (server_addr c))
            = Ret (Inr svr)
        \<and> write_req rt (ce_write1 env) (ce_write2 env) (client_id c) (ReqIsync ((Isync_new rt)\<lparr>isync_id := target_id\<rparr>)) [] = (out, w)
        \<and> (case w of Inl e \<Rightarrow> r = Inl e | Inr _ \<Rightarrow> connect_redirected rt env svr = Ret r))"
proof -
  let ?svr = "ques_call (choose_bind_addr (ce_resolve env 0) c) (\<lambda>la. connect_server (ce_resolve env 1) (ce_server env) la (server_addr c))"
  let ?w = "write_req rt (ce_write1 env) (ce_write2 env) (client_id c) (ReqIsync ((Isync_new rt)\<lparr>isync_id := target_id\<rparr>)) []"
  obtain x where x: "?svr = Ret x" using assms by (cases ?svr) (auto simp: connect_def)
  show ?thesis
  proof (cases x)
    case (Inl e)
    then show ?thesis using assms x by (auto simp: connect_def)
  next
    case (Inr svr)
    obtain out' w where w: "?w = (out', w)" by fastforce
    show ?thesis
      using assms x Inr w by (cases w) (auto simp: connect_def and_then_eq_Ret)
  qed
qed

lemma bind_Ret: "bind os a = Ret (Inr s) \<Longrightarrow> s = \<lparr>sk_os = os, bound_to = a, remote = None\<rparr>"
  by (auto simp: bind_def and_then_eq_Ret unwrap_eq_Ret ques_Ret)

lemma connect_server_Ret: "connect_server resolve os la server = Ret (Inr svr) \<Longrightarrow> sk_os svr = os \<and> bound_to svr = la"
  by (auto simp: connect_server_def ques_call_Inr ques_Ret connect_socket_def res_bind_eq_Inr dest!: bind_Ret)

lemma connect_redirected_Ret:
  assumes "connect_redirected rt env svr = Ret (Inr s)"
  shows "\<exists>resp rest rdr a la. read_resp rt std_read_exact (ce_in env) = Ret (Inr (resp, rest))
    \<and> resp_cmd resp = Some (RespRedirect rdr) \<and> parse_addr (redirect_addr rdr) = Some a
    \<and> to_local_addr (sk_os svr) = Inr (Some la) \<and> bound_to s = la \<and> remote s = Some a"
proof -
  obtain resp rest where r: "read_resp rt std_read_exact (ce_in env) = Ret (Inr (resp, rest))"
    using assms by (auto simp: connect_redirected_def ques_call_Inr)
  then obtain addr where addr: "(case resp_cmd resp of Some (RespRedirect rdr) \<Rightarrow> Inr (redirect_addr rdr)
        | _ \<Rightarrow> Inl (new_error Other ''invalid server response'')) = Inr addr"
    using assms by (auto simp: connect_redirected_def ques_Ret)
  then obtain rdr where cmd: "resp_cmd resp = Some (RespRedirect rdr)" "redirect_addr rdr = addr"
    by (auto split: option.splits RespCmd.splits)
  obtain a where a: "parse_addr addr = Some a"
    using assms r cmd by (cases "parse_addr addr") (auto simp: connect_redirected_def)
  obtain la where la: "socket_addr (sk_os svr) = Ret la"
    using assms r cmd a by (auto simp: connect_redirected_def and_then_eq_Ret)
  then have "to_local_addr (sk_os svr) = Inr (Some la)"
    by (auto simp: socket_addr_def and_then_eq_Ret unwrap_eq_Ret unwrap_some_def split: option.splits)
  moreover have "bound_to s = la \<and> remote s = Some a"
    using assms r cmd a la
    by (auto simp: connect_redirected_def ques_call_Inr ques_Ret connect_socket_def res_bind_eq_Inr dest!: bind_Ret)
  ultimately show ?thesis using r cmd a by blast
qed

lemma connect_sent:
  assumes "pb_runtime rt" "Request_clean rt (isync_req rt (client_id c) target_id)"
    and "connect rt env c target_id = Ret (Inr s, out)"
  shows "out = frame (Request_wire rt (isync_req rt (client_id c) target_id))
    \<and> (\<exists>resp rest rdr a la. read_resp rt std_read_exact (ce_in env) = Ret (Inr (resp, rest))
        \<and> resp_cmd resp = Some (RespRedirect rdr) \<and> parse_addr (redirect_addr rdr) = Some a
        \<and> to_local_addr (ce_server env) = Inr (Some la) \<and> bound_to s = la \<and> remote s = Some a)"
proof -
  let ?pre = "ques_call (choose_bind_addr (ce_resolve env 0) c) (\<lambda>la. connect_server (ce_resolve env 1) (ce_server env) la (server_addr c))"
  obtain svr w where svr: "?pre = Ret (Inr svr)"
    and w: "write_req rt (ce_write1 env) (ce_write2 env) (client_id c) (ReqIsync ((Isync_new rt)\<lparr>isync_id := target_id\<rparr>)) [] = (out, w)"
    and r: "case w of Inl e \<Rightarrow> (Inr s :: io_error + Socket) = Inl e | Inr _ \<Rightarrow> connect_redirected rt env svr = Ret (Inr s)"
    using connect_Ret[OF assms(3)] by blast
  obtain u where u: "w = Inr u" "connect_redirected rt env svr = Ret (Inr s)" using r by (cases w) auto
  have "out = frame (Request_wire rt (isync_req rt (client_id c) target_id))"
    using w u(1) send_frame_Inr[of _ _ _ "[]"] by (auto simp: write_req_clean[OF assms(1,2)])
  moreover have "sk_os svr = ce_server env"
    using svr connect_server_Ret by (auto simp: ques_call_Inr)
  ultimately show ?thesis using connect_redirected_Ret[OF u(2)] by simp
qed

text \<open>C10. \<open>connect\<close> follows the redirect: when it returns a stream, it has sent the server
  exactly the frame of its connection request, the server has answered with a redirect,
  and the stream goes to the address in it, from the address of the connection to the
  server, which is the one that the server saw and passed on to the peer.\<close>

theorem tcp_connect_follows_redirect:
  assumes "pb_runtime rt" "Request_clean rt (isync_req rt (client_id c) target_id)"
    and "connect rt env c target_id = Ret (Inr s, out)"
  shows "out = frame (Request_wire rt (isync_req rt (client_id c) target_id))
    \<and> (\<exists>resp rest rdr a la. read_resp rt std_read_exact (ce_in env) = Ret (Inr (resp, rest))
        \<and> resp_cmd resp = Some (RespRedirect rdr) \<and> parse_addr (redirect_addr rdr) = Some a
        \<and> to_local_addr (ce_server env) = Inr (Some la) \<and> bound_to s = la \<and> remote s = Some a)"
  by (rule connect_sent[OF assms])

text \<open>The server's answer is the redirect of \<open>l\<close> to 1.2.3.4:5.\<close>

abbreviation easy_env :: "bytes \<Rightarrow> connect_env" where
  "easy_env bs \<equiv> \<lparr>ce_resolve = (\<lambda>_ _. Inr [V4 (Ipv4 9 9 9 9) 8888]), ce_server = easy_os any_v4, ce_peer = easy_os any_v4,
     ce_write1 = Inr (), ce_write2 = Inr (), ce_in = bs\<rparr>"

abbreviation redirect_bytes :: bytes where
  "redirect_bytes \<equiv> [0, 16, 26, 14, 10, 1, 108, 18, 9, 49, 46, 50, 46, 51, 46, 52, 58, 53]"

lemma redirect_read:
  "read_resp wire_rt std_read_exact redirect_bytes
    = Ret (Inr (response wire_rt [] (RespRedirect ((Redirect_new wire_rt)\<lparr>redirect_id := ''l'', redirect_addr := ''1.2.3.4:5''\<rparr>)), []))"
  by code_simp

lemma peer_parses: "parse_addr ''1.2.3.4:5'' = Some (V4 (Ipv4 1 2 3 4) 5)"
proof -
  have "show_addr (V4 (Ipv4 1 2 3 4) 5) = ''1.2.3.4:5''" by code_simp
  then show ?thesis using parse_show_addr[of "V4 (Ipv4 1 2 3 4) 5"] by simp
qed

lemma isync_clean: "Request_clean wire_rt (isync_req wire_rt ''l'' ''t'')"
  by (simp add: Request_clean_def new_req_def Request_new_def Isync_clean_def Isync_new_def no_unknown_def
      SpecialFields_new_def text_ok_def max_text_def utf8_valid_ascii)

lemma easy_connect:
  "\<exists>s out. connect wire_rt (easy_env redirect_bytes) some_client ''t'' = Ret (Inr s, out)"
  by (simp add: connect_def choose_bind_addr_def connect_server_def bind_def resolve_first_def connect_socket_def
      write_req_clean[OF wire.pb_runtime_axioms isync_clean] connect_redirected_def redirect_read response_def
      peer_parses socket_addr_def)

theorem tcp_connect_follows_redirect_witness:
  "\<exists>s out. connect wire_rt (easy_env redirect_bytes) some_client ''t'' = Ret (Inr s, out)
     \<and> out = frame (Request_wire wire_rt (isync_req wire_rt ''l'' ''t''))
     \<and> bound_to s = any_v4 \<and> remote s = Some (V4 (Ipv4 1 2 3 4) 5)"
proof -
  obtain s out where c: "connect wire_rt (easy_env redirect_bytes) some_client ''t'' = Ret (Inr s, out)"
    using easy_connect by blast
  have clean: "Request_clean wire_rt (isync_req wire_rt (client_id some_client) ''t'')" using isync_clean by simp
  from tcp_connect_follows_redirect[OF wire.pb_runtime_axioms clean c] c show ?thesis
    by (auto simp: redirect_read response_def peer_parses)
qed

section \<open>How connect ends\<close>

lemma any_v4_parses: "parse_addr ''0.0.0.0:0'' = Some (V4 (Ipv4 0 0 0 0) 0)"
proof -
  have "show_addr (V4 (Ipv4 0 0 0 0) 0) = ''0.0.0.0:0''" by code_simp
  then show ?thesis using parse_show_addr[of "V4 (Ipv4 0 0 0 0) 0"] by simp
qed

lemma any_v6_parses: "parse_addr ''[::]:0'' = Some (V6 (Ipv6 0 0 0 0 0 0 0 0) 0 0 0)"
proof -
  have "show_addr (V6 (Ipv6 0 0 0 0 0 0 0 0) 0 0 0) = ''[::]:0''" by code_simp
  then show ?thesis using parse_show_addr[of "V6 (Ipv6 0 0 0 0 0 0 0 0) 0 0 0"] by simp
qed

lemma choose_bind_addr_returns: "\<exists>x. choose_bind_addr resolve c = Ret x"
  by (auto simp: choose_bind_addr_def any_v4_parses any_v6_parses split: option.split SocketAddr.split intro!: ques_returns)

lemma bind_returns: "to_new os = Inr () \<Longrightarrow> \<exists>x. bind os a = Ret x"
  by (auto simp: bind_def intro!: ques_returns)

lemma tcp_connect_server_returns: "to_new os = Inr () \<Longrightarrow> \<exists>x. connect_server resolve os la server = Ret x"
  by (auto simp: connect_server_def intro!: ques_call_returns bind_returns ques_returns)

lemma socket_addr_returns: "to_local_addr os = Inr (Some a) \<Longrightarrow> socket_addr os = Ret a"
  by (simp add: socket_addr_def)

lemma connect_redirected_returns:
  assumes "pb_runtime rt" "to_new (ce_peer env) = Inr ()" "to_local_addr (sk_os svr) = Inr (Some la)"
  shows "\<exists>x. connect_redirected rt env svr = Ret x"
  using std_reader.read_resp_returns[OF assms(1)] assms(2,3)
  by (auto simp: connect_redirected_def socket_addr_returns intro!: ques_call_returns ques_returns bind_returns)

text \<open>\<open>connect\<close> returns: if the operating system makes the two sockets and tells the
  local address of the first, \<open>connect\<close> gives a stream or an error, whatever the resolver
  and the server answer. A server that does not know the target answers with an empty
  redirect, and \<open>connect\<close> fails with \<open>target id not found\<close>.\<close>

theorem tcp_connect_returns:
  assumes "pb_runtime rt" "to_new (ce_server env) = Inr ()" "to_new (ce_peer env) = Inr ()"
    and "to_local_addr (ce_server env) = Inr (Some la)"
  shows "\<exists>r out. connect rt env c target_id = Ret (r, out)
    \<and> (\<forall>resp rest rdr. read_resp rt std_read_exact (ce_in env) = Ret (Inr (resp, rest))
          \<and> resp_cmd resp = Some (RespRedirect rdr) \<and> parse_addr (redirect_addr rdr) = None
          \<and> ce_write1 env = Inr () \<and> ce_write2 env = Inr () \<and> out \<noteq> [] \<longrightarrow>
        r = Inl (new_error Other ''target id not found''))"
proof -
  let ?pre = "ques_call (choose_bind_addr (ce_resolve env 0) c) (\<lambda>la. connect_server (ce_resolve env 1) (ce_server env) la (server_addr c))"
  have "\<exists>x. ?pre = Ret x"
    using assms(2) by (intro ques_call_returns choose_bind_addr_returns tcp_connect_server_returns)
  then obtain x where x: "?pre = Ret x" by blast
  have sk: "sk_os svr = ce_server env" if "x = Inr svr" for svr
    using x that connect_server_Ret by (auto simp: ques_call_Inr)
  then have red: "\<exists>y. connect_redirected rt env svr = Ret y" if "x = Inr svr" for svr
    using connect_redirected_returns[OF assms(1,3), of svr la] that assms(4) by simp
  have "\<exists>y. connect rt env c target_id = Ret y"
  proof (cases x)
    case (Inl e)
    then show ?thesis using x by (simp add: connect_def)
  next
    case (Inr svr)
    obtain out w where w: "write_req rt (ce_write1 env) (ce_write2 env) (client_id c)
        (ReqIsync ((Isync_new rt)\<lparr>isync_id := target_id\<rparr>)) [] = (out, w)" by fastforce
    show ?thesis using x Inr w red[OF Inr] by (cases w) (auto simp: connect_def)
  qed
  then obtain r out where r: "connect rt env c target_id = Ret (r, out)" by fastforce
  have "r = Inl (new_error Other ''target id not found'')"
    if "read_resp rt std_read_exact (ce_in env) = Ret (Inr (resp, rest))" "resp_cmd resp = Some (RespRedirect rdr)"
      "parse_addr (redirect_addr rdr) = None" "ce_write1 env = Inr ()" "ce_write2 env = Inr ()" "out \<noteq> []" for resp rest rdr
  proof -
    note hyps = that
    obtain svr w where w: "write_req rt (Inr ()) (Inr ()) (client_id c) (ReqIsync ((Isync_new rt)\<lparr>isync_id := target_id\<rparr>)) [] = (out, w)"
        "case w of Inl e \<Rightarrow> r = Inl e | Inr _ \<Rightarrow> connect_redirected rt env svr = Ret r"
      using connect_Ret[OF r] hyps(4-6) by auto
    then have "\<exists>u. w = Inr u" using hyps(6) by (auto simp: write_req_def Let_def split: sum.splits)
    then show ?thesis using w(2) hyps(1-3) by (auto simp: connect_redirected_def)
  qed
  with r show ?thesis by blast
qed

theorem tcp_connect_returns_witness:
  "\<exists>r out. connect wire_rt (easy_env [0, 5, 26, 3, 10, 1, 108]) some_client ''t'' = Ret (r, out)
     \<and> (out \<noteq> [] \<longrightarrow> r = Inl (new_error Other ''target id not found''))"
proof -
  let ?in = "[0, 5, 26, 3, 10, 1, 108] :: bytes" and ?rdr = "(Redirect_new wire_rt)\<lparr>redirect_id := ''l''\<rparr>"
  have r: "read_resp wire_rt std_read_exact ?in = Ret (Inr (response wire_rt [] (RespRedirect ?rdr), []))" by code_simp
  have cmd: "resp_cmd (response wire_rt [] (RespRedirect ?rdr)) = Some (RespRedirect ?rdr)" by (simp add: response_def)
  show ?thesis
    using tcp_connect_returns[OF wire.pb_runtime_axioms, of "easy_env ?in" any_v4 some_client "''t''"] r cmd
    by (fastforce simp: parse_empty)
qed

section \<open>The reading loop\<close>

text \<open>
  What the loop owes to a response: a reply to an \<open>Fsync\<close> under the identity in it, and an
  attempt to connect to the address in it.
\<close>

definition reply_of :: "'u pb_rt \<Rightarrow> 'u Response \<Rightarrow> 'u ReqCmd list" where
  "reply_of rt resp =
     (case resp_cmd resp of
        Some (RespFsync fsync) \<Rightarrow> [ReqRsync ((Rsync_new rt)\<lparr>rsync_id := fsync_id fsync\<rparr>)]
      | _ \<Rightarrow> [])"

definition attempt_of :: "SocketAddr \<Rightarrow> 'u Response \<Rightarrow> attempt list" where
  "attempt_of la resp =
     (case resp_cmd resp of
        Some (RespFsync fsync) \<Rightarrow> (case parse_addr (fsync_addr fsync) of Some a \<Rightarrow> [(la, a)] | None \<Rightarrow> [])
      | _ \<Rightarrow> [])"

definition answerable :: "'u Response \<Rightarrow> bool" where
  "answerable resp = (case resp_cmd resp of Some (RespFsync fsync) \<Rightarrow> parse_addr (fsync_addr fsync) \<noteq> None | _ \<Rightarrow> True)"

lemma forget_answers [simp]:
  "reply_of rt (Response_forget resp) = reply_of rt resp" "attempt_of la (Response_forget resp) = attempt_of la resp"
  "answerable (Response_forget resp) = answerable resp"
  by (auto simp: reply_of_def attempt_of_def Response_forget_def answerable_def Fsync_forget_def Redirect_forget_def
      split: option.splits RespCmd.splits)

lemma read_turn_answer:
  assumes "bind os la = Ret (Inr sk)" "answerable resp"
  shows "\<exists>req. read_turn rt os la resp = Ret (Inr (req, attempt_of la resp))
    \<and> reply_of rt resp = (case req of None \<Rightarrow> [] | Some cmd \<Rightarrow> [cmd])"
  using assms by (auto simp: read_turn_def reply_of_def attempt_of_def answerable_def split: option.split RespCmd.split)

lemma read_loop_answer:
  assumes "read_resp rt std_read_exact bs = Ret (Inr (resp, rest))" "bind (os k) la = Ret (Inr sk)" "answerable resp" "alive k"
    and "read_loop rt os la alive (Suc k) rest = (reqs, attempts, r)"
  shows "read_loop rt os la alive k bs = (reply_of rt resp @ reqs, attempt_of la resp @ attempts, r)"
proof -
  obtain req where req: "read_turn rt (os k) la resp = Ret (Inr (req, attempt_of la resp))"
      "reply_of rt resp = (case req of None \<Rightarrow> [] | Some cmd \<Rightarrow> [cmd])"
    using read_turn_answer[OF assms(2,3)] by blast
  show ?thesis
    by (subst read_loop.simps) (use assms(1,4,5) req in \<open>cases req; simp\<close>)
qed

text \<open>C8. Every request of a peer is answered, in order: on a stream of frames of the server,
  the reading loop of a background connection puts exactly one reply into the queue for each
  \<open>Fsync\<close>, with the identity of the peer that asked, attempts one connection to the address
  of that peer from the listening address, and ends without an error at the end of the
  stream. This is of frames whose addresses can be parsed (\<open>answerable\<close>), of a listening address
  to which sockets can be bound, and of a queue whose receiver, the writing loop, lives on.\<close>

theorem tcp_reads_answers:
  assumes "pb_runtime rt" "\<forall>resp \<in> set resps. Response_clean rt resp \<and> length (Response_wire rt resp) < 65536 \<and> answerable resp"
    and "\<forall>j. \<exists>sk. bind (os j) la = Ret (Inr sk)" "length tail < 2"
  shows "read_loop rt os la (\<lambda>_. True) k (concat (map (\<lambda>resp. frame (Response_wire rt resp)) resps) @ tail)
    = (concat (map (reply_of rt) resps), concat (map (attempt_of la) resps), Ret (Inr ()))"
  using assms(2)
proof (induction resps arbitrary: k)
  case Nil
  have "read_resp rt std_read_exact tail = Ret (Inl (new_error UnexpectedEof ''failed to fill whole buffer''))"
    using assms(4) by (simp add: read_resp_def std_read_exact_def)
  then show ?case by (subst read_loop.simps) simp
next
  case (Cons resp resps)
  let ?rest = "concat (map (\<lambda>resp. frame (Response_wire rt resp)) resps) @ tail"
  have "read_resp rt std_read_exact (frame (Response_wire rt resp) @ ?rest) = Ret (Inr (Response_forget resp, ?rest))"
    using Cons.prems by (simp add: std_reader.read_resp_frame pb_runtime.Response_parse_wire[OF assms(1)])
  moreover obtain sk where "bind (os k) la = Ret (Inr sk)" using assms(3) by blast
  ultimately show ?case
    using read_loop_answer[of rt _ "Response_forget resp" ?rest os k la sk "\<lambda>_. True"] Cons by simp
qed

theorem tcp_reads_answers_witness:
  "read_loop wire_rt (\<lambda>_. easy_os any_v4) any_v4 (\<lambda>_. True) 0
     (concat (map (\<lambda>resp. frame (Response_wire wire_rt resp))
        [response wire_rt [] (RespFsync ((Fsync_new wire_rt)\<lparr>fsync_id := ''c'', fsync_addr := ''1.2.3.4:5''\<rparr>)),
         response wire_rt [] (RespPong (Pong_new wire_rt))]) @ [0])
   = ([ReqRsync ((Rsync_new wire_rt)\<lparr>rsync_id := ''c''\<rparr>)], [(any_v4, V4 (Ipv4 1 2 3 4) 5)], Ret (Inr ()))"
proof -
  let ?f = "response wire_rt [] (RespFsync ((Fsync_new wire_rt)\<lparr>fsync_id := ''c'', fsync_addr := ''1.2.3.4:5''\<rparr>))"
    and ?p = "response wire_rt [] (RespPong (Pong_new wire_rt))"
  have "length (Response_wire wire_rt ?f) = 16" by code_simp
  moreover have "length (Response_wire wire_rt ?p) = 2" by code_simp
  ultimately have l: "length (Response_wire wire_rt ?f) < 65536" "length (Response_wire wire_rt ?p) < 65536" by linarith+
  have t: "text_ok ''c''" "text_ok ''1.2.3.4:5''" by (simp_all add: text_ok_def max_text_def utf8_valid_ascii)
  have c: "Response_clean wire_rt ?f" "Response_clean wire_rt ?p"
    using pb_runtime.response_clean[OF wire.pb_runtime_axioms text_ok_Nil, of "RespPong (Pong_new wire_rt)"] pb_runtime.pong_clean[OF wire.pb_runtime_axioms]
      pb_runtime.response_clean[OF wire.pb_runtime_axioms text_ok_Nil, of "RespFsync ((Fsync_new wire_rt)\<lparr>fsync_id := ''c'', fsync_addr := ''1.2.3.4:5''\<rparr>)"]
      pb_runtime.fsync_clean[OF wire.pb_runtime_axioms t] by simp_all
  have all: "\<forall>resp \<in> set [?f, ?p]. Response_clean wire_rt resp \<and> length (Response_wire wire_rt resp) < 65536 \<and> answerable resp"
    using l c by (simp add: answerable_def response_def peer_parses)
  have b: "\<forall>j. \<exists>sk. bind (easy_os any_v4) any_v4 = Ret (Inr sk)" by (simp add: bind_def)
  show ?thesis
    using tcp_reads_answers[OF wire.pb_runtime_axioms all, of "\<lambda>_. easy_os any_v4" any_v4 "[0]" 0] b
    by (simp add: reply_of_def attempt_of_def response_def peer_parses)
qed

section \<open>The writing loop\<close>

text \<open>The requests that the loop writes: those it receives, and a ping for each timeout.\<close>

definition written :: "'u pb_rt \<Rightarrow> 'u write_turn list \<Rightarrow> 'u ReqCmd list" where
  "written rt ts = map the (takeWhile (\<lambda>r. r \<noteq> None) (map (\<lambda>t. next_req rt (wt_recv t)) ts))"

abbreviation req_of :: "'u pb_rt \<Rightarrow> string \<Rightarrow> 'u ReqCmd \<Rightarrow> 'u Request" where
  "req_of rt who cmd \<equiv> (new_req rt who)\<lparr>req_cmd := Some cmd\<rparr>"

text \<open>What the server hears: as long as the stream takes the bytes, the writing loop puts
  on it the frames of the requests in the order of the queue, with a ping whenever nothing
  came for ten seconds, and it ends exactly when the reading loop has gone and the queue
  is empty.\<close>

theorem tcp_writes_in_order:
  assumes "pb_runtime rt" "\<forall>t \<in> set ts. wt_write1 t = Inr () \<and> wt_write2 t = Inr ()"
    and "\<forall>cmd \<in> set (written rt ts). Request_clean rt (req_of rt who cmd)"
  shows "write_loop rt who ts out
    = (out @ concat (map (\<lambda>cmd. frame (Request_wire rt (req_of rt who cmd))) (written rt ts)), Disconnected \<in> wt_recv ` set ts)"
  using assms(2,3)
proof (induction ts arbitrary: out)
  case (Cons t ts)
  show ?case
  proof (cases "next_req rt (wt_recv t)")
    case None
    then show ?thesis by (cases "wt_recv t") (auto simp: written_def)
  next
    case (Some cmd)
    then have w: "written rt (t # ts) = cmd # written rt ts" and d: "wt_recv t \<noteq> Disconnected" by (auto simp: written_def)
    then have "write_req rt (wt_write1 t) (wt_write2 t) who cmd out = (out @ frame (Request_wire rt (req_of rt who cmd)), Inr ())"
      using Cons.prems by (simp add: write_req_clean[OF assms(1)])
    with Some w d Cons show ?thesis by auto
  qed
qed (simp add: written_def)

theorem tcp_writes_in_order_witness:
  "write_loop wire_rt ''l''
     [\<lparr>wt_recv = Timeout, wt_write1 = Inr (), wt_write2 = Inr ()\<rparr>, \<lparr>wt_recv = Disconnected, wt_write1 = Inr (), wt_write2 = Inr ()\<rparr>] []
   = (frame (Request_wire wire_rt (req_of wire_rt ''l'' (ReqPing (Ping_new wire_rt)))), True)"
proof -
  let ?ts = "[\<lparr>wt_recv = Timeout, wt_write1 = Inr (), wt_write2 = Inr ()\<rparr>, \<lparr>wt_recv = Disconnected, wt_write1 = Inr (), wt_write2 = Inr ()\<rparr>]
    :: raw_fields write_turn list"
  have w: "written wire_rt ?ts = [ReqPing (Ping_new wire_rt)]" by (simp add: written_def)
  have "Request_clean wire_rt (req_of wire_rt ''l'' (ReqPing (Ping_new wire_rt)))"
    by (simp add: Request_clean_def new_req_def Request_new_def Ping_clean_def Ping_new_def no_unknown_def
        SpecialFields_new_def text_ok_def max_text_def utf8_valid_ascii)
  then show ?thesis
    using tcp_writes_in_order[OF wire.pb_runtime_axioms, of ?ts "''l''" "[]"] w by simp
qed

end
