(* ===== verification/Tcp_Session.thy ===== *)
theory Tcp_Session
  imports Requests Tcp_Server_Correct Tcp_Client_Correct
begin

text \<open>
  The TCP parts together: the server with two connections, a listening client and a
  connecting client, with the bytes that one writes as what the other reads; and a run in
  which a third client puts itself in the listener's place.
\<close>

section \<open>Moves of an idle connection\<close>

abbreviation idle :: "nat \<Rightarrow> string \<Rightarrow> 'q \<Rightarrow> bytes \<Rightarrow> bytes \<Rightarrow> ('q, 'u) PeerHandler" where
  "idle i who q inp out \<equiv>
     \<lparr>stream_in = inp, stream_out = out, peer_id = who, h_id = of_nat (Suc i), h_req_tx = i, req_rx = q,
      reads = Reading, cmds = AtRecv, stage_of = Running\<rparr>"

lemma moves_append: "execs rt ch rd (ls @ ms) s = (case execs rt ch rd ls s of None \<Rightarrow> None | Some s' \<Rightarrow> execs rt ch rd ms s')"
  by (induction ls arbitrary: s) (auto split: option.split)

lemma put_put [simp]: "put i (m, h) (put i (m', h') s) = put i (m, h) s"
  by (simp add: put_def)

lemma put_task_sel [simp]:
  "peers (put i mh s) = fst mh" "tasks (put i mh s) = (tasks s)[i := snd mh]" "count (put i mh s) = count s"
  by (simp_all add: put_def)

context bounded_channel
begin

text \<open>A message through an empty queue.\<close>

lemma through:
  assumes "items q = []" "0 < capacity q"
  obtains q1 q2 where "mpsc_send ch m q = Some q1" "mpsc_recv ch q1 = Some (m, q2)" "items q2 = []" "capacity q2 = capacity q"
proof -
  obtain q1 where q1: "mpsc_send ch m q = Some q1" "items q1 = [m]" "capacity q1 = capacity q"
    using send_room[of q m] assms by auto
  obtain q2 where "mpsc_recv ch q1 = Some (m, q2)" "items q2 = []" "capacity q2 = capacity q1"
    using recv_first[of q1 m "[]"] q1(2) by auto
  with q1 show thesis using that by simp
qed

end

text \<open>A request arrives on an idle connection and is handled.\<close>

lemma serve:
  assumes "bounded_channel ch items capacity" "items q = []" "0 < capacity q"
    and "i < length (tasks s)" "tasks s ! i = idle i who q inp out" "read_req rt rd inp = Ret (Inr (req, r))"
  obtains q' where "items q' = []" "capacity q' = capacity q"
    "execs rt ch rd [Read i, Enqueue i, Receive i w] s
      = Some (put i (settle (handle_cmd rt w req (peers s, idle i who q' r out))) s)"
proof -
  obtain q1 q2 where q: "mpsc_send ch req q = Some q1" "mpsc_recv ch q1 = Some (req, q2)" "items q2 = []" "capacity q2 = capacity q"
    by (rule bounded_channel.through[OF assms(1-3)])
  obtain m h where mh: "settle (handle_cmd rt w req (peers s, idle i who q2 r out)) = (m, h)" by fastforce
  have "execs rt ch rd [Read i, Enqueue i, Receive i w] s = Some (put i (m, h) s)"
    using assms(4-6) q mh by (simp add: running_def read_round_def enqueue_def)
  with mh q show thesis using that by simp
qed

text \<open>A request comes from another connection.\<close>

lemma serve_forwarded:
  assumes "i < length (tasks s)" "running i s" "cmds (tasks s ! i) = AtRecv" "mpsc_recv ch (req_rx (tasks s ! i)) = Some (req, q)"
  shows "exec rt ch rd (Receive i w) s = Some (put i (settle (handle_cmd rt w req (peers s, (tasks s ! i)\<lparr>req_rx := q\<rparr>))) s)"
  using assms by simp

lemma write_answer:
  assumes "i < length (tasks s)" "running i s" "cmds (tasks s ! i) = AtWrite vec"
  shows "exec rt ch rd (Written i (Inr ()) (Inr ())) s
    = Some (put i (peers s, (tasks s ! i)\<lparr>stream_out := stream_out (tasks s ! i) @ frame vec, cmds := AtRecv\<rparr>) s)"
  using assms by (simp add: resume_write_def follow_def)

section \<open>The frames\<close>

abbreviation ask_frame :: "'u pb_rt \<Rightarrow> string \<Rightarrow> 'u ReqCmd \<Rightarrow> bytes" where
  "ask_frame rt who cmd \<equiv> frame (Request_wire rt (ask rt who cmd))"

lemma new_req_ask: "(Framing.new_req rt who)\<lparr>req_cmd := Some cmd\<rparr> = ask rt who cmd"
  by (simp add: Framing.new_req_def ask_def)

lemma ask_written:
  assumes "pb_runtime rt" "ask_ok rt who cmd"
  shows "write_req rt (Inr ()) (Inr ()) who cmd out = (out @ ask_frame rt who cmd, Inr ())"
  using ask_parse(1)[OF assms] by (simp add: write_req_def new_req_ask Let_def)

lemma ask_read:
  assumes "pb_runtime rt" "exact_reader rd" "ask_ok rt who cmd"
  shows "read_req rt rd (ask_frame rt who cmd @ r) = Ret (Inr (Request_forget (ask rt who cmd), r))"
  using ask_parse(2,3)[OF assms(1,3)] by (simp add: exact_reader.read_req_frame[OF assms(2)])

lemma forget_ask [simp]:
  "req_id (Request_forget (ask rt who cmd)) = who" "req_cmd (Request_forget (ask rt who cmd)) = Some (ReqCmd_forget cmd)"
  by (simp_all add: Request_forget_def ask_def)

lemma forget_ids [simp]:
  "isync_id (Isync_forget u) = isync_id u" "rsync_id (Rsync_forget v) = rsync_id v" "fsync_id (Fsync_forget w) = fsync_id w"
  "fsync_addr (Fsync_forget w) = fsync_addr w" "redirect_addr (Redirect_forget x) = redirect_addr x"
  by (simp_all add: Isync_forget_def Rsync_forget_def Fsync_forget_def Redirect_forget_def)

text \<open>An answer of the server: what is written and what the client reads.\<close>

abbreviation answer :: "'u pb_rt \<Rightarrow> 'u RespCmd \<Rightarrow> bytes" where
  "answer rt cmd \<equiv> Response_wire rt (response rt [] cmd)"

lemma answer_sent:
  assumes "pb_runtime rt" "RespCmd_clean rt cmd"
  shows "send_response rt cmd = Waits (AtWrite (answer rt cmd))"
proof -
  have "(Response_new rt)\<lparr>resp_cmd := Some cmd\<rparr> = response rt [] cmd" by (simp add: response_def Response_new_def)
  then show ?thesis
    using pb_runtime.Response_write_clean[OF assms(1) pb_runtime.response_clean[OF assms(1) text_ok_Nil assms(2)]]
    by (simp add: send_response_def Let_def)
qed

lemma answer_read:
  assumes "pb_runtime rt" "RespCmd_clean rt cmd" "length (answer rt cmd) \<le> 1500"
  shows "read_resp rt std_read_exact (frame (answer rt cmd) @ r) = Ret (Inr (Response_forget (response rt [] cmd), r))"
  using assms(3) pb_runtime.Response_parse_wire[OF assms(1) pb_runtime.response_clean[OF assms(1) text_ok_Nil assms(2)]]
  by (simp add: std_reader.read_resp_frame)

lemma forget_answer [simp]:
  "resp_cmd (Response_forget (response rt who cmd)) = Some (RespCmd_forget cmd)"
  by (simp add: Response_forget_def response_def)

section \<open>A session\<close>

text \<open>
  What the scheduler does: both clients connect, \<open>wl\<close> and \<open>wc\<close> being the operating
  system's answers for their connections; the listener is registered; the request of the
  other is handled, forwarded and written to the listener; the listener's reply is handled,
  forwarded and written as the redirect.
\<close>

definition session_moves :: "answers \<Rightarrow> answers \<Rightarrow> bytes \<Rightarrow> bytes \<Rightarrow> label list" where
  "session_moves wl wc fl fc =
     [Accept fl, Accept fc]
   @ ([Read 0, Enqueue 0, Receive 0 wl] @ [Written 0 (Inr ()) (Inr ())])
   @ ([Read 1, Enqueue 1, Receive 1 wc] @ [Forward 1 wc])
   @ [Receive 0 wl, Written 0 (Inr ()) (Inr ())]
   @ ([Read 0, Enqueue 0, Receive 0 wl] @ [Forward 0 wl])
   @ [Receive 1 wc, Written 1 (Inr ()) (Inr ())]"

lemma session_run:
  fixes rt :: "'u pb_rt" and s :: "('q, 'u) Server"
  assumes rt: "pb_runtime rt" and rd: "exact_reader rd" and ch: "bounded_channel ch items capacity"
    and ids: "name_ok l" "name_ok c" "l \<noteq> c"
    and addrs: "peer_addr wl = Inr al" "peer_addr wc = Inr ac"
    and fl: "fl = ask_frame rt l (ReqPing (Ping_new rt)) @ ask_frame rt l (ReqRsync ((Rsync_new rt)\<lparr>rsync_id := c\<rparr>))"
    and fc: "fc = ask_frame rt c (ReqIsync ((Isync_new rt)\<lparr>isync_id := l\<rparr>))"
    and new: "Server_new os a v6 = Inr s"
  shows "\<exists>s' q q'. execs rt ch rd (session_moves wl wc fl fc) s = Some s'
    \<and> tasks s' = [idle 0 l q [] (frame (answer rt (RespPong (Pong_new rt)))
                     @ frame (answer rt (RespFsync ((Fsync_new rt)\<lparr>fsync_id := c, fsync_addr := show_addr ac\<rparr>)))),
                  idle 1 c q' [] (frame (answer rt (RespRedirect ((Redirect_new rt)\<lparr>redirect_id := l, redirect_addr := show_addr al\<rparr>))))]"
proof -
  let ?rsync = "(Rsync_new rt)\<lparr>rsync_id := c\<rparr>" and ?isync = "(Isync_new rt)\<lparr>isync_id := l\<rparr>"
  let ?fr = "ask_frame rt l (ReqRsync ?rsync)"
  let ?fsync = "(Fsync_new rt)\<lparr>fsync_id := c, fsync_addr := show_addr ac\<rparr>"
  let ?rdr = "(Redirect_new rt)\<lparr>redirect_id := l, redirect_addr := show_addr al\<rparr>"
  let ?vp = "answer rt (RespPong (Pong_new rt))" and ?vf = "answer rt (RespFsync ?fsync)" and ?vr = "answer rt (RespRedirect ?rdr)"
  have texts: "text_ok l" "text_ok c" using ids by (simp_all add: name_ok_def)
  note ok = ask_ok_simps[OF rt]
  note read = ask_read[OF rt rd ok(1)[OF ids(1)]] ask_read[OF rt rd ok(2)[OF ids(2,1)]] ask_read[OF rt rd ok(3)[OF ids(1,2)]]
  note sent = answer_sent[OF rt, of "RespPong (Pong_new rt)"] answer_sent[OF rt, of "RespFsync ?fsync"] answer_sent[OF rt, of "RespRedirect ?rdr"]
  note clean = pb_runtime.pong_clean[OF rt] pb_runtime.fsync_clean[OF rt texts(2) show_addr_ok, of ac]
    pb_runtime.redirect_clean[OF rt texts(1) show_addr_ok, of al]
  let ?q = "mpsc_new ch 10"
  have q: "items ?q = []" "0 < capacity ?q" using bounded_channel.new_channel[OF ch, of 10] by simp_all
  let ?pl = "\<lparr>p_id = 1, last_ping = now_ping wl, req_tx = 0, addr = al\<rparr>"
  let ?pc = "\<lparr>p_id = 2, last_ping = now_ping wc, req_tx = 1, addr = ac\<rparr>"
  let ?m0 = "\<lparr>entries = Map.empty, poisoned = False\<rparr>" and ?m1 = "\<lparr>entries = [l \<mapsto> ?pl], poisoned = False\<rparr>"
    and ?m2 = "\<lparr>entries = [l \<mapsto> ?pl, c \<mapsto> ?pc], poisoned = False\<rparr>"
  let ?state = "\<lambda>m (ts :: ('q, 'u) PeerHandler list). \<lparr>peers = m, count = 2, accepting = True, tasks = ts\<rparr>"
  note defs = handle_cmd_def settle_def follow_def insert_peerstate_def Let_def
  define S1 where "S1 = ?state ?m0 [idle 0 [] ?q fl [], idle 1 [] ?q fc []]"
  have run0: "execs rt ch rd [Accept fl, Accept fc] s = Some S1"
  proof -
    have "s = \<lparr>peers = ?m0, count = 0, accepting = True, tasks = []\<rparr>"
      using new by (auto simp: Server_new_def res_bind_eq_Inr)
    then show ?thesis by (simp add: S1_def Tcp_Server.accept_def next_id_def)
  qed
  \<comment> \<open>the listener's ping\<close>
  let ?ping = "Request_forget (ask rt l (ReqPing (Ping_new rt)))"
  obtain q1 where q1: "items q1 = []" "capacity q1 = capacity ?q"
    and r1: "execs rt ch rd [Read 0, Enqueue 0, Receive 0 wl] S1 = Some (put 0 (settle (handle_cmd rt wl ?ping (peers S1, idle 0 [] q1 ?fr []))) S1)"
  proof -
    have "0 < length (tasks S1)" "tasks S1 ! 0 = idle 0 [] ?q fl []" "read_req rt rd fl = Ret (Inr (?ping, ?fr))"
      by (simp_all add: S1_def fl read)
    from serve[OF ch q this] that show ?thesis by blast
  qed
  define S2 where "S2 = ?state ?m1 [idle 0 l q1 ?fr (frame ?vp), idle 1 [] ?q fc []]"
  have run1: "execs rt ch rd ([Read 0, Enqueue 0, Receive 0 wl] @ [Written 0 (Inr ()) (Inr ())]) S1 = Some S2"
    unfolding moves_append r1
    by (simp add: S1_def S2_def defs handle_ping_def addrs sent(1) clean put_def running_def resume_write_def)
  \<comment> \<open>the request of the other client\<close>
  let ?isyn = "Request_forget (ask rt c (ReqIsync ?isync))" and ?fwd = "Request_set_Fsync ?fsync (Request_new rt)"
  obtain q2 where q2: "items q2 = []" "capacity q2 = capacity ?q"
    and r2: "execs rt ch rd [Read 1, Enqueue 1, Receive 1 wc] S2 = Some (put 1 (settle (handle_cmd rt wc ?isyn (peers S2, idle 1 [] q2 [] []))) S2)"
  proof -
    have "1 < length (tasks S2)" "tasks S2 ! 1 = idle 1 [] ?q fc []" "read_req rt rd fc = Ret (Inr (?isyn, []))"
      using read(2)[of "[]"] by (simp_all add: S2_def fc)
    from serve[OF ch q this] that show ?thesis by blast
  qed
  obtain q3 q4 where q4: "mpsc_send ch ?fwd q1 = Some q3" "mpsc_recv ch q3 = Some (?fwd, q4)" "items q4 = []" "capacity q4 = capacity ?q"
    using bounded_channel.through[OF ch q1(1), of ?fwd] q1(2) q(2) by metis
  define S3 where "S3 = ?state ?m2 [idle 0 l q3 ?fr (frame ?vp), idle 1 c q2 [] []]"
  have run2: "execs rt ch rd ([Read 1, Enqueue 1, Receive 1 wc] @ [Forward 1 wc]) S2 = Some S3"
    unfolding moves_append r2
    using ids(3) q4(1)
    by (simp add: S2_def S3_def defs handle_isync_def addrs put_def running_def push_def resume_send_def)
  define S4 where "S4 = ?state ?m2 [idle 0 l q4 ?fr (frame ?vp @ frame ?vf), idle 1 c q2 [] []]"
  have run3: "execs rt ch rd [Receive 0 wl, Written 0 (Inr ()) (Inr ())] S3 = Some S4"
    using q4(2)
    by (simp add: S3_def S4_def defs handle_fsync_def Request_set_Fsync_def sent(2) clean put_def running_def resume_write_def)
  \<comment> \<open>the listener's reply\<close>
  let ?rsyn = "Request_forget (ask rt l (ReqRsync ?rsync))"
  let ?fwd2 = "(Request_new rt)\<lparr>req_id := l, req_cmd := Some (ReqRsync (Rsync_forget ?rsync))\<rparr>"
  have cap: "0 < capacity q4" "0 < capacity q2" using q4(4) q2(2) q(2) by simp_all
  obtain q5 where q5: "items q5 = []" "capacity q5 = capacity q4"
    and r4: "execs rt ch rd [Read 0, Enqueue 0, Receive 0 wl] S4
      = Some (put 0 (settle (handle_cmd rt wl ?rsyn (peers S4, idle 0 l q5 [] (frame ?vp @ frame ?vf)))) S4)"
  proof -
    have "0 < length (tasks S4)" "tasks S4 ! 0 = idle 0 l q4 ?fr (frame ?vp @ frame ?vf)" "read_req rt rd ?fr = Ret (Inr (?rsyn, []))"
      using read(3)[of "[]"] by (simp_all add: S4_def)
    from serve[OF ch q4(3) cap(1) this] that show ?thesis by blast
  qed
  obtain q6 q7 where q7: "mpsc_send ch ?fwd2 q2 = Some q6" "mpsc_recv ch q6 = Some (?fwd2, q7)"
    using bounded_channel.through[OF ch q2(1) cap(2), of ?fwd2] by metis
  define S5 where "S5 = ?state ?m2 [idle 0 l q5 [] (frame ?vp @ frame ?vf), idle 1 c q6 [] []]"
  have run4: "execs rt ch rd ([Read 0, Enqueue 0, Receive 0 wl] @ [Forward 0 wl]) S4 = Some S5"
    unfolding moves_append r4
    using ids(3) q7(1)
    by (simp add: S4_def S5_def defs handle_rsync_def put_def running_def push_def resume_send_def)
  have run5: "execs rt ch rd [Receive 1 wc, Written 1 (Inr ()) (Inr ())] S5
      = Some (?state ?m2 [idle 0 l q5 [] (frame ?vp @ frame ?vf), idle 1 c q7 [] (frame ?vr)])"
    using ids(3) q7(2)
    by (simp add: S5_def defs handle_rsync_def sent(3) clean put_def running_def resume_write_def)
  have "execs rt ch rd (session_moves wl wc fl fc) s
      = Some (?state ?m2 [idle 0 l q5 [] (frame ?vp @ frame ?vf), idle 1 c q7 [] (frame ?vr)])"
    unfolding session_moves_def moves_append[of rt ch rd "[Accept fl, Accept fc]"] run0 option.case
      moves_append[of rt ch rd "[Read 0, Enqueue 0, Receive 0 wl] @ [Written 0 (Inr ()) (Inr ())]"] run1
      moves_append[of rt ch rd "[Read 1, Enqueue 1, Receive 1 wc] @ [Forward 1 wc]"] run2
      moves_append[of rt ch rd "[Receive 0 wl, Written 0 (Inr ()) (Inr ())]"] run3
      moves_append[of rt ch rd "[Read 0, Enqueue 0, Receive 0 wl] @ [Forward 0 wl]"] run4
    by (rule run5)
  then show ?thesis by auto
qed

section \<open>The clients of the session\<close>

lemma empty_read_loop: "read_loop rt os la alive k [] = ([], [], Ret (Inr ()))"
  by (subst read_loop.simps) (simp add: read_resp_def std_read_exact_def)

lemma clean_answers:
  assumes rt: "pb_runtime rt" and t: "name_ok t"
  shows "RespCmd_clean rt (RespPong (Pong_new rt))"
    and "RespCmd_clean rt (RespFsync ((Fsync_new rt)\<lparr>fsync_id := t, fsync_addr := show_addr a\<rparr>))"
    and "RespCmd_clean rt (RespRedirect ((Redirect_new rt)\<lparr>redirect_id := t, redirect_addr := show_addr a\<rparr>))"
  using pb_runtime.pong_clean[OF rt] pb_runtime.fsync_clean[OF rt _ show_addr_ok, of t a]
    pb_runtime.redirect_clean[OF rt _ show_addr_ok, of t a] t
  by (simp_all add: name_ok_def)

lemma listener_hears:
  assumes rt: "pb_runtime rt" and t: "name_ok t" and sk: "bind os la = Ret (Inr sk)"
  shows "read_loop rt (\<lambda>_. os) la (\<lambda>_. True) k
      (frame (answer rt (RespPong (Pong_new rt)))
        @ frame (answer rt (RespFsync ((Fsync_new rt)\<lparr>fsync_id := t, fsync_addr := show_addr a\<rparr>))))
    = ([ReqRsync ((Rsync_new rt)\<lparr>rsync_id := t\<rparr>)], [(la, clear_flow a)], Ret (Inr ()))"
proof -
  let ?p = "RespPong (Pong_new rt)" and ?f = "RespFsync ((Fsync_new rt)\<lparr>fsync_id := t, fsync_addr := show_addr a\<rparr>)"
  have nil: "name_ok []" by (simp add: name_ok_def)
  note fits = pb_runtime.response_fits[OF rt nil]
  note read = answer_read[OF rt clean_answers(1)[OF rt t] fits(1)] answer_read[OF rt clean_answers(2)[OF rt t] fits(4)[OF t], where r = "[]"]
  have duties: "reply_of rt (response rt [] ?p) = []" "attempt_of la (response rt [] ?p) = []" "answerable (response rt [] ?p)"
      "reply_of rt (response rt [] ?f) = [ReqRsync ((Rsync_new rt)\<lparr>rsync_id := t\<rparr>)]"
      "attempt_of la (response rt [] ?f) = [(la, clear_flow a)]" "answerable (response rt [] ?f)"
    by (simp_all add: reply_of_def attempt_of_def answerable_def response_def parse_show_addr)
  have "read_loop rt (\<lambda>_. os) la (\<lambda>_. True) (Suc k) (frame (answer rt ?f))
      = ([ReqRsync ((Rsync_new rt)\<lparr>rsync_id := t\<rparr>)], [(la, clear_flow a)], Ret (Inr ()))"
    using read_loop_answer[OF read(2)[simplified], where os = "\<lambda>_. os" and k = "Suc k" and la = la and sk = sk and alive = "\<lambda>_. True"] sk
    by (simp add: duties empty_read_loop)
  then show ?thesis
    using read_loop_answer[OF read(1), where os = "\<lambda>_. os" and k = k and la = la and sk = sk and alive = "\<lambda>_. True"] sk by (simp add: duties)
qed

text \<open>The redirect that \<open>connect\<close> takes: under any identity \<open>u\<close>.\<close>

lemma connector_hears:
  assumes rt: "pb_runtime rt" and names: "name_ok (client_id cl)" "name_ok t" and u: "name_ok u"
    and pre: "ques_call (choose_bind_addr (ce_resolve env 0) cl) (\<lambda>la. connect_server (ce_resolve env 1) (ce_server env) la (server_addr cl))
      = Ret (Inr svr)"
    and os: "ce_write1 env = Inr ()" "ce_write2 env = Inr ()" "to_local_addr (sk_os svr) = Inr (Some lc)"
      "bind (ce_peer env) lc = Ret (Inr sk)" "to_connect (ce_peer env) (clear_flow a) = Inr ()"
    and heard: "ce_in env = frame (answer rt (RespRedirect ((Redirect_new rt)\<lparr>redirect_id := u, redirect_addr := show_addr a\<rparr>)))"
  shows "connect rt env cl t
    = Ret (Inr (sk\<lparr>remote := Some (clear_flow a)\<rparr>), ask_frame rt (client_id cl) (ReqIsync ((Isync_new rt)\<lparr>isync_id := t\<rparr>)))"
proof -
  let ?r = "RespRedirect ((Redirect_new rt)\<lparr>redirect_id := u, redirect_addr := show_addr a\<rparr>)"
  have nil: "name_ok []" by (simp add: name_ok_def)
  have read: "read_resp rt std_read_exact (frame (answer rt ?r)) = Ret (Inr (Response_forget (response rt [] ?r), []))"
    using answer_read[OF rt clean_answers(3)[OF rt u] pb_runtime.response_fits(2)[OF rt nil u], where r = "[]"] by simp
  have sent: "write_req rt (Inr ()) (Inr ()) (client_id cl) (ReqIsync ((Isync_new rt)\<lparr>isync_id := t\<rparr>)) []
      = (ask_frame rt (client_id cl) (ReqIsync ((Isync_new rt)\<lparr>isync_id := t\<rparr>)), Inr ())"
    using ask_written[OF rt ask_ok_simps(2)[OF rt names], of "[]"] by simp
  have "sk_os sk = ce_peer env" using os(4) bind_Ret by fastforce
  then have "connect_redirected rt env svr = Ret (Inr (sk\<lparr>remote := Some (clear_flow a)\<rparr>))"
    using os(3-5) by (simp add: connect_redirected_def heard read parse_show_addr socket_addr_def connect_socket_def)
  then show ?thesis using pre os(1,2) sent by (simp add: connect_def)
qed

text \<open>C2. A session: the listener \<open>l\<close> sends its ping and, after the request of \<open>c\<close>, its
  reply; \<open>c\<close> sends the request of \<open>connect\<close>. Under the schedule that delivers these frames
  one by one, the server sends each client a stream from which the listener's reading loop
  makes exactly the reply it sent and one attempt to connect to the address that the server
  saw for \<open>c\<close>, while \<open>connect\<close> of the other client sends exactly the request assumed here and
  returns a socket connected to the address that the server saw for \<open>l\<close>.\<close>

theorem tcp_session:
  fixes rt :: "'u pb_rt" and s :: "('q, 'u) Server"
  assumes rt: "pb_runtime rt" and io: "exact_reader rd" "bounded_channel ch items capacity"
    and ids: "name_ok l" "name_ok (client_id cl)" "l \<noteq> client_id cl"
    and addrs: "peer_addr wl = Inr al" "peer_addr wc = Inr ac"
    and new: "Server_new os a v6 = Inr s"
    and listener: "write_req rt (Inr ()) (Inr ()) l (ReqPing (Ping_new rt)) [] = (f1, Inr ())"
      "write_req rt (Inr ()) (Inr ()) l (ReqRsync ((Rsync_new rt)\<lparr>rsync_id := client_id cl\<rparr>)) f1 = (fl, Inr ())"
      "bind los la = Ret (Inr lsk)"
    and pre: "ques_call (choose_bind_addr (ce_resolve env 0) cl) (\<lambda>la. connect_server (ce_resolve env 1) (ce_server env) la (server_addr cl))
      = Ret (Inr svr)"
    and connector: "ce_write1 env = Inr ()" "ce_write2 env = Inr ()" "to_local_addr (sk_os svr) = Inr (Some lc)"
      "bind (ce_peer env) lc = Ret (Inr sk)" "to_connect (ce_peer env) (clear_flow al) = Inr ()"
  shows "\<exists>s' fc to_l to_c. execs rt ch rd (session_moves wl wc fl fc) s = Some s' \<and> map stream_out (tasks s') = [to_l, to_c]
    \<and> read_loop rt (\<lambda>_. los) la (\<lambda>_. True) 0 to_l
        = ([ReqRsync ((Rsync_new rt)\<lparr>rsync_id := client_id cl\<rparr>)], [(la, clear_flow ac)], Ret (Inr ()))
    \<and> connect rt (env\<lparr>ce_in := to_c\<rparr>) cl l = Ret (Inr (sk\<lparr>remote := Some (clear_flow al)\<rparr>), fc)"
proof -
  let ?c = "client_id cl"
  note ok = ask_ok_simps[OF rt ids(1)]
  have "f1 = ask_frame rt l (ReqPing (Ping_new rt))"
    using listener(1) ask_written[OF rt ok(1), of "[]"] by simp
  then have fl: "fl = ask_frame rt l (ReqPing (Ping_new rt)) @ ask_frame rt l (ReqRsync ((Rsync_new rt)\<lparr>rsync_id := ?c\<rparr>))"
    using listener(2) ask_written[OF rt ok(3)[OF ids(2)], of f1] by simp
  define to_c where "to_c = frame (answer rt (RespRedirect ((Redirect_new rt)\<lparr>redirect_id := l, redirect_addr := show_addr al\<rparr>)))"
  have "connect rt (env\<lparr>ce_in := to_c\<rparr>) cl l
      = Ret (Inr (sk\<lparr>remote := Some (clear_flow al)\<rparr>), ask_frame rt ?c (ReqIsync ((Isync_new rt)\<lparr>isync_id := l\<rparr>)))"
    by (rule connector_hears[OF rt ids(2,1,1), of _ svr lc]) (use pre connector in \<open>simp_all add: to_c_def\<close>)
  with session_run[OF rt io ids addrs fl refl new] listener_hears[OF rt ids(2) listener(3), of 0 ac] to_c_def show ?thesis
    by fastforce
qed

theorem tcp_session_witness:
  "\<exists>s' fc to_l to_c.
     execs wire_rt std_channel std_read_exact
       (session_moves (answers_from (V4 (Ipv4 1 2 3 4) 5)) (answers_from (V4 (Ipv4 1 2 3 5) 6))
         (ask_frame wire_rt ''l'' (ReqPing (Ping_new wire_rt))
           @ ask_frame wire_rt ''l'' (ReqRsync ((Rsync_new wire_rt)\<lparr>rsync_id := ''c''\<rparr>))) fc)
       started = Some s'
     \<and> map stream_out (tasks s') = [to_l, to_c]
     \<and> fst (snd (read_loop wire_rt (\<lambda>_. easy_os any_v4) any_v4 (\<lambda>_. True) 0 to_l)) = [(any_v4, V4 (Ipv4 1 2 3 5) 6)]
     \<and> (\<exists>sk. connect wire_rt (easy_env to_c) (some_client\<lparr>client_id := ''c''\<rparr>) ''l'' = Ret (Inr sk, fc)
          \<and> remote sk = Some (V4 (Ipv4 1 2 3 4) 5))"
proof -
  note rt = wire.pb_runtime_axioms
  let ?cl = "some_client\<lparr>client_id := ''c''\<rparr>" and ?env = "easy_env []"
  have n: "name_ok ''l''" "name_ok ''c''" by (simp_all add: name_ok_def text_ok_def max_text_def utf8_valid_ascii)
  note w = ask_written[OF rt ask_ok_simps(1)[OF rt n(1)], of "[]"] ask_written[OF rt ask_ok_simps(3)[OF rt n], of "ask_frame wire_rt ''l'' (ReqPing (Ping_new wire_rt))"]
  let ?svr = "\<lparr>sk_os = easy_os any_v4, bound_to = any_v4, remote = Some (V4 (Ipv4 9 9 9 9) 8888)\<rparr>"
  have pre: "ques_call (choose_bind_addr (ce_resolve ?env 0) ?cl) (\<lambda>la. connect_server (ce_resolve ?env 1) (ce_server ?env) la (server_addr ?cl))
      = Ret (Inr ?svr)"
    by (simp add: choose_bind_addr_def connect_server_def bind_def resolve_first_def connect_socket_def)
  have b: "bind (easy_os any_v4) any_v4 = Ret (Inr \<lparr>sk_os = easy_os any_v4, bound_to = any_v4, remote = None\<rparr>)" by (simp add: bind_def)
  show ?thesis
    using tcp_session[OF rt std_reader.exact_reader_axioms std_chan.bounded_channel_axioms n(1), of ?cl
        "answers_from (V4 (Ipv4 1 2 3 4) 5)" "V4 (Ipv4 1 2 3 4) 5" "answers_from (V4 (Ipv4 1 2 3 5) 6)" "V4 (Ipv4 1 2 3 5) 6",
        OF _ _ _ _ started_new _ _ b pre] w n(2) b
    by fastforce
qed

section \<open>A redirect from somebody else\<close>

text \<open>
  Three clients connect. \<open>t\<close> is registered; \<open>x\<close> is registered and, after \<open>c\<close> has asked for
  \<open>t\<close>, sends a reply to \<open>c\<close> in its own name, before \<open>t\<close> has been told.
\<close>

definition hijack_moves :: "answers \<Rightarrow> answers \<Rightarrow> answers \<Rightarrow> bytes \<Rightarrow> bytes \<Rightarrow> bytes \<Rightarrow> label list" where
  "hijack_moves wt wx wc ft fx fc =
     [Accept ft, Accept fx, Accept fc]
   @ ([Read 0, Enqueue 0, Receive 0 wt] @ [Written 0 (Inr ()) (Inr ())])
   @ ([Read 1, Enqueue 1, Receive 1 wx] @ [Written 1 (Inr ()) (Inr ())])
   @ ([Read 2, Enqueue 2, Receive 2 wc] @ [Forward 2 wc])
   @ ([Read 1, Enqueue 1, Receive 1 wx] @ [Forward 1 wx])
   @ [Receive 2 wc, Written 2 (Inr ()) (Inr ())]"

lemma hijack_run:
  fixes rt :: "'u pb_rt" and s :: "('q, 'u) Server"
  assumes rt: "pb_runtime rt" and rd: "exact_reader rd" and ch: "bounded_channel ch items capacity"
    and ids: "name_ok t" "name_ok x" "name_ok c" and diff: "t \<noteq> x" "t \<noteq> c" "x \<noteq> c"
    and addrs: "peer_addr wt = Inr at" "peer_addr wx = Inr ax" "peer_addr wc = Inr ac"
    and ft: "ft = ask_frame rt t (ReqPing (Ping_new rt))"
    and fx: "fx = ask_frame rt x (ReqPing (Ping_new rt)) @ ask_frame rt x (ReqRsync ((Rsync_new rt)\<lparr>rsync_id := c\<rparr>))"
    and fc: "fc = ask_frame rt c (ReqIsync ((Isync_new rt)\<lparr>isync_id := t\<rparr>))"
    and new: "Server_new os a v6 = Inr s"
  shows "\<exists>s'. execs rt ch rd (hijack_moves wt wx wc ft fx fc) s = Some s' \<and> length (tasks s') = 3
    \<and> stream_out (tasks s' ! 2) = frame (answer rt (RespRedirect ((Redirect_new rt)\<lparr>redirect_id := x, redirect_addr := show_addr ax\<rparr>)))"
proof -
  let ?rsync = "(Rsync_new rt)\<lparr>rsync_id := c\<rparr>" and ?isync = "(Isync_new rt)\<lparr>isync_id := t\<rparr>"
  let ?fr = "ask_frame rt x (ReqRsync ?rsync)"
  let ?fsync = "(Fsync_new rt)\<lparr>fsync_id := c, fsync_addr := show_addr ac\<rparr>"
  let ?rdr = "(Redirect_new rt)\<lparr>redirect_id := x, redirect_addr := show_addr ax\<rparr>"
  let ?vp = "answer rt (RespPong (Pong_new rt))" and ?vr = "answer rt (RespRedirect ?rdr)"
  note ok = ask_ok_simps[OF rt]
  note read = ask_read[OF rt rd ok(1)[OF ids(1)], of "[]"] ask_read[OF rt rd ok(1)[OF ids(2)]]
    ask_read[OF rt rd ok(2)[OF ids(3,1)], of "[]"] ask_read[OF rt rd ok(3)[OF ids(2,3)], of "[]"]
  note sent = answer_sent[OF rt clean_answers(1)[OF rt ids(1)]] answer_sent[OF rt clean_answers(3)[OF rt ids(2)], of ax]
  let ?q = "mpsc_new ch 10"
  have q: "items ?q = []" "0 < capacity ?q" using bounded_channel.new_channel[OF ch, of 10] by simp_all
  let ?pt = "\<lparr>p_id = 1, last_ping = now_ping wt, req_tx = 0, addr = at\<rparr>"
  let ?px = "\<lparr>p_id = 2, last_ping = now_ping wx, req_tx = 1, addr = ax\<rparr>"
  let ?pc = "\<lparr>p_id = 3, last_ping = now_ping wc, req_tx = 2, addr = ac\<rparr>"
  let ?m = "\<lambda>es. \<lparr>entries = es, poisoned = False\<rparr>"
  let ?state = "\<lambda>es (ts :: ('q, 'u) PeerHandler list). \<lparr>peers = ?m es, count = 3, accepting = True, tasks = ts\<rparr>"
  note defs = handle_cmd_def settle_def follow_def insert_peerstate_def Let_def
  define S1 where "S1 = ?state Map.empty [idle 0 [] ?q ft [], idle 1 [] ?q fx [], idle 2 [] ?q fc []]"
  have run0: "execs rt ch rd [Accept ft, Accept fx, Accept fc] s = Some S1"
  proof -
    have "s = \<lparr>peers = ?m Map.empty, count = 0, accepting = True, tasks = []\<rparr>"
      using new by (auto simp: Server_new_def res_bind_eq_Inr)
    then show ?thesis by (simp add: S1_def Tcp_Server.accept_def next_id_def)
  qed
  \<comment> \<open>the pings\<close>
  obtain qa where qa: "items qa = []" "capacity qa = capacity ?q"
    and r1: "execs rt ch rd [Read 0, Enqueue 0, Receive 0 wt] S1
      = Some (put 0 (settle (handle_cmd rt wt (Request_forget (ask rt t (ReqPing (Ping_new rt)))) (peers S1, idle 0 [] qa [] []))) S1)"
  proof -
    have "0 < length (tasks S1)" "tasks S1 ! 0 = idle 0 [] ?q ft []"
        "read_req rt rd ft = Ret (Inr (Request_forget (ask rt t (ReqPing (Ping_new rt))), []))"
      using read(1) by (simp_all add: S1_def ft)
    from serve[OF ch q this] that show ?thesis by blast
  qed
  define S2 where "S2 = ?state [t \<mapsto> ?pt] [idle 0 t qa [] (frame ?vp), idle 1 [] ?q fx [], idle 2 [] ?q fc []]"
  have run1: "execs rt ch rd ([Read 0, Enqueue 0, Receive 0 wt] @ [Written 0 (Inr ()) (Inr ())]) S1 = Some S2"
    unfolding moves_append r1
    by (simp add: S1_def S2_def defs handle_ping_def addrs sent(1) put_def running_def resume_write_def)
  obtain qb where qb: "items qb = []" "capacity qb = capacity ?q"
    and r2: "execs rt ch rd [Read 1, Enqueue 1, Receive 1 wx] S2
      = Some (put 1 (settle (handle_cmd rt wx (Request_forget (ask rt x (ReqPing (Ping_new rt)))) (peers S2, idle 1 [] qb ?fr []))) S2)"
  proof -
    have "1 < length (tasks S2)" "tasks S2 ! 1 = idle 1 [] ?q fx []"
        "read_req rt rd fx = Ret (Inr (Request_forget (ask rt x (ReqPing (Ping_new rt))), ?fr))"
      using read(2) by (simp_all add: S2_def fx)
    from serve[OF ch q this] that show ?thesis by blast
  qed
  define S3 where "S3 = ?state [t \<mapsto> ?pt, x \<mapsto> ?px] [idle 0 t qa [] (frame ?vp), idle 1 x qb ?fr (frame ?vp), idle 2 [] ?q fc []]"
  have run2: "execs rt ch rd ([Read 1, Enqueue 1, Receive 1 wx] @ [Written 1 (Inr ()) (Inr ())]) S2 = Some S3"
    unfolding moves_append r2
    using diff by (simp add: S2_def S3_def defs handle_ping_def addrs sent(1) put_def running_def resume_write_def)
  \<comment> \<open>the request of \<open>c\<close>\<close>
  let ?fwd = "Request_set_Fsync ?fsync (Request_new rt)"
  obtain qc where qc: "items qc = []" "capacity qc = capacity ?q"
    and r3: "execs rt ch rd [Read 2, Enqueue 2, Receive 2 wc] S3
      = Some (put 2 (settle (handle_cmd rt wc (Request_forget (ask rt c (ReqIsync ?isync))) (peers S3, idle 2 [] qc [] []))) S3)"
  proof -
    have "2 < length (tasks S3)" "tasks S3 ! 2 = idle 2 [] ?q fc []"
        "read_req rt rd fc = Ret (Inr (Request_forget (ask rt c (ReqIsync ?isync)), []))"
      using read(3) by (simp_all add: S3_def fc)
    from serve[OF ch q this] that show ?thesis by blast
  qed
  obtain qf where qf: "mpsc_send ch ?fwd qa = Some qf"
    using bounded_channel.through[OF ch qa(1), of ?fwd] qa(2) q(2) by metis
  let ?es = "[t \<mapsto> ?pt, x \<mapsto> ?px, c \<mapsto> ?pc]"
  define S4 where "S4 = ?state ?es [idle 0 t qf [] (frame ?vp), idle 1 x qb ?fr (frame ?vp), idle 2 c qc [] []]"
  have run3: "execs rt ch rd ([Read 2, Enqueue 2, Receive 2 wc] @ [Forward 2 wc]) S3 = Some S4"
    unfolding moves_append r3
    using diff qf
    by (simp add: S3_def S4_def defs handle_isync_def addrs put_def running_def push_def resume_send_def)
  \<comment> \<open>the reply of \<open>x\<close>\<close>
  let ?fwd2 = "(Request_new rt)\<lparr>req_id := x, req_cmd := Some (ReqRsync (Rsync_forget ?rsync))\<rparr>"
  have cap: "0 < capacity qb" "0 < capacity qc" using qb(2) qc(2) q(2) by simp_all
  obtain qd where r4: "execs rt ch rd [Read 1, Enqueue 1, Receive 1 wx] S4
      = Some (put 1 (settle (handle_cmd rt wx (Request_forget (ask rt x (ReqRsync ?rsync))) (peers S4, idle 1 x qd [] (frame ?vp)))) S4)"
  proof -
    have "1 < length (tasks S4)" "tasks S4 ! 1 = idle 1 x qb ?fr (frame ?vp)"
        "read_req rt rd ?fr = Ret (Inr (Request_forget (ask rt x (ReqRsync ?rsync)), []))"
      using read(4) by (simp_all add: S4_def)
    from serve[OF ch qb(1) cap(1) this] that show ?thesis by blast
  qed
  obtain qe qg where qe: "mpsc_send ch ?fwd2 qc = Some qe" "mpsc_recv ch qe = Some (?fwd2, qg)"
    using bounded_channel.through[OF ch qc(1) cap(2), of ?fwd2] by metis
  define S5 where "S5 = ?state ?es [idle 0 t qf [] (frame ?vp), idle 1 x qd [] (frame ?vp), idle 2 c qe [] []]"
  have run4: "execs rt ch rd ([Read 1, Enqueue 1, Receive 1 wx] @ [Forward 1 wx]) S4 = Some S5"
    unfolding moves_append r4
    using diff qe(1)
    by (simp add: S4_def S5_def defs handle_rsync_def put_def running_def push_def resume_send_def)
  have run5: "execs rt ch rd [Receive 2 wc, Written 2 (Inr ()) (Inr ())] S5
      = Some (?state ?es [idle 0 t qf [] (frame ?vp), idle 1 x qd [] (frame ?vp), idle 2 c qg [] (frame ?vr)])"
    using diff qe(2)
    by (simp add: S5_def defs handle_rsync_def sent(2) put_def running_def resume_write_def)
  have "execs rt ch rd (hijack_moves wt wx wc ft fx fc) s
      = Some (?state ?es [idle 0 t qf [] (frame ?vp), idle 1 x qd [] (frame ?vp), idle 2 c qg [] (frame ?vr)])"
    unfolding hijack_moves_def moves_append[of rt ch rd "[Accept ft, Accept fx, Accept fc]"] run0 option.case
      moves_append[of rt ch rd "[Read 0, Enqueue 0, Receive 0 wt] @ [Written 0 (Inr ()) (Inr ())]"] run1
      moves_append[of rt ch rd "[Read 1, Enqueue 1, Receive 1 wx] @ [Written 1 (Inr ()) (Inr ())]"] run2
      moves_append[of rt ch rd "[Read 2, Enqueue 2, Receive 2 wc] @ [Forward 2 wc]"] run3
      moves_append[of rt ch rd "[Read 1, Enqueue 1, Receive 1 wx] @ [Forward 1 wx]"] run4
    by (rule run5)
  then show ?thesis by simp
qed

text \<open>C33. \<open>connect\<close> does not look at the identity in the redirect, and any registered client
  can use that. Whatever the identities, the addresses, the runtime and the queues: while
  \<open>cl\<close> asks for the registered \<open>t\<close>, a client that speaks only in the name of another identity \<open>x\<close> replies
  to \<open>cl\<close>. Under the schedule that handles this reply first, \<open>connect\<close>, which has sent
  its request for \<open>t\<close>, returns a socket connected to the address that the server saw for \<open>x\<close>,
  and it would do the same with any other identity in the redirect.\<close>

theorem tcp_connect_hijacked:
  fixes rt :: "'u pb_rt" and s :: "('q, 'u) Server"
  assumes rt: "pb_runtime rt" and io: "exact_reader rd" "bounded_channel ch items capacity"
    and ids: "name_ok t" "name_ok x" "name_ok (client_id cl)" "t \<noteq> x" "t \<noteq> client_id cl" "x \<noteq> client_id cl"
    and addrs: "peer_addr wt = Inr at" "peer_addr wx = Inr ax" "peer_addr wc = Inr ac"
    and new: "Server_new os a v6 = Inr s"
    and pre: "ques_call (choose_bind_addr (ce_resolve env 0) cl) (\<lambda>la. connect_server (ce_resolve env 1) (ce_server env) la (server_addr cl))
      = Ret (Inr svr)"
    and connector: "ce_write1 env = Inr ()" "ce_write2 env = Inr ()" "to_local_addr (sk_os svr) = Inr (Some lc)"
      "bind (ce_peer env) lc = Ret (Inr sk)" "to_connect (ce_peer env) (clear_flow ax) = Inr ()"
  shows "\<exists>s' to_c. let fc = ask_frame rt (client_id cl) (ReqIsync ((Isync_new rt)\<lparr>isync_id := t\<rparr>)) in
    execs rt ch rd
      (hijack_moves wt wx wc (ask_frame rt t (ReqPing (Ping_new rt)))
        (ask_frame rt x (ReqPing (Ping_new rt)) @ ask_frame rt x (ReqRsync ((Rsync_new rt)\<lparr>rsync_id := client_id cl\<rparr>))) fc) s = Some s'
    \<and> length (tasks s') = 3 \<and> stream_out (tasks s' ! 2) = to_c
    \<and> connect rt (env\<lparr>ce_in := to_c\<rparr>) cl t = Ret (Inr (sk\<lparr>remote := Some (clear_flow ax)\<rparr>), fc)
    \<and> (\<forall>u. name_ok u \<longrightarrow>
        connect rt (env\<lparr>ce_in := frame (answer rt (RespRedirect ((Redirect_new rt)\<lparr>redirect_id := u, redirect_addr := show_addr ax\<rparr>)))\<rparr>) cl t
          = connect rt (env\<lparr>ce_in := to_c\<rparr>) cl t)"
proof -
  have hears: "connect rt (env\<lparr>ce_in := frame (answer rt (RespRedirect ((Redirect_new rt)\<lparr>redirect_id := u, redirect_addr := show_addr ax\<rparr>)))\<rparr>) cl t
      = Ret (Inr (sk\<lparr>remote := Some (clear_flow ax)\<rparr>), ask_frame rt (client_id cl) (ReqIsync ((Isync_new rt)\<lparr>isync_id := t\<rparr>)))"
    if "name_ok u" for u
    by (rule connector_hears[OF rt ids(3,1) that, of _ svr lc]) (use pre connector in simp_all)
  show ?thesis
    using hijack_run[OF rt io ids addrs refl refl refl new] hears ids(2) by (auto simp: Let_def)
qed

theorem tcp_connect_hijacked_witness:
  "\<exists>s' to_c sk. execs wire_rt std_channel std_read_exact
       (hijack_moves (answers_from (V4 (Ipv4 1 2 3 4) 5)) (answers_from (V4 (Ipv4 1 2 3 5) 6)) (answers_from (V4 (Ipv4 1 2 3 6) 7))
         (ask_frame wire_rt ''t'' (ReqPing (Ping_new wire_rt)))
         (ask_frame wire_rt ''x'' (ReqPing (Ping_new wire_rt)) @ ask_frame wire_rt ''x'' (ReqRsync ((Rsync_new wire_rt)\<lparr>rsync_id := ''c''\<rparr>)))
         (ask_frame wire_rt ''c'' (ReqIsync ((Isync_new wire_rt)\<lparr>isync_id := ''t''\<rparr>))))
       started = Some s'
     \<and> stream_out (tasks s' ! 2) = to_c
     \<and> connect wire_rt (easy_env to_c) (some_client\<lparr>client_id := ''c''\<rparr>) ''t''
         = Ret (Inr sk, ask_frame wire_rt ''c'' (ReqIsync ((Isync_new wire_rt)\<lparr>isync_id := ''t''\<rparr>)))
     \<and> remote sk = Some (V4 (Ipv4 1 2 3 5) 6)"
proof -
  let ?cl = "some_client\<lparr>client_id := ''c''\<rparr>" and ?env = "easy_env []"
  have n: "name_ok ''t''" "name_ok ''x''" "name_ok (client_id ?cl)" "''t'' \<noteq> ''x''" "''t'' \<noteq> client_id ?cl" "''x'' \<noteq> client_id ?cl"
    by (simp_all add: name_ok_def text_ok_def max_text_def utf8_valid_ascii)
  let ?svr = "\<lparr>sk_os = easy_os any_v4, bound_to = any_v4, remote = Some (V4 (Ipv4 9 9 9 9) 8888)\<rparr>"
  have pre: "ques_call (choose_bind_addr (ce_resolve ?env 0) ?cl) (\<lambda>la. connect_server (ce_resolve ?env 1) (ce_server ?env) la (server_addr ?cl))
      = Ret (Inr ?svr)"
    by (simp add: choose_bind_addr_def connect_server_def bind_def resolve_first_def connect_socket_def)
  show ?thesis
    using tcp_connect_hijacked[OF wire.pb_runtime_axioms std_reader.exact_reader_axioms std_chan.bounded_channel_axioms n, of
        "answers_from (V4 (Ipv4 1 2 3 4) 5)" "V4 (Ipv4 1 2 3 4) 5" "answers_from (V4 (Ipv4 1 2 3 5) 6)" "V4 (Ipv4 1 2 3 5) 6"
        "answers_from (V4 (Ipv4 1 2 3 6) 7)" "V4 (Ipv4 1 2 3 6) 7", OF _ _ _ started_new pre,
        of any_v4 "\<lparr>sk_os = easy_os any_v4, bound_to = any_v4, remote = None\<rparr>"]
    by (fastforce simp: Let_def bind_def)
qed

end
