(* ===== verification/Tcp_Hub.thy ===== *)
theory Tcp_Hub
  imports Rendezvous
begin

text \<open>
  A specification of the whole TCP server, without bytes, queues of requests, mutexes or
  scheduling points: a hub of numbered connections. Connection \<open>i\<close> is seen at the address
  \<open>addr i\<close> and brings the messages for which \<open>asks i\<close> holds. The hub keeps who is registered on
  which connection, an inbox for each connection, the message that a connection is passing
  on, and the notes it has said to its client.

  At the end of the theory: in every state of the hub, each note has a reason in what the
  connections asked.
\<close>

section \<open>The hub\<close>

text \<open>A call in the name of an identity, or the news that somebody wants to connect.\<close>

datatype hub_msg = Ask string call | Tell string string

record hub =
  owner :: "string \<rightharpoonup> nat"
  named :: "nat \<Rightarrow> string"
  inbox :: "nat \<Rightarrow> hub_msg list"
  passing :: "nat \<Rightarrow> (nat \<times> hub_msg \<times> string option) option"
  said :: "nat \<Rightarrow> notice list"

definition hub_start :: hub where
  "hub_start = \<lparr>owner = Map.empty, named = (\<lambda>_. []), inbox = (\<lambda>_. []), passing = (\<lambda>_. None), said = (\<lambda>_. [])\<rparr>"

definition say :: "nat \<Rightarrow> notice \<Rightarrow> hub \<Rightarrow> hub" where
  "say i n H = H\<lparr>said := (said H)(i := said H i @ [n])\<rparr>"

definition enlist :: "nat \<Rightarrow> string \<Rightarrow> hub \<Rightarrow> hub" where
  "enlist i who H = H\<lparr>owner := (owner H)(who \<mapsto> i), named := (named H)(i := who)\<rparr>"

definition enlist_option :: "nat \<Rightarrow> string option \<Rightarrow> hub \<Rightarrow> hub" where
  "enlist_option i r H = (case r of None \<Rightarrow> H | Some who \<Rightarrow> enlist i who H)"

definition pass_on :: "nat \<Rightarrow> nat \<times> hub_msg \<times> string option \<Rightarrow> hub \<Rightarrow> hub" where
  "pass_on i p H = H\<lparr>passing := (passing H)(i := Some p)\<rparr>"

text \<open>What connection \<open>i\<close> does with a message.\<close>

fun attend :: "(nat \<Rightarrow> SocketAddr) \<Rightarrow> nat \<Rightarrow> hub_msg \<Rightarrow> hub \<Rightarrow> hub" where
  "attend addr i (Ask who CPing) H = say i NPong (enlist i who H)"
| "attend addr i (Ask who (CIsync target)) H =
     (case owner H target of
        Some j \<Rightarrow> pass_on i (j, Tell who (show_addr (addr i)), Some who) H
      | None \<Rightarrow> say i (NRedirect target []) H)"
| "attend addr i (Ask who (CRsync target)) H =
     (if target = named H i then
        (case owner H who of
           Some j \<Rightarrow> say i (NRedirect who (show_addr (addr j))) H
         | None \<Rightarrow> H)
      else
        (case owner H target of
           Some j \<Rightarrow> pass_on i (j, Ask who (CRsync target), None) H
         | None \<Rightarrow> H))"
| "attend addr i (Ask who CBye) H = H"
| "attend addr i (Ask who CUnknown) H = H"
| "attend addr i (Tell who t) H = say i (NFsync who t) H"

text \<open>
  The steps. A message passed on reaches the inbox of the other connection, or is lost with
  it; then the passing connection is registered if it asked to connect. A connection that
  leaves takes its registration with it.
\<close>

inductive hub_step :: "(nat \<Rightarrow> SocketAddr) \<Rightarrow> (nat \<Rightarrow> hub_msg \<Rightarrow> bool) \<Rightarrow> hub \<Rightarrow> hub \<Rightarrow> bool"
  for addr asks where
  rest: "hub_step addr asks H H"
| arrive: "asks i m \<Longrightarrow> hub_step addr asks H (H\<lparr>inbox := (inbox H)(i := inbox H i @ [m])\<rparr>)"
| handle: "inbox H i = m # ms \<Longrightarrow> passing H i = None
    \<Longrightarrow> hub_step addr asks H (attend addr i m (H\<lparr>inbox := (inbox H)(i := ms)\<rparr>))"
| drop: "inbox H i = Tell who t # ms \<Longrightarrow> hub_step addr asks H (H\<lparr>inbox := (inbox H)(i := ms)\<rparr>)"
| deliver: "passing H i = Some (j, m, r)
    \<Longrightarrow> hub_step addr asks H (enlist_option i r (H\<lparr>inbox := (inbox H)(j := inbox H j @ [m]), passing := (passing H)(i := None)\<rparr>))"
| lose: "passing H i = Some (j, m, r)
    \<Longrightarrow> hub_step addr asks H (enlist_option i r (H\<lparr>passing := (passing H)(i := None)\<rparr>))"
| leave: "owner H (named H i) = Some i \<Longrightarrow> hub_step addr asks H (H\<lparr>owner := remove_key (named H i) (owner H)\<rparr>)"

inductive hub_run :: "(nat \<Rightarrow> SocketAddr) \<Rightarrow> (nat \<Rightarrow> hub_msg \<Rightarrow> bool) \<Rightarrow> hub \<Rightarrow> bool"
  for addr asks where
  start: "hub_run addr asks hub_start"
| more: "hub_run addr asks H \<Longrightarrow> hub_step addr asks H H' \<Longrightarrow> hub_run addr asks H'"

lemmas hub_defs = say_def enlist_def pass_on_def enlist_option_def

section \<open>The hub and the abstract rendezvous\<close>

definition hub_table :: "(nat \<Rightarrow> SocketAddr) \<Rightarrow> hub \<Rightarrow> table" where
  "hub_table addr H k = map_option addr (owner H k)"

text \<open>
  A call on connection \<open>i\<close>, with what it passes on delivered at once, changes the table as the
  abstract rendezvous does; the answer of the rendezvous is said on the same connection, or
  the request is in the inbox of the connection that the rendezvous addresses.
\<close>

fun complete :: "nat \<Rightarrow> hub \<Rightarrow> hub" where
  "complete i H =
     (case passing H i of
        None \<Rightarrow> H
      | Some (j, m, r) \<Rightarrow> enlist_option i r (H\<lparr>inbox := (inbox H)(j := inbox H j @ [m]), passing := (passing H)(i := None)\<rparr>))"

lemma attend_table:
  assumes "passing H i = None" "c \<noteq> CBye"
  shows "hub_table addr (complete i (attend addr i (Ask who c) H)) = fst (rendezvous who c (addr i) (hub_table addr H))"
  using assms by (cases c) (auto simp: hub_table_def hub_defs fun_eq_iff split: option.split)

lemma attend_note:
  assumes "passing H i = None" "snd (rendezvous who (CIsync target) (addr i) (hub_table addr H)) = [(b, t, n)]"
  shows "(\<exists>j a x. owner H target = Some j \<and> b = addr j \<and> n = NFsync a x
      \<and> inbox (complete i (attend addr i (Ask who (CIsync target)) H)) j = inbox H j @ [Tell a x])
    \<or> b = addr i \<and> said (attend addr i (Ask who (CIsync target)) H) i = said H i @ [n]"
  using assms by (auto simp: hub_table_def hub_defs split: option.splits)

section \<open>Every note has a reason\<close>

text \<open>Connection \<open>i\<close> used the identity \<open>who\<close> to register, or has none yet.\<close>

definition claims :: "(nat \<Rightarrow> hub_msg \<Rightarrow> bool) \<Rightarrow> nat \<Rightarrow> string \<Rightarrow> bool" where
  "claims asks i who \<longleftrightarrow> asks i (Ask who CPing) \<or> (\<exists>target. asks i (Ask who (CIsync target)))"

text \<open>
  Why a note is said on connection \<open>i\<close>. Of an \<open>Fsync\<close>: the client itself sent it, or a
  connection seen at the address in the note asked for an identity that \<open>i\<close> claims. Of a
  \<open>Redirect\<close> with an address: a client replied to the identity of \<open>i\<close>, in the name of an
  identity that a connection seen at that address claims.
\<close>

definition called :: "(nat \<Rightarrow> SocketAddr) \<Rightarrow> (nat \<Rightarrow> hub_msg \<Rightarrow> bool) \<Rightarrow> nat \<Rightarrow> string \<Rightarrow> string \<Rightarrow> bool" where
  "called addr asks i who t \<longleftrightarrow>
     (\<exists>k target. asks k (Ask who (CIsync target)) \<and> t = show_addr (addr k) \<and> claims asks i target)"

fun justified :: "(nat \<Rightarrow> SocketAddr) \<Rightarrow> (nat \<Rightarrow> hub_msg \<Rightarrow> bool) \<Rightarrow> nat \<Rightarrow> notice \<Rightarrow> bool" where
  "justified addr asks i NPong \<longleftrightarrow> (\<exists>who. asks i (Ask who CPing))"
| "justified addr asks i (NFsync who t) \<longleftrightarrow> asks i (Tell who t) \<or> called addr asks i who t"
| "justified addr asks i (NRedirect who t) \<longleftrightarrow>
     t = [] \<and> (\<exists>me. asks i (Ask me (CIsync who)))
     \<or> (\<exists>k j target. asks k (Ask who (CRsync target)) \<and> (claims asks i target \<or> k = i \<and> target = [])
          \<and> t = show_addr (addr j) \<and> claims asks j who)"

fun msg_justified :: "(nat \<Rightarrow> SocketAddr) \<Rightarrow> (nat \<Rightarrow> hub_msg \<Rightarrow> bool) \<Rightarrow> nat \<Rightarrow> hub_msg \<Rightarrow> bool" where
  "msg_justified addr asks i (Tell who t) \<longleftrightarrow> asks i (Tell who t) \<or> called addr asks i who t"
| "msg_justified addr asks i (Ask who (CRsync target)) \<longleftrightarrow>
     (\<exists>k. asks k (Ask who (CRsync target)) \<and> (k = i \<or> claims asks i target))"
| "msg_justified addr asks i (Ask who c) \<longleftrightarrow> asks i (Ask who c)"

definition hub_ok :: "(nat \<Rightarrow> SocketAddr) \<Rightarrow> (nat \<Rightarrow> hub_msg \<Rightarrow> bool) \<Rightarrow> hub \<Rightarrow> bool" where
  "hub_ok addr asks H \<longleftrightarrow>
     (\<forall>k i. owner H k = Some i \<longrightarrow> claims asks i k)
     \<and> (\<forall>i. named H i = [] \<or> claims asks i (named H i))
     \<and> (\<forall>i. \<forall>m \<in> set (inbox H i). msg_justified addr asks i m)
     \<and> (\<forall>i j m r. passing H i = Some (j, m, r) \<longrightarrow> msg_justified addr asks j m \<and> (\<forall>who. r = Some who \<longrightarrow> claims asks i who))
     \<and> (\<forall>i. \<forall>n \<in> set (said H i). justified addr asks i n)"

lemma asks_justified: "asks i m \<Longrightarrow> msg_justified addr asks i m"
proof (cases m)
  case (Ask who c)
  then show "asks i m \<Longrightarrow> msg_justified addr asks i m" by (cases c) auto
qed simp

lemma enlist_ok: "hub_ok addr asks H \<Longrightarrow> claims asks i who \<Longrightarrow> hub_ok addr asks (enlist i who H)"
  by (simp add: hub_ok_def enlist_def)

lemma say_ok: "hub_ok addr asks H \<Longrightarrow> justified addr asks i n \<Longrightarrow> hub_ok addr asks (say i n H)"
  by (auto simp: hub_ok_def say_def)

lemma pass_on_ok:
  assumes "hub_ok addr asks H" "msg_justified addr asks j m" "\<And>who. r = Some who \<Longrightarrow> claims asks i who"
  shows "hub_ok addr asks (pass_on i (j, m, r) H)"
  using assms by (auto simp: hub_ok_def pass_on_def)

lemma owner_claims: "hub_ok addr asks H \<Longrightarrow> owner H k = Some j \<Longrightarrow> claims asks j k"
  by (simp add: hub_ok_def)

lemma attend_ok:
  assumes ok: "hub_ok addr asks H" and m: "msg_justified addr asks i m"
  shows "hub_ok addr asks (attend addr i m H)"
proof (cases m)
  case (Tell who t)
  then show ?thesis using assms by (simp add: say_ok)
next
  case (Ask who c)
  show ?thesis
  proof (cases c)
    case CPing
    then show ?thesis using assms Ask by (auto simp: claims_def intro!: say_ok enlist_ok)
  next
    case (CIsync target)
    then have a: "asks i (Ask who (CIsync target))" "claims asks i who" using m Ask by (auto simp: claims_def)
    show ?thesis
    proof (cases "owner H target")
      case (Some j)
      have "msg_justified addr asks j (Tell who (show_addr (addr i)))"
        using a(1) owner_claims[OF ok Some] by (auto simp: called_def)
      from pass_on_ok[OF ok this, of "Some who" i] show ?thesis using Ask CIsync Some a(2) by simp
    qed (use Ask CIsync a in \<open>auto intro!: say_ok[OF ok]\<close>)
  next
    case (CRsync target)
    then obtain k where k: "asks k (Ask who (CRsync target))" "k = i \<or> claims asks i target" using m Ask by auto
    show ?thesis
    proof (cases "target = named H i")
      case True
      have "claims asks i target \<or> k = i \<and> target = []" using ok k(2) by (auto simp: hub_ok_def True)
      show ?thesis
      proof (cases "owner H who")
        case (Some j)
        have "justified addr asks i (NRedirect who (show_addr (addr j)))"
          using k(1) \<open>claims asks i target \<or> k = i \<and> target = []\<close> owner_claims[OF ok Some] unfolding justified.simps by blast
        from say_ok[OF ok this] show ?thesis using Ask CRsync True Some by simp
      qed (use Ask CRsync True ok in simp)
    next
      case False
      then show ?thesis
        using Ask CRsync k(1) ok owner_claims[OF ok] by (auto split: option.split intro!: pass_on_ok)
    qed
  qed (use assms Ask in simp_all)
qed

lemma hub_step_ok:
  assumes "hub_step addr asks H H'" "hub_ok addr asks H"
  shows "hub_ok addr asks H'"
  using assms
proof (cases rule: hub_step.cases)
  case (arrive i m)
  then show ?thesis using assms(2) asks_justified[of asks i m addr] by (auto simp: hub_ok_def)
next
  case (handle i m ms)
  have "hub_ok addr asks (H\<lparr>inbox := (inbox H)(i := ms)\<rparr>)" "msg_justified addr asks i m"
    using assms(2) handle(2) by (auto simp: hub_ok_def)
  then show ?thesis unfolding handle(1) by (rule attend_ok)
next
  case (deliver i j m r)
  then show ?thesis using assms(2) by (auto simp: hub_ok_def hub_defs split: option.split)
next
  case (lose i j m r)
  then show ?thesis using assms(2) by (auto simp: hub_ok_def hub_defs split: option.split)
qed (auto simp: hub_ok_def)

lemma hub_run_ok: "hub_run addr asks H \<Longrightarrow> hub_ok addr asks H"
proof (induction rule: hub_run.induct)
  case start
  show ?case by (simp add: hub_ok_def hub_start_def)
qed (rule hub_step_ok)

lemma hub_run_justified: "hub_run addr asks H \<Longrightarrow> n \<in> set (said H i) \<Longrightarrow> justified addr asks i n"
  using hub_run_ok by (auto simp: hub_ok_def)

end
