(* ===== verification/Tcp_Hub_Refined.thy ===== *)
theory Tcp_Hub_Refined
  imports Tcp_Hub Requests Tcp_Server_Correct "HOL-Library.Sublist"
begin

text \<open>
  The TCP server implements the hub: every run, in any order of moves, is mirrored step by
  step by a run of the hub, the inboxes being the queues, what is said being the frames on
  the streams. So every frame that the server writes has a reason in the bytes that its
  clients sent.

  The runs considered are those in which the operating system tells a connection's address
  whenever it is asked, always the same; a failing \<open>peer_addr\<close> is the subject of
  \<open>tcp_poison_forever\<close>.
\<close>

section \<open>Runs in a world\<close>

text \<open>Connection \<open>i\<close> comes from the address \<open>w_addr i\<close> and its client sends \<open>w_stream i\<close>.\<close>

record world =
  w_addr :: "nat \<Rightarrow> SocketAddr"
  w_stream :: "nat \<Rightarrow> bytes"

fun label_ok :: "world \<Rightarrow> nat \<Rightarrow> label \<Rightarrow> bool" where
  "label_ok W n (Accept bs) \<longleftrightarrow> bs = w_stream W n"
| "label_ok W n (Receive i a) \<longleftrightarrow> peer_addr a = Inr (w_addr W i)"
| "label_ok W n (Forward i a) \<longleftrightarrow> peer_addr a = Inr (w_addr W i)"
| "label_ok W n l \<longleftrightarrow> True"

inductive world_run ::
  "'u pb_rt \<Rightarrow> ('q, 'u Request) mpsc \<Rightarrow> exact_read \<Rightarrow> world \<Rightarrow> ('q, 'u) Server \<Rightarrow> bool"
  for rt ch rd W where
  created: "Server_new os a v6 = Inr s \<Longrightarrow> world_run rt ch rd W s"
| moved: "world_run rt ch rd W s \<Longrightarrow> label_ok W (length (tasks s)) l \<Longrightarrow> exec rt ch rd l s = Some s'
    \<Longrightarrow> world_run rt ch rd W s'"

lemma world_run_reachable: "world_run rt ch rd W s \<Longrightarrow> reachable rt ch rd s"
  by (induction rule: world_run.induct) (auto intro: reachable.intros)

text \<open>The requests in the bytes of a client, in order, up to a position.\<close>

inductive brought :: "'u pb_rt \<Rightarrow> exact_read \<Rightarrow> bytes \<Rightarrow> 'u Request list \<Rightarrow> bytes \<Rightarrow> bool"
  for rt rd bs where
  none: "brought rt rd bs [] bs"
| one: "brought rt rd bs reqs r \<Longrightarrow> read_req rt rd r = Ret (Inr (req, r')) \<Longrightarrow> brought rt rd bs (reqs @ [req]) r'"

definition msg_of :: "'u Request \<Rightarrow> hub_msg" where
  "msg_of req =
     (case req_cmd req of
        Some (ReqFsync v) \<Rightarrow> Tell (fsync_id v) (fsync_addr v)
      | _ \<Rightarrow> Ask (req_id req) (call_of req))"

definition asks_in :: "'u pb_rt \<Rightarrow> exact_read \<Rightarrow> world \<Rightarrow> nat \<Rightarrow> hub_msg \<Rightarrow> bool" where
  "asks_in rt rd W i m \<longleftrightarrow> (\<exists>reqs r. brought rt rd (w_stream W i) reqs r \<and> m \<in> msg_of ` set reqs)"

lemma Request_bounded_mono: "Request_bounded M req \<Longrightarrow> M \<le> N \<Longrightarrow> Request_bounded N req"
proof -
  have "ReqCmd_bounded M c \<Longrightarrow> M \<le> N \<Longrightarrow> ReqCmd_bounded N c" for c :: "'a ReqCmd"
    by (cases c) (auto intro: bounded_mono)
  then show "Request_bounded M req \<Longrightarrow> M \<le> N \<Longrightarrow> Request_bounded N req"
    by (auto simp: Request_bounded_def intro: bounded_mono split: option.splits)
qed

lemma read_req_bounded:
  assumes "pb_runtime rt" "exact_reader rd" "read_req rt rd bs = Ret (Inr (req, r))"
  shows "Request_bounded 1500 req"
proof -
  obtain buf bs1 buf2 bs2 where rd: "rd 2 bs = Inr (buf, bs1)" "rd (unat (from_be_bytes buf)) bs1 = Inr (buf2, bs2)"
    "unat (from_be_bytes buf) \<le> 1500" "Request_parse_from_bytes rt buf2 = Some (Inr req)"
    using assms(3) by (auto simp: read_req_def ques_def Let_def split: sum.splits if_splits option.splits)
  have "length buf2 \<le> 1500"
    using rd(2,3) exact_reader.read_enough[OF assms(2)] exact_reader.read_short[OF assms(2)]
    by (cases "unat (from_be_bytes buf) \<le> length bs1") (fastforce simp: not_le)+
  then show ?thesis
    using Request_bounded_mono[OF pb_runtime.Request_parse_bounded[OF assms(1) rd(4)]] by simp
qed

lemma brought_bounded:
  assumes "pb_runtime rt" "exact_reader rd" "brought rt rd bs reqs r" "req \<in> set reqs"
  shows "Request_bounded 1500 req"
  using assms(3,4) by (induction) (auto dest: read_req_bounded[OF assms(1,2)])

section \<open>The reading halves\<close>

text \<open>What a connection has read is a beginning of what its client sends.\<close>

definition reading_ok :: "'u pb_rt \<Rightarrow> exact_read \<Rightarrow> bytes \<Rightarrow> ('q, 'u) PeerHandler \<Rightarrow> bool" where
  "reading_ok rt rd bs h \<longleftrightarrow>
     (\<exists>reqs. brought rt rd bs reqs (stream_in h) \<and> (\<forall>req. reads h = Queueing req False \<longrightarrow> req \<in> set reqs))"

lemma reading_same: "stream_in h' = stream_in h \<Longrightarrow> reads h' = reads h \<Longrightarrow> reading_ok rt rd bs h' = reading_ok rt rd bs h"
  by (simp add: reading_ok_def)

lemma reading_round:
  assumes "reading_ok rt rd bs h" "read_round rt rd h = Some h'"
  shows "reading_ok rt rd bs h'"
proof -
  obtain reqs where b: "brought rt rd bs reqs (stream_in h)" using assms(1) by (auto simp: reading_ok_def)
  consider req r where "read_req rt rd (stream_in h) = Ret (Inr (req, r))" "h' = h\<lparr>reads := Queueing req False, stream_in := r\<rparr>"
    | bye where "h' = h\<lparr>reads := Queueing bye True\<rparr>"
    using assms(2) by (auto simp: read_round_def split: outcome.splits sum.splits)
  then show ?thesis
  proof cases
    case (1 req r)
    from brought.one[OF b 1(1)] show ?thesis by (auto simp: reading_ok_def 1(2) intro!: exI[of _ "reqs @ [req]"])
  qed (use b in \<open>auto simp: reading_ok_def\<close>)
qed

lemma settle_reading:
  "reading_ok rt rd bs (snd (settle (handle_cmd rt w req (m, h)))) = reading_ok rt rd bs h"
  "reading_ok rt rd bs (snd (settle (resume_send w after (m, h)))) = reading_ok rt rd bs h"
proof -
  obtain m' h' f where r: "handle_cmd rt w req (m, h) = ((m', h'), f)" by (metis prod.collapse)
  show "reading_ok rt rd bs (snd (settle (handle_cmd rt w req (m, h)))) = reading_ok rt rd bs h"
    using handle_cmd_effect[OF r] by (auto simp: r settle_def reading_ok_def)
  obtain m' h' f where r: "resume_send w after (m, h) = ((m', h'), f)" by (metis prod.collapse)
  show "reading_ok rt rd bs (snd (settle (resume_send w after (m, h)))) = reading_ok rt rd bs h"
    using resume_send_effect[OF r] by (auto simp: r settle_def reading_ok_def)
qed

lemma exec_reading:
  assumes "exec rt ch rd l s = Some s'" "label_ok W (length (tasks s)) l"
    and "\<forall>i < length (tasks s). reading_ok rt rd (w_stream W i) (tasks s ! i)"
  shows "\<forall>i < length (tasks s'). reading_ok rt rd (w_stream W i) (tasks s' ! i)"
proof (cases l)
  case (Accept bs)
  have "brought rt rd (w_stream W (length (tasks s))) [] (w_stream W (length (tasks s)))" by (rule brought.none)
  with Accept assms show ?thesis
    by (auto simp: accept_def next_id_def Let_def nth_append less_Suc_eq reading_ok_def split: if_splits) blast
next
  case (Read i)
  with assms(1) obtain h' where "i < length (tasks s)" "read_round rt rd (tasks s ! i) = Some h'" "s' = put i (peers s, h') s"
    by (auto simp: running_def split: if_splits)
  then show ?thesis using assms(3) reading_round by (simp add: nth_update) blast
next
  case (Enqueue i)
  with assms show ?thesis
    by (auto simp: enqueue_def nth_update split: if_splits reading.splits) (auto simp: reading_ok_def)
next
  case (Receive i w)
  with assms(1) obtain req q where "i < length (tasks s)"
    "s' = put i (settle (handle_cmd rt w req (peers s, (tasks s ! i)\<lparr>req_rx := q\<rparr>))) s"
    by (auto simp: running_def split: if_splits)
  then show ?thesis using assms(3) by (auto simp: nth_update settle_reading) (auto simp: reading_ok_def)
next
  case (Forward i w)
  with assms(1) obtain k req after ts where p: "push ch k req (tasks s) = Some ts" and i: "i < length (tasks s)"
    and s': "s' = put i (settle (resume_send w after (peers s, ts ! i))) (s\<lparr>tasks := ts\<rparr>)"
    by (auto simp: running_def split: if_splits waiting.splits)
  have "\<forall>j < length (tasks s). reading_ok rt rd (w_stream W j) (ts ! j)"
    using p assms(3) by (auto simp: push_def nth_update reading_ok_def split: if_splits)
  then show ?thesis using push_effect[OF p] i by (auto simp: s' nth_update settle_reading)
next
  case (Written i r1 r2)
  with assms show ?thesis
    by (auto simp: nth_update resume_write_def split: if_splits waiting.splits prod.splits) (auto simp: reading_ok_def)
next
  case (Finish i)
  with assms show ?thesis
    by (auto simp: nth_update handle_stream_end_def Let_def split: if_splits outcome.splits) (auto simp: reading_ok_def)
qed (use assms in \<open>auto simp: nth_update reading_ok_def split: if_splits\<close>)

lemma world_reading:
  "world_run rt ch rd W s \<Longrightarrow> \<forall>i < length (tasks s). reading_ok rt rd (w_stream W i) (tasks s ! i)"
proof (induction rule: world_run.induct)
  case (created os a v6 s)
  then show ?case by (auto simp: Server_new_def res_bind_eq_Inr)
next
  case (moved s l s')
  then show ?case by (metis exec_reading)
qed

section \<open>The simulation\<close>

text \<open>
  A request in a queue: its texts are as long as a message may be, and an \<open>Fsync\<close> was made by
  the server, without unknown fields, or came from the client of the connection itself, for
  which \<open>A\<close> says what it asked.
\<close>

definition sound :: "'u pb_rt \<Rightarrow> (hub_msg \<Rightarrow> bool) \<Rightarrow> 'u Request \<Rightarrow> bool" where
  "sound rt A req \<longleftrightarrow> Request_bounded 1500 req \<and> (\<forall>v. req_cmd req = Some (ReqFsync v) \<longrightarrow> Fsync_clean rt v \<or> A (msg_of req))"

text \<open>
  The bytes of a response that holds the note. Unless it repeats an \<open>Fsync\<close> of the client
  itself, it has no unknown fields and fits in a frame.
\<close>

definition encodes :: "'u pb_rt \<Rightarrow> (hub_msg \<Rightarrow> bool) \<Rightarrow> bytes \<Rightarrow> notice \<Rightarrow> bool" where
  "encodes rt A v n \<longleftrightarrow>
     (\<exists>c. Response_write_to_bytes rt ((Response_new rt)\<lparr>resp_cmd := Some c\<rparr>) = Inr v \<and> note_of_cmd c = n
        \<and> (RespCmd_clean rt c \<and> length v < 65536 \<or> (\<exists>who t. n = NFsync who t \<and> A (Tell who t))))"

definition frames :: "bytes list \<Rightarrow> bytes" where
  "frames vecs = concat (map frame vecs)"

text \<open>
  The stream of a connection holds the frames of what the hub has said on it; the last one
  may still be under way, and of a connection that has ended it may be cut off.
\<close>

definition spoken :: "'u pb_rt \<Rightarrow> (hub_msg \<Rightarrow> bool) \<Rightarrow> ('q, 'u) PeerHandler \<Rightarrow> notice list \<Rightarrow> bool" where
  "spoken rt A h ns \<longleftrightarrow>
     (\<exists>vecs. list_all2 (encodes rt A) vecs ns \<and> prefix (stream_out h) (frames vecs)
        \<and> (stage_of h = Running \<longrightarrow>
             (case cmds h of
                AtWrite v \<Rightarrow> \<exists>vs. vecs = vs @ [v] \<and> stream_out h = frames vs
              | _ \<Rightarrow> stream_out h = frames vecs)))"

definition passes :: "'u waiting \<Rightarrow> (nat \<times> hub_msg \<times> string option) option" where
  "passes c = (case c of AtSend j req after \<Rightarrow> Some (j, msg_of req, after) | _ \<Rightarrow> None)"

definition passes_ok :: "'u pb_rt \<Rightarrow> (nat \<Rightarrow> hub_msg \<Rightarrow> bool) \<Rightarrow> 'u waiting \<Rightarrow> bool" where
  "passes_ok rt asks c \<longleftrightarrow> (case c of AtSend j req after \<Rightarrow> sound rt (asks j) req | _ \<Rightarrow> True)"

definition task_sim ::
  "'u pb_rt \<Rightarrow> (nat \<Rightarrow> hub_msg \<Rightarrow> bool) \<Rightarrow> ('q \<Rightarrow> 'u Request list) \<Rightarrow> nat \<Rightarrow> ('q, 'u) PeerHandler \<Rightarrow> hub \<Rightarrow> bool" where
  "task_sim rt asks items i h H \<longleftrightarrow>
     named H i = peer_id h \<and> spoken rt (asks i) h (said H i)
     \<and> (stage_of h = Running \<longrightarrow>
          inbox H i = map msg_of (items (req_rx h)) \<and> list_all (sound rt (asks i)) (items (req_rx h))
          \<and> passing H i = passes (cmds h) \<and> passes_ok rt asks (cmds h))"

definition table_sim :: "(nat \<Rightarrow> SocketAddr) \<Rightarrow> PeerMap \<Rightarrow> (string \<rightharpoonup> nat) \<Rightarrow> bool" where
  "table_sim addrs m T \<longleftrightarrow>
     \<not> poisoned m \<and> (\<forall>k. T k = map_option req_tx (entries m k)) \<and> (\<forall>k p. entries m k = Some p \<longrightarrow> addr p = addrs (req_tx p))"

definition fresh :: "nat \<Rightarrow> hub \<Rightarrow> bool" where
  "fresh i H \<longleftrightarrow> named H i = [] \<and> inbox H i = [] \<and> passing H i = None \<and> said H i = []"

definition hub_sim ::
  "'u pb_rt \<Rightarrow> (nat \<Rightarrow> hub_msg \<Rightarrow> bool) \<Rightarrow> ('q \<Rightarrow> 'u Request list) \<Rightarrow> (nat \<Rightarrow> SocketAddr) \<Rightarrow> ('q, 'u) Server \<Rightarrow> hub \<Rightarrow> bool" where
  "hub_sim rt asks items addrs s H \<longleftrightarrow>
     table_sim addrs (peers s) (owner H)
     \<and> (\<forall>i < length (tasks s). task_sim rt asks items i (tasks s ! i) H)
     \<and> (\<forall>i \<ge> length (tasks s). fresh i H)"

section \<open>Handlers\<close>

lemma insert_owner:
  assumes "table_sim addrs m T" "peer_addr w = Inr (addrs i)" "h_req_tx h = i"
    and "\<And>p. entries m who = Some p \<Longrightarrow> p_id p = h_id h \<Longrightarrow> req_tx p = i"
  shows "\<exists>m'. insert_peerstate w who (m, h) = ((m', h\<lparr>peer_id := who\<rparr>), Ret ()) \<and> table_sim addrs m' (T(who \<mapsto> i))"
proof (cases "entries m who")
  case None
  then show ?thesis
    using assms(1-3) by (auto simp: insert_peerstate_def table_sim_def Let_def)
next
  case (Some p)
  then show ?thesis
    using assms by (cases "p_id p = h_id h") (auto simp: insert_peerstate_def table_sim_def Let_def)
qed

text \<open>What a handler's end says to the hub.\<close>

definition ends_as :: "'u pb_rt \<Rightarrow> (nat \<Rightarrow> hub_msg \<Rightarrow> bool) \<Rightarrow> nat \<Rightarrow> 'u flow \<Rightarrow> hub \<Rightarrow> hub \<Rightarrow> bool" where
  "ends_as rt asks i f H H' \<longleftrightarrow>
     (case f of
        Panics \<Rightarrow> False
      | Ends r \<Rightarrow> said H' i = said H i \<and> passing H' i = None
      | Waits AtRecv \<Rightarrow> False
      | Waits (AtSend j req after) \<Rightarrow>
          said H' i = said H i \<and> passing H' i = Some (j, msg_of req, after) \<and> sound rt (asks j) req
      | Waits (AtWrite v) \<Rightarrow> (\<exists>n. said H' i = said H i @ [n] \<and> encodes rt (asks i) v n) \<and> passing H' i = None)"

text \<open>Texts of up to 1500 bytes leave room in a frame.\<close>

lemma bounded_text: "bounded 1500 s \<Longrightarrow> text_ok s"
  using bounded_text_ok[of 1500 s] by (simp add: max_text_def)

lemma bounded_field: "pb_runtime rt \<Longrightarrow> field_no n \<Longrightarrow> bounded 1500 s \<Longrightarrow> length (opt_field rt n s) \<le> 1506"
  using pb_runtime.opt_field_le[of rt n s] bounded_text[of s] by (simp add: bounded_def)

lemma nested_field: "pb_runtime rt \<Longrightarrow> field_no n \<Longrightarrow> length b < 4000 \<Longrightarrow> length (message_field rt n b) \<le> length b + 11"
  using pb_runtime.message_field_size[of rt n b] pb_runtime.varint_size_le[of rt "of_nat (length b)"] by (simp add: max_len_def)

lemma response_short:
  assumes rt: "pb_runtime rt" and c: "RespCmd_clean rt c" "RespCmd_bounded 1500 c"
  shows "length (Response_wire rt ((Response_new rt)\<lparr>resp_cmd := Some c\<rparr>)) < 65536"
proof -
  note field = bounded_field[OF rt pb_runtime.field_nos(1)[OF rt]] bounded_field[OF rt pb_runtime.field_nos(2)[OF rt]]
  have nil: "opt_field rt n [] = []" for n by (simp add: opt_field_def)
  note nested = nested_field[OF rt pb_runtime.field_nos(2)[OF rt]] nested_field[OF rt pb_runtime.field_nos(3)[OF rt]] nested_field[OF rt pb_runtime.field_nos(4)[OF rt]]
  show ?thesis
  proof (cases c)
    case (RespPong v)
    then show ?thesis using nested(1)[of "[]"] by (simp add: Response_wire_def Response_new_def opt_field_def Pong_wire_def)
  next
    case (RespRedirect v)
    then show ?thesis
      using c field(1)[of "redirect_id v"] field(2)[of "redirect_addr v"] nested(2)[of "Redirect_wire rt v"]
      by (simp add: Response_wire_def Response_new_def nil Redirect_wire_def Redirect_clean_def)
  next
    case (RespFsync v)
    then show ?thesis
      using c field(1)[of "fsync_id v"] field(2)[of "fsync_addr v"] nested(3)[of "Fsync_wire rt v"]
      by (simp add: Response_wire_def Response_new_def nil Fsync_wire_def Fsync_clean_def)
  qed
qed

lemma response_encodes:
  assumes "pb_runtime rt" "RespCmd_clean rt c" "RespCmd_bounded 1500 c"
  shows "\<exists>v. send_response rt c = Waits (AtWrite v) \<and> encodes rt A v (note_of_cmd c)"
proof -
  obtain v where v: "send_response rt c = Waits (AtWrite v)" using pb_runtime.tcp_response[OF assms(1,2)] by blast
  then have w: "Response_write_to_bytes rt ((Response_new rt)\<lparr>resp_cmd := Some c\<rparr>) = Inr v"
    by (auto simp: send_response_def Let_def split: sum.splits)
  have "Response_clean rt (response rt [] c)" by (rule pb_runtime.response_clean[OF assms(1) text_ok_Nil assms(2)])
  then have "v = Response_wire rt ((Response_new rt)\<lparr>resp_cmd := Some c\<rparr>)"
    using w pb_runtime.Response_write_clean[OF assms(1)] by (simp add: response_def Response_new_def)
  with v w response_short[OF assms] assms(2) show ?thesis by (auto simp: encodes_def)
qed

lemma send_says:
  assumes "pb_runtime rt" "RespCmd_clean rt c" "RespCmd_bounded 1500 c" "passing H i = None"
  shows "ends_as rt asks i (send_response rt c) H (say i (note_of_cmd c) H)"
  using response_encodes[OF assms(1-3), of "asks i"] assms(4) by (auto simp: ends_as_def say_def)

lemma show_addr_bounded [simp]: "bounded 1500 (show_addr a)"
  using show_addr_text[of a] by (simp add: bounded_def ascii_utf8)

lemma handle_sim:
  assumes rt: "pb_runtime rt" and T: "table_sim addrs m (owner H)" and w: "peer_addr w = Inr (addrs i)" "h_req_tx h = i"
    and own: "\<And>k p. entries m k = Some p \<Longrightarrow> p_id p = h_id h \<Longrightarrow> req_tx p = i"
    and req: "sound rt (asks i) req" and H: "named H i = peer_id h" "passing H i = None"
    and r: "handle_cmd rt w req (m, h) = ((m', h'), f)"
  shows "table_sim addrs m' (owner (attend addrs i (msg_of req) H)) \<and> named (attend addrs i (msg_of req) H) i = peer_id h'
      \<and> ends_as rt asks i f H (attend addrs i (msg_of req) H)
    \<or> f = Panics \<and> m' = m \<and> h' = h \<and> (\<exists>who t. msg_of req = Tell who t)"
proof -
  have lk: "lock m = Ret (entries m)" using T by (simp add: table_sim_def)
  have own_eq: "owner H k = map_option req_tx (entries m k)" for k using T by (simp add: table_sim_def)
  have addr_eq: "entries m k = Some p \<Longrightarrow> addr p = addrs (req_tx p)" for k p using T by (simp add: table_sim_def)
  note clean = pb_runtime.pong_clean[OF rt] pb_runtime.redirect_clean[OF rt] pb_runtime.redirect_empty_clean[OF rt]
  show ?thesis
  proof (cases "req_cmd req")
    case None
    then show ?thesis using r T H by (auto simp: handle_cmd_def msg_of_def call_of_def ends_as_def)
  next
    case (Some c)
    show ?thesis
    proof (cases c)
      case (ReqPing ping)
      obtain m1 where m1: "insert_peerstate w (req_id req) (m, h) = ((m1, h\<lparr>peer_id := req_id req\<rparr>), Ret ())"
        "table_sim addrs m1 ((owner H)(req_id req \<mapsto> i))"
        using insert_owner[OF T w, of "req_id req"] own by blast
      obtain v where "send_response rt (RespPong (Pong_new rt)) = Waits (AtWrite v)" "encodes rt (asks i) v NPong"
        using response_encodes[OF rt, of "RespPong (Pong_new rt)" "asks i"] clean(1) by auto
      moreover from this have "f = Waits (AtWrite v)" "m' = m1" "h' = h\<lparr>peer_id := req_id req\<rparr>"
        using r m1(1) Some ReqPing by (simp_all add: handle_cmd_def handle_ping_def Let_def)
      ultimately show ?thesis
        using m1(2) Some ReqPing H(2) by (simp add: msg_of_def call_of_def ends_as_def say_def enlist_def)
    next
      case (ReqIsync v)
      have b: "bounded 1500 (isync_id v)" "bounded 1500 (req_id req)" using req Some ReqIsync by (simp_all add: sound_def Request_bounded_def)
      note t = bounded_text[OF b(1)] bounded_text[OF b(2)]
      show ?thesis
      proof (cases "entries m (isync_id v)")
        case None
        have "ends_as rt asks i (send_response rt (RespRedirect ((Redirect_new rt)\<lparr>redirect_id := isync_id v\<rparr>))) H
            (say i (NRedirect (isync_id v) []) H)"
          using send_says[OF rt, of "RespRedirect ((Redirect_new rt)\<lparr>redirect_id := isync_id v\<rparr>)" H i asks] clean(3)[OF t(1)] b(1) H(2) by (simp add: Redirect_new_def)
        then show ?thesis
          using r Some ReqIsync None T H own_eq[of "isync_id v"]
          by (auto simp: handle_cmd_def handle_isync_def msg_of_def call_of_def lk Let_def say_def)
      next
        case e: (Some p)
        then show ?thesis
          using r Some ReqIsync T H own_eq[of "isync_id v"] w b pb_runtime.fsync_clean[OF rt t(2) show_addr_ok]
          by (auto simp: handle_cmd_def handle_isync_def msg_of_def call_of_def lk Let_def pass_on_def ends_as_def
              Request_set_Fsync_def sound_def Request_bounded_def Request_new_def)
      qed
    next
      case (ReqFsync v)
      show ?thesis
      proof (cases "Fsync_clean rt v")
        case True
        have "ends_as rt asks i (send_response rt (RespFsync v)) H (say i (NFsync (fsync_id v) (fsync_addr v)) H)"
          using send_says[OF rt, of "RespFsync v" H i asks] True req Some ReqFsync H(2) by (simp add: sound_def Request_bounded_def)
        then show ?thesis
          using r Some ReqFsync T H by (auto simp: handle_cmd_def handle_fsync_def msg_of_def call_of_def Let_def say_def)
      next
        case False
        then have "asks i (Tell (fsync_id v) (fsync_addr v))" using req Some ReqFsync by (simp add: sound_def msg_of_def)
        then show ?thesis
          using r Some ReqFsync T H
          by (auto simp: handle_cmd_def handle_fsync_def msg_of_def call_of_def send_response_def Let_def ends_as_def say_def encodes_def
              split: sum.splits intro!: exI[of _ "RespFsync v"])
      qed
    next
      case (ReqRsync v)
      have b: "bounded 1500 (rsync_id v)" "bounded 1500 (req_id req)" using req Some ReqRsync by (simp_all add: sound_def Request_bounded_def)
      note t = bounded_text[OF b(1)] bounded_text[OF b(2)]
      show ?thesis
      proof (cases "rsync_id v = peer_id h")
        case True
        show ?thesis
        proof (cases "entries m (req_id req)")
          case None
          then show ?thesis
            using r Some ReqRsync True T H own_eq[of "req_id req"]
            by (auto simp: handle_cmd_def handle_rsync_def msg_of_def call_of_def lk Let_def ends_as_def)
        next
          case e: (Some p)
          have "ends_as rt asks i (send_response rt (RespRedirect ((Redirect_new rt)\<lparr>redirect_id := req_id req, redirect_addr := show_addr (addr p)\<rparr>))) H
              (say i (NRedirect (req_id req) (show_addr (addr p))) H)"
            using send_says[OF rt, of "RespRedirect ((Redirect_new rt)\<lparr>redirect_id := req_id req, redirect_addr := show_addr (addr p)\<rparr>)" H i asks]
              clean(2)[OF t(2) show_addr_ok] b(2) H(2) by simp
          then show ?thesis
            using r Some ReqRsync True T H own_eq[of "req_id req"] e addr_eq[OF e]
            by (auto simp: handle_cmd_def handle_rsync_def msg_of_def call_of_def lk Let_def say_def)
        qed
      next
        case False
        then show ?thesis
          using r Some ReqRsync T H own_eq[of "rsync_id v"] b
          by (auto simp: handle_cmd_def handle_rsync_def msg_of_def call_of_def lk Let_def pass_on_def ends_as_def
              sound_def Request_bounded_def Request_new_def split: option.splits)
      qed
    next
      case (ReqBye v)
      then show ?thesis using r Some T H by (auto simp: handle_cmd_def msg_of_def call_of_def ends_as_def)
    qed
  qed
qed

text \<open>The end of a send to another connection.\<close>

lemma resume_sim:
  assumes T: "table_sim addrs m (owner H)" and w: "peer_addr w = Inr (addrs i)" "h_req_tx h = i"
    and own: "\<And>k p. entries m k = Some p \<Longrightarrow> p_id p = h_id h \<Longrightarrow> req_tx p = i"
    and H: "named H i = peer_id h"
    and r: "resume_send w after (m, h) = ((m', h'), f)"
  shows "table_sim addrs m' (owner (enlist_option i after H)) \<and> named (enlist_option i after H) i = peer_id h' \<and> f = Ends (Inr ())"
proof (cases after)
  case None
  then show ?thesis using r T H by (simp add: resume_send_def enlist_option_def)
next
  case (Some who)
  obtain m1 where "insert_peerstate w who (m, h) = ((m1, h\<lparr>peer_id := who\<rparr>), Ret ())" "table_sim addrs m1 ((owner H)(who \<mapsto> i))"
    using insert_owner[OF T w, of who] own by blast
  then show ?thesis using r Some by (auto simp: resume_send_def enlist_option_def enlist_def)
qed

section \<open>Connections\<close>

lemma spokenI:
  "list_all2 (encodes rt A) vecs ns \<Longrightarrow> stream_out h = frames vecs \<Longrightarrow> (\<And>v. cmds h \<noteq> AtWrite v) \<Longrightarrow> spoken rt A h ns"
  unfolding spoken_def by (intro exI[of _ vecs]) (auto split: waiting.split)

lemma spoken_other:
  "spoken rt A h ns \<Longrightarrow> stream_out h' = stream_out h \<Longrightarrow> stage_of h' \<noteq> Running \<Longrightarrow> spoken rt A h' ns"
  by (auto simp: spoken_def)

lemma spoken_same:
  "stream_out h' = stream_out h \<Longrightarrow> stage_of h' = stage_of h \<Longrightarrow> cmds h' = cmds h \<Longrightarrow> spoken rt A h' ns = spoken rt A h ns"
  by (simp add: spoken_def split: waiting.split)

lemma spoken_all:
  assumes "spoken rt A h ns" "stage_of h = Running" "\<And>v. cmds h \<noteq> AtWrite v"
  obtains vecs where "list_all2 (encodes rt A) vecs ns" "stream_out h = frames vecs"
  using assms by (cases "cmds h") (auto simp: spoken_def)

text \<open>After a handler.\<close>

lemma spoken_follow:
  assumes s: "spoken rt A h ns" "stage_of h = Running" "\<And>v. cmds h \<noteq> AtWrite v"
    and h': "stream_out h' = stream_out h" "stage_of h' = Running"
    and f: "(\<exists>r. f = Ends r \<or> (\<exists>j q a. f = Waits (AtSend j q a))) \<and> ns' = ns \<or> (\<exists>v n. f = Waits (AtWrite v) \<and> ns' = ns @ [n] \<and> encodes rt A v n)"
  shows "spoken rt A (follow f h') ns'"
proof -
  obtain vecs where v: "list_all2 (encodes rt A) vecs ns" "stream_out h = frames vecs" by (rule spoken_all[OF s])
  from f show ?thesis
  proof
    assume "(\<exists>r. f = Ends r \<or> (\<exists>j q a. f = Waits (AtSend j q a))) \<and> ns' = ns"
    then show ?thesis
      using v h' unfolding spoken_def
      by (intro exI[of _ vecs]) (auto simp: follow_def split: sum.split)
  next
    assume "\<exists>v n. f = Waits (AtWrite v) \<and> ns' = ns @ [n] \<and> encodes rt A v n"
    then obtain x n where "f = Waits (AtWrite x)" "ns' = ns @ [n]" "encodes rt A x n" by blast
    then show ?thesis
      using v h' unfolding spoken_def
      by (intro exI[of _ "vecs @ [x]"]) (auto simp: follow_def frames_def list_all2_appendI)
  qed
qed

text \<open>A frame has been written, or the connection broke down in it.\<close>

lemma spoken_written:
  assumes s: "spoken rt A h ns" "stage_of h = Running" "cmds h = AtWrite v"
  shows "spoken rt A (resume_write r1 r2 v h) ns"
proof -
  obtain vs where vs: "list_all2 (encodes rt A) (vs @ [v]) ns" "stream_out h = frames vs"
    using s by (auto simp: spoken_def)
  obtain out r where o': "send_frame r1 r2 v (stream_out h) = (out, r)" by fastforce
  obtain n where n: "out = stream_out h @ take n (frame v)"
    using send_frame_prefix[of r1 r2 v "stream_out h"] o' by auto
  have "prefix out (frames (vs @ [v]))" by (simp add: n vs(2) frames_def take_is_prefix)
  moreover have "out = frames (vs @ [v])" if "r = Inr x" for x
    using send_frame_Inr[of r1 r2 v "stream_out h" out x] o' that vs(2) by (simp add: frames_def)
  ultimately show ?thesis
    using vs(1) s(2) unfolding spoken_def
    by (intro exI[of _ "vs @ [v]"]) (auto simp: resume_write_def o' follow_def split: sum.split)
qed

section \<open>Moves\<close>

definition same_but :: "nat \<Rightarrow> hub \<Rightarrow> hub \<Rightarrow> bool" where
  "same_but i H H' \<longleftrightarrow>
     (\<forall>j. j \<noteq> i \<longrightarrow> named H' j = named H j \<and> inbox H' j = inbox H j \<and> passing H' j = passing H j \<and> said H' j = said H j)"

lemma same_but_refl [simp]: "same_but i H H"
  by (simp add: same_but_def)

lemma attend_same: "same_but i H (attend addrs i m H) \<and> inbox (attend addrs i m H) = inbox H"
proof (cases m)
  case (Ask who c)
  then show ?thesis
    by (cases c) (auto simp: same_but_def say_def enlist_def pass_on_def split: option.split)
qed (simp add: same_but_def say_def)

lemma enlist_same: "same_but i H (enlist_option i r (H\<lparr>passing := (passing H)(i := p)\<rparr>))"
  by (simp add: same_but_def enlist_option_def enlist_def split: option.split)

lemma task_sim_cong:
  "named H' i = named H i \<Longrightarrow> inbox H' i = inbox H i \<Longrightarrow> passing H' i = passing H i \<Longrightarrow> said H' i = said H i
    \<Longrightarrow> task_sim rt asks items i h H' = task_sim rt asks items i h H"
  by (simp add: task_sim_def)

lemma task_sim_same:
  "peer_id h' = peer_id h \<Longrightarrow> stream_out h' = stream_out h \<Longrightarrow> stage_of h' = stage_of h \<Longrightarrow> cmds h' = cmds h
    \<Longrightarrow> req_rx h' = req_rx h \<Longrightarrow> task_sim rt asks items i h H \<Longrightarrow> task_sim rt asks items i h' H"
  by (simp add: task_sim_def spoken_same[of h' h])

lemma task_sim_ended:
  "peer_id h' = peer_id h \<Longrightarrow> stream_out h' = stream_out h \<Longrightarrow> stage_of h' \<noteq> Running
    \<Longrightarrow> task_sim rt asks items i h H \<Longrightarrow> task_sim rt asks items i h' H"
  using spoken_other[of rt "asks i" h _ h'] by (simp add: task_sim_def)

lemma sim_put:
  assumes "hub_sim rt asks items addrs s H" "i < length (tasks s)" "table_sim addrs m' (owner H')"
    and "task_sim rt asks items i h' H'" "same_but i H H'"
  shows "hub_sim rt asks items addrs (put i (m', h') s) H'"
proof -
  have "task_sim rt asks items j (tasks s ! j) H'" if "j < length (tasks s)" "j \<noteq> i" for j
    using assms(1,5) that task_sim_cong[of H' j H rt asks items "tasks s ! j"] by (simp add: hub_sim_def same_but_def)
  moreover have "fresh j H'" if "length (tasks s) \<le> j" for j
    using assms(1,2,5) that by (auto simp: hub_sim_def same_but_def fresh_def)
  ultimately show ?thesis using assms(2-4) by (auto simp: hub_sim_def nth_list_update)
qed

lemma sim_task: "hub_sim rt asks items addrs s H \<Longrightarrow> i < length (tasks s) \<Longrightarrow> task_sim rt asks items i (tasks s ! i) H"
  by (simp add: hub_sim_def)

lemma sim_table: "hub_sim rt asks items addrs s H \<Longrightarrow> table_sim addrs (peers s) (owner H)"
  by (simp add: hub_sim_def)

lemma sim_own:
  assumes "server_ok s" "length (tasks s) < 2 ^ 64" "i < length (tasks s)"
    and "entries (peers s) k = Some p" "p_id p = h_id (tasks s ! i)"
  shows "req_tx p = i"
proof -
  have p: "req_tx p < length (tasks s)" "p_id p = of_nat (Suc (req_tx p))" "h_id (tasks s ! i) = of_nat (Suc i)"
    using assms(1,3,4) unfolding server_ok_def by blast+
  then have "of_nat (Suc (req_tx p)) = (of_nat (Suc i) :: u64)" using assms(5) by metis
  then show ?thesis by (rule numbers_differ) (use p(1) assms(2,3) in linarith)+
qed

lemma sim_number: "server_ok s \<Longrightarrow> i < length (tasks s) \<Longrightarrow> h_req_tx (tasks s ! i) = i"
  by (simp add: server_ok_def)

lemma sim_receive:
  assumes env: "pb_runtime rt" "bounded_channel ch items capacity" and sim: "hub_sim rt asks items (w_addr W) s H"
    and ok: "server_ok s" "length (tasks s) < 2 ^ 64"
    and l: "label_ok W (length (tasks s)) (Receive i w)" "exec rt ch rd (Receive i w) s = Some s'"
  shows "\<exists>H'. hub_step (w_addr W) asks H H' \<and> hub_sim rt asks items (w_addr W) s' H'"
proof -
  let ?A = "w_addr W" and ?h = "tasks s ! i"
  obtain req q where i: "i < length (tasks s)" "stage_of ?h = Running" "cmds ?h = AtRecv" and q: "mpsc_recv ch (req_rx ?h) = Some (req, q)"
    and s': "s' = put i (settle (handle_cmd rt w req (peers s, ?h\<lparr>req_rx := q\<rparr>))) s"
    using l(2) by (auto simp: running_def split: if_splits)
  have t: "named H i = peer_id ?h" "spoken rt (asks i) ?h (said H i)" "inbox H i = map msg_of (items (req_rx ?h))"
    "list_all (sound rt (asks i)) (items (req_rx ?h))" "passing H i = None"
    using sim_task[OF sim i(1)] i by (simp_all add: task_sim_def passes_def)
  have it: "items (req_rx ?h) = req # items q" using bounded_channel.recvD[OF env(2) q] by simp
  let ?H = "H\<lparr>inbox := (inbox H)(i := map msg_of (items q))\<rparr>"
  let ?H' = "attend ?A i (msg_of req) ?H"
  obtain m' h' f where r: "handle_cmd rt w req (peers s, ?h\<lparr>req_rx := q\<rparr>) = ((m', h'), f)" by (metis prod.collapse)
  obtain who where h': "h' = ?h\<lparr>req_rx := q, peer_id := who\<rparr>" using handle_cmd_effect[OF r] by auto
  have "table_sim ?A m' (owner ?H') \<and> named ?H' i = peer_id h' \<and> ends_as rt asks i f ?H ?H'
      \<or> f = Panics \<and> m' = peers s \<and> h' = ?h\<lparr>req_rx := q\<rparr> \<and> (\<exists>who t. msg_of req = Tell who t)"
    by (rule handle_sim[OF env(1) _ _ _ _ _ _ _ r])
      (use sim_table[OF sim] l(1) sim_number[OF ok(1) i(1)] sim_own[OF ok i(1)] t it in auto)
  then show ?thesis
  proof
    assume a: "table_sim ?A m' (owner ?H') \<and> named ?H' i = peer_id h' \<and> ends_as rt asks i f ?H ?H'"
    have "spoken rt (asks i) (follow f h') (said ?H' i)"
      by (rule spoken_follow[OF t(2) i(2)]) (use a i h' in \<open>auto simp: ends_as_def split: flow.splits waiting.splits\<close>)
    moreover have "inbox ?H' i = map msg_of (items q)" using attend_same[of i ?H ?A "msg_of req"] by simp
    moreover have "passing ?H' i = passes (cmds (follow f h')) \<and> passes_ok rt asks (cmds (follow f h'))" if "stage_of (follow f h') = Running"
      using a that by (auto simp: ends_as_def follow_def passes_def passes_ok_def split: flow.splits waiting.splits sum.splits)
    ultimately have "task_sim rt asks items i (follow f h') ?H'" using a t(4) h' it by (simp add: task_sim_def)
    moreover have "same_but i H ?H'" using attend_same[of i ?H ?A "msg_of req"] by (simp add: same_but_def)
    ultimately have "hub_sim rt asks items ?A s' ?H'" using sim_put[OF sim i(1)] a by (simp add: s' r settle_def)
    moreover have "hub_step ?A asks H ?H'" using hub_step.handle[of H i "msg_of req" "map msg_of (items q)"] t it by simp
    ultimately show ?thesis by blast
  next
    assume a: "f = Panics \<and> m' = peers s \<and> h' = ?h\<lparr>req_rx := q\<rparr> \<and> (\<exists>who t. msg_of req = Tell who t)"
    have "task_sim rt asks items i (follow f h') H"
      using a by (intro task_sim_ended[OF _ _ _ sim_task[OF sim i(1)]]) (simp_all add: follow_def)
    then have "task_sim rt asks items i (follow f h') ?H" using a by (simp add: task_sim_def follow_def)
    then have "hub_sim rt asks items ?A s' ?H"
      using sim_put[OF sim i(1), of "peers s" ?H] sim_table[OF sim] a by (simp add: s' r settle_def same_but_def)
    moreover have "hub_step ?A asks H ?H" using a t it by (auto intro: hub_step.drop)
    ultimately show ?thesis by blast
  qed
qed

text \<open>A request put into a queue is in the inbox, as long as its connection lives.\<close>

lemma push_sim:
  assumes ch: "bounded_channel ch items capacity" and sim: "hub_sim rt asks items addrs s H"
    and p: "push ch j req (tasks s) = Some ts" and t: "sound rt (asks j) req"
  shows "hub_sim rt asks items addrs (s\<lparr>tasks := ts\<rparr>) (H\<lparr>inbox := (inbox H)(j := inbox H j @ [msg_of req])\<rparr>)
    \<or> hub_sim rt asks items addrs (s\<lparr>tasks := ts\<rparr>) H"
proof (cases "j < length (tasks s) \<and> stage_of (tasks s ! j) \<in> {Running, Closing}")
  case True
  then obtain q where q: "mpsc_send ch req (req_rx (tasks s ! j)) = Some q" and ts: "ts = (tasks s)[j := (tasks s ! j)\<lparr>req_rx := q\<rparr>]"
    using p by (auto simp: push_def)
  let ?H = "H\<lparr>inbox := (inbox H)(j := inbox H j @ [msg_of req])\<rparr>" and ?h = "(tasks s ! j)\<lparr>req_rx := q\<rparr>"
  have "items q = items (req_rx (tasks s ! j)) @ [req]" using bounded_channel.sendD[OF ch q] by simp
  then have "task_sim rt asks items j ?h ?H"
    using sim_task[OF sim, of j] True t by (simp add: task_sim_def spoken_same[of ?h "tasks s ! j"])
  moreover have "same_but j H ?H" by (simp add: same_but_def)
  ultimately have "hub_sim rt asks items addrs (put j (peers s, ?h) s) ?H"
    using sim_put[OF sim, of j "peers s" ?H ?h] sim_table[OF sim] True by simp
  then show ?thesis by (simp add: ts put_def)
next
  case False
  then show ?thesis using p sim by (auto simp: push_def split: if_splits)
qed

lemma sim_forward:
  assumes env: "bounded_channel ch items capacity" and sim: "hub_sim rt asks items (w_addr W) s H"
    and ok: "server_ok s" "length (tasks s) < 2 ^ 64"
    and l: "label_ok W (length (tasks s)) (Forward i w)" "exec rt ch rd (Forward i w) s = Some s'"
  shows "\<exists>H'. hub_step (w_addr W) asks H H' \<and> hub_sim rt asks items (w_addr W) s' H'"
proof -
  let ?A = "w_addr W" and ?h = "tasks s ! i"
  obtain j req after ts where i: "i < length (tasks s)" "stage_of ?h = Running" "cmds ?h = AtSend j req after"
    and p: "push ch j req (tasks s) = Some ts"
    and s': "s' = put i (settle (resume_send w after (peers s, ts ! i))) (s\<lparr>tasks := ts\<rparr>)"
    using l(2) by (auto simp: running_def split: if_splits waiting.splits)
  let ?s = "s\<lparr>tasks := ts\<rparr>"
  have pass: "passing H i = Some (j, msg_of req, after)" "sound rt (asks j) req"
    using sim_task[OF sim i(1)] i by (simp_all add: task_sim_def passes_def passes_ok_def)
  obtain H1 where sim1: "hub_sim rt asks items ?A ?s H1" and H1: "H1 = H\<lparr>inbox := (inbox H)(j := inbox H j @ [msg_of req])\<rparr> \<or> H1 = H"
    using push_sim[OF env sim p pass(2)] by blast
  have i1: "i < length (tasks ?s)" "stage_of (ts ! i) = Running" "cmds (ts ! i) = AtSend j req after"
    "h_id (ts ! i) = h_id ?h" "h_req_tx (ts ! i) = i"
    using push_effect[OF p] i sim_number[OF ok(1) i(1)] by auto
  let ?H' = "enlist_option i after (H1\<lparr>passing := (passing H1)(i := None)\<rparr>)"
  obtain m' h' f where r: "resume_send w after (peers s, ts ! i) = ((m', h'), f)" by (metis prod.collapse)
  have t: "task_sim rt asks items i (ts ! i) H1" using sim_task[OF sim1 i1(1)] by simp
  have tab: "table_sim ?A (peers s) (owner (H1\<lparr>passing := (passing H1)(i := None)\<rparr>))" using sim_table[OF sim1] by simp
  have "table_sim ?A m' (owner ?H') \<and> named ?H' i = peer_id h' \<and> f = Ends (Inr ())"
    by (rule resume_sim[OF tab _ i1(5) _ _ r]) (use l(1) t sim_own[OF ok i(1)] i1(4) in \<open>auto simp: task_sim_def\<close>)
  then have m': "table_sim ?A m' (owner ?H')" "named ?H' i = peer_id h'" "f = Ends (Inr ())" by simp_all
  obtain who where h': "h' = (ts ! i)\<lparr>peer_id := who\<rparr>" using resume_send_effect[OF r] by auto
  have keep: "inbox ?H' = inbox H1" "said ?H' = said H1" "passing ?H' i = None"
    by (auto simp: enlist_option_def enlist_def split: option.split)
  have "spoken rt (asks i) (follow f h') (said ?H' i)"
    by (rule spoken_follow[of rt "asks i" "ts ! i" "said H1 i"]) (use t i1 h' m'(3) keep in \<open>auto simp: task_sim_def\<close>)
  then have "task_sim rt asks items i (follow f h') ?H'"
    using t i1 h' m' keep by (simp add: task_sim_def follow_def passes_def passes_ok_def)
  then have "hub_sim rt asks items ?A s' ?H'"
    using sim_put[OF sim1 i1(1) m'(1) _ enlist_same] by (simp add: s' r settle_def)
  moreover have "hub_step ?A asks H ?H'"
    using H1 hub_step.deliver[of H i j "msg_of req" after] hub_step.lose[of H i j "msg_of req" after] pass(1) by auto
  ultimately show ?thesis by blast
qed

lemma sim_enqueue:
  assumes env: "pb_runtime rt" "exact_reader rd" "bounded_channel ch items capacity" and sim: "hub_sim rt (asks_in rt rd W) items (w_addr W) s H"
    and rd: "reading_ok rt rd (w_stream W i) (tasks s ! i)" and l: "exec rt ch rd (Enqueue i) s = Some s'"
  shows "\<exists>H'. hub_step (w_addr W) (asks_in rt rd W) H H' \<and> hub_sim rt (asks_in rt rd W) items (w_addr W) s' H'"
proof -
  let ?A = "w_addr W" and ?h = "tasks s ! i"
  obtain req final q where i: "i < length (tasks s)" "stage_of ?h = Running" "reads ?h = Queueing req final"
    and q: "mpsc_send ch req (req_rx ?h) = Some q"
    and s': "s' = put i (peers s, if final then ?h\<lparr>req_rx := q, stage_of := Closing\<rparr> else ?h\<lparr>req_rx := q, reads := Reading\<rparr>) s"
    using l by (auto simp: running_def enqueue_def split: if_splits reading.splits)
  show ?thesis
  proof (cases final)
    case True
    have "task_sim rt (asks_in rt rd W) items i (?h\<lparr>req_rx := q, stage_of := Closing\<rparr>) H"
      by (rule task_sim_ended[OF _ _ _ sim_task[OF sim i(1)]]) simp_all
    then have "hub_sim rt (asks_in rt rd W) items ?A s' H" using sim_put[OF sim i(1) sim_table[OF sim]] True by (simp add: s')
    then show ?thesis by (blast intro: hub_step.rest)
  next
    case False
    obtain reqs where b: "brought rt rd (w_stream W i) reqs (stream_in ?h)" "req \<in> set reqs"
      using rd i(3) False by (auto simp: reading_ok_def)
    have t: "sound rt (asks_in rt rd W i) req" using brought_bounded[OF env(1,2) b] b by (auto simp: sound_def asks_in_def)
    let ?H = "H\<lparr>inbox := (inbox H)(i := inbox H i @ [msg_of req])\<rparr>" and ?h' = "?h\<lparr>req_rx := q, reads := Reading\<rparr>"
    have "items q = items (req_rx ?h) @ [req]" using bounded_channel.sendD[OF env(3) q] by simp
    then have "task_sim rt (asks_in rt rd W) items i ?h' ?H"
      using sim_task[OF sim i(1)] t by (simp add: task_sim_def spoken_same[of ?h' ?h])
    then have "hub_sim rt (asks_in rt rd W) items ?A s' ?H"
      using sim_put[OF sim i(1), of "peers s" ?H] sim_table[OF sim] False by (simp add: s' same_but_def)
    moreover have "hub_step ?A (asks_in rt rd W) H ?H"
      by (rule hub_step.arrive) (use b in \<open>auto simp: asks_in_def\<close>)
    ultimately show ?thesis by blast
  qed
qed

lemma sim_finish:
  assumes sim: "hub_sim rt asks items addrs s H" and ok: "server_ok s" "length (tasks s) < 2 ^ 64"
    and l: "exec rt ch rd (Finish i) s = Some s'"
  shows "\<exists>H'. hub_step addrs asks H H' \<and> hub_sim rt asks items addrs s' H'"
proof -
  let ?h = "tasks s ! i"
  have i: "i < length (tasks s)" and s': "s' = put i (handle_stream_end (peers s, ?h)) s" using l by (auto split: if_splits)
  obtain m' h' where e: "handle_stream_end (peers s, ?h) = (m', h')" by fastforce
  have tab: "table_sim addrs (peers s) (owner H)" by (rule sim_table[OF sim])
  then have m': "h' = ?h\<lparr>stage_of := Closed\<rparr>" "\<not> poisoned m'"
    "entries m' = (\<lambda>k. if k = peer_id ?h \<and> (\<exists>p. entries (peers s) k = Some p \<and> p_id p = h_id ?h) then None else entries (peers s) k)"
    using handle_stream_end_effect[OF e] by (simp_all add: table_sim_def)
  have name: "named H i = peer_id ?h" using sim_task[OF sim i] by (simp add: task_sim_def)
  have own: "owner H k = Some i \<longleftrightarrow> (\<exists>p. entries (peers s) k = Some p \<and> p_id p = h_id ?h)" for k
  proof
    assume "owner H k = Some i"
    then obtain p where p: "entries (peers s) k = Some p" "req_tx p = i" using tab by (auto simp: table_sim_def)
    then have "p_id p = of_nat (Suc i)" using ok(1) unfolding server_ok_def by blast
    moreover have "h_id ?h = of_nat (Suc i)" using ok(1) i unfolding server_ok_def by blast
    ultimately show "\<exists>p. entries (peers s) k = Some p \<and> p_id p = h_id ?h" using p by auto
  qed (use sim_own[OF ok i] tab in \<open>auto simp: table_sim_def\<close>)
  have t: "task_sim rt asks items i h' H" by (rule task_sim_ended[OF _ _ _ sim_task[OF sim i]]) (simp_all add: m'(1))
  show ?thesis
  proof (cases "owner H (named H i) = Some i")
    case True
    let ?H = "H\<lparr>owner := remove_key (named H i) (owner H)\<rparr>"
    have "entries m' = remove_key (peer_id ?h) (entries (peers s))"
      using own[of "peer_id ?h"] True name by (auto simp: m'(3) fun_eq_iff)
    then have "table_sim addrs m' (owner ?H)" using tab m'(2) name by (auto simp: table_sim_def)
    moreover have "task_sim rt asks items i h' ?H" using t task_sim_cong[of ?H i H rt asks items h'] by simp
    ultimately have "hub_sim rt asks items addrs s' ?H"
      using sim_put[OF sim i, of m' ?H h'] by (simp add: s' e same_but_def)
    then show ?thesis using hub_step.leave[OF True] by blast
  next
    case False
    have "table_sim addrs m' (owner H)" using tab own[of "peer_id ?h"] m'(2) name False by (auto simp: table_sim_def m'(3))
    then have "hub_sim rt asks items addrs s' H" using sim_put[OF sim i _ t] by (simp add: s' e)
    then show ?thesis by (blast intro: hub_step.rest)
  qed
qed

lemma sim_exec:
  assumes env: "pb_runtime rt" "exact_reader rd" "bounded_channel ch items capacity" and sim: "hub_sim rt (asks_in rt rd W) items (w_addr W) s H"
    and ok: "server_ok s" "length (tasks s) < 2 ^ 64"
    and rd: "\<forall>i < length (tasks s). reading_ok rt rd (w_stream W i) (tasks s ! i)"
    and l: "label_ok W (length (tasks s)) l" "exec rt ch rd l s = Some s'"
  shows "\<exists>H'. hub_step (w_addr W) (asks_in rt rd W) H H' \<and> hub_sim rt (asks_in rt rd W) items (w_addr W) s' H'"
proof -
  have rest: ?thesis if "hub_sim rt (asks_in rt rd W) items (w_addr W) s' H" using that by (blast intro: hub_step.rest)
  note table = sim_table[OF sim]
  show ?thesis
  proof (cases l)
    case (Accept bs)
    let ?n = "length (tasks s)"
    have "fresh ?n H" using sim by (simp add: hub_sim_def)
    moreover have "items (mpsc_new ch 10) = []" using bounded_channel.new_channel[OF env(3)] by blast
    ultimately have "hub_sim rt (asks_in rt rd W) items (w_addr W) (accept ch bs s) H"
      using sim by (auto simp: hub_sim_def accept_def next_id_def Let_def nth_append less_Suc_eq task_sim_def fresh_def
          passes_def passes_ok_def intro!: spokenI[of rt _ "[]"] simp: frames_def)
    then show ?thesis using l(2) Accept by (intro rest) (auto split: if_splits)
  next
    case AcceptError
    then show ?thesis using l(2) sim by (intro rest) (auto simp: hub_sim_def split: if_splits)
  next
    case (Read i)
    then obtain h' where i: "i < length (tasks s)" "read_round rt rd (tasks s ! i) = Some h'" "s' = put i (peers s, h') s"
      using l(2) by (auto simp: running_def split: if_splits)
    have "task_sim rt (asks_in rt rd W) items i h' H"
      using i(2) by (intro task_sim_same[OF _ _ _ _ _ sim_task[OF sim i(1)]])
        (auto simp: read_round_def split: outcome.splits sum.splits)
    then show ?thesis using sim_put[OF sim i(1) table] by (intro rest) (simp add: i(3))
  next
    case (Elapsed i)
    then have i: "i < length (tasks s)" "s' = put i (peers s, (tasks s ! i)\<lparr>stage_of := Closing\<rparr>) s"
      using l(2) by (auto simp: running_def split: if_splits)
    have "task_sim rt (asks_in rt rd W) items i ((tasks s ! i)\<lparr>stage_of := Closing\<rparr>) H"
      by (rule task_sim_ended[OF _ _ _ sim_task[OF sim i(1)]]) simp_all
    then show ?thesis using sim_put[OF sim i(1) table] by (intro rest) (simp add: i(2))
  next
    case (Enqueue i)
    then have "i < length (tasks s)" using l(2) by (auto simp: running_def split: if_splits)
    then show ?thesis using sim_enqueue[OF env sim] rd l(2) Enqueue by blast
  next
    case (Receive i w)
    show ?thesis by (rule sim_receive[OF env(1,3) sim ok l[unfolded Receive]])
  next
    case (Forward i w)
    show ?thesis by (rule sim_forward[OF env(3) sim ok l[unfolded Forward]])
  next
    case (Written i r1 r2)
    then obtain v where i: "i < length (tasks s)" "stage_of (tasks s ! i) = Running" "cmds (tasks s ! i) = AtWrite v"
      and s': "s' = put i (peers s, resume_write r1 r2 v (tasks s ! i)) s"
      using l(2) by (auto simp: running_def split: if_splits waiting.splits)
    have "spoken rt (asks_in rt rd W i) (tasks s ! i) (said H i)" using sim_task[OF sim i(1)] by (simp add: task_sim_def)
    from spoken_written[OF this i(2,3)] have "task_sim rt (asks_in rt rd W) items i (resume_write r1 r2 v (tasks s ! i)) H"
      using sim_task[OF sim i(1)] i(2,3)
      by (auto simp: task_sim_def resume_write_def follow_def passes_def passes_ok_def split: prod.splits sum.splits)
    then show ?thesis using sim_put[OF sim i(1) table] by (intro rest) (simp add: s')
  next
    case (Finish i)
    show ?thesis by (rule sim_finish[OF sim ok l(2)[unfolded Finish]])
  qed
qed

lemma tasks_grow: "exec rt ch rd l s = Some s' \<Longrightarrow> length (tasks s) \<le> length (tasks s')"
  by (erule exec_cases) (auto simp: accept_def next_id_def Let_def task_step_def)

lemma refines_hub:
  assumes "pb_runtime rt" "exact_reader rd" "bounded_channel ch items capacity"
    and "world_run rt ch rd W s" "length (tasks s) < 2 ^ 64"
  shows "\<exists>H. hub_run (w_addr W) (asks_in rt rd W) H \<and> hub_sim rt (asks_in rt rd W) items (w_addr W) s H"
  using assms(4,5)
proof (induction rule: world_run.induct)
  case (created os a v6 s)
  then have "hub_sim rt (asks_in rt rd W) items (w_addr W) s hub_start"
    by (auto simp: Server_new_def res_bind_eq_Inr hub_sim_def table_sim_def fresh_def hub_start_def)
  then show ?case by (blast intro: hub_run.start)
next
  case (moved s l s')
  have n: "length (tasks s) < 2 ^ 64" using tasks_grow[OF moved.hyps(3)] moved.prems by simp
  obtain H where H: "hub_run (w_addr W) (asks_in rt rd W) H" "hub_sim rt (asks_in rt rd W) items (w_addr W) s H"
    using moved.IH[OF n] by blast
  obtain H' where "hub_step (w_addr W) (asks_in rt rd W) H H'" "hub_sim rt (asks_in rt rd W) items (w_addr W) s' H'"
    using sim_exec[OF assms(1-3) H(2) reachable_ok[OF world_run_reachable[OF moved.hyps(1)]] n world_reading[OF moved.hyps(1)]
        moved.hyps(2,3)] by blast
  then show ?case using hub_run.more[OF H(1)] by blast
qed

text \<open>A run of the witnesses: one client, whose ping is answered.\<close>

lemma world_run_execs:
  "execs rt ch rd ls s = Some s' \<Longrightarrow> world_run rt ch rd W s \<Longrightarrow> (\<And>n. list_all (label_ok W n) ls) \<Longrightarrow> world_run rt ch rd W s'"
  by (induction ls arbitrary: s) (auto split: option.splits intro: world_run.moved)

abbreviation ping_world :: world where
  "ping_world \<equiv> \<lparr>w_addr = (\<lambda>_. V4 (Ipv4 1 2 3 4) 5), w_stream = (\<lambda>_. ping_frame 97)\<rparr>"

lemma ping_world_run:
  obtains s where "world_run wire_rt std_channel std_read_exact ping_world s" "length (tasks s) = 1" "length (stream_out (tasks s ! 0)) = 4"
proof -
  let ?ls = "Accept (ping_frame 97) # handled 0"
  have "map_option (\<lambda>s. (length (tasks s), length (stream_out (tasks s ! 0)))) (wire_execs ?ls) = Some (1, 4)"
    by code_simp
  then obtain s where s: "wire_execs ?ls = Some s" "length (tasks s) = 1" "length (stream_out (tasks s ! 0)) = 4"
    by auto
  have "world_run wire_rt std_channel std_read_exact ping_world s"
    by (rule world_run_execs[OF s(1) world_run.created[OF started_new]]) simp
  from this s(2,3) show thesis by (rule that)
qed

section \<open>Properties\<close>

text \<open>C12. The TCP server implements the hub: whatever the order of its moves, as long as it has
  accepted fewer than 2 to the 64 connections, the hub can reach a state with the same
  registrations, the queues as its inboxes, the forwarded requests as what is being passed
  on, and on each stream the frames of what has been said; the hub's connections bring only
  what is in the bytes of their clients. Every connection has one observed address, which
  \<open>peer_addr\<close> gives whenever it is asked (\<open>label_ok\<close>).\<close>

theorem tcp_refines_hub:
  assumes "pb_runtime rt" "exact_reader rd" "bounded_channel ch items capacity"
    and "world_run rt ch rd W s" "length (tasks s) < 2 ^ 64"
  shows "\<exists>H. hub_run (w_addr W) (asks_in rt rd W) H \<and> hub_sim rt (asks_in rt rd W) items (w_addr W) s H"
  by (rule refines_hub[OF assms])

theorem tcp_refines_hub_witness:
  "\<exists>s H. world_run wire_rt std_channel std_read_exact ping_world s \<and> stream_out (tasks s ! 0) \<noteq> []
    \<and> hub_run (w_addr ping_world) (asks_in wire_rt std_read_exact ping_world) H \<and> hub_sim wire_rt (asks_in wire_rt std_read_exact ping_world) buffer (w_addr ping_world) s H"
proof -
  obtain s where s: "world_run wire_rt std_channel std_read_exact ping_world s" "length (tasks s) = 1" "length (stream_out (tasks s ! 0)) = 4"
    by (rule ping_world_run)
  show ?thesis
    using tcp_refines_hub[OF wire.pb_runtime_axioms std_reader.exact_reader_axioms std_chan.bounded_channel_axioms s(1)] s by fastforce
qed

text \<open>C13. Every frame that the TCP server writes has a reason: what is on the stream of a
  connection is the frames, the last perhaps cut off, of notes each of which is justified.
  A Pong follows from a ping of the same client. An Fsync with an identity and an address
  was sent by the same client, or a client seen at that address asked in that identity for
  an identity that this client claimed. A Redirect without an address follows from a request
  of the same client; one with an address from a reply that some client sent in the name of
  the identity, and a client that claimed it is seen at that address. As before \<open>peer_addr\<close>
  always gives the observed address.\<close>

theorem tcp_notes_justified:
  assumes "pb_runtime rt" "exact_reader rd" "bounded_channel ch items capacity"
    and "world_run rt ch rd W s" "length (tasks s) < 2 ^ 64" "i < length (tasks s)"
  shows "\<exists>vecs ns. list_all2 (encodes rt (asks_in rt rd W i)) vecs ns \<and> prefix (stream_out (tasks s ! i)) (frames vecs)
    \<and> (\<forall>n \<in> set ns. justified (w_addr W) (asks_in rt rd W) i n)"
proof -
  obtain H where H: "hub_run (w_addr W) (asks_in rt rd W) H" "hub_sim rt (asks_in rt rd W) items (w_addr W) s H"
    using refines_hub[OF assms(1-5)] by blast
  have "spoken rt (asks_in rt rd W i) (tasks s ! i) (said H i)" using sim_task[OF H(2) assms(6)] by (simp add: task_sim_def)
  then show ?thesis using hub_run_justified[OF H(1)] by (auto simp: spoken_def)
qed

theorem tcp_notes_justified_witness:
  "\<exists>s vecs ns. world_run wire_rt std_channel std_read_exact ping_world s \<and> list_all2 (encodes wire_rt (asks_in wire_rt std_read_exact ping_world 0)) vecs ns
    \<and> prefix (stream_out (tasks s ! 0)) (frames vecs) \<and> ns \<noteq> []
    \<and> (\<forall>n \<in> set ns. justified (w_addr ping_world) (asks_in wire_rt std_read_exact ping_world) 0 n)"
proof -
  obtain s where s: "world_run wire_rt std_channel std_read_exact ping_world s" "length (tasks s) = 1" "length (stream_out (tasks s ! 0)) = 4"
    by (rule ping_world_run)
  have n: "length (tasks s) < 2 ^ 64" "0 < length (tasks s)" using s(2) by simp_all
  obtain vecs ns where v: "list_all2 (encodes wire_rt (asks_in wire_rt std_read_exact ping_world 0)) vecs ns" "prefix (stream_out (tasks s ! 0)) (frames vecs)"
    "\<forall>n \<in> set ns. justified (w_addr ping_world) (asks_in wire_rt std_read_exact ping_world) 0 n"
    using tcp_notes_justified[OF wire.pb_runtime_axioms std_reader.exact_reader_axioms std_chan.bounded_channel_axioms s(1) n] by blast
  moreover have "ns \<noteq> []" using v(1,2) s(3) by (auto simp: frames_def)
  ultimately show ?thesis using s(1) by blast
qed

end
