(* ===== verification/Tcp_Background.thy ===== *)
theory Tcp_Background
  imports Tcp_Client
begin

text \<open>
  The threads of the blocking TCP client, \<open>src/tcp/client.rs\<close>, from \<open>start_background\<close> on.
  A connection with the server has four of them: the writer and the reader run the loops
  of \<open>Tcp_Client\<close>, the joiner waits for both and reports that the connection is broken,
  the watcher waits for the exit and shuts the socket down. \<open>listen\<close> starts one more,
  which makes a new connection after each report. They meet in \<open>Signal\<close>, a mutex with a
  condition variable.

  Every thread is the point at which it stands. A critical section is one move, since no
  thread blocks inside one but in \<open>wait\<close>, which gives the mutex back; a move that panics in it
  poisons the mutex. \<open>exec\<close> makes one move of one thread; \<open>None\<close> means that this thread
  cannot move so. The condition variable is the set of the threads at a waiting point:
  \<open>notify_all\<close> moves them on, and so does a spurious wake-up, which the standard library
  allows.
\<close>

section \<open>State\<close>

record Signal =
  exit :: bool
  broken :: bool

text \<open>
  \<open>WRecv\<close>: in \<open>recv_timeout\<close>. \<open>RSend\<close>: in \<open>tx.send\<close>. \<open>JWriter\<close>, \<open>JReader\<close>: in the
  \<open>join\<close> of that thread; \<open>JSignal\<close>: before the lock. \<open>VDone\<close> tells whether the watcher
  shut the socket down. \<open>RNone\<close>, \<open>JNone\<close>, \<open>VNone\<close>: never spawned.
\<close>

datatype 'u writer = WRecv | WWrite "'u ReqCmd" | WDone

datatype 'u reader = RNone | RRead | RSend "'u ReqCmd" | RDone | RPanicked

datatype joiner = JNone | JWriter | JReader | JSignal | JDone | JPanicked

datatype watcher = VNone | VLock | VWait | VWoken | VDone bool | VPanicked

text \<open>\<open>c_in\<close> is what the server is going to send before the connection ends.\<close>

record 'u Connection =
  c_local :: SocketAddr
  c_in :: bytes
  c_out :: bytes
  c_queue :: "'u ReqCmd sync_channel"
  c_attempts :: "attempt list"
  c_writer :: "'u writer"
  c_reader :: "'u reader"
  c_joiner :: joiner
  c_watcher :: watcher

text \<open>
  A thread of \<open>listen\<close> and the address of its socket. \<open>MLock\<close>: at the top of its loop; \<open>MWait\<close>: in
  \<open>wait\<close>; \<open>MConnect\<close>: before \<open>start_background\<close>; \<open>MPause\<close>: after a failure; \<open>MSleep\<close>: in
  \<open>wait_timeout\<close>.
\<close>

datatype reconnect = MLock | MWait | MWoken | MConnect | MPause | MSleep | MSlept | MReturned | MPanicked

record listen_thread =
  t_local :: SocketAddr
  t_point :: reconnect

text \<open>All connections and threads of a client meet at its one \<open>Signal\<close>.\<close>

record 'u System =
  client :: Client
  signal :: Signal
  poisoned :: bool
  threads :: "listen_thread list"
  conns :: "'u Connection list"

section \<open>The condition variable\<close>

definition wake_watcher :: "watcher \<Rightarrow> watcher" where
  "wake_watcher v = (if v = VWait then VWoken else v)"

definition wake_reconnect :: "reconnect \<Rightarrow> reconnect" where
  "wake_reconnect m = (if m = MWait then MWoken else if m = MSleep then MSlept else m)"

definition notify_all :: "'u System \<Rightarrow> 'u System" where
  "notify_all s =
     s\<lparr>threads := map (\<lambda>t. t\<lparr>t_point := wake_reconnect (t_point t)\<rparr>) (threads s),
       conns := map (\<lambda>c. c\<lparr>c_watcher := wake_watcher (c_watcher c)\<rparr>) (conns s)\<rparr>"

section \<open>Starting a connection\<close>

record start_env =
  se_resolve :: "string \<Rightarrow> io_error + SocketAddr list"
  se_os :: tcp_os
  se_in :: bytes

text \<open>
  The result and the connections whose threads run afterwards: when the second
  \<open>try_clone\<close> fails, the writer already runs.
\<close>

definition start_background ::
  "'u pb_rt \<Rightarrow> start_env \<Rightarrow> SocketAddr \<Rightarrow> string \<Rightarrow> ((io_error + unit) \<times> 'u Connection list) outcome" where
  "start_background rt env la server =
     and_then (connect_server (se_resolve env) (se_os env) la server) (\<lambda>r.
     case r of
       Inl e \<Rightarrow> Ret (Inl e, [])
     | Inr svr \<Rightarrow>
         (case mpsc_send std_channel (ReqPing (Ping_new rt)) (mpsc_new std_channel 10) of
            None \<Rightarrow> Hang
          | Some q \<Rightarrow>
              (let c = \<lparr>c_local = la, c_in = se_in env, c_out = [], c_queue = q, c_attempts = [],
                        c_writer = WRecv, c_reader = RNone, c_joiner = JNone, c_watcher = VNone\<rparr> in
               case to_try_clone (sk_os svr) 0 of
                 Inl e \<Rightarrow> Ret (Inl e, [])
               | Inr _ \<Rightarrow>
                   (case to_try_clone (sk_os svr) 1 of
                      Inl e \<Rightarrow> Ret (Inl e, [c])
                    | Inr _ \<Rightarrow>
                        Ret (Inr (), [c\<lparr>c_reader := RRead, c_joiner := JWriter, c_watcher := VLock\<rparr>])))))"

section \<open>The threads of a connection\<close>

definition tx_alive :: "'u Connection \<Rightarrow> bool" where
  "tx_alive c = (case c_reader c of RRead \<Rightarrow> True | RSend _ \<Rightarrow> True | _ \<Rightarrow> False)"

text \<open>\<open>recv_timeout\<close>; \<open>None\<close> while it waits.\<close>

definition recv_timeout :: "bool \<Rightarrow> 'u Connection \<Rightarrow> ('u received \<times> 'u ReqCmd sync_channel) option" where
  "recv_timeout late c =
     (case mpsc_recv std_channel (c_queue c) of
        Some (req, q) \<Rightarrow> Some (Got req, q)
      | None \<Rightarrow>
          (if \<not> tx_alive c then Some (Disconnected, c_queue c)
           else if late then Some (Timeout, c_queue c) else None))"

definition is_shut :: "'u Connection \<Rightarrow> bool" where
  "is_shut c = (c_watcher c = VDone True)"

text \<open>
  The moves of the writer, the reader and the joiner before it takes the lock. A write on
  a socket that was shut down fails before its first byte. Both loops run under \<open>unwrap\<close>, so
  an error of the reading loop is a panic of its thread.
\<close>

definition refused :: "write_result \<Rightarrow> bool" where
  "refused r = (case r of Inl (e, n) \<Rightarrow> n = 0 | Inr _ \<Rightarrow> False)"

datatype conn_move = Recv bool | Write write_result write_result | Read tcp_os | ReadFail | Send | Join

fun conn_step :: "'u pb_rt \<Rightarrow> string \<Rightarrow> conn_move \<Rightarrow> 'u Connection \<Rightarrow> 'u Connection option" where
  "conn_step rt who (Recv late) c =
     (if c_writer c = WRecv then
        map_option
          (\<lambda>(r, q). c\<lparr>c_queue := q, c_writer := (case next_req rt r of None \<Rightarrow> WDone | Some req \<Rightarrow> WWrite req)\<rparr>)
          (recv_timeout late c)
      else None)"
| "conn_step rt who (Write r1 r2) c =
     (case c_writer c of
        WWrite req \<Rightarrow>
          (if is_shut c \<and> \<not> refused r1 then None
           else
             (case write_req rt r1 r2 who req (c_out c) of
                (out, Inl e) \<Rightarrow> Some (c\<lparr>c_out := out, c_writer := WDone\<rparr>)
              | (out, Inr _) \<Rightarrow> Some (c\<lparr>c_out := out, c_writer := WRecv\<rparr>)))
      | _ \<Rightarrow> None)"
| "conn_step rt who (Read os) c =
     (if c_reader c = RRead then
        (case read_resp rt std_read_exact (c_in c) of
           Ret (Inr (resp, bs)) \<Rightarrow>
             (case read_turn rt os (c_local c) resp of
                Ret (Inr (req, attempts)) \<Rightarrow>
                  Some (c\<lparr>c_in := bs, c_attempts := c_attempts c @ attempts,
                          c_reader := (case req of None \<Rightarrow> RRead | Some cmd \<Rightarrow> RSend cmd)\<rparr>)
              | Ret (Inl e) \<Rightarrow> Some (c\<lparr>c_in := bs, c_reader := RPanicked\<rparr>)
              | Panic \<Rightarrow> Some (c\<lparr>c_in := bs, c_reader := RPanicked\<rparr>)
              | Hang \<Rightarrow> None)
         | Ret (Inl e) \<Rightarrow> Some (c\<lparr>c_reader := RDone\<rparr>)
         | _ \<Rightarrow> None)
      else None)"
| "conn_step rt who ReadFail c = (if c_reader c = RRead then Some (c\<lparr>c_reader := RDone\<rparr>) else None)"
| "conn_step rt who Send c =
     (case c_reader c of
        RSend cmd \<Rightarrow>
          (if c_writer c = WDone then Some (c\<lparr>c_reader := RPanicked\<rparr>)
           else map_option (\<lambda>q. c\<lparr>c_queue := q, c_reader := RRead\<rparr>) (mpsc_send std_channel cmd (c_queue c)))
      | _ \<Rightarrow> None)"
| "conn_step rt who Join c =
     (case c_joiner c of
        JWriter \<Rightarrow> if c_writer c = WDone then Some (c\<lparr>c_joiner := JReader\<rparr>) else None
      | JReader \<Rightarrow>
          (case c_reader c of
             RDone \<Rightarrow> Some (c\<lparr>c_joiner := JSignal\<rparr>)
           | RPanicked \<Rightarrow> Some (c\<lparr>c_joiner := JPanicked\<rparr>)
           | _ \<Rightarrow> None)
      | _ \<Rightarrow> None)"

definition put :: "nat \<Rightarrow> 'u Connection \<Rightarrow> 'u System \<Rightarrow> 'u System" where
  "put j c s = s\<lparr>conns := (conns s)[j := c]\<rparr>"

text \<open>The joiner's critical section.\<close>

definition announce :: "nat \<Rightarrow> 'u System \<Rightarrow> 'u System" where
  "announce j s =
     (let c = conns s ! j in
      if poisoned s then put j (c\<lparr>c_joiner := JPanicked\<rparr>) s
      else notify_all (put j (c\<lparr>c_joiner := JDone\<rparr>) s\<lparr>signal := (signal s)\<lparr>broken := True\<rparr>\<rparr>))"

text \<open>The watcher: up to \<open>wait\<close>, and after it.\<close>

definition watch :: "nat \<Rightarrow> 'u System \<Rightarrow> 'u System option" where
  "watch j s =
     (let c = conns s ! j in
      case c_watcher c of
        VLock \<Rightarrow>
          Some (put j (c\<lparr>c_watcher := if poisoned s then VPanicked else if exit (signal s) then VDone True else VWait\<rparr>) s)
      | VWoken \<Rightarrow>
          Some (put j (c\<lparr>c_watcher := if poisoned s then VPanicked else VDone (exit (signal s))\<rparr>) s)
      | _ \<Rightarrow> None)"

section \<open>The thread of listen\<close>

definition put_thread :: "nat \<Rightarrow> reconnect \<Rightarrow> 'u System \<Rightarrow> 'u System" where
  "put_thread i m s = s\<lparr>threads := (threads s)[i := (threads s ! i)\<lparr>t_point := m\<rparr>]\<rparr>"

text \<open>
  After \<open>wait\<close>: the assertion fails with the mutex held.
\<close>

definition after_wait :: "nat \<Rightarrow> 'u System \<Rightarrow> 'u System" where
  "after_wait i s =
     (if poisoned s then put_thread i MPanicked s
      else if exit (signal s) then put_thread i MReturned s
      else if \<not> broken (signal s) then put_thread i MPanicked (s\<lparr>poisoned := True\<rparr>)
      else put_thread i MConnect (s\<lparr>signal := (signal s)\<lparr>broken := False\<rparr>\<rparr>))"

text \<open>The three places where the thread takes the lock, returns on \<open>exit\<close> and goes on otherwise.\<close>

definition lock_or_return :: "nat \<Rightarrow> reconnect \<Rightarrow> 'u System \<Rightarrow> 'u System" where
  "lock_or_return i m s =
     put_thread i (if poisoned s then MPanicked else if exit (signal s) then MReturned else m) s"

definition try_connect :: "'u pb_rt \<Rightarrow> nat \<Rightarrow> start_env \<Rightarrow> 'u System \<Rightarrow> 'u System option" where
  "try_connect rt i env s =
     (case start_background rt env (t_local (threads s ! i)) (server_addr (client s)) of
        Ret (r, cs) \<Rightarrow>
          Some (put_thread i (case r of Inl e \<Rightarrow> MPause | Inr _ \<Rightarrow> MLock) (s\<lparr>conns := conns s @ cs\<rparr>))
      | Panic \<Rightarrow> Some (put_thread i MPanicked s)
      | Hang \<Rightarrow> None)"

definition reconnect_step :: "'u pb_rt \<Rightarrow> nat \<Rightarrow> start_env \<Rightarrow> 'u System \<Rightarrow> 'u System option" where
  "reconnect_step rt i env s =
     (case t_point (threads s ! i) of
        MLock \<Rightarrow> Some (lock_or_return i MWait s)
      | MWoken \<Rightarrow> Some (after_wait i s)
      | MConnect \<Rightarrow> try_connect rt i env s
      | MPause \<Rightarrow> Some (lock_or_return i MSleep s)
      | MSlept \<Rightarrow> Some (lock_or_return i MConnect s)
      | _ \<Rightarrow> None)"

section \<open>The calls of the user\<close>

record listen_env =
  le_resolve :: "string \<Rightarrow> io_error + SocketAddr list"
  le_os :: tcp_os
  le_start :: start_env

text \<open>The listening socket and its address.\<close>

definition listen_socket :: "listen_env \<Rightarrow> Client \<Rightarrow> (io_error + Socket \<times> SocketAddr) outcome" where
  "listen_socket env c =
     ques_call (choose_bind_addr (le_resolve env) c) (\<lambda>a.
     ques_call (bind (le_os env) a) (\<lambda>l.
     ques (to_listen (sk_os l) 10) (\<lambda>_.
     and_then (socket_addr (sk_os l)) (\<lambda>la.
     Ret (Inr (l, la))))))"

definition listen :: "'u pb_rt \<Rightarrow> listen_env \<Rightarrow> 'u System \<Rightarrow> 'u System \<times> (io_error + unit) outcome" where
  "listen rt env s =
     (case listen_socket env (client s) of
        Ret (Inr (l, la)) \<Rightarrow>
          (case start_background rt (le_start env) la (server_addr (client s)) of
             Ret (Inl e, cs) \<Rightarrow> (s\<lparr>conns := conns s @ cs\<rparr>, Ret (Inl e))
           | Ret (Inr _, cs) \<Rightarrow>
               (s\<lparr>threads := threads s @ [\<lparr>t_local = la, t_point = MLock\<rparr>], conns := conns s @ cs,
                  client := (client s)\<lparr>listener := Some l\<rparr>\<rparr>, Ret (Inr ()))
           | Panic \<Rightarrow> (s, Panic)
           | Hang \<Rightarrow> (s, Hang))
      | Ret (Inl e) \<Rightarrow> (s, Ret (Inl e))
      | Panic \<Rightarrow> (s, Panic)
      | Hang \<Rightarrow> (s, Hang))"

definition shutdown :: "'u System \<Rightarrow> 'u System \<times> (io_error + unit) outcome" where
  "shutdown s =
     (let s = s\<lparr>client := (client s)\<lparr>listener := None\<rparr>\<rparr> in
      if poisoned s then (s, Panic)
      else (notify_all (s\<lparr>signal := (signal s)\<lparr>exit := True\<rparr>\<rparr>), Ret (Inr ())))"

text \<open>\<open>Drop for Client\<close>.\<close>

definition drop_client :: "'u System \<Rightarrow> 'u System \<times> unit outcome" where
  "drop_client s = (let (s, r) = shutdown s in (s, and_then r unwrap))"

section \<open>The scheduler\<close>

datatype label =
    Conn nat conn_move | Announce nat | Watch nat | Reconnect nat start_env | SleepOver nat
  | SpuriousReconnect nat | SpuriousWatcher nat | Listen listen_env | Shutdown

fun exec :: "'u pb_rt \<Rightarrow> label \<Rightarrow> 'u System \<Rightarrow> 'u System option" where
  "exec rt (Conn j a) s =
     (if j < length (conns s) then
        map_option (\<lambda>c. put j c s) (conn_step rt (client_id (client s)) a (conns s ! j))
      else None)"
| "exec rt (Announce j) s =
     (if j < length (conns s) \<and> c_joiner (conns s ! j) = JSignal then Some (announce j s) else None)"
| "exec rt (Watch j) s = (if j < length (conns s) then watch j s else None)"
| "exec rt (Reconnect i env) s = (if i < length (threads s) then reconnect_step rt i env s else None)"
| "exec rt (SleepOver i) s =
     (if i < length (threads s) \<and> t_point (threads s ! i) = MSleep then Some (put_thread i MSlept s) else None)"
| "exec rt (SpuriousReconnect i) s =
     (if i < length (threads s) \<and> t_point (threads s ! i) \<in> {MWait, MSleep} then
        Some (put_thread i (wake_reconnect (t_point (threads s ! i))) s)
      else None)"
| "exec rt (SpuriousWatcher j) s =
     (if j < length (conns s) \<and> c_watcher (conns s ! j) = VWait then
        Some (put j ((conns s ! j)\<lparr>c_watcher := VWoken\<rparr>) s)
      else None)"
| "exec rt (Listen env) s = Some (fst (listen rt env s))"
| "exec rt Shutdown s = Some (fst (shutdown s))"

fun execs :: "'u pb_rt \<Rightarrow> label list \<Rightarrow> 'u System \<Rightarrow> 'u System option" where
  "execs rt [] s = Some s"
| "execs rt (l # ls) s = (case exec rt l s of None \<Rightarrow> None | Some s' \<Rightarrow> execs rt ls s')"

definition opened :: "Client \<Rightarrow> 'u System" where
  "opened c =
     \<lparr>client = c, signal = \<lparr>exit = False, broken = False\<rparr>, poisoned = False, threads = [], conns = []\<rparr>"

fun spurious :: "label \<Rightarrow> bool" where
  "spurious (SpuriousReconnect i) = True"
| "spurious (SpuriousWatcher j) = True"
| "spurious _ = False"

text \<open>
  The states of a client from \<open>Client::new\<close> on; \<open>sp\<close> tells whether spurious wake-ups
  happen.
\<close>

inductive reachable :: "'u pb_rt \<Rightarrow> bool \<Rightarrow> 'u System \<Rightarrow> bool" for rt sp where
  created: "new server who la = Inr c \<Longrightarrow> reachable rt sp (opened c)"
| moved: "reachable rt sp s \<Longrightarrow> exec rt l s = Some s' \<Longrightarrow> sp \<or> \<not> spurious l \<Longrightarrow> reachable rt sp s'"

section \<open>What a move changes\<close>

lemma put_connection_sel [simp]:
  "client (put j c s) = client s" "signal (put j c s) = signal s" "poisoned (put j c s) = poisoned s"
  "threads (put j c s) = threads s"
  "conns (put j c s) = (conns s)[j := c]"
  by (simp_all add: put_def)

lemma put_thread_sel [simp]:
  "client (put_thread i m s) = client s" "signal (put_thread i m s) = signal s" "poisoned (put_thread i m s) = poisoned s"
  "threads (put_thread i m s) = (threads s)[i := (threads s ! i)\<lparr>t_point := m\<rparr>]" "conns (put_thread i m s) = conns s"
  by (simp_all add: put_thread_def)

lemma notify_all_sel [simp]:
  "client (notify_all s) = client s" "signal (notify_all s) = signal s" "poisoned (notify_all s) = poisoned s"
  "threads (notify_all s) = map (\<lambda>t. t\<lparr>t_point := wake_reconnect (t_point t)\<rparr>) (threads s)"
  "conns (notify_all s) = map (\<lambda>c. c\<lparr>c_watcher := wake_watcher (c_watcher c)\<rparr>) (conns s)"
  by (simp_all add: notify_all_def)

lemma wake_watcher_simps [simp]:
  "wake_watcher v \<noteq> VWait" "wake_watcher v = VNone \<longleftrightarrow> v = VNone" "wake_watcher v = VDone b \<longleftrightarrow> v = VDone b"
  "wake_watcher v = VWoken \<longleftrightarrow> v = VWait \<or> v = VWoken" "wake_watcher v = VLock \<longleftrightarrow> v = VLock"
  "wake_watcher v = VPanicked \<longleftrightarrow> v = VPanicked"
  by (auto simp: wake_watcher_def)

lemma wake_reconnect_simps [simp]:
  "wake_reconnect m \<noteq> MWait" "wake_reconnect m \<noteq> MSleep"
  "wake_reconnect m = MWoken \<longleftrightarrow> m = MWait \<or> m = MWoken" "wake_reconnect m = MSlept \<longleftrightarrow> m = MSleep \<or> m = MSlept"
  "wake_reconnect m = MLock \<longleftrightarrow> m = MLock" "wake_reconnect m = MConnect \<longleftrightarrow> m = MConnect"
  "wake_reconnect m = MPause \<longleftrightarrow> m = MPause" "wake_reconnect m = MReturned \<longleftrightarrow> m = MReturned"
  "wake_reconnect m = MPanicked \<longleftrightarrow> m = MPanicked"
  by (auto simp: wake_reconnect_def)

text \<open>A property of connections that holds of the changed one.\<close>

lemma put_all: "\<forall>c \<in> set (conns s). P c \<Longrightarrow> P c' \<Longrightarrow> \<forall>c \<in> set (conns (put j c' s)). P c"
  using set_update_subset_insert[of "conns s" j c'] by auto

lemma notify_all_all:
  "\<forall>c \<in> set (conns s). P (c\<lparr>c_watcher := wake_watcher (c_watcher c)\<rparr>) \<Longrightarrow> \<forall>c \<in> set (conns (notify_all s)). P c"
  by simp

text \<open>The connection of a fresh start.\<close>

definition fresh :: "'u pb_rt \<Rightarrow> start_env \<Rightarrow> SocketAddr \<Rightarrow> 'u Connection" where
  "fresh rt env la =
     \<lparr>c_local = la, c_in = se_in env, c_out = [], c_queue = \<lparr>bound = 10, buffer = [ReqPing (Ping_new rt)]\<rparr>,
      c_attempts = [], c_writer = WRecv, c_reader = RRead, c_joiner = JWriter, c_watcher = VLock\<rparr>"

lemma start_background_connected:
  assumes "connect_server (se_resolve env) (se_os env) la server = Ret (Inr svr)"
  shows "start_background rt env la server =
    (case to_try_clone (sk_os svr) 0 of
       Inl e \<Rightarrow> Ret (Inl e, [])
     | Inr _ \<Rightarrow>
         (case to_try_clone (sk_os svr) 1 of
            Inl e \<Rightarrow> Ret (Inl e, [(fresh rt env la)\<lparr>c_reader := RNone, c_joiner := JNone, c_watcher := VNone\<rparr>])
          | Inr _ \<Rightarrow> Ret (Inr (), [fresh rt env la])))"
  using assms by (simp add: start_background_def fresh_def Let_def split: sum.split)

lemma start_background_Ret:
  assumes "start_background rt env la server = Ret (r, cs)"
  shows "(\<exists>e. r = Inl e \<and> cs = []) \<or> r = Inr () \<and> cs = [fresh rt env la]
    \<or> (\<exists>e. r = Inl e \<and> cs = [(fresh rt env la)\<lparr>c_reader := RNone, c_joiner := JNone, c_watcher := VNone\<rparr>])"
proof (cases "connect_server (se_resolve env) (se_os env) la server")
  case (Ret x)
  show ?thesis
  proof (cases x)
    case (Inl e)
    then show ?thesis using assms Ret by (auto simp: start_background_def)
  next
    case (Inr svr)
    note eq = start_background_connected[OF Ret[unfolded Inr], of rt]
    show ?thesis
    proof (cases "to_try_clone (sk_os svr) 0")
      case (Inl e)
      with eq have "Ret (r, cs) = Ret (Inl e, [])" by (simp add: assms)
      then show ?thesis by simp
    next
      case (Inr u)
      note one = this
      show ?thesis
      proof (cases "to_try_clone (sk_os svr) 1")
        case (Inl e)
        with eq one have "Ret (r, cs) = Ret (Inl e, [(fresh rt env la)\<lparr>c_reader := RNone, c_joiner := JNone, c_watcher := VNone\<rparr>])"
          by (simp add: assms)
        then show ?thesis by simp
      next
        case (Inr v)
        with eq one have "Ret (r, cs) = Ret (Inr (), [fresh rt env la])" by (simp add: assms)
        then show ?thesis by simp
      qed
    qed
  qed
qed (use assms in \<open>simp_all add: start_background_def\<close>)

end
