(* ===== verification/Tcp_Background_Correct.thy ===== *)
theory Tcp_Background_Correct
  imports Tcp_Background Tcp_Client_Correct
begin

text \<open>
  The properties of the threads of the blocking TCP client: what a state can look like,
  what goes to the server first, when a broken connection is replaced, what the shutdown
  reaches, and the ways in which the condition variable, waited on without a loop, loses
  a report or stops the client.
\<close>

section \<open>A property of every connection\<close>

abbreviation orphan :: "'u Connection \<Rightarrow> 'u Connection" where
  "orphan c \<equiv> c\<lparr>c_reader := RNone, c_joiner := JNone, c_watcher := VNone\<rparr>"

lemma watch_Some:
  assumes "watch j s = Some s'"
  shows "\<exists>v. c_watcher (conns s ! j) \<in> {VLock, VWoken} \<and> v \<notin> {VNone, VLock, VWoken}
    \<and> (exit (signal s) \<longrightarrow> v \<noteq> VWait) \<and> (\<forall>b. v = VDone b \<longrightarrow> b = exit (signal s))
    \<and> (v = VDone False \<longrightarrow> c_watcher (conns s ! j) = VWoken) \<and> (v = VPanicked \<longrightarrow> poisoned s)
    \<and> s' = put j ((conns s ! j)\<lparr>c_watcher := v\<rparr>) s"
proof (cases "c_watcher (conns s ! j)")
  case VLock
  then show ?thesis
    using assms by (intro exI[of _ "if poisoned s then VPanicked else if exit (signal s) then VDone True else VWait"])
      (auto simp: watch_def Let_def)
next
  case VWoken
  then show ?thesis
    using assms by (intro exI[of _ "if poisoned s then VPanicked else VDone (exit (signal s))"])
      (auto simp: watch_def Let_def)
qed (use assms in \<open>simp_all add: watch_def Let_def\<close>)

lemma try_connect_cases:
  assumes "try_connect rt i env s = Some s'"
  obtains (panic) "s' = put_thread i MPanicked s"
  | (failed) cs where "cs = [] \<or> cs = [orphan (fresh rt env (t_local (threads s ! i)))]"
      "s' = put_thread i MPause (s\<lparr>conns := conns s @ cs\<rparr>)"
  | (ok) "s' = put_thread i MLock (s\<lparr>conns := conns s @ [fresh rt env (t_local (threads s ! i))]\<rparr>)"
proof (cases "start_background rt env (t_local (threads s ! i)) (server_addr (client s))")
  case (Ret x)
  obtain r cs where x: "x = (r, cs)" by fastforce
  from start_background_Ret[OF Ret[unfolded x]] consider
      e where "r = Inl e" "cs = []" | "r = Inr ()" "cs = [fresh rt env (t_local (threads s ! i))]"
    | e where "r = Inl e" "cs = [orphan (fresh rt env (t_local (threads s ! i)))]" by blast
  then show ?thesis
  proof cases
    case 1
    with assms Ret x have "s' = put_thread i MPause (s\<lparr>conns := conns s @ []\<rparr>)" by (simp add: try_connect_def)
    then show ?thesis using failed[of "[]"] by simp
  next
    case 2
    with assms Ret x show ?thesis using ok by (simp add: try_connect_def)
  next
    case 3
    with assms Ret x show ?thesis using failed[of cs] by (simp add: try_connect_def)
  qed
qed (use assms panic in \<open>simp_all add: try_connect_def\<close>)

lemma listen_cases:
  obtains (same) r where "listen rt env s = (s, r)"
  | (failed) la r where "listen rt env s = (s\<lparr>conns := conns s @ [orphan (fresh rt (le_start env) la)]\<rparr>, r)"
  | (ok) la l r where "listen rt env s = (s\<lparr>threads := threads s @ [\<lparr>t_local = la, t_point = MLock\<rparr>],
      conns := conns s @ [fresh rt (le_start env) la], client := (client s)\<lparr>listener := Some l\<rparr>\<rparr>, r)"
proof (cases "listen_socket env (client s)")
  case (Ret x)
  show thesis
  proof (cases x)
    case (Inl e)
    then show thesis using Ret same by (simp add: listen_def)
  next
    case (Inr y)
    obtain l la where y: "y = (l, la)" by fastforce
    show thesis
    proof (cases "start_background rt (le_start env) la (server_addr (client s))")
      case (Ret z)
      obtain r cs where z: "z = (r, cs)" by fastforce
      from start_background_Ret[OF Ret[unfolded z]] consider
          e where "r = Inl e" "cs = []" | "r = Inr ()" "cs = [fresh rt (le_start env) la]"
        | e where "r = Inl e" "cs = [orphan (fresh rt (le_start env) la)]" by blast
      then show thesis
        by cases (use \<open>listen_socket env (client s) = Ret x\<close> Inr y Ret z same failed ok in \<open>simp_all add: listen_def\<close>)
    qed (use Ret Inr y same in \<open>simp_all add: listen_def\<close>)
  qed
qed (use same in \<open>simp_all add: listen_def\<close>)

lemma reconnect_step_cases:
  assumes "reconnect_step rt i env s = Some s'"
  obtains (panic) "poisoned s \<or> t_point (threads s ! i) = MConnect" "t_point (threads s ! i) \<in> {MLock, MWoken, MConnect, MPause, MSlept}" "s' = put_thread i MPanicked s"
  | (returned) "\<not> poisoned s" "exit (signal s)" "t_point (threads s ! i) \<in> {MLock, MWoken, MPause, MSlept}" "s' = put_thread i MReturned s"
  | (wait) "\<not> poisoned s" "\<not> exit (signal s)" "t_point (threads s ! i) = MLock" "s' = put_thread i MWait s"
  | (sleep) "\<not> poisoned s" "\<not> exit (signal s)" "t_point (threads s ! i) = MPause" "s' = put_thread i MSleep s"
  | (slept) "\<not> poisoned s" "\<not> exit (signal s)" "t_point (threads s ! i) = MSlept" "s' = put_thread i MConnect s"
  | (failed_assert) "\<not> poisoned s" "\<not> exit (signal s)" "\<not> broken (signal s)" "t_point (threads s ! i) = MWoken"
      "s' = put_thread i MPanicked (s\<lparr>poisoned := True\<rparr>)"
  | (again) "\<not> poisoned s" "\<not> exit (signal s)" "broken (signal s)" "t_point (threads s ! i) = MWoken"
      "s' = put_thread i MConnect (s\<lparr>signal := (signal s)\<lparr>broken := False\<rparr>\<rparr>)"
  | (failed) cs where "t_point (threads s ! i) = MConnect" "cs = [] \<or> cs = [orphan (fresh rt env (t_local (threads s ! i)))]"
      "s' = put_thread i MPause (s\<lparr>conns := conns s @ cs\<rparr>)"
  | (ok) "t_point (threads s ! i) = MConnect" "s' = put_thread i MLock (s\<lparr>conns := conns s @ [fresh rt env (t_local (threads s ! i))]\<rparr>)"
proof -
  have "t_point (threads s ! i) \<in> {MLock, MWoken, MConnect, MPause, MSlept}"
    using assms by (cases "t_point (threads s ! i)") (simp_all add: reconnect_step_def)
  then consider "t_point (threads s ! i) = MLock" | "t_point (threads s ! i) = MWoken" | "t_point (threads s ! i) = MConnect" | "t_point (threads s ! i) = MPause"
    | "t_point (threads s ! i) = MSlept" by blast
  then show ?thesis
  proof cases
    case 1
    then show ?thesis using assms panic returned wait
      by (simp add: reconnect_step_def lock_or_return_def split: if_splits)
  next
    case 2
    then show ?thesis using assms panic returned failed_assert again
      by (simp add: reconnect_step_def after_wait_def split: if_splits)
  next
    case 3
    then have "try_connect rt i env s = Some s'" using assms by (simp add: reconnect_step_def)
    then show ?thesis by (cases rule: try_connect_cases) (use 3 panic failed ok in auto)
  next
    case 4
    then show ?thesis using assms panic returned sleep
      by (simp add: reconnect_step_def lock_or_return_def split: if_splits)
  next
    case 5
    then show ?thesis using assms panic returned slept
      by (simp add: reconnect_step_def lock_or_return_def split: if_splits)
  qed
qed

lemma shutdown_sel [simp]:
  "conns (fst (shutdown s)) = (if poisoned s then conns s
     else map (\<lambda>c. c\<lparr>c_watcher := wake_watcher (c_watcher c)\<rparr>) (conns s))"
  "threads (fst (shutdown s)) = (if poisoned s then threads s
     else map (\<lambda>t. t\<lparr>t_point := wake_reconnect (t_point t)\<rparr>) (threads s))"
  "signal (fst (shutdown s)) = (if poisoned s then signal s else (signal s)\<lparr>exit := True\<rparr>)"
  "poisoned (fst (shutdown s)) = poisoned s"
  "client (fst (shutdown s)) = (client s)\<lparr>listener := None\<rparr>"
  "snd (shutdown s) = (if poisoned s then Panic else Ret (Inr ()))"
  by (simp_all add: shutdown_def Let_def)

lemma announce_sel [simp]:
  "conns (announce j s) =
     (if poisoned s then (conns s)[j := (conns s ! j)\<lparr>c_joiner := JPanicked\<rparr>]
      else map (\<lambda>c. c\<lparr>c_watcher := wake_watcher (c_watcher c)\<rparr>) ((conns s)[j := (conns s ! j)\<lparr>c_joiner := JDone\<rparr>]))"
  "threads (announce j s) = (if poisoned s then threads s
     else map (\<lambda>t. t\<lparr>t_point := wake_reconnect (t_point t)\<rparr>) (threads s))"
  "signal (announce j s) = (if poisoned s then signal s else (signal s)\<lparr>broken := True\<rparr>)"
  "poisoned (announce j s) = poisoned s" "client (announce j s) = client s"
  by (simp_all add: announce_def Let_def)

text \<open>The connections a move makes.\<close>

fun start_envs :: "label \<Rightarrow> start_env list" where
  "start_envs (Reconnect i env) = [env]"
| "start_envs (Listen env) = [le_start env]"
| "start_envs _ = []"

lemma exec_all:
  assumes "exec rt l s = Some s'" "\<forall>c \<in> set (conns s). P c"
    and step: "\<And>a c c'. conn_step rt (client_id (client s)) a c = Some c' \<Longrightarrow> P c \<Longrightarrow> P c'"
    and joiner: "\<And>c v. P c \<Longrightarrow> c_joiner c = JSignal \<Longrightarrow> v \<in> {JDone, JPanicked} \<Longrightarrow> P (c\<lparr>c_joiner := v\<rparr>)"
    and watcher: "\<And>c v. P c \<Longrightarrow> c_watcher c = VNone \<longleftrightarrow> v = VNone \<Longrightarrow> P (c\<lparr>c_watcher := v\<rparr>)"
    and start: "\<And>env la. env \<in> set (start_envs l) \<Longrightarrow> P (fresh rt env la) \<and> P (orphan (fresh rt env la))"
  shows "\<forall>c \<in> set (conns s'). P c"
proof -
  have woken: "\<forall>c \<in> set (conns s). P (c\<lparr>c_watcher := wake_watcher (c_watcher c)\<rparr>)" if "\<forall>c \<in> set (conns s). P c" for s :: "'a System"
    using that by (auto intro!: watcher)
  show ?thesis
  proof (cases l)
    case (Conn j a)
    then obtain c where "j < length (conns s)" "conn_step rt (client_id (client s)) a (conns s ! j) = Some c" "s' = put j c s"
      using assms(1) by (auto split: if_splits)
    then show ?thesis using step[of a "conns s ! j" c] assms(2) put_all[of s P c j] nth_mem by blast
  next
    case (Announce j)
    then have j: "j < length (conns s)" "c_joiner (conns s ! j) = JSignal" and s': "s' = announce j s"
      using assms(1) by (auto split: if_splits)
    have P: "P ((conns s ! j)\<lparr>c_joiner := v\<rparr>)" if "v \<in> {JDone, JPanicked}" for v
      using joiner[OF _ j(2) that] assms(2) j(1) by simp
    show ?thesis
    proof (cases "poisoned s")
      case True
      then show ?thesis using s' put_all[OF assms(2) P[of JPanicked], of j] by simp
    next
      case False
      have "\<forall>c \<in> set (conns (put j ((conns s ! j)\<lparr>c_joiner := JDone\<rparr>) s)). P c"
        by (rule put_all[OF assms(2) P]) simp
      then show ?thesis using False s' by (auto intro!: watcher)
    qed
  next
    case (Watch j)
    then have j: "j < length (conns s)" and w: "watch j s = Some s'" using assms(1) by (auto split: if_splits)
    from watch_Some[OF w] obtain v where v: "v \<noteq> VNone" "c_watcher (conns s ! j) \<noteq> VNone"
        "s' = put j ((conns s ! j)\<lparr>c_watcher := v\<rparr>) s" by auto
    then show ?thesis using put_all[OF assms(2), of "(conns s ! j)\<lparr>c_watcher := v\<rparr>" j] watcher[of "conns s ! j" v] assms(2) j by auto
  next
    case (Reconnect i env)
    then have "reconnect_step rt i env s = Some s'" using assms(1) by (simp split: if_splits)
    then show ?thesis by (cases rule: reconnect_step_cases) (use assms(2) start Reconnect in auto)
  next
    case (SpuriousWatcher j)
    then have j: "j < length (conns s)" "c_watcher (conns s ! j) = VWait" "s' = put j ((conns s ! j)\<lparr>c_watcher := VWoken\<rparr>) s"
      using assms(1) by (auto split: if_splits)
    then show ?thesis using put_all[OF assms(2), of "(conns s ! j)\<lparr>c_watcher := VWoken\<rparr>" j] watcher[of "conns s ! j" VWoken] assms(2) by auto
  next
    case (Listen env)
    then have "s' = fst (listen rt env s)" using assms(1) by (simp split: if_splits)
    then show ?thesis using assms(2) start Listen by (cases rule: listen_cases[of rt env s]) auto
  next
    case Shutdown
    then have "s' = fst (shutdown s)" using assms(1) by simp
    then show ?thesis using assms(2) woken[of s] by auto
  qed (use assms in \<open>auto split: if_splits\<close>)
qed

lemma exec_client:
  assumes "exec rt l s = Some s'"
  shows "client_id (client s') = client_id (client s)"
proof (cases l)
  case (Listen env)
  then have "s' = fst (listen rt env s)" using assms by (simp split: if_splits)
  then show ?thesis by (cases rule: listen_cases[of rt env s]) auto
next
  case (Watch j)
  then show ?thesis using assms watch_Some[of j s s'] by (auto split: if_splits)
next
  case (Reconnect i env)
  then have "reconnect_step rt i env s = Some s'" using assms by (simp split: if_splits)
  then show ?thesis by (cases rule: reconnect_step_cases) auto
qed (use assms in \<open>auto split: if_splits\<close>)

lemma reachable_all:
  assumes "reachable rt sp s" "client_id (client s) = who"
    and "\<And>a c c'. conn_step rt who a c = Some c' \<Longrightarrow> P c \<Longrightarrow> P c'"
    and "\<And>c v. P c \<Longrightarrow> c_joiner c = JSignal \<Longrightarrow> v \<in> {JDone, JPanicked} \<Longrightarrow> P (c\<lparr>c_joiner := v\<rparr>)"
    and "\<And>c v. P c \<Longrightarrow> c_watcher c = VNone \<longleftrightarrow> v = VNone \<Longrightarrow> P (c\<lparr>c_watcher := v\<rparr>)"
    and "\<And>env la. P (fresh rt env la) \<and> P (orphan (fresh rt env la))"
  shows "\<forall>c \<in> set (conns s). P c"
  using assms(1,2)
proof (induction rule: reachable.induct)
  case (created server who la c)
  show ?case by (simp add: opened_def)
next
  case (moved s l s')
  then have who: "client_id (client s) = who" using exec_client by metis
  with moved.IH have P: "\<forall>c \<in> set (conns s). P c" by simp
  show ?case by (rule exec_all[OF moved.hyps(2) P]) (use assms(3-6) who in auto)
qed

section \<open>What a state can look like\<close>

text \<open>The requests that the threads handle.\<close>

fun kept_request :: "'u ReqCmd \<Rightarrow> bool" where
  "kept_request (ReqPing _) = True"
| "kept_request (ReqRsync _) = True"
| "kept_request _ = False"

definition conn_typed :: "'u Connection \<Rightarrow> bool" where
  "conn_typed c \<longleftrightarrow>
     bound (c_queue c) = 10 \<and> length (buffer (c_queue c)) \<le> 10
   \<and> list_all kept_request (buffer (c_queue c))
   \<and> (case c_writer c of WWrite req \<Rightarrow> kept_request req | _ \<Rightarrow> True)
   \<and> (case c_reader c of RSend req \<Rightarrow> kept_request req | _ \<Rightarrow> True)
   \<and> (c_reader c = RNone \<longleftrightarrow> c_joiner c = JNone) \<and> (c_watcher c = VNone \<longleftrightarrow> c_joiner c = JNone)
   \<and> (c_joiner c \<in> {JReader, JSignal, JDone, JPanicked} \<longrightarrow> c_writer c = WDone)
   \<and> (c_joiner c \<in> {JSignal, JDone} \<longrightarrow> c_reader c = RDone)
   \<and> (c_joiner c = JPanicked \<longrightarrow> c_reader c \<in> {RDone, RPanicked})"

lemma read_turn_kept: "read_turn rt os la resp = Ret (Inr (Some req, attempts)) \<Longrightarrow> kept_request req"
  by (auto simp: read_turn_def ques_Ret and_then_eq_Ret Let_def split: option.splits RespCmd.splits)

lemma conn_step_cases:
  assumes "conn_step rt who a c = Some c'"
  obtains (recv) m ms where "c_writer c = WRecv" "buffer (c_queue c) = m # ms"
      "c' = c\<lparr>c_queue := (c_queue c)\<lparr>buffer := ms\<rparr>, c_writer := WWrite m\<rparr>"
  | (ping) "c_writer c = WRecv" "buffer (c_queue c) = []" "tx_alive c"
      "c' = c\<lparr>c_queue := c_queue c, c_writer := WWrite (ReqPing (Ping_new rt))\<rparr>"
  | (hangup) "c_writer c = WRecv" "buffer (c_queue c) = []" "\<not> tx_alive c" "c' = c\<lparr>c_queue := c_queue c, c_writer := WDone\<rparr>"
  | (written) r1 r2 req out r where "c_writer c = WWrite req" "is_shut c \<longrightarrow> refused r1"
      "write_req rt r1 r2 who req (c_out c) = (out, r)"
      "c' = c\<lparr>c_out := out, c_writer := (case r of Inl e \<Rightarrow> WDone | Inr _ \<Rightarrow> WRecv)\<rparr>"
  | (read) os resp bs req attempts where "c_reader c = RRead" "read_resp rt std_read_exact (c_in c) = Ret (Inr (resp, bs))"
      "read_turn rt os (c_local c) resp = Ret (Inr (req, attempts))"
      "c' = c\<lparr>c_in := bs, c_attempts := c_attempts c @ attempts,
              c_reader := (case req of None \<Rightarrow> RRead | Some cmd \<Rightarrow> RSend cmd)\<rparr>"
  | (read_panic) bs where "c_reader c = RRead" "c' = c\<lparr>c_in := bs, c_reader := RPanicked\<rparr>"
  | (read_end) "c_reader c = RRead" "c' = c\<lparr>c_reader := RDone\<rparr>"
  | (send_panic) cmd where "c_reader c = RSend cmd" "c_writer c = WDone" "c' = c\<lparr>c_reader := RPanicked\<rparr>"
  | (send) cmd where "c_reader c = RSend cmd" "c_writer c \<noteq> WDone" "length (buffer (c_queue c)) < bound (c_queue c)"
      "c' = c\<lparr>c_queue := (c_queue c)\<lparr>buffer := buffer (c_queue c) @ [cmd]\<rparr>, c_reader := RRead\<rparr>"
  | (join_writer) "c_joiner c = JWriter" "c_writer c = WDone" "c' = c\<lparr>c_joiner := JReader\<rparr>"
  | (join_reader) "c_joiner c = JReader" "c_reader c = RDone" "c' = c\<lparr>c_joiner := JSignal\<rparr>"
  | (join_panic) "c_joiner c = JReader" "c_reader c = RPanicked" "c' = c\<lparr>c_joiner := JPanicked\<rparr>"
proof (cases a)
  case (Recv late)
  then have w: "c_writer c = WRecv" using assms by (simp split: if_splits)
  show ?thesis
  proof (cases "buffer (c_queue c)")
    case Nil
    then show ?thesis
      using assms Recv w ping hangup by (simp add: recv_timeout_def split: if_splits)
  next
    case (Cons m ms)
    then show ?thesis using assms Recv w recv by (simp add: recv_timeout_def)
  qed
next
  case (Write r1 r2)
  then obtain req where w: "c_writer c = WWrite req" using assms by (auto split: writer.splits)
  obtain out r where r: "write_req rt r1 r2 who req (c_out c) = (out, r)" by fastforce
  show ?thesis
    using assms Write w r by (cases r) (auto split: if_splits intro: written[OF w])
next
  case (Read os)
  then have rd: "c_reader c = RRead" using assms by (simp split: if_splits)
  show ?thesis
  proof (cases "read_resp rt std_read_exact (c_in c)")
    case (Ret x)
    show ?thesis
    proof (cases x)
      case (Inl e)
      then show ?thesis using assms Read rd Ret read_end by simp
    next
      case (Inr y)
      obtain resp bs where y: "y = (resp, bs)" by fastforce
      note eqs = assms Read rd Ret Inr y
      show ?thesis
      proof (cases "read_turn rt os (c_local c) resp")
        case (Ret z)
        show ?thesis
        proof (cases z)
          case (Inl e)
          then show ?thesis using eqs Ret read_panic[OF rd, of bs] by simp
        next
          case (Inr u)
          obtain req attempts where u: "u = (req, attempts)" by fastforce
          show ?thesis
            using eqs Ret Inr u by (intro read[OF rd, of resp bs os req attempts]) simp_all
        qed
      next
        case Panic
        then show ?thesis using eqs read_panic[OF rd, of bs] by simp
      next
        case Hang
        then show ?thesis using eqs by simp
      qed
    qed
  qed (use assms Read rd in simp_all)
next
  case ReadFail
  then show ?thesis using assms read_end by (simp split: if_splits)
next
  case Send
  then obtain cmd where r: "c_reader c = RSend cmd" using assms by (auto split: reader.splits)
  then show ?thesis
    using assms Send send_panic[OF r] send[OF r] by (simp split: if_splits)
next
  case Join
  then show ?thesis
    using assms join_writer join_reader join_panic by (simp split: joiner.splits reader.splits if_splits)
qed

lemma conn_step_typed:
  assumes "conn_step rt who a c = Some c'" "conn_typed c"
  shows "conn_typed c'"
  using assms(1)
proof (cases rule: conn_step_cases)
  case (written r1 r2 req out r)
  then show ?thesis using assms(2) by (cases r) (auto simp: conn_typed_def)
next
  case (read os resp bs req attempts)
  then show ?thesis
    using assms(2) read_turn_kept[of rt os "c_local c" resp] by (cases req) (auto simp: conn_typed_def)
qed (use assms(2) in \<open>auto simp: conn_typed_def\<close>)

definition spawned :: "'u Connection \<Rightarrow> bool" where
  "spawned c \<longleftrightarrow> c_joiner c \<noteq> JNone"

definition system_typed :: "'u System \<Rightarrow> bool" where
  "system_typed s \<longleftrightarrow> (\<forall>c \<in> set (conns s). conn_typed c) \<and> (threads s = [] \<longrightarrow> (\<forall>c \<in> set (conns s). \<not> spawned c))"

lemma conn_step_spawned: "conn_step rt who a c = Some c' \<Longrightarrow> spawned c' \<longleftrightarrow> spawned c"
  by (erule conn_step_cases) (auto simp: spawned_def)

lemma exec_spawned:
  assumes "exec rt l s = Some s'" "\<forall>c \<in> set (conns s). \<not> spawned c" "threads s = []" "threads s' = []"
  shows "\<forall>c \<in> set (conns s'). \<not> spawned c"
proof (cases l)
  case (Conn j a)
  then obtain c where "j < length (conns s)" "conn_step rt (client_id (client s)) a (conns s ! j) = Some c" "s' = put j c s"
    using assms(1) by (auto split: if_splits)
  then show ?thesis
    using conn_step_spawned[of rt "client_id (client s)" a "conns s ! j" c] assms(2) put_all[of s "\<lambda>c. \<not> spawned c" c j] nth_mem by blast
next
  case (Announce j)
  then have "spawned (conns s ! j)" "j < length (conns s)" using assms(1) by (auto simp: spawned_def split: if_splits)
  then show ?thesis using assms(2) by auto
next
  case (Watch j)
  then have j: "j < length (conns s)" and w: "watch j s = Some s'" using assms(1) by (auto split: if_splits)
  from watch_Some[OF w] obtain v where "s' = put j ((conns s ! j)\<lparr>c_watcher := v\<rparr>) s" by blast
  then show ?thesis using put_all[OF assms(2), of "(conns s ! j)\<lparr>c_watcher := v\<rparr>" j] assms(2) j by (auto simp: spawned_def)
next
  case (SpuriousWatcher j)
  then have "j < length (conns s)" "s' = put j ((conns s ! j)\<lparr>c_watcher := VWoken\<rparr>) s"
    using assms(1) by (auto split: if_splits)
  then show ?thesis using put_all[OF assms(2), of "(conns s ! j)\<lparr>c_watcher := VWoken\<rparr>" j] assms(2) by (auto simp: spawned_def)
next
  case (Listen env)
  then have "s' = fst (listen rt env s)" using assms(1) by (simp split: if_splits)
  then show ?thesis using assms(2,4) by (cases rule: listen_cases[of rt env s]) (auto simp: spawned_def)
next
  case Shutdown
  then show ?thesis using assms(1,2) by (auto simp: spawned_def split: if_splits)
qed (use assms in \<open>auto simp: reconnect_step_def\<close>)

text \<open>The threads of \<open>listen\<close> become more only by a call of it, and keep their addresses.\<close>

lemma exec_threads:
  assumes "exec rt l s = Some s'"
  shows "map t_local (threads s') = map t_local (threads s)
    \<or> (\<exists>env la. l = Listen env \<and> threads s' = threads s @ [\<lparr>t_local = la, t_point = MLock\<rparr>])"
proof -
  have put: "map t_local ((threads s)[i := (threads s ! i)\<lparr>t_point := m\<rparr>]) = map t_local (threads s)" for i m
    by (cases "i < length (threads s)") (simp_all add: map_update list_update_same_conv list_update_beyond)
  show ?thesis
  proof (cases l)
    case (Watch j)
    then show ?thesis using assms watch_Some[of j s s'] by (auto split: if_splits)
  next
    case (Reconnect i env)
    then have "reconnect_step rt i env s = Some s'" using assms by (simp split: if_splits)
    then show ?thesis by (cases rule: reconnect_step_cases) (simp_all add: put)
  next
    case (Listen env)
    then have "s' = fst (listen rt env s)" using assms by simp
    then show ?thesis using Listen by (cases rule: listen_cases[of rt env s]) auto
  qed (use assms put in \<open>auto simp: comp_def split: if_splits\<close>)
qed

lemma exec_threads_length: "exec rt l s = Some s' \<Longrightarrow> length (threads s) \<le> length (threads s')"
  by (drule exec_threads) (metis length_append length_map le_add1 le_refl)

lemma fresh_typed: "conn_typed (fresh rt env la) \<and> conn_typed (orphan (fresh rt env la))"
  by (simp add: conn_typed_def fresh_def)

lemma reachable_typed: "reachable rt sp s \<Longrightarrow> system_typed s"
proof (induction rule: reachable.induct)
  case (created server who la c)
  show ?case by (simp add: system_typed_def opened_def)
next
  case (moved s l s')
  have "\<forall>c \<in> set (conns s'). conn_typed c"
  proof (rule exec_all[OF moved.hyps(2)])
    show "\<forall>c \<in> set (conns s). conn_typed c" using moved.IH by (simp add: system_typed_def)
  next
    fix c :: "'a Connection" and v
    assume "conn_typed c" "c_joiner c = JSignal" "v \<in> {JDone, JPanicked}"
    then show "conn_typed (c\<lparr>c_joiner := v\<rparr>)" by (auto simp: conn_typed_def)
  next
    fix c :: "'a Connection" and v
    assume "conn_typed c" "c_watcher c = VNone \<longleftrightarrow> v = VNone"
    then show "conn_typed (c\<lparr>c_watcher := v\<rparr>)" by (simp add: conn_typed_def)
  qed (rule conn_step_typed fresh_typed; assumption)+
  moreover have "threads s = []" if "threads s' = []" using exec_threads_length[OF moved.hyps(2)] that by simp
  ultimately show ?case using exec_spawned[OF moved.hyps(2)] moved.IH by (auto simp: system_typed_def)
qed

text \<open>C22. What a state of the blocking TCP client can look like, after any moves of its threads,
  spurious wake-ups included: the queue of each connection has room for ten requests and
  holds only pings and replies; before the first \<open>listen\<close> no connection has its threads; the four threads agree about what has ended, so the joiner
  has left a \<open>join\<close> only after that thread ended; and the joiner is not stuck once both
  loops have ended.\<close>

theorem tcp_client_typed:
  assumes "reachable rt sp s"
  shows "(\<forall>c \<in> set (conns s). conn_typed c) \<and> (threads s = [] \<longrightarrow> (\<forall>c \<in> set (conns s). \<not> spawned c))
    \<and> (\<forall>j < length (conns s). spawned (conns s ! j) \<and> c_joiner (conns s ! j) \<notin> {JDone, JPanicked}
          \<and> c_writer (conns s ! j) = WDone \<and> c_reader (conns s ! j) \<in> {RDone, RPanicked} \<longrightarrow>
        (\<exists>l s'. l \<in> {Conn j Join, Announce j} \<and> exec rt l s = Some s'))"
proof -
  have ok: "system_typed s" by (rule reachable_typed[OF assms])
  have "\<exists>l s'. l \<in> {Conn j Join, Announce j} \<and> exec rt l s = Some s'"
    if "j < length (conns s)" "spawned (conns s ! j)" "c_joiner (conns s ! j) \<notin> {JDone, JPanicked}"
      "c_writer (conns s ! j) = WDone" "c_reader (conns s ! j) \<in> {RDone, RPanicked}" for j
  proof (cases "c_joiner (conns s ! j)")
    case JWriter
    then have "exec rt (Conn j Join) s \<noteq> None" using that by simp
    then show ?thesis by blast
  next
    case JReader
    then have "exec rt (Conn j Join) s \<noteq> None" using that by auto
    then show ?thesis by blast
  next
    case JSignal
    then have "exec rt (Announce j) s \<noteq> None" using that by simp
    then show ?thesis by blast
  qed (use that in \<open>auto simp: spawned_def\<close>)
  with ok show ?thesis by (auto simp: system_typed_def)
qed

section \<open>Runs\<close>

lemma execs_append: "execs rt (ls @ ms) s = (case execs rt ls s of None \<Rightarrow> None | Some s' \<Rightarrow> execs rt ms s')"
  by (induction ls arbitrary: s) (auto split: option.split)

lemma client_reachable_execs:
  "execs rt ls s = Some s' \<Longrightarrow> reachable rt sp s \<Longrightarrow> list_all (\<lambda>l. sp \<or> \<not> spurious l) ls \<Longrightarrow> reachable rt sp s'"
proof (induction ls arbitrary: s)
  case (Cons l ls)
  then obtain s1 where s1: "exec rt l s = Some s1" "execs rt ls s1 = Some s'" by (auto split: option.splits)
  then show ?case using Cons.IH[OF s1(2)] reachable.moved[OF Cons.prems(2) s1(1)] Cons.prems(3) by simp
qed simp

text \<open>
  A client on an operating system that refuses nothing, for the witnesses. \<open>ended\<close> are the
  moves of a connection whose stream ends: the writer sends its ping, both loops end, and
  the joiner gets to its report.
\<close>

abbreviation easy_start :: "bytes \<Rightarrow> start_env" where
  "easy_start bs \<equiv> \<lparr>se_resolve = (\<lambda>_. Inr [V4 (Ipv4 9 9 9 9) 8888]), se_os = easy_os any_v4, se_in = bs\<rparr>"

abbreviation easy_listen :: "bytes \<Rightarrow> listen_env" where
  "easy_listen bs \<equiv> \<lparr>le_resolve = (\<lambda>_. Inr [V4 (Ipv4 9 9 9 9) 8888]), le_os = easy_os any_v4, le_start = easy_start bs\<rparr>"

abbreviation wire_run :: "label list \<Rightarrow> raw_fields System option" where
  "wire_run ls \<equiv> execs wire_rt ls (opened some_client)"

abbreviation ended :: "label list" where
  "ended \<equiv> [Conn 0 ReadFail, Conn 0 (Recv False), Conn 0 (Write (Inr ()) (Inr ())), Conn 0 (Recv False), Conn 0 Join, Conn 0 Join]"

lemma opened_reachable: "reachable rt sp (opened some_client)"
  using reachable.created[of "''s''" "''l''" "Some any_v4" some_client] by (simp add: new_def)

lemma client_run_reachable: "wire_run ls = Some s \<Longrightarrow> list_all (\<lambda>l. sp \<or> \<not> spurious l) ls \<Longrightarrow> reachable wire_rt sp s"
  by (rule client_reachable_execs[OF _ opened_reachable])

theorem tcp_client_typed_witness:
  "\<exists>s. wire_run ([Listen (easy_listen [])] @ ended) = Some s \<and> conns s \<noteq> [] \<and> (\<forall>c \<in> set (conns s). conn_typed c)
     \<and> (\<exists>l s'. l \<in> {Conn 0 Join, Announce 0} \<and> exec wire_rt l s = Some s')"
proof -
  have "case wire_run ([Listen (easy_listen [])] @ ended) of None \<Rightarrow> False
    | Some s \<Rightarrow> length (conns s) = 1 \<and> c_joiner (conns s ! 0) = JSignal \<and> c_writer (conns s ! 0) = WDone \<and> c_reader (conns s ! 0) = RDone"
    by code_simp
  then obtain s where s: "wire_run ([Listen (easy_listen [])] @ ended) = Some s" "length (conns s) = 1"
      "c_joiner (conns s ! 0) = JSignal" "c_writer (conns s ! 0) = WDone" "c_reader (conns s ! 0) = RDone"
    using case_SomeD by blast
  have "reachable wire_rt False s" by (rule client_run_reachable[OF s(1)]) simp
  from tcp_client_typed[OF this] s show ?thesis by (intro exI[of _ s]) (auto simp: spawned_def)
qed

section \<open>What the server hears first\<close>

abbreviation first_ping :: "'u pb_rt \<Rightarrow> string \<Rightarrow> 'u Request" where
  "first_ping rt who \<equiv> (new_req rt who)\<lparr>req_cmd := Some (ReqPing (Ping_new rt))\<rparr>"

lemma write_req_extends: "\<exists>b. fst (write_req rt r1 r2 who req out) = out @ b"
proof (cases "Request_write_to_bytes rt ((new_req rt who)\<lparr>req_cmd := Some req\<rparr>)")
  case (Inr buf)
  then show ?thesis using send_frame_prefix[of r1 r2 buf out] by (auto simp: write_req_def)
qed (simp add: write_req_def)

lemma write_req_first:
  assumes "pb_runtime rt" "Request_clean rt (first_ping rt who)"
    and "write_req rt r1 r2 who (ReqPing (Ping_new rt)) [] = (out, r)"
  shows "(\<exists>n. out = take n (frame (Request_wire rt (first_ping rt who))))
    \<and> (\<forall>x. r = Inr x \<longrightarrow> out = frame (Request_wire rt (first_ping rt who)))"
  using assms(3) send_frame_prefix[of r1 r2 "Request_wire rt (first_ping rt who)" "[]"]
    send_frame_Inr[of r1 r2 "Request_wire rt (first_ping rt who)" "[]" out]
  by (auto simp: write_req_clean[OF assms(1,2)])

definition conn_first :: "'u pb_rt \<Rightarrow> string \<Rightarrow> 'u Connection \<Rightarrow> bool" where
  "conn_first rt who c \<longleftrightarrow>
     (let F = frame (Request_wire rt (first_ping rt who)); P = ReqPing (Ping_new rt) in
      (c_out c = [] \<and> c_writer c = WRecv \<and> (\<exists>ms. buffer (c_queue c) = P # ms))
    \<or> (c_out c = [] \<and> c_writer c = WWrite P) \<or> (c_writer c = WDone \<and> (\<exists>n. c_out c = take n F)) \<or> (\<exists>r. c_out c = F @ r))"

lemma conn_step_first:
  assumes "pb_runtime rt" "Request_clean rt (first_ping rt who)"
    and "conn_step rt who a c = Some c'" "conn_first rt who c"
  shows "conn_first rt who c'"
  using assms(3)
proof (cases rule: conn_step_cases)
  case (written r1 r2 req out r)
  show ?thesis
  proof (cases "\<exists>b. c_out c = frame (Request_wire rt (first_ping rt who)) @ b")
    case True
    then have "\<exists>b. out = frame (Request_wire rt (first_ping rt who)) @ b"
      using write_req_extends[of rt r1 r2 who req "c_out c"] written(3) by auto
    then show ?thesis using written(4) by (simp add: conn_first_def Let_def)
  next
    case False
    then have "c_out c = []" "req = ReqPing (Ping_new rt)"
      using assms(4) written(1) by (auto simp: conn_first_def Let_def)
    then show ?thesis
      using write_req_first[OF assms(1,2), of r1 r2 out r] written(3,4)
      by (cases r) (auto simp: conn_first_def Let_def)
  qed
qed (use assms(4) in \<open>auto simp: conn_first_def Let_def\<close>)

text \<open>Registration comes first: whatever the threads of a background connection do, the
  bytes it has written to the server begin with the frame of a ping under the client's
  identity, or are a part of it.\<close>

theorem tcp_registers_first:
  assumes "pb_runtime rt" "Request_clean rt (first_ping rt (client_id (client s)))"
    and "reachable rt sp s" "c \<in> set (conns s)"
  shows "let F = frame (Request_wire rt (first_ping rt (client_id (client s)))) in
    take (length F) (c_out c) = take (length (c_out c)) F"
proof -
  let ?who = "client_id (client s)"
  have "\<forall>c \<in> set (conns s). conn_first rt ?who c"
  proof (rule reachable_all[OF assms(3) refl])
    show "conn_first rt ?who c'" if "conn_step rt ?who a c = Some c'" "conn_first rt ?who c" for a c c'
      by (rule conn_step_first[OF assms(1,2) that])
  qed (auto simp: conn_first_def Let_def fresh_def)
  with assms(4) show ?thesis by (auto simp: conn_first_def Let_def)
qed

theorem tcp_registers_first_witness:
  "\<exists>s. wire_run [Listen (easy_listen []), Conn 0 (Recv False), Conn 0 (Write (Inr ()) (Inr ()))] = Some s
     \<and> (let F = [0, 5, 10, 1, 108, 18, 0] in take (length F) (c_out (conns s ! 0)) = take (length (c_out (conns s ! 0))) F)"
proof -
  let ?ls = "[Listen (easy_listen []), Conn 0 (Recv False), Conn 0 (Write (Inr ()) (Inr ()))]"
  have "case wire_run ?ls of None \<Rightarrow> False | Some s \<Rightarrow> length (conns s) = 1 \<and> client_id (client s) = ''l''" by code_simp
  then obtain s where s: "wire_run ?ls = Some s" "length (conns s) = 1" "client_id (client s) = ''l''"
    using case_SomeD by blast
  have r: "reachable wire_rt False s" by (rule client_run_reachable[OF s(1)]) simp
  have c: "Request_clean wire_rt (first_ping wire_rt (client_id (client s)))"
    by (simp add: s(3) Request_clean_def new_req_def Request_new_def Ping_clean_def Ping_new_def no_unknown_def
        SpecialFields_new_def text_ok_def max_text_def utf8_valid_ascii)
  have f: "frame (Request_wire wire_rt (first_ping wire_rt ''l'')) = [0, 5, 10, 1, 108, 18, 0]" by code_simp
  show ?thesis
    using tcp_registers_first[OF wire.pb_runtime_axioms c r, of "conns s ! 0"] s by (intro exI[of _ s]) (simp add: f)
qed

end
