(* ===== verification/Tcp_Loops_Refined.thy ===== *)
theory Tcp_Loops_Refined
  imports Tcp_Background_Correct
begin

text \<open>
  The threads of a connection of the blocking TCP client do what the loops of \<open>Tcp_Client\<close>
  do, in every interleaving: what the reader has put into the queue and attempted is the
  result of \<open>read_loop\<close> on the bytes read so far, what the writer has written is the result
  of \<open>write_loop\<close>, and between the two the queue keeps the order.
\<close>

section \<open>The reader\<close>

lemma std_read_exact_ext: "std_read_exact n bs = Inr (b, r) \<Longrightarrow> std_read_exact n (bs @ q) = Inr (b, r @ q)"
  by (auto simp: std_read_exact_def split: if_splits)

lemma std_read_exact_parts:
  assumes "std_read_exact n bs = Inr (b, r)"
  shows "bs = b @ r" "length b = n"
  using assms by (auto simp: std_read_exact_def split: if_splits)

lemma std_read_exact_append: "std_read_exact (length b) (b @ r) = Inr (b, r)"
  by (simp add: std_read_exact_def)

lemma read_resp_ext:
  assumes "read_resp rt std_read_exact bs = Ret (Inr (resp, r))"
  shows "read_resp rt std_read_exact (bs @ q) = Ret (Inr (resp, r @ q))"
  using assms std_read_exact_ext
  by (auto simp: read_resp_def ques_def split: sum.splits option.splits)

lemma read_resp_used:
  assumes "read_resp rt std_read_exact bs = Ret (Inr (resp, r))"
  obtains b where "bs = b @ r" "read_resp rt std_read_exact b = Ret (Inr (resp, []))"
proof -
  obtain h bs1 where h: "std_read_exact 2 bs = Inr (h, bs1)"
    using assms by (cases "std_read_exact 2 bs") (auto simp: read_resp_def)
  obtain buf r' where b: "std_read_exact (unat (from_be_bytes h)) bs1 = Inr (buf, r')"
    using assms h by (cases "std_read_exact (unat (from_be_bytes h)) bs1") (auto simp: read_resp_def)
  have p: "Response_parse_from_bytes rt buf = Some (Inr resp)" "r' = r"
    using assms h b by (auto simp: read_resp_def ques_def split: option.splits sum.splits)
  note h' = std_read_exact_parts[OF h] and b' = std_read_exact_parts[OF b]
  have e: "std_read_exact 2 (h @ buf) = Inr (h, buf)" using h'(2) std_read_exact_append[of h buf] by simp
  have f: "std_read_exact (unat (from_be_bytes h)) buf = Inr (buf, [])" using b'(2) std_read_exact_append[of buf "[]"] by simp
  have "read_resp rt std_read_exact (h @ buf) = Ret (Inr (resp, []))"
    using p(1) by (simp add: read_resp_def e f)
  moreover have "bs = (h @ buf) @ r" using h'(1) b'(1) p(2) by simp
  ultimately show thesis using that by blast
qed

text \<open>
  Responses handled completely: for each the answers of the operating system; \<open>reqs\<close> are
  the replies and \<open>atts\<close> the connection attempts.
\<close>

definition the_list :: "'a option \<Rightarrow> 'a list" where
  "the_list x = (case x of None \<Rightarrow> [] | Some y \<Rightarrow> [y])"

inductive heard ::
  "'u pb_rt \<Rightarrow> SocketAddr \<Rightarrow> tcp_os list \<Rightarrow> bytes \<Rightarrow> 'u ReqCmd list \<Rightarrow> attempt list \<Rightarrow> bool" for rt la where
  nothing: "heard rt la [] [] [] []"
| response: "heard rt la oss p reqs atts \<Longrightarrow> read_resp rt std_read_exact b = Ret (Inr (resp, []))
    \<Longrightarrow> read_turn rt os la resp = Ret (Inr (req, at)) \<Longrightarrow> heard rt la (oss @ [os]) (p @ b) (reqs @ the_list req) (atts @ at)"

lemma heard_loop:
  assumes "heard rt la oss p reqs atts" "\<forall>i < length oss. os i = oss ! i \<and> alive i"
  shows "read_loop rt os la alive 0 (p @ q)
    = (case read_loop rt os la alive (length oss) q of (a, b, r) \<Rightarrow> (reqs @ a, atts @ b, r))"
  using assms
proof (induction arbitrary: q)
  case nothing
  then show ?case by simp
next
  case (response oss p reqs atts b resp os' req at)
  have "read_resp rt std_read_exact (b @ q) = Ret (Inr (resp, q))" using read_resp_ext[OF response.hyps(2)] by simp
  moreover have "os (length oss) = os'" "alive (length oss)" using response.prems by (auto simp: nth_append)
  ultimately have "read_loop rt os la alive (length oss) (b @ q)
      = (case read_loop rt os la alive (Suc (length oss)) q of (x, y, r) \<Rightarrow> (the_list req @ x, at @ y, r))"
    using response.hyps(3) by (subst read_loop.simps) (simp add: the_list_def split: option.split prod.split)
  moreover have "read_loop rt os la alive 0 (p @ (b @ q))
      = (case read_loop rt os la alive (length oss) (b @ q) of (x, y, r) \<Rightarrow> (reqs @ x, atts @ y, r))"
    by (rule response.IH) (use response.prems in \<open>auto simp: nth_append\<close>)
  ultimately show ?case by (simp split: prod.split)
qed

lemma read_loop_Nil: "read_loop rt os la alive k [] = ([], [], Ret (Inr ()))"
  by (subst read_loop.simps) (simp add: read_resp_def std_read_exact_def)

lemma heard_all:
  assumes "heard rt la oss p reqs atts"
  shows "\<exists>os alive. read_loop rt os la alive 0 p = (reqs, atts, Ret (Inr ()))"
  using heard_loop[OF assms, of "\<lambda>i. oss ! i" "\<lambda>_. True" "[]"]
  by (intro exI[of _ "\<lambda>i. oss ! i"] exI[of _ "\<lambda>_. True"]) (simp add: read_loop_Nil)

text \<open>The last response was handled but its reply could not be queued, or not even handled.\<close>

lemma heard_dead:
  assumes "heard rt la oss p reqs atts" "read_resp rt std_read_exact b = Ret (Inr (resp, []))"
    and "read_turn rt os la resp = Ret (Inr (Some cmd, at))"
  shows "\<exists>os alive. read_loop rt os la alive 0 (p @ b) = (reqs, atts @ at, Panic)"
proof -
  let ?os = "\<lambda>i. (oss @ [os]) ! i" and ?alive = "\<lambda>i. i < length oss"
  have "read_loop rt ?os la ?alive (length oss) b = ([], at, Panic)"
    using assms(2,3) by (subst read_loop.simps) simp
  then show ?thesis
    using heard_loop[OF assms(1), of ?os ?alive b] by (intro exI[of _ ?os] exI[of _ ?alive]) (simp add: nth_append)
qed

lemma heard_bad:
  assumes "heard rt la oss p reqs atts" "read_resp rt std_read_exact b = Ret (Inr (resp, []))"
    and "read_turn rt os la resp = Ret (Inl e) \<or> read_turn rt os la resp = Panic"
  shows "\<exists>os alive r. read_loop rt os la alive 0 (p @ b) = (reqs, atts, r) \<and> r \<noteq> Ret (Inr ())"
proof -
  let ?os = "\<lambda>i. (oss @ [os]) ! i" and ?alive = "\<lambda>_. True"
  have "\<exists>r. read_loop rt ?os la ?alive (length oss) b = ([], [], r) \<and> r \<noteq> Ret (Inr ())"
    using assms(2,3) by (subst read_loop.simps) auto
  then obtain r where "read_loop rt ?os la ?alive (length oss) b = ([], [], r)" "r \<noteq> Ret (Inr ())" by blast
  then show ?thesis
    using heard_loop[OF assms(1), of ?os ?alive b] by (intro exI[of _ ?os] exI[of _ ?alive]) (simp add: nth_append)
qed

definition reader_sim :: "'u pb_rt \<Rightarrow> bytes \<Rightarrow> 'u Connection \<Rightarrow> 'u ReqCmd list \<Rightarrow> bool" where
  "reader_sim rt bs c reqs \<longleftrightarrow>
     (case c_reader c of
        RSend cmd \<Rightarrow>
          (\<exists>oss p atts b resp os at. bs = p @ b @ c_in c \<and> heard rt (c_local c) oss p reqs atts
             \<and> read_resp rt std_read_exact b = Ret (Inr (resp, [])) \<and> read_turn rt os (c_local c) resp = Ret (Inr (Some cmd, at))
             \<and> c_attempts c = atts @ at)
      | RPanicked \<Rightarrow>
          (\<exists>p os alive r. bs = p @ c_in c \<and> read_loop rt os (c_local c) alive 0 p = (reqs, c_attempts c, r) \<and> r \<noteq> Ret (Inr ()))
      | _ \<Rightarrow> (\<exists>oss p. bs = p @ c_in c \<and> heard rt (c_local c) oss p reqs (c_attempts c)))"

lemma reader_same:
  "c_reader c' = c_reader c \<Longrightarrow> c_in c' = c_in c \<Longrightarrow> c_attempts c' = c_attempts c \<Longrightarrow> c_local c' = c_local c
    \<Longrightarrow> reader_sim rt bs c' reqs = reader_sim rt bs c reqs"
  by (simp add: reader_sim_def split: reader.split)

lemma reader_sim_send:
  assumes "c_reader c = RSend cmd" "bs = p @ b @ c_in c" "heard rt (c_local c) oss p reqs atts"
    and "read_resp rt std_read_exact b = Ret (Inr (resp, []))" "read_turn rt os (c_local c) resp = Ret (Inr (Some cmd, at))"
    and "c_attempts c = atts @ at"
  shows "reader_sim rt bs c reqs"
  unfolding reader_sim_def assms(1) reader.case by (intro exI conjI) (fact assms(2-))+

lemma reader_read:
  assumes "conn_step rt who (Read os) c = Some c'" "reader_sim rt bs c reqs"
  shows "reader_sim rt bs c' reqs \<and> c_writer c' = c_writer c \<and> c_queue c' = c_queue c \<and> c_out c' = c_out c"
proof -
  have r: "c_reader c = RRead" using assms(1) by (simp split: if_splits)
  obtain oss p where p: "bs = p @ c_in c" "heard rt (c_local c) oss p reqs (c_attempts c)"
    using assms(2) r by (auto simp: reader_sim_def)
  show ?thesis
  proof (cases "\<exists>resp r. read_resp rt std_read_exact (c_in c) = Ret (Inr (resp, r))")
    case False
    then have "c' = c\<lparr>c_reader := RDone\<rparr>" using assms(1) r by (auto split: outcome.splits sum.splits)
    then show ?thesis using p by (auto simp: reader_sim_def)
  next
    case True
    then obtain resp rest where rr: "read_resp rt std_read_exact (c_in c) = Ret (Inr (resp, rest))" by blast
    obtain b where b: "c_in c = b @ rest" "read_resp rt std_read_exact b = Ret (Inr (resp, []))" by (rule read_resp_used[OF rr])
    show ?thesis
    proof (cases "\<exists>req at. read_turn rt os (c_local c) resp = Ret (Inr (req, at))")
      case False
      then have bad: "read_turn rt os (c_local c) resp = Panic \<or> (\<exists>e. read_turn rt os (c_local c) resp = Ret (Inl e))"
        and c': "c' = c\<lparr>c_in := rest, c_reader := RPanicked\<rparr>"
        using assms(1) r rr by (auto split: outcome.splits sum.splits)
      have "\<exists>os alive r. read_loop rt os (c_local c) alive 0 (p @ b) = (reqs, c_attempts c, r) \<and> r \<noteq> Ret (Inr ())"
        using heard_bad[OF p(2) b(2)] bad by blast
      then show ?thesis using p(1) b(1) by (auto simp: c' reader_sim_def intro!: exI[of _ "p @ b"])
    next
      case True
      then obtain req at where t: "read_turn rt os (c_local c) resp = Ret (Inr (req, at))" by blast
      then have c': "c' = c\<lparr>c_in := rest, c_attempts := c_attempts c @ at, c_reader := (case req of None \<Rightarrow> RRead | Some cmd \<Rightarrow> RSend cmd)\<rparr>"
        using assms(1) r rr by simp
      show ?thesis
      proof (cases req)
        case None
        then have "heard rt (c_local c) (oss @ [os]) (p @ b) reqs (c_attempts c @ at)"
          using heard.response[OF p(2) b(2) t] by (simp add: the_list_def)
        then show ?thesis using p(1) b(1) None by (auto simp: c' reader_sim_def)
      next
        case (Some cmd)
        have "bs = p @ b @ c_in c'" using p(1) b(1) by (simp add: c')
        moreover have "c_reader c' = RSend cmd" "c_local c' = c_local c" "c_attempts c' = c_attempts c @ at" by (simp_all add: c' Some)
        ultimately have "reader_sim rt bs c' reqs" using p(2) b(2) t[unfolded Some] by (intro reader_sim_send) simp_all
        then show ?thesis by (simp add: c')
      qed
    qed
  qed
qed


lemma reader_fail:
  assumes "c_reader c = RRead" "reader_sim rt bs c reqs"
  shows "reader_sim rt bs (c\<lparr>c_reader := RDone\<rparr>) reqs"
  using assms by (simp add: reader_sim_def)

lemma reader_sent:
  assumes "c_reader c = RSend cmd" "reader_sim rt bs c reqs"
  shows "reader_sim rt bs (c\<lparr>c_queue := q, c_reader := RRead\<rparr>) (reqs @ [cmd])"
proof -
  obtain oss p atts b resp os at where r: "bs = p @ b @ c_in c" "heard rt (c_local c) oss p reqs atts"
      "read_resp rt std_read_exact b = Ret (Inr (resp, []))" "read_turn rt os (c_local c) resp = Ret (Inr (Some cmd, at))"
      "c_attempts c = atts @ at"
    using assms by (auto simp: reader_sim_def)
  have "heard rt (c_local c) (oss @ [os]) (p @ b) (reqs @ [cmd]) (c_attempts c)"
    using heard.response[OF r(2-4)] by (simp add: the_list_def r(5))
  moreover have "bs = (p @ b) @ c_in c" by (simp add: r(1))
  ultimately show ?thesis by (simp add: reader_sim_def) blast
qed

lemma reader_send_fails:
  assumes "c_reader c = RSend cmd" "reader_sim rt bs c reqs"
  shows "reader_sim rt bs (c\<lparr>c_reader := RPanicked\<rparr>) reqs"
proof -
  obtain oss p atts b resp os at where r: "bs = p @ b @ c_in c" "heard rt (c_local c) oss p reqs atts"
      "read_resp rt std_read_exact b = Ret (Inr (resp, []))" "read_turn rt os (c_local c) resp = Ret (Inr (Some cmd, at))"
      "c_attempts c = atts @ at"
    using assms by (auto simp: reader_sim_def)
  have "bs = (p @ b) @ c_in c" by (simp add: r(1))
  moreover have "\<exists>os alive. read_loop rt os (c_local c) alive 0 (p @ b) = (reqs, c_attempts c, Panic)"
    using heard_dead[OF r(2-4)] by (simp add: r(5))
  ultimately show ?thesis by (simp add: reader_sim_def) blast
qed

text \<open>What the relation says in terms of the loop.\<close>

fun sending :: "'u reader \<Rightarrow> 'u ReqCmd list" where
  "sending (RSend cmd) = [cmd]"
| "sending _ = []"

definition reads_as :: "'u pb_rt \<Rightarrow> bytes \<Rightarrow> 'u Connection \<Rightarrow> 'u ReqCmd list \<Rightarrow> bool" where
  "reads_as rt bs c reqs \<longleftrightarrow>
     (\<exists>p os alive r. bs = p @ c_in c
        \<and> read_loop rt os (c_local c) alive 0 p = (reqs @ sending (c_reader c), c_attempts c, r)
        \<and> (r = Ret (Inr ()) \<longleftrightarrow> c_reader c \<noteq> RPanicked))"

lemma reader_reads: 
  assumes "reader_sim rt bs c reqs"
  shows "reads_as rt bs c reqs"
proof -
  consider cmd where "c_reader c = RSend cmd" | "c_reader c = RPanicked" | "c_reader c \<in> {RNone, RRead, RDone}"
    by (cases "c_reader c") auto
  then show ?thesis
  proof cases
    case 1
    then have "reader_sim rt bs (c\<lparr>c_queue := c_queue c, c_reader := RRead\<rparr>) (reqs @ [cmd])" by (rule reader_sent[OF _ assms])
    then obtain oss p where p: "bs = p @ c_in c" "heard rt (c_local c) oss p (reqs @ [cmd]) (c_attempts c)"
      by (auto simp: reader_sim_def)
    from heard_all[OF p(2)] show ?thesis using p(1) 1 unfolding reads_as_def by (intro exI[of _ p]) auto
  next
    case 2
    with assms show ?thesis by (auto simp: reader_sim_def reads_as_def)
  next
    case 3
    with assms obtain oss p where p: "bs = p @ c_in c" "heard rt (c_local c) oss p reqs (c_attempts c)"
      by (auto simp: reader_sim_def)
    from heard_all[OF p(2)] obtain os alive where "read_loop rt os (c_local c) alive 0 p = (reqs, c_attempts c, Ret (Inr ()))" by blast
    moreover have "sending (c_reader c) = []" "c_reader c \<noteq> RPanicked" using 3 by auto
    ultimately show ?thesis using p(1) unfolding reads_as_def by auto
  qed
qed

section \<open>The writer\<close>

text \<open>The messages that came out of the queue.\<close>

fun got :: "'u received \<Rightarrow> 'u ReqCmd list" where
  "got (Got req) = [req]"
| "got _ = []"

text \<open>\<open>ts\<close> are the finished iterations, \<open>rs\<close> is what the current one has received.\<close>

definition writes_as :: "'u pb_rt \<Rightarrow> string \<Rightarrow> 'u Connection \<Rightarrow> 'u write_turn list \<Rightarrow> 'u received list \<Rightarrow> bool" where
  "writes_as rt who c ts rs \<longleftrightarrow>
     write_loop rt who ts [] = (c_out c, c_writer c = WDone)
   \<and> (case c_writer c of WWrite req \<Rightarrow> \<exists>r. rs = [r] \<and> next_req rt r = Some req | _ \<Rightarrow> rs = [])"

lemma write_loop_append:
  "write_loop rt who (ts @ us) out = (case write_loop rt who ts out of (out', d) \<Rightarrow> if d then (out', True) else write_loop rt who us out')"
  by (induction rt who ts out rule: write_loop.induct) (auto split: option.split prod.split sum.split)

lemma writer_same:
  "c_writer c' = c_writer c \<Longrightarrow> c_out c' = c_out c \<Longrightarrow> writes_as rt who c' ts rs = writes_as rt who c ts rs"
  by (simp add: writes_as_def)

lemma writer_recv:
  assumes "writes_as rt who c ts rs" "c_writer c = WRecv" "next_req rt r = Some req" "c_writer c' = WWrite req" "c_out c' = c_out c"
  shows "rs = [] \<and> writes_as rt who c' ts [r]"
  using assms by (simp add: writes_as_def)

lemma writer_hangup:
  assumes "writes_as rt who c ts rs" "c_writer c = WRecv" "c_writer c' = WDone" "c_out c' = c_out c"
  shows "rs = [] \<and> writes_as rt who c' (ts @ [\<lparr>wt_recv = Disconnected, wt_write1 = w1, wt_write2 = w2\<rparr>]) []"
  using assms by (simp add: writes_as_def write_loop_append)

lemma writer_written:
  assumes "writes_as rt who c ts rs" "c_writer c = WWrite req" "write_req rt r1 r2 who req (c_out c) = (out, x)"
    and "c_writer c' = (case x of Inl e \<Rightarrow> WDone | Inr _ \<Rightarrow> WRecv)" "c_out c' = out"
  shows "\<exists>r. rs = [r] \<and> writes_as rt who c' (ts @ [\<lparr>wt_recv = r, wt_write1 = r1, wt_write2 = r2\<rparr>]) []"
  using assms by (cases x) (auto simp: writes_as_def write_loop_append)

section \<open>A connection\<close>

definition conn_sim :: "'u pb_rt \<Rightarrow> string \<Rightarrow> bytes \<Rightarrow> 'u Connection \<Rightarrow> bool" where
  "conn_sim rt who bs c \<longleftrightarrow>
     (\<exists>reqs ts rs. reader_sim rt bs c reqs \<and> writes_as rt who c ts rs
        \<and> concat (map got (map wt_recv ts @ rs)) @ buffer (c_queue c) = ReqPing (Ping_new rt) # reqs)"

lemma conn_sim_same:
  assumes "c_reader c' = c_reader c" "c_in c' = c_in c" "c_attempts c' = c_attempts c" "c_local c' = c_local c"
    and "c_writer c' = c_writer c" "c_out c' = c_out c" "c_queue c' = c_queue c"
  shows "conn_sim rt who bs c' = conn_sim rt who bs c"
  using reader_same[OF assms(1-4)] writer_same[OF assms(5,6)] assms(7) by (simp add: conn_sim_def)

lemma conn_sim_fresh: "conn_sim rt who (se_in env) (fresh rt env la) \<and> conn_sim rt who (se_in env) (orphan (fresh rt env la))"
proof -
  have "conn_sim rt who (se_in env) c" if "c_in c = se_in env" "c_out c = []" "buffer (c_queue c) = [ReqPing (Ping_new rt)]"
      "c_attempts c = []" "c_writer c = WRecv" "c_reader c \<in> {RRead, RNone}" for c :: "'a Connection"
    unfolding conn_sim_def
    by (rule exI[of _ "[]"], rule exI[of _ "[]"], rule exI[of _ "[]"])
      (use that heard.nothing[of rt "c_local c"] in \<open>auto simp: reader_sim_def writes_as_def\<close>)
  then show ?thesis by (simp add: fresh_def)
qed

lemma conn_step_unread:
  assumes "conn_step rt who a c = Some c'" "\<And>os. a \<noteq> Read os" "c_reader c = RRead"
  shows "c_in c' = c_in c \<and> c_reader c' \<in> {RRead, RDone}"
proof (cases a)
  case (Recv late)
  then show ?thesis using assms(1,3) by (auto split: if_splits)
next
  case (Write r1 r2)
  then show ?thesis using assms(1,3) by (auto split: if_splits writer.splits prod.splits sum.splits)
next
  case Join
  then show ?thesis using assms(1,3) by (auto split: if_splits joiner.splits)
qed (use assms in auto)

lemma conn_step_sim:
  assumes "conn_step rt who a c = Some c'" "conn_sim rt who bs c"
  shows "conn_sim rt who bs c'"
proof (cases "\<exists>os. a = Read os")
  case True
  then obtain os where step: "conn_step rt who (Read os) c = Some c'" using assms(1) by blast
  obtain reqs ts rs where "reader_sim rt bs c reqs" and wr: "writes_as rt who c ts rs"
      and q: "concat (map got (map wt_recv ts @ rs)) @ buffer (c_queue c) = ReqPing (Ping_new rt) # reqs"
    using assms(2) unfolding conn_sim_def by blast
  note rd = reader_read[OF step this(1)]
  then have "writes_as rt who c' ts rs" using wr writer_same[of c' c] by blast
  then show ?thesis using rd q unfolding conn_sim_def by metis
next
  case False
  obtain reqs ts rs where rd: "reader_sim rt bs c reqs" and wr: "writes_as rt who c ts rs"
      and q: "concat (map got (map wt_recv ts @ rs)) @ buffer (c_queue c) = ReqPing (Ping_new rt) # reqs"
    using assms(2) by (auto simp: conn_sim_def)
  have result: ?thesis if "reader_sim rt bs c' reqs'" "writes_as rt who c' ts' rs'"
      "concat (map got (map wt_recv ts' @ rs')) @ buffer (c_queue c') = ReqPing (Ping_new rt) # reqs'" for reqs' ts' rs'
    using that unfolding conn_sim_def by blast
  show ?thesis
    using assms(1)
  proof (cases rule: conn_step_cases)
    case (recv m ms)
    have "rs = [] \<and> writes_as rt who c' ts [Got m]" by (rule writer_recv[OF wr recv(1)]) (simp_all add: recv(3))
    moreover have "reader_sim rt bs c' reqs" using rd by (subst reader_same[of c' c]) (simp_all add: recv(3))
    ultimately show ?thesis using result[of reqs ts "[Got m]"] q recv(2,3) by simp
  next
    case ping
    have "rs = [] \<and> writes_as rt who c' ts [Timeout]" by (rule writer_recv[OF wr ping(1)]) (simp_all add: ping(4))
    moreover have "reader_sim rt bs c' reqs" using rd by (subst reader_same[of c' c]) (simp_all add: ping(4))
    ultimately show ?thesis using result[of reqs ts "[Timeout]"] q ping(4) by simp
  next
    case hangup
    let ?t = "\<lparr>wt_recv = Disconnected, wt_write1 = Inr (), wt_write2 = Inr ()\<rparr>"
    have "rs = [] \<and> writes_as rt who c' (ts @ [?t]) []" by (rule writer_hangup[OF wr hangup(1)]) (simp_all add: hangup(4))
    moreover have "reader_sim rt bs c' reqs" using rd by (subst reader_same[of c' c]) (simp_all add: hangup(4))
    ultimately show ?thesis using result[of reqs "ts @ [?t]" "[]"] q hangup(4) by simp
  next
    case (written r1 r2 req out x)
    have "\<exists>r. rs = [r] \<and> writes_as rt who c' (ts @ [\<lparr>wt_recv = r, wt_write1 = r1, wt_write2 = r2\<rparr>]) []"
      by (rule writer_written[OF wr written(1,3)]) (simp_all add: written(4))
    then obtain r where r: "rs = [r]" "writes_as rt who c' (ts @ [\<lparr>wt_recv = r, wt_write1 = r1, wt_write2 = r2\<rparr>]) []" by blast
    moreover have "reader_sim rt bs c' reqs" using rd by (subst reader_same[of c' c]) (simp_all add: written(4))
    ultimately show ?thesis using result[OF _ r(2)] q written(4) by simp
  next
    case (send cmd)
    have "writes_as rt who c' ts rs" using wr by (subst writer_same[of c' c]) (simp_all add: send(4))
    moreover have "reader_sim rt bs c' (reqs @ [cmd])" unfolding send(4) by (rule reader_sent[OF send(1) rd])
    ultimately show ?thesis using result[of "reqs @ [cmd]" ts rs] q send(4) by simp
  next
    case (send_panic cmd)
    have "writes_as rt who c' ts rs" using wr by (subst writer_same[of c' c]) (simp_all add: send_panic(3))
    moreover have "reader_sim rt bs c' reqs" unfolding send_panic(3) by (rule reader_send_fails[OF send_panic(1) rd])
    ultimately show ?thesis using result[of "reqs" ts rs] q send_panic(3) by simp
  next
    case read_end
    have "writes_as rt who c' ts rs" using wr by (subst writer_same[of c' c]) (simp_all add: read_end(2))
    moreover have "reader_sim rt bs c' reqs" unfolding read_end(2) by (rule reader_fail[OF read_end(1) rd])
    ultimately show ?thesis using result[of "reqs" ts rs] q read_end(2) by simp
  next
    case join_writer
    then show ?thesis using assms(2) conn_sim_same[of c' c] by simp
  next
    case join_reader
    then show ?thesis using assms(2) conn_sim_same[of c' c] by simp
  next
    case join_panic
    then show ?thesis using assms(2) conn_sim_same[of c' c] by simp
  next
    case (read os resp bs' req attempts)
    then have "length (c_in c') < length (c_in c)" using read_resp_Ret[OF read(2)] by simp
    moreover have "c_in c' = c_in c" using conn_step_unread[OF assms(1) _ read(1)] False by blast
    ultimately show ?thesis by simp
  next
    case (read_panic bs')
    then have "c_reader c' = RPanicked" by simp
    moreover have "c_reader c' \<in> {RRead, RDone}" using conn_step_unread[OF assms(1) _ read_panic(1)] False by blast
    ultimately show ?thesis by simp
  qed
qed


section \<open>Every run\<close>

text \<open>What a move does to each connection, and the connection it makes.\<close>

definition touched :: "'u pb_rt \<Rightarrow> string \<Rightarrow> 'u Connection \<Rightarrow> 'u Connection \<Rightarrow> bool" where
  "touched rt who c c' \<longleftrightarrow> c' = c \<or> (\<exists>a. conn_step rt who a c = Some c') \<or> (\<exists>v w. c' = c\<lparr>c_joiner := v, c_watcher := w\<rparr>)"

lemma touched_refl [simp]: "touched rt who c c"
  by (simp add: touched_def)

lemma touched_marks:
  "touched rt who c (c\<lparr>c_joiner := v\<rparr>)" "touched rt who c (c\<lparr>c_watcher := w\<rparr>)" "touched rt who c (c\<lparr>c_joiner := v, c_watcher := w\<rparr>)"
proof -
  have m: "touched rt who c (c\<lparr>c_joiner := x, c_watcher := y\<rparr>)" for x y by (auto simp: touched_def)
  from m show "touched rt who c (c\<lparr>c_joiner := v, c_watcher := w\<rparr>)" .
  show "touched rt who c (c\<lparr>c_joiner := v\<rparr>)" using m[where x = v and y = "c_watcher c"] by simp
  show "touched rt who c (c\<lparr>c_watcher := w\<rparr>)" using m[where x = "c_joiner c" and y = w] by simp
qed

lemma exec_each:
  assumes "exec rt l s = Some s'"
  obtains (kept) cs where "conns s' = cs" "list_all2 (touched rt (client_id (client s))) (conns s) cs"
  | (made) env la where "start_envs l = [env]" "conns s' = conns s @ [fresh rt env la] \<or> conns s' = conns s @ [orphan (fresh rt env la)]"
proof -
  let ?R = "touched rt (client_id (client s))"
  have all: "list_all2 ?R (conns s) ((conns s)[j := c])" if "?R (conns s ! j) c" for j c
    using that by (cases "j < length (conns s)") (auto simp: list_all2_conv_all_nth nth_list_update list_update_beyond)
  have woken: "list_all2 ?R (conns s) (map (\<lambda>c. c\<lparr>c_watcher := wake_watcher (c_watcher c)\<rparr>) (conns s))"
    by (simp add: list_all2_conv_all_nth touched_marks)
  have same: thesis if "conns s' = conns s" using that kept[of "conns s"] by (simp add: list_all2_refl)
  show thesis
  proof (cases l)
    case (Conn j a)
    then obtain c where "conn_step rt (client_id (client s)) a (conns s ! j) = Some c" "s' = put j c s"
      using assms by (auto split: if_splits)
    then show thesis using kept all[of j c] by (auto simp: touched_def)
  next
    case (Announce j)
    then have s': "s' = announce j s" and j: "j < length (conns s)" using assms by (simp_all split: if_splits)
    show thesis
    proof (cases "poisoned s")
      case True
      then show thesis using kept s' all[OF touched_marks(1)] by simp
    next
      case False
      have "list_all2 ?R (conns s) (map (\<lambda>c. c\<lparr>c_watcher := wake_watcher (c_watcher c)\<rparr>) ((conns s)[j := (conns s ! j)\<lparr>c_joiner := JDone\<rparr>]))"
        using j by (auto simp: list_all2_conv_all_nth nth_list_update touched_marks)
      then show thesis using kept s' False by simp
    qed
  next
    case (Watch j)
    then obtain v where "s' = put j ((conns s ! j)\<lparr>c_watcher := v\<rparr>) s" using assms watch_Some[of j s s'] by (auto split: if_splits)
    then show thesis using kept all[OF touched_marks(2)] by simp
  next
    case (Reconnect i env)
    then have "reconnect_step rt i env s = Some s'" using assms by (simp split: if_splits)
    then show thesis
    proof (cases rule: reconnect_step_cases)
      case (failed cs)
      then show thesis using made[of env] same Reconnect by auto
    next
      case ok
      then show thesis using made[of env "t_local (threads s ! i)"] Reconnect by simp
    qed (use same in simp_all)
  next
    case (SpuriousWatcher j)
    then have "s' = put j ((conns s ! j)\<lparr>c_watcher := VWoken\<rparr>) s" using assms by (simp split: if_splits)
    then show thesis using kept all[OF touched_marks(2)] by simp
  next
    case (Listen env)
    then have s': "s' = fst (listen rt env s)" using assms by simp
    show thesis
      by (cases rule: listen_cases[of rt env s]) (use s' same made[of "le_start env"] Listen in auto)
  next
    case Shutdown
    then have "s' = fst (shutdown s)" using assms by simp
    then show thesis using kept[of "conns s'"] woken list_all2_refl[of ?R "conns s"] by simp
  qed (use assms same in \<open>auto split: if_splits\<close>)
qed

text \<open>The environments of the connections of a run, one for each.\<close>

fun made_in :: "'u pb_rt \<Rightarrow> label list \<Rightarrow> 'u System \<Rightarrow> start_env list" where
  "made_in rt [] s = []"
| "made_in rt (l # ls) s =
     (case exec rt l s of
        None \<Rightarrow> []
      | Some s' \<Rightarrow> (if length (conns s) < length (conns s') then start_envs l else []) @ made_in rt ls s')"

lemma touched_sim: "touched rt who c c' \<Longrightarrow> conn_sim rt who bs c \<Longrightarrow> conn_sim rt who bs c'"
  using conn_step_sim[of rt who _ c c' bs] conn_sim_same[of c' c rt who bs] by (auto simp: touched_def)

lemma execs_sim:
  assumes "execs rt ls s = Some s'" "client_id (client s) = who" "list_all2 (\<lambda>env c. conn_sim rt who (se_in env) c) envs (conns s)"
  shows "list_all2 (\<lambda>env c. conn_sim rt who (se_in env) c) (envs @ made_in rt ls s) (conns s')"
  using assms
proof (induction ls arbitrary: s envs)
  case (Cons l ls)
  let ?P = "\<lambda>env c. conn_sim rt who (se_in env) c"
  obtain s1 where s1: "exec rt l s = Some s1" "execs rt ls s1 = Some s'"
    using Cons.prems(1) by (auto split: option.splits)
  have who: "client_id (client s1) = who" using exec_client[OF s1(1)] Cons.prems(2) by simp
  let ?new = "if length (conns s) < length (conns s1) then start_envs l else []"
  have "list_all2 ?P (envs @ ?new) (conns s1)"
    using s1(1)
  proof (cases rule: exec_each)
    case (kept cs)
    then have "length (conns s1) = length (conns s)" by (simp add: list_all2_lengthD)
    moreover have "list_all2 ?P envs (conns s1)"
      using kept Cons.prems(2,3) touched_sim by (fastforce simp: list_all2_conv_all_nth)
    ultimately show ?thesis by simp
  next
    case (made env la)
    then show ?thesis using Cons.prems(3) conn_sim_fresh[of rt who env la] by (auto simp: list_all2_appendI)
  qed
  from Cons.IH[OF s1(2) who this] show ?case using s1(1) by simp
qed simp

lemma run_sim:
  assumes "execs rt ls (opened cl) = Some s"
  shows "list_all2 (\<lambda>env c. conn_sim rt (client_id cl) (se_in env) c) (made_in rt ls (opened cl)) (conns s)"
  using execs_sim[OF assms, of "client_id cl" "[]"] by (simp add: opened_def)

text \<open>C34. The threads of the blocking client refine its loops: in every run of a client,
  with any interleaving of the moves, each connection there is was made by one of the
  calls of the run with an input, of which some part is read, and is in a state that the
  loops, run one after the other, explain. \<open>read_loop\<close> on that part handles the responses with
  the connection attempts made and puts \<open>reqs\<close> and what the reader is about to send into
  the queue; it ended with an error or a panic exactly when the reader did. \<open>write_loop\<close>
  has written what is on the stream and ended exactly when the writer did. What it got,
  in what it finished and what it is about to write, followed by what is still inside,
  is the first ping and \<open>reqs\<close>: nothing is lost, doubled or reordered in between.\<close>

theorem tcp_threads_run_loops:
  assumes "execs rt ls (opened cl) = Some s" "j < length (conns s)"
  shows "length (made_in rt ls (opened cl)) = length (conns s)
    \<and> (\<exists>reqs ts rs. reads_as rt (se_in (made_in rt ls (opened cl) ! j)) (conns s ! j) reqs
         \<and> writes_as rt (client_id cl) (conns s ! j) ts rs
         \<and> concat (map got (map wt_recv ts @ rs)) @ buffer (c_queue (conns s ! j)) = ReqPing (Ping_new rt) # reqs)"
proof -
  note sim = run_sim[OF assms(1)]
  then have "conn_sim rt (client_id cl) (se_in (made_in rt ls (opened cl) ! j)) (conns s ! j)"
    using assms(2) by (simp add: list_all2_conv_all_nth)
  then show ?thesis unfolding conn_sim_def using reader_reads list_all2_lengthD[OF sim] by blast
qed

theorem tcp_threads_run_loops_witness:
  "\<exists>s reqs ts rs. wire_run [Listen (easy_listen [0, 2, 18, 0]), Conn 0 (Recv False), Conn 0 (Write (Inr ()) (Inr ())),
       Conn 0 (Read (easy_os any_v4)), Conn 0 (Recv True)] = Some s
     \<and> reads_as wire_rt [0, 2, 18, 0] (conns s ! 0) reqs \<and> writes_as wire_rt ''l'' (conns s ! 0) ts rs
     \<and> concat (map got (map wt_recv ts @ rs)) @ buffer (c_queue (conns s ! 0)) = ReqPing (Ping_new wire_rt) # reqs
     \<and> c_in (conns s ! 0) = [] \<and> buffer (c_queue (conns s ! 0)) = []"
proof -
  let ?ls = "[Listen (easy_listen [0, 2, 18, 0]), Conn 0 (Recv False), Conn 0 (Write (Inr ()) (Inr ())),
       Conn 0 (Read (easy_os any_v4)), Conn 0 (Recv True)]"
  have "case wire_run ?ls of None \<Rightarrow> False
    | Some s \<Rightarrow> length (conns s) = 1 \<and> c_in (conns s ! 0) = [] \<and> buffer (c_queue (conns s ! 0)) = []" by code_simp
  then obtain s where s: "wire_run ?ls = Some s" "length (conns s) = 1" "c_in (conns s ! 0) = []" "buffer (c_queue (conns s ! 0)) = []"
    using case_SomeD by blast
  have m: "se_in (made_in wire_rt ?ls (opened some_client) ! 0) = [0, 2, 18, 0]" by code_simp
  have "0 < length (conns s)" using s(2) by simp
  from tcp_threads_run_loops[OF s(1) this, unfolded m] obtain reqs ts rs where r: "reads_as wire_rt [0, 2, 18, 0] (conns s ! 0) reqs"
      "writes_as wire_rt (client_id some_client) (conns s ! 0) ts rs"
      "concat (map got (map wt_recv ts @ rs)) @ buffer (c_queue (conns s ! 0)) = ReqPing (Ping_new wire_rt) # reqs" by blast
  have "writes_as wire_rt ''l'' (conns s ! 0) ts rs" using r(2) by simp
  with s(1,3,4) r(1,3) show ?thesis by blast
qed

end
