(* ===== verification/Tcp_Punching.thy ===== *)
theory Tcp_Punching
  imports Tcp_Hub_Refined Tcp_Loops_Refined Tcp_Client_Correct
begin

text \<open>
  Server and clients over TCP together, for any number of clients and in any order of their
  moves: the bytes that a client reads are a beginning of those that the server writes on
  that connection, and the other way round. So what a client does on account of a message
  of the server can be traced back to the requests of other clients.
\<close>

section \<open>Frames of the server\<close>

text \<open>The bytes of a response without unknown fields that holds the note.\<close>

definition plain_frame :: "'u pb_rt \<Rightarrow> bytes \<Rightarrow> notice \<Rightarrow> bool" where
  "plain_frame rt v n \<longleftrightarrow>
     (\<exists>c. v = Response_wire rt (response rt [] c) \<and> RespCmd_clean rt c \<and> length v < 65536 \<and> note_of_cmd c = n)"

lemma encodes_plain:
  assumes "pb_runtime rt" "encodes rt A v n" "\<And>who t. \<not> A (Tell who t)"
  shows "plain_frame rt v n"
proof -
  obtain c where c: "Response_write_to_bytes rt ((Response_new rt)\<lparr>resp_cmd := Some c\<rparr>) = Inr v" "note_of_cmd c = n"
      "RespCmd_clean rt c" "length v < 65536"
    using assms(2,3) by (auto simp: encodes_def)
  have "(Response_new rt)\<lparr>resp_cmd := Some c\<rparr> = response rt [] c" by (simp add: response_def Response_new_def)
  moreover have "Response_clean rt (response rt [] c)" by (rule pb_runtime.response_clean[OF assms(1) text_ok_Nil c(3)])
  ultimately have "v = Response_wire rt (response rt [] c)" using c(1) pb_runtime.Response_write_clean[OF assms(1)] by simp
  with c(2-4) show ?thesis by (auto simp: plain_frame_def)
qed

lemma read_plain:
  assumes "pb_runtime rt" "plain_frame rt v n"
  obtains resp c where "\<forall>r. read_resp rt std_read_exact (frame v @ r) = Ret (Inr (resp, r))" "resp_cmd resp = Some c" "note_of_cmd c = n"
proof -
  obtain c where c: "v = Response_wire rt (response rt [] c)" "RespCmd_clean rt c" "length v < 65536" "note_of_cmd c = n"
    using assms(2) by (auto simp: plain_frame_def)
  have "Response_clean rt (response rt [] c)" by (rule pb_runtime.response_clean[OF assms(1) text_ok_Nil c(2)])
  then have p: "Response_parse_from_bytes rt v = Some (Inr (Response_forget (response rt [] c)))"
    using pb_runtime.Response_parse_wire[OF assms(1)] c(1) by simp
  have "\<forall>r. read_resp rt std_read_exact (frame v @ r) = Ret (Inr (Response_forget (response rt [] c), r))"
    using c(3) p by (simp add: std_reader.read_resp_frame)
  moreover have "resp_cmd (Response_forget (response rt [] c)) = Some (RespCmd_forget c)"
    by (simp add: Response_forget_def response_def)
  moreover have "note_of_cmd (RespCmd_forget c) = n" using c(4) by (cases c) (auto simp: Redirect_forget_def Fsync_forget_def)
  ultimately show thesis by (rule that)
qed

text \<open>A response read from a beginning of such frames is the first of them.\<close>

lemma read_first:
  assumes rt: "pb_runtime rt" and v: "list_all2 (plain_frame rt) vecs ns" and p: "prefix p (frames vecs)"
    and r: "read_resp rt std_read_exact p = Ret (Inr (resp, p'))"
  obtains vs n ms c where "list_all2 (plain_frame rt) vs ms" "ns = n # ms" "prefix p' (frames vs)" "resp_cmd resp = Some c" "note_of_cmd c = n"
proof -
  obtain q where q: "frames vecs = p @ q" using p by (auto simp: prefix_def)
  have e: "read_resp rt std_read_exact (frames vecs) = Ret (Inr (resp, p' @ q))" unfolding q by (rule read_resp_ext[OF r])
  show thesis
  proof (cases vecs)
    case Nil
    then show thesis using e by (simp add: frames_def read_resp_def std_read_exact_def)
  next
    case (Cons w vs)
    then obtain n ms where n: "ns = n # ms" "plain_frame rt w n" "list_all2 (plain_frame rt) vs ms" using v by (auto simp: list_all2_Cons1)
    obtain resp' c where c: "\<forall>r. read_resp rt std_read_exact (frame w @ r) = Ret (Inr (resp', r))" "resp_cmd resp' = Some c" "note_of_cmd c = n"
      by (rule read_plain[OF rt n(2)])
    have "frames vecs = frame w @ frames vs" by (simp add: Cons frames_def)
    then have "resp = resp'" "p' @ q = frames vs" using e c(1) by auto
    then have "prefix p' (frames vs)" "resp_cmd resp = Some c" using c(2) by (metis prefixI, simp)
    with n(3,1) show thesis using c(3) by (rule that)
  qed
qed

section \<open>What a reading loop does on them\<close>

definition wants :: "notice list \<Rightarrow> SocketAddr \<Rightarrow> attempt \<Rightarrow> bool" where
  "wants ns la x \<longleftrightarrow> (\<exists>who t. NFsync who t \<in> set ns \<and> fst x = la \<and> parse_addr t = Some (snd x))"

definition replies :: "'u pb_rt \<Rightarrow> notice list \<Rightarrow> 'u ReqCmd \<Rightarrow> bool" where
  "replies rt ns cmd \<longleftrightarrow> (\<exists>who t. NFsync who t \<in> set ns \<and> cmd = ReqRsync ((Rsync_new rt)\<lparr>rsync_id := who\<rparr>))"

lemma read_turn_traced:
  assumes "read_turn rt os la resp = Ret (Inr (req, at))" "resp_cmd resp = Some c" "note_of_cmd c = n"
  shows "(\<forall>x \<in> set at. wants [n] la x) \<and> (\<forall>cmd. req = Some cmd \<longrightarrow> replies rt [n] cmd)"
  using assms
  by (cases c) (auto simp: read_turn_def ques_Ret and_then_eq_Ret Let_def wants_def replies_def split: option.splits sum.splits,
      (metis sum.exhaust)+)

lemma traced_more: "wants [n] la x \<Longrightarrow> wants (n # ns) la x" "wants ns la x \<Longrightarrow> wants (n # ns) la x"
  "replies rt [n] cmd \<Longrightarrow> replies rt (n # ns) cmd" "replies rt ns cmd \<Longrightarrow> replies rt (n # ns) cmd"
  by (auto simp: wants_def replies_def)

lemma read_loop_traced:
  assumes "pb_runtime rt" "read_loop rt os la alive k p = (reqs, atts, r)" "list_all2 (plain_frame rt) vecs ns" "prefix p (frames vecs)"
  shows "(\<forall>x \<in> set atts. wants ns la x) \<and> (\<forall>cmd \<in> set reqs. replies rt ns cmd)"
  using assms(2-4)
proof (induction p arbitrary: k reqs atts r vecs ns rule: measure_induct_rule[of length])
  case (less p)
  show ?case
  proof (cases "\<exists>resp p' req at. read_resp rt std_read_exact p = Ret (Inr (resp, p')) \<and> read_turn rt (os k) la resp = Ret (Inr (req, at))")
    case False
    then have "reqs = [] \<and> atts = []"
      using less.prems(1) by (subst (asm) read_loop.simps) (auto split: outcome.splits sum.splits)
    then show ?thesis by simp
  next
    case True
    then obtain resp p' req at where e: "read_resp rt std_read_exact p = Ret (Inr (resp, p'))" "read_turn rt (os k) la resp = Ret (Inr (req, at))"
      by blast
    obtain vs n ms c where c: "list_all2 (plain_frame rt) vs ms" "ns = n # ms" "prefix p' (frames vs)" "resp_cmd resp = Some c" "note_of_cmd c = n"
      by (rule read_first[OF assms(1) less.prems(2,3) e(1)])
    note t = read_turn_traced[OF e(2) c(4,5)]
    obtain reqs' atts' r' where l: "read_loop rt os la alive (Suc k) p' = (reqs', atts', r')" by (metis prod_cases3)
    have "reqs = [] \<and> atts = at \<or> reqs = the_list req @ reqs' \<and> atts = at @ atts'"
      using less.prems(1) e l by (subst (asm) read_loop.simps) (auto simp: the_list_def split: option.splits if_splits)
    moreover have "length p' < length p" using read_resp_Ret[OF e(1)] by blast
    then have later: "(\<forall>x \<in> set atts'. wants ms la x) \<and> (\<forall>cmd \<in> set reqs'. replies rt ms cmd)"
      by (rule less.IH[OF _ l c(1,3)])
    then have "\<forall>x \<in> set at \<union> set atts'. wants ns la x"
      using t unfolding c(2) by (metis Un_iff traced_more(1,2))
    moreover have "\<forall>cmd \<in> set (the_list req). replies rt [n] cmd" using t by (simp add: the_list_def split: option.split)
    then have "\<forall>cmd \<in> set (the_list req) \<union> set reqs'. replies rt ns cmd"
      using later unfolding c(2) by (metis Un_iff traced_more(3,4))
    ultimately show ?thesis by auto
  qed
qed

section \<open>What a writing loop sends\<close>

definition sendable :: "'u pb_rt \<Rightarrow> string \<Rightarrow> 'u ReqCmd \<Rightarrow> bool" where
  "sendable rt who cmd \<longleftrightarrow> Request_clean rt (req_of rt who cmd) \<and> length (Request_wire rt (req_of rt who cmd)) < 65536"

definition request_frames :: "'u pb_rt \<Rightarrow> string \<Rightarrow> 'u ReqCmd list \<Rightarrow> bytes" where
  "request_frames rt who sent = frames (map (\<lambda>cmd. Request_wire rt (req_of rt who cmd)) sent)"

lemma request_frames_simps [simp]:
  "request_frames rt who [] = []"
  "request_frames rt who (cmd # sent) = frame (Request_wire rt (req_of rt who cmd)) @ request_frames rt who sent"
  by (simp_all add: request_frames_def frames_def)

lemma write_loop_sends:
  assumes "pb_runtime rt" "\<forall>t \<in> set ts. \<forall>cmd. next_req rt (wt_recv t) = Some cmd \<longrightarrow> sendable rt who cmd"
  shows "\<exists>sent. prefix (fst (write_loop rt who ts out)) (out @ request_frames rt who sent)
    \<and> (\<forall>cmd \<in> set sent. \<exists>t \<in> set ts. next_req rt (wt_recv t) = Some cmd)"
  using assms(2)
proof (induction ts arbitrary: out)
  case Nil
  show ?case by (intro exI[of _ "[]"]) simp
next
  case (Cons t ts)
  show ?case
  proof (cases "next_req rt (wt_recv t)")
    case None
    then show ?thesis by (intro exI[of _ "[]"]) simp
  next
    case (Some cmd)
    let ?f = "frame (Request_wire rt (req_of rt who cmd))"
    obtain out' x where w: "write_req rt (wt_write1 t) (wt_write2 t) who cmd out = (out', x)" by fastforce
    have "Request_clean rt (req_of rt who cmd)" using Cons.prems Some by (simp add: sendable_def)
    then have f: "send_frame (wt_write1 t) (wt_write2 t) (Request_wire rt (req_of rt who cmd)) out = (out', x)"
      using w by (simp add: write_req_clean[OF assms(1)])
    show ?thesis
    proof (cases x)
      case (Inl e)
      have "prefix out' (out @ ?f)"
        using send_frame_prefix[of "wt_write1 t" "wt_write2 t" "Request_wire rt (req_of rt who cmd)" out]
        by (auto simp: f take_is_prefix)
      then show ?thesis using Some w Inl by (intro exI[of _ "[cmd]"]) simp
    next
      case (Inr u)
      then have out': "out' = out @ ?f" using send_frame_Inr f by blast
      obtain sent where "prefix (fst (write_loop rt who ts out')) (out' @ request_frames rt who sent)"
          "\<forall>cmd \<in> set sent. \<exists>t \<in> set ts. next_req rt (wt_recv t) = Some cmd"
        using Cons.IH[of out'] Cons.prems by auto
      then show ?thesis using Some w Inr out' by (intro exI[of _ "cmd # sent"]) auto
    qed
  qed
qed

section \<open>What the server reads of it\<close>

context exact_reader
begin

lemma reads_more:
  assumes "rd n bs = Inr (b, r)"
  shows "rd n (bs @ q) = Inr (b, r @ q)"
proof (cases "n \<le> length bs")
  case True
  then show ?thesis using assms read_enough[OF True] read_enough[of n "bs @ q"] by auto
next
  case False
  then show ?thesis using assms read_short[of bs n] by auto
qed

lemma read_req_more:
  assumes "read_req rt rd bs = Ret (Inr (req, r))"
  shows "read_req rt rd (bs @ q) = Ret (Inr (req, r @ q))"
  using assms reads_more by (auto simp: read_req_def ques_def Let_def split: sum.splits option.splits if_splits)

lemma read_req_Nil: "read_req rt rd [] \<noteq> Ret (Inr x)"
  using read_short[of "[]" 2] by (auto simp: read_req_def)

lemma brought_sent:
  assumes "pb_runtime rt" "brought rt rd bs reqs r" "prefix bs (request_frames rt who sent)" "\<forall>cmd \<in> set sent. sendable rt who cmd"
  shows "\<exists>cs ds. sent = cs @ ds \<and> reqs = map (\<lambda>cmd. Request_forget (req_of rt who cmd)) cs \<and> prefix r (request_frames rt who ds)"
  using assms(2)
proof (induction rule: brought.induct)
  case none
  then show ?case using assms(3) by (intro exI[of _ "[]"] exI[of _ sent]) simp
next
  case (one reqs r req r')
  obtain cs ds where c: "sent = cs @ ds" "reqs = map (\<lambda>cmd. Request_forget (req_of rt who cmd)) cs" "prefix r (request_frames rt who ds)"
    using one.IH by blast
  then obtain q where q: "request_frames rt who ds = r @ q" by (auto simp: prefix_def)
  have e: "read_req rt rd (request_frames rt who ds) = Ret (Inr (req, r' @ q))" unfolding q by (rule read_req_more[OF one.hyps(2)])
  then obtain d es where d: "ds = d # es" using read_req_Nil by (cases ds) auto
  have s: "sendable rt who d" using assms(4) c(1) d by simp
  then have "Request_parse_from_bytes rt (Request_wire rt (req_of rt who d)) = Some (Inr (Request_forget (req_of rt who d)))"
    using pb_runtime.Request_parse_wire[OF assms(1)] by (simp add: sendable_def)
  then have "req = Request_forget (req_of rt who d)" "r' @ q = request_frames rt who es"
    using e s by (auto simp: d read_req_frame sendable_def split: if_splits)
  moreover from this(2) have "prefix r' (request_frames rt who es)" by (metis prefixI)
  ultimately have "sent = (cs @ [d]) @ es \<and> reqs @ [req] = map (\<lambda>cmd. Request_forget (req_of rt who cmd)) (cs @ [d])
      \<and> prefix r' (request_frames rt who es)"
    using c(1,2) d by simp
  then show ?case by blast
qed

end

section \<open>A listening client at the server\<close>

text \<open>The requests of a listening client: pings and replies.\<close>

definition listening :: "'u pb_rt \<Rightarrow> string set \<Rightarrow> 'u ReqCmd \<Rightarrow> bool" where
  "listening rt T cmd \<longleftrightarrow>
     cmd = ReqPing (Ping_new rt) \<or> (\<exists>t \<in> T. cmd = ReqRsync ((Rsync_new rt)\<lparr>rsync_id := t\<rparr>))"

lemma listening_sendable:
  assumes rt: "pb_runtime rt" and who: "bounded 1500 who" and c: "listening rt T cmd" "\<forall>t \<in> T. bounded 1500 t"
  shows "sendable rt who cmd"
proof -
  note field = bounded_field[OF rt pb_runtime.field_nos(1)[OF rt]]
    and nested = nested_field[OF rt pb_runtime.field_nos(2)[OF rt]] nested_field[OF rt pb_runtime.field_nos(5)[OF rt]]
  note new = pb_runtime.SpecialFields_new_clean[OF rt]
  from c(1) show ?thesis
  proof (unfold listening_def, elim disjE bexE)
    assume "cmd = ReqPing (Ping_new rt)"
    then show ?thesis
      using field[OF who] bounded_text[OF who] nested(1)[of "[]"] new
      by (simp add: sendable_def Request_clean_def new_req_def Request_new_def Ping_clean_def Ping_new_def Request_wire_def Ping_wire_def)
  next
    fix t assume t: "t \<in> T" "cmd = ReqRsync ((Rsync_new rt)\<lparr>rsync_id := t\<rparr>)"
    then have "bounded 1500 t" using c(2) by blast
    then show ?thesis
      using field[OF who] field[of t] bounded_text[OF who] bounded_text[of t] nested(2)[of "opt_field rt 1 t"] new t(2)
      by (simp add: sendable_def Request_clean_def new_req_def Request_new_def Rsync_clean_def Rsync_new_def Request_wire_def Rsync_wire_def)
  qed
qed

text \<open>What the loops did, given what the server has said.\<close>

definition callers :: "notice list \<Rightarrow> string set" where
  "callers ns = {who. \<exists>t. NFsync who t \<in> set ns}"

lemma listener_traced:
  assumes rt: "pb_runtime rt" and c: "conn_sim rt who bs c"
    and ns: "list_all2 (plain_frame rt) vecs ns" "prefix bs (frames vecs)" "\<forall>t \<in> callers ns. bounded 1500 t" and who: "bounded 1500 who"
  shows "(\<forall>x \<in> set (c_attempts c). wants ns (c_local c) x)
    \<and> (\<exists>sent. prefix (c_out c) (request_frames rt who sent) \<and> (\<forall>cmd \<in> set sent. listening rt (callers ns) cmd))"
proof -
  obtain reqs ts rs where sim: "reader_sim rt bs c reqs" "writes_as rt who c ts rs"
      "concat (map got (map wt_recv ts @ rs)) @ buffer (c_queue c) = ReqPing (Ping_new rt) # reqs"
    using c by (auto simp: conn_sim_def)
  obtain p os alive r where p: "bs = p @ c_in c" "read_loop rt os (c_local c) alive 0 p = (reqs @ sending (c_reader c), c_attempts c, r)"
    using reader_reads[OF sim(1)] by (auto simp: reads_as_def)
  have "prefix p (frames vecs)" using ns(2) p(1) by (metis append_prefixD)
  note traced = read_loop_traced[OF rt p(2) ns(1) this]
  then have "\<forall>cmd \<in> set reqs. replies rt ns cmd" by simp
  then have reqs: "\<forall>cmd \<in> insert (ReqPing (Ping_new rt)) (set reqs). listening rt (callers ns) cmd"
    by (auto simp: replies_def listening_def callers_def)
  have "listening rt (callers ns) cmd" if t: "t \<in> set ts" "next_req rt (wt_recv t) = Some cmd" for t cmd
  proof (cases "wt_recv t")
    case (Got cmd')
    then have "cmd \<in> set (concat (map got (map wt_recv ts @ rs)) @ buffer (c_queue c))" using t by force
    then show ?thesis unfolding sim(3) using reqs by auto
  qed (use t in \<open>auto simp: listening_def\<close>)
  note all = this
  have "\<forall>t \<in> set ts. \<forall>cmd. next_req rt (wt_recv t) = Some cmd \<longrightarrow> sendable rt who cmd"
    using listening_sendable[OF rt who all ns(3)] by blast
  from write_loop_sends[OF rt this, of "[]"] obtain sent where
      "prefix (c_out c) (request_frames rt who sent)" "\<forall>cmd \<in> set sent. \<exists>t \<in> set ts. next_req rt (wt_recv t) = Some cmd"
    using sim(2) by (auto simp: writes_as_def)
  with all traced show ?thesis by blast
qed

lemma asked_of_listener:
  assumes rt: "pb_runtime rt" and rd: "exact_reader rd" and who: "bounded 1500 who" "\<forall>t \<in> T. bounded 1500 t"
    and p: "prefix (w_stream W i) (request_frames rt who sent)" "\<forall>cmd \<in> set sent. listening rt T cmd"
    and m: "asks_in rt rd W i m"
  shows "m = Ask who CPing \<or> (\<exists>t \<in> T. m = Ask who (CRsync t))"
proof -
  obtain reqs r where b: "brought rt rd (w_stream W i) reqs r" "m \<in> msg_of ` set reqs" using m by (auto simp: asks_in_def)
  have "\<forall>cmd \<in> set sent. sendable rt who cmd" using p(2) listening_sendable[OF rt who(1) _ who(2)] by blast
  from exact_reader.brought_sent[OF rd rt b(1) p(1) this] obtain cs ds where
      c: "sent = cs @ ds" "reqs = map (\<lambda>cmd. Request_forget (req_of rt who cmd)) cs" by blast
  then obtain cmd where cmd: "cmd \<in> set cs" "m = msg_of (Request_forget (req_of rt who cmd))" using b(2) by auto
  then have "listening rt T cmd" using p(2) c(1) by simp
  then show ?thesis
    using cmd(2) by (auto simp: listening_def msg_of_def call_of_def Request_forget_def new_req_def Rsync_forget_def)
qed

text \<open>
  A connection \<open>c\<close> of a listening client is connection \<open>i\<close> of the server: each has read some of
  what the other wrote.
\<close>

definition linked :: "world \<Rightarrow> ('q, 'u) Server \<Rightarrow> nat \<Rightarrow> bytes \<Rightarrow> bytes \<Rightarrow> bool" where
  "linked W s i input output \<longleftrightarrow>
     i < length (tasks s) \<and> prefix input (stream_out (tasks s ! i)) \<and> prefix (w_stream W i) output"

lemma plain_notes:
  assumes rt: "pb_runtime rt" and "exact_reader rd" "bounded_channel ch items capacity"
    and "world_run rt ch rd W s" "length (tasks s) < 2 ^ 64" "i < length (tasks s)" "\<And>who t. \<not> asks_in rt rd W i (Tell who t)"
  obtains vecs ns where "list_all2 (plain_frame rt) vecs ns" "prefix (stream_out (tasks s ! i)) (frames vecs)"
    "\<forall>n \<in> set ns. justified (w_addr W) (asks_in rt rd W) i n"
proof -
  obtain H where H: "hub_run (w_addr W) (asks_in rt rd W) H" "hub_sim rt (asks_in rt rd W) items (w_addr W) s H"
    using refines_hub[OF assms(1-5)] by blast
  have "spoken rt (asks_in rt rd W i) (tasks s ! i) (said H i)" using sim_task[OF H(2) assms(6)] by (simp add: task_sim_def)
  then obtain vecs where v: "list_all2 (encodes rt (asks_in rt rd W i)) vecs (said H i)" "prefix (stream_out (tasks s ! i)) (frames vecs)"
    by (auto simp: spoken_def)
  have "list_all2 (plain_frame rt) vecs (said H i)"
    by (rule list.rel_mono_strong[OF v(1)]) (use encodes_plain[OF rt] assms(7) in blast)
  from this v(2) show thesis by (rule that) (use hub_run_justified[OF H(1)] in blast)
qed

lemma asked_bounded:
  assumes "pb_runtime rt" "exact_reader rd" "asks_in rt rd W k (Ask who c)"
  shows "bounded 1500 who"
proof -
  obtain reqs r req where b: "brought rt rd (w_stream W k) reqs r" "req \<in> set reqs" "Ask who c = msg_of req"
    using assms(3) by (auto simp: asks_in_def)
  from brought_bounded[OF assms(1,2) b(1,2)] b(3) show ?thesis
    by (auto simp: Request_bounded_def msg_of_def split: option.splits ReqCmd.splits)
qed

text \<open>Connections seen at \<open>a\<close> that asked for \<open>target\<close> in the name of \<open>who\<close>.\<close>

definition asked_for :: "'u pb_rt \<Rightarrow> exact_read \<Rightarrow> world \<Rightarrow> string \<Rightarrow> string \<Rightarrow> SocketAddr \<Rightarrow> bool" where
  "asked_for rt rd W target who a \<longleftrightarrow> (\<exists>k. asks_in rt rd W k (Ask who (CIsync target)) \<and> a = w_addr W k)"

lemma listener_linked:
  assumes env: "pb_runtime rt" "exact_reader rd" "bounded_channel ch items capacity"
    and s: "world_run rt ch rd W s" "length (tasks s) < 2 ^ 64" "linked W s i bs (c_out c)"
    and c: "conn_sim rt me bs c" "bounded 1500 me" and quiet: "\<And>who t. \<not> asks_in rt rd W i (Tell who t)"
  shows "\<forall>(la, a) \<in> set (c_attempts c). la = c_local c \<and> (\<exists>who b. asked_for rt rd W me who b \<and> a = clear_flow b)"
    and "asks_in rt rd W i m \<Longrightarrow> m = Ask me CPing \<or> (\<exists>who a. asked_for rt rd W me who a \<and> m = Ask me (CRsync who))"
proof -
  have i: "i < length (tasks s)" "prefix bs (stream_out (tasks s ! i))" "prefix (w_stream W i) (c_out c)"
    using s(3) by (simp_all add: linked_def)
  obtain vecs ns where n: "list_all2 (plain_frame rt) vecs ns" "prefix (stream_out (tasks s ! i)) (frames vecs)"
    "\<forall>n \<in> set ns. justified (w_addr W) (asks_in rt rd W) i n"
    by (rule plain_notes[OF env s(1,2) i(1) quiet])
  have p: "prefix bs (frames vecs)" using i(2) n(2) by (rule prefix_order.trans)
  have called: "called (w_addr W) (asks_in rt rd W) i who t" if "NFsync who t \<in> set ns" for who t
    using n(3) that quiet by fastforce
  then have b: "\<forall>t \<in> callers ns. bounded 1500 t"
    unfolding callers_def called_def using asked_bounded[OF env(1,2)] by blast
  note t = listener_traced[OF env(1) c(1) n(1) p b c(2)]
  then obtain sent where sent: "prefix (c_out c) (request_frames rt me sent)" "\<forall>cmd \<in> set sent. listening rt (callers ns) cmd"
    by blast
  have "prefix (w_stream W i) (request_frames rt me sent)" using i(3) sent(1) by (rule prefix_order.trans)
  note asked = asked_of_listener[OF env(1,2) c(2) b this sent(2)]
  have "claims (asks_in rt rd W) i target \<Longrightarrow> target = me" for target
    using asked by (auto simp: claims_def)
  then have for_me: "\<exists>b. asked_for rt rd W me who b \<and> t = show_addr b" if "NFsync who t \<in> set ns" for who t
    using called[OF that] by (auto simp: called_def asked_for_def)
  show "\<forall>(la, a) \<in> set (c_attempts c). la = c_local c \<and> (\<exists>who b. asked_for rt rd W me who b \<and> a = clear_flow b)"
  proof clarify
    fix la a assume "(la, a) \<in> set (c_attempts c)"
    then have "wants ns (c_local c) (la, a)" using t by blast
    then obtain who t where w: "NFsync who t \<in> set ns" "la = c_local c" "parse_addr t = Some a" by (auto simp: wants_def)
    from for_me[OF w(1)] obtain b where b: "asked_for rt rd W me who b" "t = show_addr b" by blast
    then have "a = clear_flow b" using w(3) parse_show_addr[of b] by simp
    with b(1) w(2) show "la = c_local c \<and> (\<exists>who b. asked_for rt rd W me who b \<and> a = clear_flow b)" by blast
  qed
  show "asks_in rt rd W i m \<Longrightarrow> m = Ask me CPing \<or> (\<exists>who a. asked_for rt rd W me who a \<and> m = Ask me (CRsync who))"
    using asked for_me by (fastforce simp: callers_def)
qed

section \<open>A connecting client at the server\<close>

lemma isync_sendable:
  assumes rt: "pb_runtime rt" and b: "bounded 1500 me" "bounded 1500 t"
  shows "sendable rt me (ReqIsync ((Isync_new rt)\<lparr>isync_id := t\<rparr>))"
  using bounded_field[OF rt pb_runtime.field_nos(1)[OF rt] b(1)] bounded_field[OF rt pb_runtime.field_nos(1)[OF rt] b(2)]
    nested_field[OF rt pb_runtime.field_nos(3)[OF rt], of "opt_field rt 1 t"]
    bounded_text[OF b(1)] bounded_text[OF b(2)] pb_runtime.SpecialFields_new_clean[OF rt]
  by (simp add: sendable_def Request_clean_def new_req_def Request_new_def Isync_clean_def Isync_new_def Request_wire_def Isync_wire_def)

lemma asked_of_connector:
  assumes rt: "pb_runtime rt" and rd: "exact_reader rd" and b: "bounded 1500 me" "bounded 1500 t"
    and p: "prefix (w_stream W i) (frame (Request_wire rt (isync_req rt me t)))" and m: "asks_in rt rd W i m"
  shows "m = Ask me (CIsync t)"
proof -
  let ?sent = "[ReqIsync ((Isync_new rt)\<lparr>isync_id := t\<rparr>)]"
  obtain reqs r where q: "brought rt rd (w_stream W i) reqs r" "m \<in> msg_of ` set reqs" using m by (auto simp: asks_in_def)
  have "\<exists>cs ds. ?sent = cs @ ds \<and> reqs = map (\<lambda>cmd. Request_forget (req_of rt me cmd)) cs \<and> prefix r (request_frames rt me ds)"
    by (rule exact_reader.brought_sent[OF rd rt q(1)]) (use p isync_sendable[OF rt b] in simp_all)
  then obtain cs ds where "?sent = cs @ ds" "reqs = map (\<lambda>cmd. Request_forget (req_of rt me cmd)) cs" by blast
  with q(2) show ?thesis
    by (cases cs) (auto simp: msg_of_def call_of_def Request_forget_def new_req_def Isync_forget_def)
qed

lemma connector_linked:
  assumes env: "pb_runtime rt" "exact_reader rd" "bounded_channel ch items capacity"
    and s: "world_run rt ch rd W s" "length (tasks s) < 2 ^ 64" "linked W s i (ce_in env) out"
    and c: "connect rt env cl t = Ret (Inr sk, out)" and b: "bounded 1500 (client_id cl)" "bounded 1500 t"
  shows "\<exists>who k j. asks_in rt rd W k (Ask who (CRsync (client_id cl))) \<and> claims (asks_in rt rd W) j who
    \<and> remote sk = Some (clear_flow (w_addr W j))"
proof -
  have clean: "Request_clean rt (isync_req rt (client_id cl) t)" using isync_sendable[OF env(1) b] by (simp add: sendable_def)
  obtain resp rest rdr a where f: "out = frame (Request_wire rt (isync_req rt (client_id cl) t))"
      "read_resp rt std_read_exact (ce_in env) = Ret (Inr (resp, rest))" "resp_cmd resp = Some (RespRedirect rdr)"
      "parse_addr (redirect_addr rdr) = Some a" "remote sk = Some a"
    using connect_sent[OF env(1) clean c] by blast
  have i: "i < length (tasks s)" "prefix (ce_in env) (stream_out (tasks s ! i))" "prefix (w_stream W i) out"
    using s(3) by (simp_all add: linked_def)
  note asked = asked_of_connector[OF env(1,2) b i(3)[unfolded f(1)]]
  have quiet: "\<not> asks_in rt rd W i (Tell who x)" for who x using asked[of "Tell who x"] by auto
  obtain vecs ns where n: "list_all2 (plain_frame rt) vecs ns" "prefix (stream_out (tasks s ! i)) (frames vecs)"
    "\<forall>n \<in> set ns. justified (w_addr W) (asks_in rt rd W) i n"
    by (rule plain_notes[OF env s(1,2) i(1) quiet])
  have "prefix (ce_in env) (frames vecs)" using i(2) n(2) by (rule prefix_order.trans)
  then obtain c where "resp_cmd resp = Some c" "note_of_cmd c \<in> set ns"
    using read_first[OF env(1) n(1) _ f(2)] by (metis list.set_intros(1))
  then have "justified (w_addr W) (asks_in rt rd W) i (NRedirect (redirect_id rdr) (redirect_addr rdr))"
    using n(3) f(3) by fastforce
  moreover have "redirect_addr rdr \<noteq> []" using f(4) parse_empty by auto
  ultimately obtain k j target where k: "asks_in rt rd W k (Ask (redirect_id rdr) (CRsync target))"
      "claims (asks_in rt rd W) i target \<or> k = i \<and> target = []" "redirect_addr rdr = show_addr (w_addr W j)"
      "claims (asks_in rt rd W) j (redirect_id rdr)"
    unfolding justified.simps by blast
  have "k \<noteq> i" using k(1) asked by fastforce
  then have "target = client_id cl" using k(2) asked by (fastforce simp: claims_def)
  moreover have "a = clear_flow (w_addr W j)" using f(4) k(3) parse_show_addr[of "w_addr W j"] by simp
  ultimately show ?thesis using k(1,4) f(5) by blast
qed

section \<open>Runs for the witnesses\<close>

text \<open>The labels of a run in a world, the next connection being number \<open>n\<close>.\<close>

fun in_world :: "world \<Rightarrow> nat \<Rightarrow> Tcp_Server.label list \<Rightarrow> bool" where
  "in_world W n [] = True"
| "in_world W n (l # ls) \<longleftrightarrow> label_ok W n l \<and> in_world W (case l of Accept bs \<Rightarrow> Suc n | _ \<Rightarrow> n) ls"

lemma exec_tasks:
  assumes "Tcp_Server.exec rt ch rd l s = Some s'"
  shows "length (tasks s') = (case l of Accept bs \<Rightarrow> Suc (length (tasks s)) | _ \<Rightarrow> length (tasks s))"
proof (cases "\<exists>bs. l = Accept bs")
  case True
  then show ?thesis using assms by (auto simp: Tcp_Server.accept_def next_id_def Let_def split: if_splits)
next
  case False
  have "length (tasks s') = length (tasks s)"
    by (rule exec_cases[OF assms]) (use False in \<open>auto simp: task_step_def\<close>)
  then show ?thesis using False by (cases l) simp_all
qed

lemma world_execs:
  "Tcp_Server.execs rt ch rd ls s = Some s' \<Longrightarrow> world_run rt ch rd W s \<Longrightarrow> in_world W (length (tasks s)) ls \<Longrightarrow> world_run rt ch rd W s'"
proof (induction ls arbitrary: s)
  case (Cons l ls)
  then obtain s1 where s1: "Tcp_Server.exec rt ch rd l s = Some s1" "Tcp_Server.execs rt ch rd ls s1 = Some s'"
    by (auto split: option.splits)
  have "world_run rt ch rd W s1" using world_run.moved[OF Cons.prems(2) _ s1(1)] Cons.prems(3) by simp
  moreover have "in_world W (length (tasks s1)) ls" using exec_tasks[OF s1(1)] Cons.prems(3) by simp
  ultimately show ?case using Cons.IH[OF s1(2)] by blast
qed simp

text \<open>Client \<open>k\<close> is seen at port \<open>5 + k\<close>.\<close>

abbreviation seen_at :: "nat \<Rightarrow> SocketAddr" where
  "seen_at k \<equiv> V4 (Ipv4 1 2 3 4) (5 + of_nat k)"

abbreviation said_by :: "(nat \<Rightarrow> bytes) \<Rightarrow> world" where
  "said_by f \<equiv> \<lparr>w_addr = seen_at, w_stream = f\<rparr>"

text \<open>A request of client \<open>k\<close> is read, queued and handled; an answer is written.\<close>

abbreviation taken :: "nat \<Rightarrow> Tcp_Server.label list" where
  "taken k \<equiv> [Tcp_Server.Read k, Enqueue k, Receive k (answers_from (seen_at k))]"

abbreviation wrote :: "nat \<Rightarrow> Tcp_Server.label" where
  "wrote k \<equiv> Written k (Inr ()) (Inr ())"

text \<open>Client 0 listens as \<open>l\<close>, client 1 asks for it as \<open>c\<close>.\<close>

abbreviation calling :: world where
  "calling \<equiv> said_by (\<lambda>k. if k = 0 then ping_frame 108 else isync_frame 99 108)"

abbreviation calling_run :: "Tcp_Server.label list" where
  "calling_run \<equiv> Accept (ping_frame 108) # taken 0 @ wrote 0 # Accept (isync_frame 99 108) # taken 1
     @ [Forward 1 (answers_from (seen_at 1)), Receive 0 (answers_from (seen_at 0)), wrote 0]"

abbreviation calling_bytes :: bytes where
  "calling_bytes \<equiv> [0, 2, 18, 0, 0, 16, 34, 14, 10, 1, 99, 18, 9, 49, 46, 50, 46, 51, 46, 52, 58, 54]"

lemma calling_served:
  obtains s where "world_run wire_rt std_channel std_read_exact calling s" "length (tasks s) = 2" "stream_out (tasks s ! 0) = calling_bytes"
proof -
  have "map_option (\<lambda>s. (length (tasks s), stream_out (tasks s ! 0))) (wire_execs calling_run) = Some (2, calling_bytes)"
    by code_simp
  then obtain s where s: "wire_execs calling_run = Some s" "length (tasks s) = 2" "stream_out (tasks s ! 0) = calling_bytes" by auto
  have "world_run wire_rt std_channel std_read_exact calling s"
    by (rule world_execs[OF s(1) world_run.created[OF started_new]]) simp
  from this s(2,3) show thesis by (rule that)
qed


text \<open>Client 0 is \<open>t\<close>, client 1 is \<open>x\<close> and replies to \<open>l\<close>, who asks for \<open>t\<close> as client 2.\<close>

abbreviation hijacking :: world where
  "hijacking \<equiv> said_by (\<lambda>k. if k = 0 then ping_frame 116
     else if k = 1 then ping_frame 120 @ [0, 8, 10, 1, 120, 42, 3, 10, 1, 108] else isync_frame 108 116)"

abbreviation hijacking_run :: "Tcp_Server.label list" where
  "hijacking_run \<equiv> Accept (ping_frame 116) # taken 0 @ wrote 0
     # Accept (ping_frame 120 @ [0, 8, 10, 1, 120, 42, 3, 10, 1, 108]) # taken 1 @ wrote 1
     # Accept (isync_frame 108 116) # taken 2 @ Forward 2 (answers_from (seen_at 2))
     # taken 1 @ [Forward 1 (answers_from (seen_at 1)), Receive 2 (answers_from (seen_at 2)), wrote 2]"

abbreviation hijacking_bytes :: bytes where
  "hijacking_bytes \<equiv> [0, 16, 26, 14, 10, 1, 120, 18, 9, 49, 46, 50, 46, 51, 46, 52, 58, 54]"

lemma hijacking_served:
  obtains s where "world_run wire_rt std_channel std_read_exact hijacking s" "length (tasks s) = 3" "stream_out (tasks s ! 2) = hijacking_bytes"
proof -
  have "map_option (\<lambda>s. (length (tasks s), stream_out (tasks s ! 2))) (wire_execs hijacking_run) = Some (3, hijacking_bytes)"
    by code_simp
  then obtain s where s: "wire_execs hijacking_run = Some s" "length (tasks s) = 3" "stream_out (tasks s ! 2) = hijacking_bytes" by auto
  have "world_run wire_rt std_channel std_read_exact hijacking s"
    by (rule world_execs[OF s(1) world_run.created[OF started_new]]) simp
  from this s(2,3) show thesis by (rule that)
qed

text \<open>The calls of the client \<open>l\<close> on these bytes.\<close>

lemma hijacking_read:
  "read_resp wire_rt std_read_exact hijacking_bytes
    = Ret (Inr (response wire_rt [] (RespRedirect ((Redirect_new wire_rt)\<lparr>redirect_id := ''x'', redirect_addr := ''1.2.3.4:6''\<rparr>)), []))"
  by code_simp

lemma next_port_parses: "parse_addr ''1.2.3.4:6'' = Some (seen_at 1)"
proof -
  have "show_addr (V4 (Ipv4 1 2 3 4) 6) = ''1.2.3.4:6''" by code_simp
  then show ?thesis using parse_show_addr[of "V4 (Ipv4 1 2 3 4) 6"] by simp
qed

lemma hijacking_connect:
  "\<exists>sk. connect wire_rt (easy_env hijacking_bytes) some_client ''t'' = Ret (Inr sk, isync_frame 108 116) \<and> remote sk = Some (seen_at 1)"
proof -
  have "frame (Request_wire wire_rt (isync_req wire_rt ''l'' ''t'')) = isync_frame 108 116" by code_simp
  then show ?thesis
    by (simp add: connect_def choose_bind_addr_def connect_server_def bind_def resolve_first_def connect_socket_def
        write_req_clean[OF wire.pb_runtime_axioms isync_clean] connect_redirected_def hijacking_read response_def
        next_port_parses socket_addr_def)
qed

abbreviation calling_client :: "Tcp_Background.label list" where
  "calling_client \<equiv> [Listen (easy_listen calling_bytes), Conn 0 (Recv False), Conn 0 (Write (Inr ()) (Inr ())),
     Conn 0 (Tcp_Background.Read (easy_os any_v4))]"

abbreviation hear_call :: "Tcp_Background.label" where
  "hear_call \<equiv> Conn 0 (Tcp_Background.Read (easy_os any_v4))"

lemma calling_read:
  "read_resp wire_rt std_read_exact (drop 4 calling_bytes)
    = Ret (Inr (response wire_rt [] (RespFsync ((Fsync_new wire_rt)\<lparr>fsync_id := ''c'', fsync_addr := ''1.2.3.4:6''\<rparr>)), []))"
  by code_simp

lemma made_in_append: "execs rt ls s = Some s' \<Longrightarrow> made_in rt (ls @ ms) s = made_in rt ls s @ made_in rt ms s'"
  by (induction ls arbitrary: s) (auto split: option.splits)

lemma calling_heard:
  obtains cs where "wire_run (calling_client @ [hear_call]) = Some cs" "length (conns cs) = 1"
    "c_attempts (conns cs ! 0) = [(any_v4, seen_at 1)]" "c_out (conns cs ! 0) = ping_frame 108"
    "se_in (made_in wire_rt (calling_client @ [hear_call]) (opened some_client) ! 0) = calling_bytes"
proof -
  have "map_option (\<lambda>cs. (length (conns cs), c_reader (conns cs ! 0) = RRead, c_in (conns cs ! 0), c_local (conns cs ! 0),
      c_attempts (conns cs ! 0), c_out (conns cs ! 0))) (wire_run calling_client)
    = Some (1, True, drop 4 calling_bytes, any_v4, [], ping_frame 108)" by code_simp
  then obtain cs where c: "wire_run calling_client = Some cs" "length (conns cs) = 1" "c_reader (conns cs ! 0) = RRead"
      "c_in (conns cs ! 0) = drop 4 calling_bytes" "c_local (conns cs ! 0) = any_v4" "c_attempts (conns cs ! 0) = []"
      "c_out (conns cs ! 0) = ping_frame 108" by auto
  note heard = calling_read[folded c(4)]
  obtain cs' where r: "exec wire_rt hear_call cs = Some cs'" "length (conns cs') = 1" "c_attempts (conns cs' ! 0) = [(any_v4, seen_at 1)]"
      "c_out (conns cs' ! 0) = ping_frame 108"
    by (simp add: c(2,3,5-7) heard read_turn_def response_def next_port_parses bind_def)
  have "wire_run (calling_client @ [hear_call]) = Some cs'" using c(1) r(1) by (simp only: execs_append execs.simps option.case)
  moreover have "map se_in (made_in wire_rt calling_client (opened some_client)) = [calling_bytes]" by code_simp
  then have "se_in (made_in wire_rt (calling_client @ [hear_call]) (opened some_client) ! 0) = calling_bytes"
    unfolding made_in_append[OF c(1)] by auto
  ultimately show thesis using r(2-4) by (intro that)
qed

text \<open>The listener of that run sends no \<open>Fsync\<close>.\<close>

lemma calling_quiet: "\<not> asks_in wire_rt std_read_exact calling 0 (Tell who t)"
proof -
  have "request_frames wire_rt ''l'' [ReqPing (Ping_new wire_rt)] = ping_frame 108" by code_simp
  then have p: "prefix (w_stream calling 0) (request_frames wire_rt ''l'' [ReqPing (Ping_new wire_rt)])" by simp
  show ?thesis
  proof
    assume "asks_in wire_rt std_read_exact calling 0 (Tell who t)"
    from asked_of_listener[OF wire.pb_runtime_axioms std_reader.exact_reader_axioms _ _ p _ this, of "{}"]
    show False by (auto simp: bounded_def utf8_valid_ascii listening_def)
  qed
qed

section \<open>Properties\<close>

text \<open>C14. A listening TCP client makes holes only for those who asked for it. In every run of the
  server, with any number of other clients that send what they like, and every run of the
  client with any interleaving of its threads: if what the client reads on a connection is
  a beginning of what the server wrote there, what the server reads there is a beginning of what
  the client wrote, and the server finds no Fsync in it, then every address to which the
  client attempts to connect is the one at which the server saw a connection that asked for the client's
  identity, and every reply of the client names an identity in which that was asked.\<close>

theorem tcp_holes_wanted:
  assumes "pb_runtime rt" "exact_reader rd" "bounded_channel ch items capacity"
    and "world_run rt ch rd W s" "length (tasks s) < 2 ^ 64"
    and "execs rt ls (opened cl) = Some cs" "bounded 1500 (client_id cl)" "j < length (conns cs)"
    and "linked W s i (se_in (made_in rt ls (opened cl) ! j)) (c_out (conns cs ! j))"
    and "\<forall>who t. \<not> asks_in rt rd W i (Tell who t)"
  shows "(\<forall>(la, a) \<in> set (c_attempts (conns cs ! j)). \<exists>who b. asked_for rt rd W (client_id cl) who b \<and> a = clear_flow b)
    \<and> (\<forall>who. asks_in rt rd W i (Ask (client_id cl) (CRsync who)) \<longrightarrow> (\<exists>b. asked_for rt rd W (client_id cl) who b))"
proof -
  have c: "conn_sim rt (client_id cl) (se_in (made_in rt ls (opened cl) ! j)) (conns cs ! j)"
    using list_all2_nthD2[OF run_sim[OF assms(6)] assms(8)] .
  note l = listener_linked[OF assms(1-5,9) c assms(7) assms(10)[rule_format]]
  show ?thesis using l(1) l(2) by fastforce
qed

theorem tcp_holes_wanted_witness:
  "\<exists>s cs. world_run wire_rt std_channel std_read_exact calling s \<and> wire_run (calling_client @ [hear_call]) = Some cs
    \<and> c_attempts (conns cs ! 0) = [(any_v4, seen_at 1)]
    \<and> (\<exists>who b. asked_for wire_rt std_read_exact calling ''l'' who b \<and> seen_at 1 = clear_flow b)"
proof -
  obtain s where s: "world_run wire_rt std_channel std_read_exact calling s" "length (tasks s) = 2" "stream_out (tasks s ! 0) = calling_bytes"
    by (rule calling_served)
  obtain cs where c: "wire_run (calling_client @ [hear_call]) = Some cs" "length (conns cs) = 1"
    "c_attempts (conns cs ! 0) = [(any_v4, seen_at 1)]" "c_out (conns cs ! 0) = ping_frame 108"
    "se_in (made_in wire_rt (calling_client @ [hear_call]) (opened some_client) ! 0) = calling_bytes"
    by (rule calling_heard)
  have n: "length (tasks s) < 2 ^ 64" "0 < length (conns cs)" using s(2) c(2) by simp_all
  have who: "bounded 1500 (client_id some_client)" by (simp add: bounded_def utf8_valid_ascii)
  have l: "linked calling s 0 (se_in (made_in wire_rt (calling_client @ [hear_call]) (opened some_client) ! 0)) (c_out (conns cs ! 0))"
    unfolding c(4,5) linked_def by (simp add: s(2,3))
  from tcp_holes_wanted[OF wire.pb_runtime_axioms std_reader.exact_reader_axioms std_chan.bounded_channel_axioms s(1) n(1) c(1) who n(2) l]
  have "\<exists>who b. asked_for wire_rt std_read_exact calling ''l'' who b \<and> seen_at 1 = clear_flow b"
    using calling_quiet by (simp add: c(3))
  with s(1) c(1,3) show ?thesis by blast
qed

text \<open>C15. A TCP stream leads to somebody who wants it. In every run of the server, with any number of
  other clients: if what \<open>connect\<close> reads is a beginning of what the server wrote on the
  connection, what the server reads there is a beginning of what \<open>connect\<close> wrote, and
  it returns a stream, then some client replied to the caller's identity in the name of an
  identity, and the stream goes to the address at which the server saw a connection that
  claimed that identity.\<close>

theorem tcp_streams_wanted:
  assumes "pb_runtime rt" "exact_reader rd" "bounded_channel ch items capacity"
    and "world_run rt ch rd W s" "length (tasks s) < 2 ^ 64"
    and "connect rt env cl t = Ret (Inr sk, out)" "bounded 1500 (client_id cl)" "bounded 1500 t"
    and "linked W s i (ce_in env) out"
  shows "\<exists>who k j. asks_in rt rd W k (Ask who (CRsync (client_id cl))) \<and> claims (asks_in rt rd W) j who
    \<and> remote sk = Some (clear_flow (w_addr W j))"
  by (rule connector_linked[OF assms(1-5,9,6-8)])

theorem tcp_streams_wanted_witness:
  "\<exists>s sk. world_run wire_rt std_channel std_read_exact hijacking s
    \<and> connect wire_rt (easy_env hijacking_bytes) some_client ''t'' = Ret (Inr sk, isync_frame 108 116) \<and> remote sk = Some (seen_at 1)
    \<and> (\<exists>who k j. asks_in wire_rt std_read_exact hijacking k (Ask who (CRsync ''l''))
         \<and> claims (asks_in wire_rt std_read_exact hijacking) j who \<and> seen_at 1 = clear_flow (w_addr hijacking j))"
proof -
  obtain s where s: "world_run wire_rt std_channel std_read_exact hijacking s" "length (tasks s) = 3" "stream_out (tasks s ! 2) = hijacking_bytes"
    by (rule hijacking_served)
  obtain sk where k: "connect wire_rt (easy_env hijacking_bytes) some_client ''t'' = Ret (Inr sk, isync_frame 108 116)" "remote sk = Some (seen_at 1)"
    using hijacking_connect by blast
  have b: "bounded 1500 (client_id some_client)" "bounded 1500 ''t''" by (simp_all add: bounded_def utf8_valid_ascii)
  have l: "linked hijacking s 2 (ce_in (easy_env hijacking_bytes)) (isync_frame 108 116)" by (simp add: linked_def s(2,3))
  have "length (tasks s) < 2 ^ 64" by (simp add: s(2))
  from tcp_streams_wanted[OF wire.pb_runtime_axioms std_reader.exact_reader_axioms std_chan.bounded_channel_axioms s(1) this k(1) b l]
  have "\<exists>who k j. asks_in wire_rt std_read_exact hijacking k (Ask who (CRsync ''l''))
      \<and> claims (asks_in wire_rt std_read_exact hijacking) j who \<and> seen_at 1 = clear_flow (w_addr hijacking j)"
    using k(2) by simp
  with s(1) k show ?thesis by blast
qed

end
