(* ===== verification/Tcp_Reconnect.thy ===== *)
theory Tcp_Reconnect
  imports Tcp_Background_Correct
begin

text \<open>
  How the threads of the blocking TCP client meet at the condition variable: without
  spurious wake-ups the assertion of \<open>listen\<close> holds and the shutdown reaches every
  connection; a broken connection is replaced when its report finds the thread of \<open>listen\<close>
  waiting, and never otherwise; a spurious wake-up or a second \<open>listen\<close> stops a thread and
  poisons the mutex.
\<close>

section \<open>Without spurious wake-ups\<close>

text \<open>A client that called \<open>listen\<close> once.\<close>

abbreviation single :: "'u System \<Rightarrow> bool" where
  "single s \<equiv> length (threads s) \<le> 1"

lemma singleE:
  assumes "single s"
  obtains "threads s = []" | t where "threads s = [t]"
  using assms by (cases "threads s") auto

text \<open>A connection whose joiner has nothing left to report.\<close>

definition over :: "'u Connection \<Rightarrow> bool" where
  "over c \<longleftrightarrow> c_joiner c \<in> {JNone, JDone}"

definition watcher_calm :: "bool \<Rightarrow> 'u Connection \<Rightarrow> bool" where
  "watcher_calm e c \<longleftrightarrow> (c_watcher c = VDone False \<longrightarrow> c_joiner c = JDone)
     \<and> (c_watcher c = VWoken \<longrightarrow> e \<or> c_joiner c = JDone) \<and> c_watcher c \<noteq> VPanicked"

definition one_live :: "'u Connection list \<Rightarrow> bool" where
  "one_live cs \<longleftrightarrow> (\<forall>i < length cs. \<forall>j < length cs. \<not> over (cs ! i) \<and> \<not> over (cs ! j) \<longrightarrow> i = j)"

text \<open>
  \<open>asleep\<close>: the points at which a thread does not know of a connection. \<open>hearing\<close>: those at
  which a report can find it.
\<close>

abbreviation asleep :: "reconnect \<Rightarrow> bool" where
  "asleep m \<equiv> m \<in> {MConnect, MPause, MSleep, MSlept, MPanicked}"

abbreviation hearing :: "reconnect \<Rightarrow> bool" where
  "hearing m \<equiv> m \<in> {MLock, MWait, MWoken, MReturned}"

definition calm :: "'u System \<Rightarrow> bool" where
  "calm s \<longleftrightarrow> \<not> poisoned s \<and> single s
   \<and> (\<forall>t \<in> set (threads s). t_point t = MWoken \<longrightarrow> exit (signal s) \<or> broken (signal s))
   \<and> (broken (signal s) \<longrightarrow> threads s \<noteq> [] \<and> (\<forall>t \<in> set (threads s). hearing (t_point t)))
   \<and> (broken (signal s) \<or> (\<forall>t \<in> set (threads s). asleep (t_point t)) \<longrightarrow> (\<forall>c \<in> set (conns s). over c))
   \<and> one_live (conns s) \<and> (\<forall>c \<in> set (conns s). watcher_calm (exit (signal s)) c)"

lemma all_over_one_live: "\<forall>c \<in> set cs. over c \<Longrightarrow> one_live cs"
  by (auto simp: one_live_def)

lemma one_live_same:
  assumes "one_live cs" "over c \<longleftrightarrow> over (cs ! j)"
  shows "one_live (cs[j := c])"
proof -
  have "over (cs[j := c] ! i) \<longleftrightarrow> over (cs ! i)" if "i < length cs" for i
    using assms(2) that by (simp add: nth_update)
  then show ?thesis using assms(1) unfolding one_live_def by simp
qed

lemma one_live_map: "(\<And>c. over (f c) \<longleftrightarrow> over c) \<Longrightarrow> one_live (map f cs) \<longleftrightarrow> one_live cs"
  by (auto simp: one_live_def)

lemma one_live_append: "\<forall>c \<in> set cs. over c \<Longrightarrow> one_live (cs @ [c])"
  by (auto simp: one_live_def nth_append less_Suc_eq)

lemma one_live_over: "one_live cs \<Longrightarrow> over c \<Longrightarrow> one_live (cs @ [c])"
  by (auto simp: one_live_def nth_append less_Suc_eq)

lemma over_update: "\<forall>c \<in> set cs. over c \<Longrightarrow> over c \<longleftrightarrow> over (cs ! j) \<Longrightarrow> j < length cs \<Longrightarrow> \<forall>c \<in> set (cs[j := c]). over c"
  using set_update_subset_insert[of cs j c] by auto

lemma conn_step_watcher:
  "conn_step rt who a c = Some c' \<Longrightarrow>
    c_watcher c' = c_watcher c \<and> (over c' \<longleftrightarrow> over c) \<and> (c_joiner c' = JDone \<longleftrightarrow> c_joiner c = JDone)"
  by (erule conn_step_cases) (auto simp: over_def)

text \<open>A change of one connection that neither ends nor revives it.\<close>

lemma calm_put:
  assumes "calm s" "j < length (conns s)" "over c \<longleftrightarrow> over (conns s ! j)" "watcher_calm (exit (signal s)) c"
  shows "calm (put j c s)"
  using assms over_update[of "conns s" c j] one_live_same[of "conns s" c j] put_all[of s "watcher_calm (exit (signal s))" c j]
  by (simp add: calm_def)

lemma calm_announce:
  assumes "calm s" "system_typed s" "j < length (conns s)" "c_joiner (conns s ! j) = JSignal"
  shows "calm (announce j s)"
proof -
  have live: "\<not> over (conns s ! j)" using assms(4) by (simp add: over_def)
  let ?cs = "(conns s)[j := (conns s ! j)\<lparr>c_joiner := JDone\<rparr>]"
  have ov: "\<forall>c \<in> set ?cs. over c"
  proof
    fix c assume "c \<in> set ?cs"
    then obtain i where i: "i < length (conns s)" "c = ?cs ! i" by (auto simp: in_set_conv_nth)
    show "over c"
    proof (cases "i = j")
      case True
      then show ?thesis using i by (simp add: over_def)
    next
      case False
      then have "over (conns s ! i)" using assms(1,3) live i(1) unfolding calm_def one_live_def by blast
      then show ?thesis using i False by simp
    qed
  qed
  have "\<not> (\<forall>c \<in> set (conns s). over c)" using live assms(3) by auto
  then obtain t where t: "t \<in> set (threads s)" "\<not> asleep (t_point t)" using assms(1) unfolding calm_def by blast
  then have ne: "threads s \<noteq> []" by auto
  have "single s" using assms(1) by (simp add: calm_def)
  then have m: "\<forall>t \<in> set (threads s). hearing (t_point t)" by (cases rule: singleE; cases "t_point t") (use t in auto)
  have w: "watcher_calm (exit (signal s)) (c\<lparr>c_watcher := wake_watcher (c_watcher c)\<rparr>)" if c: "c \<in> set ?cs" for c
  proof -
    have "watcher_calm (exit (signal s)) c"
    proof (cases "c = (conns s ! j)\<lparr>c_joiner := JDone\<rparr>")
      case True
      then show ?thesis using assms(1,3) by (auto simp: calm_def watcher_calm_def)
    next
      case False
      then have "c \<in> set (conns s)" using set_update_subset_insert[of "conns s" j "(conns s ! j)\<lparr>c_joiner := JDone\<rparr>"] c by blast
      then show ?thesis using assms(1) by (simp add: calm_def)
    qed
    moreover have "c_joiner c = JNone \<longrightarrow> c_watcher c = VNone"
    proof (cases "c = (conns s ! j)\<lparr>c_joiner := JDone\<rparr>")
      case False
      then have "c \<in> set (conns s)" using set_update_subset_insert[of "conns s" j "(conns s ! j)\<lparr>c_joiner := JDone\<rparr>"] c by blast
      then show ?thesis using assms(2) by (simp add: system_typed_def conn_typed_def)
    qed simp
    ultimately show ?thesis using ov c by (auto simp: watcher_calm_def over_def wake_watcher_def)
  qed
  have "one_live ?cs" by (rule all_over_one_live[OF ov])
  then show ?thesis
    using ov m w assms(1) ne by (auto simp: calm_def one_live_map over_def)
qed

lemma calm_reconnect:
  assumes "calm s" "i < length (threads s)" "reconnect_step rt i env s = Some s'"
  shows "calm s'"
proof -
  have "single s" using assms(1) by (simp add: calm_def)
  then obtain t where t: "threads s = [t]" "i = 0" by (cases rule: singleE) (use assms(2) in auto)
  show ?thesis
    using assms(3)
  proof (cases rule: reconnect_step_cases)
    case ok
    then show ?thesis
      using assms(1) one_live_append[of "conns s" "fresh rt env (t_local t)"] t
      by (auto simp: calm_def watcher_calm_def fresh_def)
  next
    case (failed cs)
    then have "\<forall>c \<in> set (conns s @ cs). over c" using assms(1) t by (auto simp: calm_def over_def)
    then show ?thesis
      using failed assms(1) all_over_one_live[of "conns s @ cs"] t by (auto simp: calm_def watcher_calm_def fresh_def)
  qed (use assms(1) t in \<open>auto simp: calm_def\<close>)
qed

lemma calm_exec:
  assumes "calm s" "system_typed s" "exec rt l s = Some s'" "\<not> spurious l" "single s'"
  shows "calm s'"
proof (cases l)
  case (Conn j a)
  then obtain c where c: "j < length (conns s)" "conn_step rt (client_id (client s)) a (conns s ! j) = Some c" "s' = put j c s"
    using assms(3) by (auto split: if_splits)
  have "watcher_calm (exit (signal s)) (conns s ! j)" using assms(1) c(1) by (simp add: calm_def)
  then show ?thesis
    using calm_put[OF assms(1) c(1)] conn_step_watcher[OF c(2)] c(3) by (simp add: watcher_calm_def)
next
  case (Announce j)
  then show ?thesis using calm_announce[OF assms(1,2)] assms(3) by (auto split: if_splits)
next
  case (Watch j)
  then have j: "j < length (conns s)" and w: "watch j s = Some s'" using assms(3) by (auto split: if_splits)
  have "watcher_calm (exit (signal s)) (conns s ! j)" "\<not> poisoned s" using assms(1) j by (simp_all add: calm_def)
  moreover obtain v where v: "v \<notin> {VNone, VLock, VWoken}" "v = VDone False \<longrightarrow> c_watcher (conns s ! j) = VWoken"
      "\<forall>b. v = VDone b \<longrightarrow> b = exit (signal s)" "v = VPanicked \<longrightarrow> poisoned s" "s' = put j ((conns s ! j)\<lparr>c_watcher := v\<rparr>) s"
    using watch_Some[OF w] by blast
  ultimately show ?thesis using calm_put[OF assms(1) j, of "(conns s ! j)\<lparr>c_watcher := v\<rparr>"] by (auto simp: watcher_calm_def over_def)
next
  case (Reconnect i env)
  then show ?thesis using calm_reconnect[OF assms(1)] assms(3) by (simp split: if_splits)
next
  case (Listen env)
  then have s': "s' = fst (listen rt env s)" using assms(3) by simp
  show ?thesis
  proof (cases rule: listen_cases[of rt env s])
    case (failed la r)
    have "over (orphan (fresh rt (le_start env) la))" by (simp add: over_def)
    then have "one_live (conns s')" using assms(1) s' failed one_live_over[of "conns s"] by (simp add: calm_def)
    with failed show ?thesis using s' assms(1) by (auto simp: calm_def watcher_calm_def fresh_def over_def)
  next
    case (ok la l r)
    then have t: "threads s = []" using s' assms(5) by simp
    then have ov: "\<forall>c \<in> set (conns s). over c" using assms(1) by (simp add: calm_def)
    from ok t show ?thesis
      using s' assms(1) one_live_append[OF ov, of "fresh rt (le_start env) la"] by (auto simp: calm_def watcher_calm_def fresh_def)
  qed (use s' assms(1) in simp)
next
  case Shutdown
  then have s': "s' = fst (shutdown s)" using assms(3) by simp
  have np: "\<not> poisoned s" "single s" using assms(1) by (simp_all add: calm_def)
  have "one_live (conns s')"
    using assms(1) s' np one_live_map[of "\<lambda>c. c\<lparr>c_watcher := wake_watcher (c_watcher c)\<rparr>" "conns s"]
    by (simp add: calm_def over_def)
  moreover have "\<forall>c \<in> set (conns s'). watcher_calm True c"
  proof -
    have "watcher_calm (exit (signal s)) c" if "c \<in> set (conns s)" for c using assms(1) that by (simp add: calm_def)
    then show ?thesis using s' np by (simp add: watcher_calm_def)
  qed
  moreover have "asleep (t_point t) \<longleftrightarrow> asleep (wake_reconnect (t_point t))"
      "hearing (t_point t) \<longleftrightarrow> hearing (wake_reconnect (t_point t))" for t
    by (cases "t_point t"; simp add: wake_reconnect_def)+
  ultimately show ?thesis using assms(1) s' np unfolding calm_def by (simp add: over_def)
next
  case (SleepOver i)
  then have i: "i < length (threads s)" "t_point (threads s ! i) = MSleep" "s' = put_thread i MSlept s" using assms(3) by (auto split: if_splits)
  have "single s" using assms(1) by (simp add: calm_def)
  then obtain t where "threads s = [t]" "i = 0" by (cases rule: singleE) (use i in auto)
  then show ?thesis using assms(1) i by (simp add: calm_def)
qed (use assms(4) in simp_all)

lemma reachable_calm: "reachable rt sp s \<Longrightarrow> \<not> sp \<Longrightarrow> single s \<Longrightarrow> calm s"
proof (induction rule: reachable.induct)
  case (created server who la c)
  show ?case by (simp add: calm_def opened_def one_live_def)
next
  case (moved s l s')
  then have "single s" using exec_threads_length[OF moved.hyps(2)] by simp
  then show ?case using calm_exec[OF _ reachable_typed[OF moved.hyps(1)] moved.hyps(2)] moved by blast
qed

text \<open>C11. The assertion of \<open>listen\<close> holds in a client that called \<open>listen\<close> once: as long as no
  wake-up is spurious, the thread that waits for a report finds \<open>exit\<close> or \<open>broken\<close> set
  when it is woken, the mutex is never poisoned, and \<open>shutdown\<close> and the drop of the client
  succeed.\<close>

theorem tcp_assert_holds:
  assumes "reachable rt False s" "single s"
  shows "\<not> poisoned s \<and> snd (shutdown s) = Ret (Inr ()) \<and> snd (drop_client s) = Ret ()
    \<and> (\<forall>i env s'. i < length (threads s) \<and> t_point (threads s ! i) = MWoken \<and> exec rt (Reconnect i env) s = Some s' \<longrightarrow>
          t_point (threads s' ! i) = (if exit (signal s) then MReturned else MConnect))"
proof -
  have c: "calm s" using reachable_calm[OF assms(1) _ assms(2)] by simp
  then have np: "\<not> poisoned s" and w: "\<And>i. i < length (threads s) \<Longrightarrow> t_point (threads s ! i) = MWoken \<Longrightarrow> exit (signal s) \<or> broken (signal s)"
    by (auto simp: calm_def)
  then show ?thesis by (auto simp: drop_client_def case_prod_unfold reconnect_step_def after_wait_def)
qed

theorem tcp_assert_holds_witness:
  "\<exists>s. wire_run ([Listen (easy_listen []), Reconnect 0 (easy_start [])] @ ended @ [Announce 0]) = Some s
     \<and> t_point (threads s ! 0) = MWoken
     \<and> (\<forall>env s'. exec wire_rt (Reconnect 0 env) s = Some s' \<longrightarrow> t_point (threads s' ! 0) = MConnect)"
proof -
  let ?ls = "[Listen (easy_listen []), Reconnect 0 (easy_start [])] @ ended @ [Announce 0]"
  have "case wire_run ?ls of None \<Rightarrow> False | Some s \<Rightarrow> length (threads s) = 1 \<and> t_point (threads s ! 0) = MWoken \<and> \<not> exit (signal s)"
    by code_simp
  then obtain s where s: "wire_run ?ls = Some s" "length (threads s) = 1" "t_point (threads s ! 0) = MWoken" "\<not> exit (signal s)"
    using case_SomeD by blast
  have "reachable wire_rt False s" by (rule client_run_reachable[OF s(1)]) simp
  from tcp_assert_holds[OF this] s show ?thesis by (intro exI[of _ s]) simp
qed

section \<open>The exit is seen\<close>

text \<open>Once \<open>exit\<close> is set nobody waits any more.\<close>

definition exit_seen :: "'u System \<Rightarrow> bool" where
  "exit_seen s \<longleftrightarrow> (exit (signal s) \<longrightarrow> (\<forall>t \<in> set (threads s). t_point t \<notin> {MWait, MSleep}) \<and> (\<forall>c \<in> set (conns s). c_watcher c \<noteq> VWait))"

lemma put_watcher: "\<forall>c \<in> set cs. c_watcher c \<noteq> VWait \<Longrightarrow> c_watcher c \<noteq> VWait \<Longrightarrow> \<forall>c \<in> set (cs[j := c]). c_watcher c \<noteq> VWait"
  using set_update_subset_insert[of cs j c] by auto

lemma set_update_point:
  "t' \<in> set (ts[i := t\<lparr>t_point := m\<rparr>]) \<Longrightarrow> t_point t' = m \<or> t' \<in> set ts"
  using set_update_subset_insert[of ts i "t\<lparr>t_point := m\<rparr>"] by auto

lemma exit_seen_exec:
  assumes "exit_seen s" "exec rt l s = Some s'"
  shows "exit_seen s' \<and> (exit (signal s) \<longrightarrow> exit (signal s'))"
proof (cases l)
  case (Conn j a)
  then obtain c where c: "j < length (conns s)" "conn_step rt (client_id (client s)) a (conns s ! j) = Some c" "s' = put j c s"
    using assms(2) by (auto split: if_splits)
  show ?thesis
    using assms(1) put_watcher[of "conns s" c j] conn_step_watcher[OF c(2)] c(1,3) by (simp add: exit_seen_def)
next
  case (Announce j)
  then have j: "j < length (conns s)" and s': "s' = announce j s" using assms(2) by (auto split: if_splits)
  show ?thesis
    using assms(1) s' j put_watcher[of "conns s" "(conns s ! j)\<lparr>c_joiner := JPanicked\<rparr>" j]
    by (simp add: exit_seen_def)
next
  case (Watch j)
  then have j: "j < length (conns s)" and w: "watch j s = Some s'" using assms(2) by (auto split: if_splits)
  then obtain v where "exit (signal s) \<longrightarrow> v \<noteq> VWait" "s' = put j ((conns s ! j)\<lparr>c_watcher := v\<rparr>) s"
    using watch_Some[OF w] by blast
  then show ?thesis using assms(1) put_watcher[of "conns s" "(conns s ! j)\<lparr>c_watcher := v\<rparr>" j] by (simp add: exit_seen_def)
next
  case (Reconnect i env)
  then have "reconnect_step rt i env s = Some s'" using assms(2) by (simp split: if_splits)
  then show ?thesis
    by (cases rule: reconnect_step_cases) (use assms(1) in \<open>auto simp: exit_seen_def fresh_def dest!: set_update_point\<close>)
next
  case (SpuriousWatcher j)
  then have "s' = put j ((conns s ! j)\<lparr>c_watcher := VWoken\<rparr>) s" using assms(2) by (auto split: if_splits)
  then show ?thesis using assms(1) put_watcher[of "conns s" "(conns s ! j)\<lparr>c_watcher := VWoken\<rparr>" j] by (simp add: exit_seen_def)
next
  case (Listen env)
  then have "s' = fst (listen rt env s)" using assms(2) by simp
  then show ?thesis
    using assms(1) by (cases rule: listen_cases[of rt env s]) (auto simp: exit_seen_def fresh_def)
next
  case Shutdown
  then have "s' = fst (shutdown s)" using assms(2) by simp
  then show ?thesis using assms(1) by (simp add: exit_seen_def)
qed (use assms in \<open>auto simp: exit_seen_def dest!: set_update_point split: if_splits\<close>)

lemma reachable_exit_seen: "reachable rt sp s \<Longrightarrow> exit_seen s"
proof (induction rule: reachable.induct)
  case (moved s l s')
  then show ?case using exit_seen_exec by blast
qed (simp add: exit_seen_def opened_def)

text \<open>C26. The shutdown reaches the server connection in a client that called \<open>listen\<close> once:
  when \<open>exit\<close> is set, and as long as no wake-up was spurious, the socket of every
  background connection has been shut down, or the next move of its watcher does it, unless
  both loops have ended and been reported.\<close>

theorem tcp_exit_shuts:
  assumes "reachable rt False s" "single s" "exit (signal s)" "j < length (conns s)" "spawned (conns s ! j)"
  shows "is_shut (conns s ! j) \<or> c_joiner (conns s ! j) = JDone
    \<or> (\<exists>s'. exec rt (Watch j) s = Some s' \<and> is_shut (conns s' ! j))"
proof -
  let ?c = "conns s ! j"
  have c: "calm s" using reachable_calm[OF assms(1) _ assms(2)] by simp
  have "exit_seen s" by (rule reachable_exit_seen[OF assms(1)])
  then have nw: "c_watcher ?c \<noteq> VWait" using assms(3,4) by (simp add: exit_seen_def)
  have "conn_typed ?c" using reachable_typed[OF assms(1)] assms(4) by (simp add: system_typed_def)
  then have nn: "c_watcher ?c \<noteq> VNone" using assms(5) by (simp add: conn_typed_def spawned_def)
  have w: "watcher_calm True ?c" "\<not> poisoned s" using c assms(3,4) by (auto simp: calm_def)
  show ?thesis
    using nw nn w assms(3,4)
    by (cases "c_watcher ?c") (auto simp: is_shut_def watcher_calm_def watch_def Let_def)
qed

theorem tcp_exit_shuts_witness:
  "\<exists>s s'. wire_run [Listen (easy_listen []), Watch 0, Shutdown] = Some s
     \<and> exec wire_rt (Watch 0) s = Some s' \<and> is_shut (conns s' ! 0)"
proof -
  let ?ls = "[Listen (easy_listen []), Watch 0, Shutdown]"
  have "case wire_run ?ls of None \<Rightarrow> False | Some s \<Rightarrow> length (threads s) = 1 \<and> exit (signal s) \<and> length (conns s) = 1
    \<and> c_joiner (conns s ! 0) = JWriter \<and> c_watcher (conns s ! 0) = VWoken" by code_simp
  then obtain s where s: "wire_run ?ls = Some s" "length (threads s) = 1" "exit (signal s)" "length (conns s) = 1"
      "c_joiner (conns s ! 0) = JWriter" "c_watcher (conns s ! 0) = VWoken" using case_SomeD by blast
  have "reachable wire_rt False s" by (rule client_run_reachable[OF s(1)]) simp
  from tcp_exit_shuts[OF this _ s(3), of 0] s show ?thesis by (auto simp: spawned_def is_shut_def)
qed


definition moves_left :: "reconnect \<Rightarrow> nat" where
  "moves_left m = (if m \<in> {MReturned, MPanicked} then 0 else if m = MConnect then 2 else 1)"

lemma connect_server_ends: "connect_server resolve os la server \<noteq> Hang"
proof -
  have "bind os la \<noteq> Hang" by (auto simp: bind_def unwrap_def ques_def split: sum.split)
  then show ?thesis
    by (cases "bind os la") (auto simp: connect_server_def ques_call_def ques_def split: sum.split)
qed

lemma start_background_ends: "start_background rt env la server \<noteq> Hang"
  using connect_server_ends[of "se_resolve env" "se_os env" la server]
  by (cases "connect_server (se_resolve env) (se_os env) la server")
     (auto simp: start_background_def Let_def split: sum.split)

lemma other_reconnect:
  assumes "exec rt l s = Some s'" "i < length (threads s)" "\<not> (\<exists>env. l = Reconnect i env)"
  shows "t_point (threads s' ! i) = t_point (threads s ! i) \<or> t_point (threads s' ! i) = wake_reconnect (t_point (threads s ! i))
    \<or> (l = SleepOver i \<and> t_point (threads s ! i) = MSleep)"
proof (cases l)
  case (Watch j)
  then show ?thesis using assms watch_Some[of j s s'] by (auto split: if_splits)
next
  case (Reconnect k env)
  then have "k \<noteq> i" "reconnect_step rt k env s = Some s'" using assms by (auto split: if_splits)
  from this(2,1) show ?thesis by (cases rule: reconnect_step_cases) simp_all
next
  case (Listen env)
  then have "s' = fst (listen rt env s)" using assms(1) by simp
  then show ?thesis using assms(2) by (cases rule: listen_cases[of rt env s]) (auto simp: nth_append)
qed (use assms in \<open>auto simp: nth_list_update split: if_splits\<close>)

text \<open>The shutdown ends the threads of \<open>listen\<close>: once \<open>exit\<close> is set, spurious wake-ups or
  not, a thread is never at a waiting point, it can always move until it has ended, and
  it ends within two moves of its own, whatever the other threads do in between.\<close>

theorem tcp_exit_ends:
  assumes "reachable rt sp s" "exit (signal s)" "i < length (threads s)"
  shows "moves_left (t_point (threads s ! i)) \<le> 2
    \<and> (0 < moves_left (t_point (threads s ! i)) \<longrightarrow> (\<forall>env. exec rt (Reconnect i env) s \<noteq> None))
    \<and> (\<forall>l s'. exec rt l s = Some s' \<longrightarrow> exit (signal s')
          \<and> moves_left (t_point (threads s' ! i)) \<le> moves_left (t_point (threads s ! i))
          \<and> (\<forall>env. l = Reconnect i env \<longrightarrow> moves_left (t_point (threads s' ! i)) < moves_left (t_point (threads s ! i))))"
proof -
  let ?m = "t_point (threads s ! i)"
  have e: "exit_seen s" by (rule reachable_exit_seen[OF assms(1)])
  then have m: "?m \<notin> {MWait, MSleep}" using assms(2,3) by (simp add: exit_seen_def)
  have go: "exec rt (Reconnect i env) s \<noteq> None" if "0 < moves_left ?m" for env
    using that m assms(3) start_background_ends[of rt env "t_local (threads s ! i)" "server_addr (client s)"]
    by (cases ?m; cases "start_background rt env (t_local (threads s ! i)) (server_addr (client s))")
       (auto simp: moves_left_def reconnect_step_def try_connect_def split: prod.splits)
  have down: "moves_left (t_point (threads s' ! i)) < moves_left ?m" if "exec rt (Reconnect i env) s = Some s'" for env s'
  proof -
    have "reconnect_step rt i env s = Some s'" using that assms(3) by simp
    then show ?thesis by (cases rule: reconnect_step_cases) (use assms(2,3) in \<open>auto simp: moves_left_def\<close>)
  qed
  have le: "moves_left (t_point (threads s' ! i)) \<le> moves_left ?m" if x: "exec rt l s = Some s'" for l s'
  proof (cases "\<exists>env. l = Reconnect i env")
    case True
    then obtain env where "l = Reconnect i env" by blast
    then show ?thesis using down[of env s'] x by simp
  next
    case False
    then have "t_point (threads s' ! i) = ?m \<or> t_point (threads s' ! i) = wake_reconnect ?m"
      using other_reconnect[OF x assms(3)] m by auto
    then show ?thesis using m by (auto simp: wake_reconnect_def)
  qed
  have "moves_left ?m \<le> 2" by (simp add: moves_left_def)
  moreover have "exit (signal s')" if "exec rt l s = Some s'" for l s' using exit_seen_exec[OF e that] assms(2) by simp
  ultimately show ?thesis using go down le by blast
qed

theorem tcp_exit_ends_witness:
  "\<exists>s. wire_run [Listen (easy_listen []), Reconnect 0 (easy_start []), Shutdown] = Some s
     \<and> moves_left (t_point (threads s ! 0)) = 1
     \<and> (\<forall>env. \<exists>s'. exec wire_rt (Reconnect 0 env) s = Some s' \<and> moves_left (t_point (threads s' ! 0)) = 0)"
proof -
  let ?ls = "[Listen (easy_listen []), Reconnect 0 (easy_start []), Shutdown]"
  have "case wire_run ?ls of None \<Rightarrow> False
    | Some s \<Rightarrow> exit (signal s) \<and> length (threads s) = 1 \<and> t_point (threads s ! 0) = MWoken" by code_simp
  then obtain s where s: "wire_run ?ls = Some s" "exit (signal s)" "length (threads s) = 1" "t_point (threads s ! 0) = MWoken"
    using case_SomeD by blast
  have "reachable wire_rt False s" by (rule client_run_reachable[OF s(1)]) simp
  note ends = tcp_exit_ends[OF this s(2), of 0]
  have m: "moves_left (t_point (threads s ! 0)) = 1" by (simp add: s(4) moves_left_def)
  have "\<exists>s'. exec wire_rt (Reconnect 0 env) s = Some s' \<and> moves_left (t_point (threads s' ! 0)) = 0" for env
  proof -
    obtain s' where s': "exec wire_rt (Reconnect 0 env) s = Some s'" using ends s(3) m by fastforce
    then have "moves_left (t_point (threads s' ! 0)) < 1" using ends s(3) s' m by (simp del: exec.simps)
    with s' show ?thesis by auto
  qed
  with s m show ?thesis by blast
qed

section \<open>Reports that are lost\<close>

text \<open>
  A state in which no thread is left that could wake the thread of \<open>listen\<close>: each joiner
  is done or has panicked, or is going to.
\<close>

definition silent :: "'u Connection \<Rightarrow> bool" where
  "silent c \<longleftrightarrow> c_joiner c \<in> {JNone, JDone, JPanicked} \<or> (c_reader c = RPanicked \<and> c_joiner c \<in> {JWriter, JReader})"

definition abandoned :: "'u System \<Rightarrow> bool" where
  "abandoned s \<longleftrightarrow> (\<forall>c \<in> set (conns s). silent c)
     \<and> (\<forall>t \<in> set (threads s). t_point t \<in> {MLock, MWait, MReturned, MPanicked} \<or> (t_point t = MWoken \<and> exit (signal s)))"

text \<open>The moves that could change this.\<close>

fun revives :: "label \<Rightarrow> bool" where
  "revives (SpuriousReconnect i) = True"
| "revives (Listen env) = True"
| "revives _ = False"

lemma silent_step: "conn_step rt who a c = Some c' \<Longrightarrow> silent c \<Longrightarrow> silent c'"
  by (erule conn_step_cases) (auto simp: silent_def)

lemma silent_watcher [simp]: "silent (c\<lparr>c_watcher := v\<rparr>) \<longleftrightarrow> silent c"
  by (simp add: silent_def)

lemma abandoned_exec:
  assumes "abandoned s" "exec rt l s = Some s'" "\<not> revives l"
  shows "abandoned s' \<and> length (conns s') = length (conns s)"
proof (cases l)
  case (Conn j a)
  then obtain c where c: "j < length (conns s)" "conn_step rt (client_id (client s)) a (conns s ! j) = Some c" "s' = put j c s"
    using assms(2) by (auto split: if_splits)
  have "silent c" using silent_step[OF c(2)] assms(1) c(1) by (simp add: abandoned_def)
  then show ?thesis using put_all[of s silent c j] assms(1) c(3) by (simp add: abandoned_def)
next
  case (Announce j)
  then have "j < length (conns s)" "c_joiner (conns s ! j) = JSignal" using assms(2) by (auto split: if_splits)
  then have "silent (conns s ! j)" using assms(1) unfolding abandoned_def by simp
  with \<open>c_joiner (conns s ! j) = JSignal\<close> show ?thesis by (simp add: silent_def)
next
  case (Watch j)
  then have j: "j < length (conns s)" and w: "watch j s = Some s'" using assms(2) by (auto split: if_splits)
  then obtain v where "s' = put j ((conns s ! j)\<lparr>c_watcher := v\<rparr>) s" using watch_Some[OF w] by blast
  then show ?thesis
    using put_all[of s silent "(conns s ! j)\<lparr>c_watcher := v\<rparr>" j] assms(1) j by (simp add: abandoned_def)
next
  case (SpuriousWatcher j)
  then have "j < length (conns s)" "s' = put j ((conns s ! j)\<lparr>c_watcher := VWoken\<rparr>) s" using assms(2) by (auto split: if_splits)
  then show ?thesis
    using put_all[of s silent "(conns s ! j)\<lparr>c_watcher := VWoken\<rparr>" j] assms(1) by (simp add: abandoned_def)
next
  case (Reconnect i env)
  then have i: "i < length (threads s)" "reconnect_step rt i env s = Some s'" using assms(2) by (auto split: if_splits)
  have "t_point (threads s ! i) \<in> {MLock, MWait, MReturned, MPanicked} \<or> (t_point (threads s ! i) = MWoken \<and> exit (signal s))"
    using assms(1) i(1) by (simp add: abandoned_def)
  with i(2) show ?thesis
    by (cases rule: reconnect_step_cases) (use assms(1) in \<open>auto simp: abandoned_def dest!: set_update_point\<close>)
next
  case Shutdown
  then have "s' = fst (shutdown s)" using assms(2) by simp
  then show ?thesis using assms(1) by (auto simp: abandoned_def wake_reconnect_def)
next
  case (SleepOver i)
  then have i: "threads s ! i \<in> set (threads s)" "t_point (threads s ! i) = MSleep" using assms(2) by (auto split: if_splits)
  have "t_point (threads s ! i) \<noteq> MSleep" using assms(1) i(1) unfolding abandoned_def by fastforce
  with i(2) show ?thesis by simp
qed (use assms(3) in simp_all)

lemma abandoned_execs:
  "abandoned s \<Longrightarrow> execs rt ls s = Some s' \<Longrightarrow> \<not> list_ex revives ls \<Longrightarrow>
    abandoned s' \<and> length (conns s') = length (conns s)"
proof (induction ls arbitrary: s)
  case (Cons l ls)
  then obtain s1 where "exec rt l s = Some s1" "execs rt ls s1 = Some s'" by (auto split: option.splits)
  then show ?case using Cons.IH[of s1] abandoned_exec[OF Cons.prems(1), of rt l s1] Cons.prems(3) by simp
qed simp

lemma over_silent: "over c \<Longrightarrow> silent c"
  by (auto simp: over_def silent_def)

text \<open>C29. A report that comes too early is lost: if a connection ends before the thread of
  \<open>listen\<close> has reached its wait, the joiner's notification finds nobody, the thread does not
  look at \<open>broken\<close> before it waits, and the client never connects to the server again,
  whatever its threads do, short of a spurious wake-up or another call of \<open>listen\<close>.\<close>

theorem tcp_early_report_lost:
  assumes "reachable rt False s" "threads s = [t]" "t_point t = MLock" "exec rt (Announce j) s = Some s1"
    and "execs rt ls s1 = Some s2" "\<not> list_ex revives ls"
  shows "broken (signal s1) \<and> length (conns s2) = length (conns s) \<and> (\<forall>t \<in> set (threads s2). t_point t \<noteq> MConnect)"
proof -
  have r1: "reachable rt False s1" by (rule reachable.moved[OF assms(1,4)]) simp
  have s1: "s1 = announce j s" "\<not> poisoned s"
    using assms(2,4) reachable_calm[OF assms(1)] by (auto simp: calm_def split: if_splits)
  then have b: "broken (signal s1)" "\<forall>t \<in> set (threads s1). t_point t = MLock" "length (conns s1) = length (conns s)"
      "single s1"
    using assms(2,3) by auto
  have "abandoned s1"
    using reachable_calm[OF r1 _ b(4)] b over_silent by (auto simp: calm_def abandoned_def)
  from abandoned_execs[OF this assms(5,6)] b show ?thesis by (force simp: abandoned_def)
qed

theorem tcp_early_report_lost_witness:
  "\<exists>s s1 s2. wire_run ([Listen (easy_listen [])] @ ended) = Some s \<and> exec wire_rt (Announce 0) s = Some s1
     \<and> execs wire_rt [Reconnect 0 (easy_start [])] s1 = Some s2 \<and> broken (signal s1) \<and> length (conns s2) = 1"
proof -
  let ?ls = "[Listen (easy_listen [])] @ ended"
  have "case wire_run ?ls of None \<Rightarrow> False | Some s \<Rightarrow> length (conns s) = 1 \<and> map t_point (threads s) = [MLock]
    \<and> (case exec wire_rt (Announce 0) s of None \<Rightarrow> False | Some s1 \<Rightarrow>
         (case execs wire_rt [Reconnect 0 (easy_start [])] s1 of None \<Rightarrow> False | Some s2 \<Rightarrow> True))" by code_simp
  then obtain s s1 s2 where s: "wire_run ?ls = Some s" "length (conns s) = 1" "map t_point (threads s) = [MLock]"
      "exec wire_rt (Announce 0) s = Some s1" "execs wire_rt [Reconnect 0 (easy_start [])] s1 = Some s2"
    by (auto dest!: case_SomeD)
  have "reachable wire_rt False s" by (rule client_run_reachable[OF s(1)]) simp
  moreover obtain t where "threads s = [t]" "t_point t = MLock" using s(3) by auto
  ultimately have "broken (signal s1) \<and> length (conns s2) = 1" 
    using tcp_early_report_lost[OF _ _ _ s(4,5), of t] s(2) by simp
  with s(1,4,5) show ?thesis by blast
qed

text \<open>A connection whose reader has panicked: its joiner is on the way to a panic and never to
  a report.\<close>

definition stranded :: "nat \<Rightarrow> 'u System \<Rightarrow> bool" where
  "stranded j s \<longleftrightarrow> j < length (conns s) \<and> c_reader (conns s ! j) = RPanicked \<and> c_joiner (conns s ! j) \<in> {JWriter, JReader, JPanicked}"

lemma stranded_step:
  "conn_step rt who a c = Some c' \<Longrightarrow> c_reader c = RPanicked \<Longrightarrow> c_joiner c \<in> {JWriter, JReader, JPanicked} \<Longrightarrow>
    c_reader c' = RPanicked \<and> c_joiner c' \<in> {JWriter, JReader, JPanicked}"
  by (erule conn_step_cases) auto

lemma stranded_same:
  "stranded j s \<Longrightarrow> j < length (conns s') \<Longrightarrow> c_reader (conns s' ! j) = c_reader (conns s ! j) \<Longrightarrow>
    c_joiner (conns s' ! j) = c_joiner (conns s ! j) \<Longrightarrow> stranded j s'"
  by (simp add: stranded_def)

lemma stranded_exec:
  assumes "stranded j s" "exec rt l s = Some s'" "\<not> revives l"
  shows "stranded j s'"
proof (cases l)
  case (Conn k a)
  then obtain c where c: "k < length (conns s)" "conn_step rt (client_id (client s)) a (conns s ! k) = Some c" "s' = put k c s"
    using assms(2) by (auto split: if_splits)
  show ?thesis
    using stranded_step[OF c(2)] assms(1) c(1,3) by (cases "k = j") (auto simp: stranded_def)
next
  case (Announce k)
  then have k: "k < length (conns s)" "c_joiner (conns s ! k) = JSignal" "s' = announce k s" using assms(2) by (auto split: if_splits)
  then have "k \<noteq> j" using assms(1) by (auto simp: stranded_def)
  then show ?thesis using assms(1) k by (auto simp: stranded_def announce_def Let_def)
next
  case (Watch k)
  then have k: "k < length (conns s)" and w: "watch k s = Some s'" using assms(2) by (auto split: if_splits)
  then obtain v where "s' = put k ((conns s ! k)\<lparr>c_watcher := v\<rparr>) s" using watch_Some[OF w] by blast
  then show ?thesis using assms(1) by (cases "k = j") (auto simp: stranded_def)
next
  case (SpuriousWatcher k)
  then have "s' = put k ((conns s ! k)\<lparr>c_watcher := VWoken\<rparr>) s" using assms(2) by (auto split: if_splits)
  then show ?thesis using assms(1) by (cases "k = j") (auto simp: stranded_def)
next
  case (Reconnect i env)
  then have "reconnect_step rt i env s = Some s'" using assms(2) by (auto split: if_splits)
  then show ?thesis by (cases rule: reconnect_step_cases) (use assms(1) in \<open>auto simp: stranded_def nth_append\<close>)
next
  case Shutdown
  then have "s' = fst (shutdown s)" using assms(2) by simp
  then show ?thesis using assms(1) by (auto simp: stranded_def)
qed (use assms in \<open>auto simp: stranded_def split: if_splits\<close>)

lemma stranded_execs: "stranded j s \<Longrightarrow> execs rt ls s = Some s' \<Longrightarrow> \<not> list_ex revives ls \<Longrightarrow> stranded j s'"
proof (induction ls arbitrary: s)
  case (Cons l ls)
  then obtain s1 where "exec rt l s = Some s1" "execs rt ls s1 = Some s'" by (auto split: option.splits)
  then show ?case using Cons.IH[of s1] stranded_exec[OF Cons.prems(1), of rt l s1] Cons.prems(3) by simp
qed simp

text \<open>Its own threads finish it: the writer ends, and the joiner, which has waited for it, panics.\<close>

lemma writer_ends:
  assumes "j < length (conns s)" "c_reader (conns s ! j) = RPanicked"
  shows "\<exists>ms c'. execs rt (map (Conn j) ms) s = Some (put j c' s) \<and> c_writer c' = WDone
    \<and> c_reader c' = RPanicked \<and> c_joiner c' = c_joiner (conns s ! j)"
proof -
  let ?fail = "Write (Inl (new_error Other [], 0)) (Inr ())"
  have fails: "\<exists>c'. conn_step rt who ?fail c = Some c' \<and> c_writer c' = WDone \<and> c_reader c' = c_reader c \<and> c_joiner c' = c_joiner c"
    if "c_writer c = WWrite req" for c :: "'a Connection" and req and who
  proof -
    obtain out r where w: "write_req rt (Inl (new_error Other [], 0)) (Inr ()) who req (c_out c) = (out, r)" by fastforce
    then have "\<exists>e. r = Inl e"
      by (auto simp: write_req_def send_frame_def write_all_def Let_def split: sum.splits prod.splits)
    then show ?thesis using w that by (auto simp: refused_def)
  qed
  let ?c = "conns s ! j" and ?who = "client_id (client s)"
  show ?thesis
  proof (cases "c_writer ?c")
    case WRecv
    show ?thesis
    proof (cases "mpsc_recv std_channel (c_queue ?c)")
      case None
      then have "exec rt (Conn j (Recv False)) s = Some (put j (?c\<lparr>c_writer := WDone\<rparr>) s)"
        using WRecv assms by (simp add: recv_timeout_def tx_alive_def)
      then show ?thesis using assms(2) by (intro exI[of _ "[Recv False]"]) auto
    next
      case (Some a)
      obtain req q where a: "a = (req, q)" by fastforce
      let ?c1 = "?c\<lparr>c_queue := q, c_writer := WWrite req\<rparr>"
      have 1: "conn_step rt ?who (Recv False) ?c = Some ?c1"
        using WRecv assms Some a by (simp add: recv_timeout_def)
      obtain c' where c': "conn_step rt ?who ?fail ?c1 = Some c'" "c_writer c' = WDone" "c_reader c' = RPanicked"
          "c_joiner c' = c_joiner ?c"
        using fails[of ?c1 req ?who] assms(2) by auto
      then have "execs rt (map (Conn j) [Recv False, ?fail]) s = Some (put j c' s)"
        using 1 assms(1) by (simp add: put_def del: conn_step.simps)
      with c' show ?thesis by blast
    qed
  next
    case (WWrite req)
    obtain c' where c': "conn_step rt ?who ?fail ?c = Some c'" "c_writer c' = WDone" "c_reader c' = RPanicked"
        "c_joiner c' = c_joiner ?c"
      using fails[OF WWrite, of ?who] assms(2) by auto
    then have "execs rt (map (Conn j) [?fail]) s = Some (put j c' s)" using assms(1) by (simp del: conn_step.simps)
    with c' show ?thesis by blast
  next
    case WDone
    then show ?thesis using assms by (intro exI[of _ "[]"] exI[of _ ?c]) (simp add: put_def)
  qed
qed

lemma stranded_panics:
  assumes "stranded j s"
  shows "\<exists>ms s'. execs rt (map (Conn j) ms) s = Some s' \<and> c_joiner (conns s' ! j) = JPanicked"
proof -
  have j: "j < length (conns s)" "c_reader (conns s ! j) = RPanicked" using assms by (auto simp: stranded_def)
  obtain ms c' where w: "execs rt (map (Conn j) ms) s = Some (put j c' s)" "c_writer c' = WDone" "c_reader c' = RPanicked"
      "c_joiner c' \<in> {JWriter, JReader, JPanicked}"
    using writer_ends[OF j, of rt] assms by (auto simp: stranded_def)
  let ?bs = "case c_joiner c' of JWriter \<Rightarrow> [Join, Join] | JReader \<Rightarrow> [Join] | _ \<Rightarrow> []"
  have "\<exists>s'. execs rt (map (Conn j) ?bs) (put j c' s) = Some s' \<and> c_joiner (conns s' ! j) = JPanicked"
    using w j(1) by (auto split: joiner.split)
  then obtain s' where "execs rt (map (Conn j) (ms @ ?bs)) s = Some s'" "c_joiner (conns s' ! j) = JPanicked"
    using w(1) by (auto simp: execs_append)
  then show ?thesis by blast
qed

text \<open>C30. An \<open>Fsync\<close> whose address cannot be parsed ends the listening for good: the reading
  loop returns an error, which its thread turns into a panic, the joiner never reports the
  connection as broken but panics with the reader once the writer has ended (which it can, whatever
  the others have done), and the client never connects to the server again, although it is
  meant to do so after every break. This is of a client that has called \<open>listen\<close> once, and
  of every continuation without a spurious wake-up of its thread or another
  call of \<open>listen\<close>.\<close>

theorem tcp_bad_fsync_strands:
  assumes "reachable rt False s" "single s" "exec rt (Conn j (Read os)) s = Some s1"
    and "read_resp rt std_read_exact (c_in (conns s ! j)) = Ret (Inr (resp, bs))"
    and "resp_cmd resp = Some (RespFsync fsync)" "parse_addr (fsync_addr fsync) = None"
    and "execs rt ls s1 = Some s2" "\<not> list_ex revives ls"
  shows "length (conns s2) = length (conns s) \<and> (\<forall>t \<in> set (threads s2). t_point t \<noteq> MConnect)
    \<and> c_reader (conns s2 ! j) = RPanicked \<and> c_joiner (conns s2 ! j) \<in> {JWriter, JReader, JPanicked}
    \<and> (\<exists>ms s3. execs rt (map (Conn j) ms) s2 = Some s3 \<and> c_joiner (conns s3 ! j) = JPanicked)"
proof -
  let ?c = "conns s ! j"
  have j: "j < length (conns s)" and rd: "c_reader ?c = RRead" using assms(3) by (auto split: if_splits)
  have s1: "s1 = put j (?c\<lparr>c_in := bs, c_reader := RPanicked\<rparr>) s"
    using assms(3-6) j rd by (simp add: read_turn_def)
  have t: "conn_typed ?c" using reachable_typed[OF assms(1)] j by (simp add: system_typed_def)
  then have jn: "c_joiner ?c \<in> {JWriter, JReader}" using rd by (cases "c_joiner ?c") (auto simp: conn_typed_def)
  have live: "\<not> over ?c" using jn by (auto simp: over_def)
  have c: "calm s" using reachable_calm[OF assms(1) _ assms(2)] by simp
  have others: "silent (conns s1 ! i)" if "i < length (conns s1)" for i
  proof (cases "i = j")
    case True
    then show ?thesis using s1 j jn by (simp add: silent_def)
  next
    case False
    have "one_live (conns s)" using c by (simp add: calm_def)
    moreover have "i < length (conns s)" using that s1 by simp
    ultimately have "over (conns s ! i)" using live j False unfolding one_live_def by blast
    then show ?thesis using over_silent s1 False by simp
  qed
  have "\<not> (\<forall>c \<in> set (conns s). over c)" using live j by auto
  then obtain t where t: "t \<in> set (threads s)" "\<not> asleep (t_point t)" and nb: "\<not> broken (signal s)"
    using c unfolding calm_def by blast
  have "threads s = [t]" using assms(2) t(1) by (cases rule: singleE) auto
  moreover have "t_point t = MWoken \<longrightarrow> exit (signal s)" using c t(1) nb unfolding calm_def by blast
  ultimately have "\<forall>t \<in> set (threads s). t_point t \<in> {MLock, MWait, MReturned, MPanicked} \<or> t_point t = MWoken \<and> exit (signal s)"
    by (cases "t_point t") (use t(2) in simp_all)
  then have "abandoned s1" using others s1 by (auto simp: abandoned_def in_set_conv_nth)
  from abandoned_execs[OF this assms(7,8)]
  have none: "length (conns s2) = length (conns s) \<and> (\<forall>t \<in> set (threads s2). t_point t \<noteq> MConnect)"
    using s1 by (force simp: abandoned_def)
  have "stranded j s1" using s1 j jn by (auto simp: stranded_def)
  from stranded_execs[OF this assms(7,8)] have "stranded j s2" .
  then show ?thesis using none stranded_panics[of j s2 rt] by (simp add: stranded_def)
qed

theorem tcp_bad_fsync_strands_witness:
  "\<exists>s s1 s2. wire_run [Listen (easy_listen [0, 5, 34, 3, 10, 1, 99]), Reconnect 0 (easy_start [])] = Some s
     \<and> exec wire_rt (Conn 0 (Read (easy_os any_v4))) s = Some s1 \<and> execs wire_rt [Shutdown] s1 = Some s2
     \<and> c_reader (conns s2 ! 0) = RPanicked \<and> c_joiner (conns s2 ! 0) \<in> {JWriter, JReader, JPanicked} \<and> length (conns s2) = 1"
proof -
  let ?in = "[0, 5, 34, 3, 10, 1, 99] :: bytes" and ?read = "Conn 0 (Read (easy_os any_v4))"
  let ?ls = "[Listen (easy_listen ?in), Reconnect 0 (easy_start [])]"
  have "case wire_run ?ls of None \<Rightarrow> False | Some s \<Rightarrow> length (conns s) = 1 \<and> c_in (conns s ! 0) = ?in
    \<and> c_reader (conns s ! 0) = RRead \<and> length (threads s) = 1" by code_simp
  from case_SomeD[OF this] obtain s where s: "wire_run ?ls = Some s" "length (conns s) = 1" "c_in (conns s ! 0) = ?in"
      "c_reader (conns s ! 0) = RRead" "length (threads s) = 1" by blast
  let ?f = "(Fsync_new wire_rt)\<lparr>fsync_id := ''c''\<rparr>"
  have f: "read_resp wire_rt std_read_exact (c_in (conns s ! 0)) = Ret (Inr (response wire_rt [] (RespFsync ?f), []))"
    unfolding s(3) by code_simp
  have cmd: "resp_cmd (response wire_rt [] (RespFsync ?f)) = Some (RespFsync ?f)" by (simp add: response_def)
  have bad: "parse_addr (fsync_addr ?f) = None" by (simp add: parse_empty)
  obtain s1 where s1: "exec wire_rt ?read s = Some s1"
    using s(2,4) f cmd bad by (simp add: read_turn_def)
  have s2: "execs wire_rt [Shutdown] s1 = Some (fst (shutdown s1))" by simp
  have r: "reachable wire_rt False s" by (rule client_run_reachable[OF s(1)]) simp
  from tcp_bad_fsync_strands[OF r _ s1 f cmd bad s2]
  have "c_reader (conns (fst (shutdown s1)) ! 0) = RPanicked \<and> c_joiner (conns (fst (shutdown s1)) ! 0) \<in> {JWriter, JReader, JPanicked}
      \<and> length (conns (fst (shutdown s1))) = 1"
    using s(2,5) by (simp del: shutdown_sel)
  with s(1) s1 s2 show ?thesis by blast
qed

section \<open>Reports that are heard\<close>

text \<open>C25. Reconnecting: when the thread of \<open>listen\<close> waits, the report of a broken connection
  wakes it, and its next two moves make a new connection from the listening address, whose
  queue holds the ping that registers the client again; then it looks for the next report.\<close>

theorem tcp_reconnects:
  assumes "reachable rt False s" "j < length (conns s)" "c_joiner (conns s ! j) = JSignal"
    and "threads s = [t]" "t_point t = MWait" "\<not> exit (signal s)"
    and "connect_server (se_resolve env) (se_os env) (t_local t) (server_addr (client s)) = Ret (Inr svr)"
    and "to_try_clone (sk_os svr) 0 = Inr ()" "to_try_clone (sk_os svr) 1 = Inr ()"
  shows "\<exists>s' cs c. execs rt [Announce j, Reconnect 0 env0, Reconnect 0 env] s = Some s'
    \<and> threads s' = [t\<lparr>t_point := MLock\<rparr>] \<and> \<not> broken (signal s') \<and> conns s' = cs @ [c] \<and> length cs = length (conns s)
    \<and> c_local c = t_local t \<and> c_writer c = WRecv \<and> c_reader c = RRead \<and> buffer (c_queue c) = [ReqPing (Ping_new rt)]"
proof -
  have np: "\<not> poisoned s" using reachable_calm[OF assms(1)] assms(4) by (simp add: calm_def)
  let ?s2 = "put_thread 0 MConnect ((announce j s)\<lparr>signal := (signal (announce j s))\<lparr>broken := False\<rparr>\<rparr>)"
  have 2: "reconnect_step rt 0 env0 (announce j s) = Some ?s2"
    using np assms(4-6) by (simp add: reconnect_step_def after_wait_def wake_reconnect_def)
  have "start_background rt env (t_local t) (server_addr (client s)) = Ret (Inr (), [fresh rt env (t_local t)])"
    using start_background_connected[OF assms(7), of rt] assms(8,9) by simp
  then have 3: "reconnect_step rt 0 env ?s2 = Some (put_thread 0 MLock (?s2\<lparr>conns := conns ?s2 @ [fresh rt env (t_local t)]\<rparr>))"
    using assms(4) np by (simp add: reconnect_step_def try_connect_def)
  have "execs rt [Announce j, Reconnect 0 env0, Reconnect 0 env] s
      = Some (put_thread 0 MLock (?s2\<lparr>conns := conns ?s2 @ [fresh rt env (t_local t)]\<rparr>))"
    using assms(2,3,4) np 2 3 by simp
  then show ?thesis
    by (rule_tac exI, rule_tac exI, rule_tac exI, intro conjI) (assumption | simp add: fresh_def np assms(4))+
qed

theorem tcp_reconnects_witness:
  "\<exists>s s' cs c. wire_run ([Listen (easy_listen []), Reconnect 0 (easy_start [])] @ ended) = Some s
     \<and> execs wire_rt [Announce 0, Reconnect 0 (easy_start []), Reconnect 0 (easy_start [])] s = Some s'
     \<and> map t_point (threads s') = [MLock] \<and> conns s' = cs @ [c] \<and> length cs = 1 \<and> c_local c = any_v4"
proof -
  let ?ls = "[Listen (easy_listen []), Reconnect 0 (easy_start [])] @ ended"
  have "case wire_run ?ls of None \<Rightarrow> False | Some s \<Rightarrow> length (conns s) = 1 \<and> c_joiner (conns s ! 0) = JSignal
    \<and> threads s = [\<lparr>t_local = any_v4, t_point = MWait\<rparr>] \<and> \<not> exit (signal s)" by code_simp
  then obtain s where s: "wire_run ?ls = Some s" "length (conns s) = 1" "c_joiner (conns s ! 0) = JSignal"
      "threads s = [\<lparr>t_local = any_v4, t_point = MWait\<rparr>]" "\<not> exit (signal s)" using case_SomeD by blast
  have r: "reachable wire_rt False s" by (rule client_run_reachable[OF s(1)]) simp
  let ?env = "easy_start []"
  have c: "connect_server (se_resolve ?env) (se_os ?env) (t_local \<lparr>t_local = any_v4, t_point = MWait\<rparr>) (server_addr (client s))
      = Ret (Inr \<lparr>sk_os = easy_os any_v4, bound_to = any_v4, remote = Some (V4 (Ipv4 9 9 9 9) 8888)\<rparr>)"
    by (simp add: connect_server_def bind_def resolve_first_def connect_socket_def)
  have p: "0 < length (conns s)" "t_point \<lparr>t_local = any_v4, t_point = MWait\<rparr> = MWait"
      "to_try_clone (sk_os \<lparr>sk_os = easy_os any_v4, bound_to = any_v4, remote = Some (V4 (Ipv4 9 9 9 9) 8888)\<rparr>) 0 = Inr ()"
      "to_try_clone (sk_os \<lparr>sk_os = easy_os any_v4, bound_to = any_v4, remote = Some (V4 (Ipv4 9 9 9 9) 8888)\<rparr>) 1 = Inr ()"
    using s(2) by simp_all
  from tcp_reconnects[OF r p(1) s(3,4) p(2) s(5) c p(3,4), of ?env] obtain s' cs d where
      R: "execs wire_rt [Announce 0, Reconnect 0 ?env, Reconnect 0 ?env] s = Some s'" "conns s' = cs @ [d]" "length cs = length (conns s)"
        "threads s' = [\<lparr>t_local = any_v4, t_point = MWait\<rparr>\<lparr>t_point := MLock\<rparr>]" "c_local d = t_local \<lparr>t_local = any_v4, t_point = MWait\<rparr>"
    by blast
  have m: "map t_point (threads s') = [MLock]" "length cs = 1" "c_local d = any_v4" by (simp_all add: R s(2))
  show ?thesis by (intro exI conjI) (rule s(1) R(1,2) m)+
qed

section \<open>Spurious wake-ups\<close>

lemma lock_poisoned_exec:
  assumes "exec rt l s = Some s'" "poisoned s" "i < length (threads s)" "t_point (threads s ! i) = MPanicked"
  shows "poisoned s' \<and> signal s' = signal s \<and> i < length (threads s') \<and> t_point (threads s' ! i) = MPanicked"
proof -
  have p: "poisoned s' \<and> signal s' = signal s"
  proof (cases l)
    case (Watch j)
    then show ?thesis using assms watch_Some[of j s s'] by (auto split: if_splits)
  next
    case (Reconnect k env)
    then have "reconnect_step rt k env s = Some s'" using assms(1) by (simp split: if_splits)
    then show ?thesis by (cases rule: reconnect_step_cases) (use assms(2) in simp_all)
  next
    case (Listen env)
    then have "s' = fst (listen rt env s)" using assms(1) by simp
    then show ?thesis using assms(2) by (cases rule: listen_cases[of rt env s]) simp_all
  qed (use assms(1,2) in \<open>auto split: if_splits\<close>)
  have "t_point (threads s' ! i) = MPanicked"
  proof (cases "\<exists>env. l = Reconnect i env")
    case True
    then show ?thesis using assms by (auto simp: reconnect_step_def)
  next
    case False
    then show ?thesis using other_reconnect[OF assms(1,3)] assms(4) by auto
  qed
  then show ?thesis using p exec_threads_length[OF assms(1)] assms(3) by simp
qed

lemma poisoned_execs:
  "execs rt ls s = Some s' \<Longrightarrow> poisoned s \<Longrightarrow> i < length (threads s) \<Longrightarrow> t_point (threads s ! i) = MPanicked \<Longrightarrow>
    poisoned s' \<and> signal s' = signal s \<and> t_point (threads s' ! i) = MPanicked"
proof (induction ls arbitrary: s)
  case (Cons l ls)
  then obtain s1 where s1: "exec rt l s = Some s1" "execs rt ls s1 = Some s'" by (auto split: option.splits)
  show ?case using Cons.IH[OF s1(2)] lock_poisoned_exec[OF s1(1) Cons.prems(2-4)] by simp
qed simp

lemma poisoned_for_ever:
  assumes "poisoned s" "i < length (threads s)" "t_point (threads s ! i) = MPanicked" "\<not> exit (signal s)" "execs rt ls s = Some s'"
  shows "t_point (threads s' ! i) = MPanicked \<and> \<not> exit (signal s') \<and> snd (shutdown s') = Panic \<and> snd (drop_client s') = Panic"
  using poisoned_execs[OF assms(5,1-3)] assms(4) by (simp add: drop_client_def case_prod_unfold)

text \<open>A spurious wake-up stops the client: \<open>wait\<close> is called outside a loop, so the thread
  of \<open>listen\<close>, woken without a report, fails its assertion with the mutex locked. From then
  on it is gone, the exit flag can never be set, and \<open>shutdown\<close> and the drop of the client
  panic.\<close>

theorem tcp_spurious_wakeup_stops:
  assumes "i < length (threads s)" "t_point (threads s ! i) = MWait"
    and "\<not> poisoned s" "\<not> exit (signal s)" "\<not> broken (signal s)"
  shows "\<exists>s1. execs rt [SpuriousReconnect i, Reconnect i env] s = Some s1
    \<and> (\<forall>ls s2. execs rt ls s1 = Some s2 \<longrightarrow> t_point (threads s2 ! i) = MPanicked \<and> \<not> exit (signal s2)
          \<and> snd (shutdown s2) = Panic \<and> snd (drop_client s2) = Panic)"
proof -
  let ?s1 = "put_thread i MPanicked ((put_thread i MWoken s)\<lparr>poisoned := True\<rparr>)"
  have "execs rt [SpuriousReconnect i, Reconnect i env] s = Some ?s1"
    using assms by (simp add: wake_reconnect_def reconnect_step_def after_wait_def)
  moreover have "poisoned ?s1" "i < length (threads ?s1)" "t_point (threads ?s1 ! i) = MPanicked" "\<not> exit (signal ?s1)"
    using assms by simp_all
  ultimately show ?thesis using poisoned_for_ever by blast
qed

theorem tcp_spurious_wakeup_stops_witness:
  "\<exists>s1. wire_run [Listen (easy_listen []), Reconnect 0 (easy_start []), SpuriousReconnect 0, Reconnect 0 (easy_start [])] = Some s1
     \<and> (\<forall>s2. execs wire_rt [Shutdown] s1 = Some s2 \<longrightarrow> \<not> exit (signal s2) \<and> snd (drop_client s2) = Panic)"
proof -
  let ?ls = "[Listen (easy_listen []), Reconnect 0 (easy_start [])]"
  have "case wire_run ?ls of None \<Rightarrow> False
    | Some s \<Rightarrow> 0 < length (threads s) \<and> t_point (threads s ! 0) = MWait \<and> \<not> poisoned s \<and> \<not> exit (signal s) \<and> \<not> broken (signal s)"
    by code_simp
  then obtain s where s: "wire_run ?ls = Some s" "0 < length (threads s)" "t_point (threads s ! 0) = MWait"
      "\<not> poisoned s" "\<not> exit (signal s)" "\<not> broken (signal s)"
    using case_SomeD by blast
  obtain s1 where s1: "execs wire_rt [SpuriousReconnect 0, Reconnect 0 (easy_start [])] s = Some s1"
      "\<forall>ls s2. execs wire_rt ls s1 = Some s2 \<longrightarrow> \<not> exit (signal s2) \<and> snd (drop_client s2) = Panic"
    using tcp_spurious_wakeup_stops[OF s(2-6), of wire_rt "easy_start []"] by blast
  have "wire_run (?ls @ [SpuriousReconnect 0, Reconnect 0 (easy_start [])]) = Some s1"
    unfolding execs_append using s(1) s1(1) by simp
  moreover have "\<forall>s2. execs wire_rt [Shutdown] s1 = Some s2 \<longrightarrow> \<not> exit (signal s2) \<and> snd (drop_client s2) = Panic"
    using s1(2) by blast
  ultimately show ?thesis unfolding append.simps by blast
qed

section \<open>Listening twice\<close>

text \<open>C35. A second \<open>listen\<close> stops the client without any spurious wake-up: the two threads wait
  on the same signal, the report of one broken connection wakes both, the first that
  gets the lock takes the report, and the other one fails its assertion with the mutex
  locked. From then on the exit flag can never be set, and \<open>shutdown\<close> and the drop of the
  client panic.\<close>

theorem tcp_second_listen_trips:
  assumes "i < length (threads s)" "t_point (threads s ! i) = MWait"
    and "k < length (threads s)" "t_point (threads s ! k) = MWait" "i \<noteq> k"
    and "\<not> poisoned s" "\<not> exit (signal s)" "j < length (conns s)" "c_joiner (conns s ! j) = JSignal"
  shows "\<exists>s1. execs rt [Announce j, Reconnect i env, Reconnect k env'] s = Some s1
    \<and> t_point (threads s1 ! i) = MConnect
    \<and> (\<forall>ls s2. execs rt ls s1 = Some s2 \<longrightarrow> t_point (threads s2 ! k) = MPanicked \<and> \<not> exit (signal s2)
          \<and> snd (shutdown s2) = Panic \<and> snd (drop_client s2) = Panic)"
proof -
  let ?sa = "put_thread i MConnect ((announce j s)\<lparr>signal := (signal (announce j s))\<lparr>broken := False\<rparr>\<rparr>)"
  let ?s1 = "put_thread k MPanicked (?sa\<lparr>poisoned := True\<rparr>)"
  have "reconnect_step rt i env (announce j s) = Some ?sa"
    using assms by (simp add: reconnect_step_def after_wait_def wake_reconnect_def)
  moreover have "reconnect_step rt k env' ?sa = Some ?s1"
    using assms by (simp add: reconnect_step_def after_wait_def wake_reconnect_def)
  ultimately have "execs rt [Announce j, Reconnect i env, Reconnect k env'] s = Some ?s1"
    using assms by simp
  moreover have "t_point (threads ?s1 ! i) = MConnect" using assms by simp
  moreover have "poisoned ?s1" "k < length (threads ?s1)" "t_point (threads ?s1 ! k) = MPanicked" "\<not> exit (signal ?s1)"
    using assms by simp_all
  ultimately show ?thesis using poisoned_for_ever by blast
qed

theorem tcp_second_listen_trips_witness:
  "\<exists>s s1. wire_run ([Listen (easy_listen []), Listen (easy_listen []), Reconnect 0 (easy_start []), Reconnect 1 (easy_start [])] @ ended) = Some s
     \<and> execs wire_rt [Announce 0, Reconnect 1 (easy_start []), Reconnect 0 (easy_start [])] s = Some s1
     \<and> t_point (threads s1 ! 1) = MConnect \<and> snd (drop_client s1) = Panic"
proof -
  let ?ls = "[Listen (easy_listen []), Listen (easy_listen []), Reconnect 0 (easy_start []), Reconnect 1 (easy_start [])] @ ended"
  have "case wire_run ?ls of None \<Rightarrow> False | Some s \<Rightarrow> length (threads s) = 2 \<and> t_point (threads s ! 0) = MWait \<and> t_point (threads s ! 1) = MWait \<and> \<not> poisoned s
    \<and> \<not> exit (signal s) \<and> length (conns s) = 2 \<and> c_joiner (conns s ! 0) = JSignal" by code_simp
  from case_SomeD[OF this] obtain s where s: "wire_run ?ls = Some s" "length (threads s) = 2" "t_point (threads s ! 0) = MWait"
      "t_point (threads s ! 1) = MWait" "\<not> poisoned s" "\<not> exit (signal s)" "length (conns s) = 2" "c_joiner (conns s ! 0) = JSignal" by blast
  have h: "1 < length (threads s)" "0 < length (threads s)" "(1 :: nat) \<noteq> 0" "0 < length (conns s)" unfolding s(2,7) by simp_all
  note tcp_second_listen_trips[OF h(1) s(4) h(2) s(3) h(3) s(5,6) h(4) s(8), of wire_rt "easy_start []" "easy_start []"]
  then obtain s1 where s1: "execs wire_rt [Announce 0, Reconnect 1 (easy_start []), Reconnect 0 (easy_start [])] s = Some s1"
      "t_point (threads s1 ! 1) = MConnect" "\<forall>ls s2. execs wire_rt ls s1 = Some s2 \<longrightarrow> snd (drop_client s2) = Panic" by blast
  have "execs wire_rt [] s1 = Some s1" by simp
  with s1 s(1) show ?thesis by blast
qed

end
