(* ===== verification/Tcp_Async.thy ===== *)
theory Tcp_Async
  imports Rendezvous Framing Channel
begin

text \<open>
  The tokio TCP client, \<open>src/tcp/client_async.rs\<close>. First what does not depend on how its
  tasks interleave: the builder, its sockets, \<open>connect\<close> and the framing; then the tasks.
  \<open>start_background\<close> spawns three, which run \<open>read_loop\<close>, \<open>write_loop\<close> and the wait for
  both; \<open>listen\<close> spawns one more, which makes a new connection when the last is broken.

  They meet in two \<open>Notify\<close> values, \<open>exit\<close> of the client and \<open>broken\<close> of each connection.
  \<open>notify_waiters\<close> stores nothing: it marks the \<open>notified()\<close> futures that exist at that
  moment. A task has such a future from the moment it enters a \<open>select!\<close> until it leaves it
  by any branch, so the mark is a part of that waiting point and goes with it. When
  several branches of a \<open>select!\<close> are ready, any of them is taken.

  Sockets, name resolution, \<open>read_exact\<close> and the channel are tokio's: records of answers,
  \<open>rd\<close> and \<open>ch\<close>.
\<close>

section \<open>Sockets\<close>

record async_os =
  ao_new_v4 :: "io_error + unit"
  ao_new_v6 :: "io_error + unit"
  ao_set_reuseaddr :: "io_error + unit"
  ao_set_reuseport :: "io_error + unit"
  ao_bind :: "SocketAddr \<Rightarrow> io_error + unit"
  ao_connect :: "SocketAddr \<Rightarrow> io_error + unit"
  ao_local_addr :: "io_error + SocketAddr"
  ao_listen :: "nat \<Rightarrow> io_error + unit"

text \<open>A \<open>TcpSocket\<close>, and the \<open>TcpStream\<close> or \<open>TcpListener\<close> that it becomes.\<close>

record TcpSocket =
  ts_os :: async_os
  ts_bound :: SocketAddr
  ts_remote :: "SocketAddr option"

type_synonym lookup_host = "string \<Rightarrow> io_error + SocketAddr list"

record Client =
  server_addr :: string
  client_id :: string
  listener :: "TcpSocket option"
  local_addr :: "SocketAddr option"

definition new :: "string \<Rightarrow> string \<Rightarrow> SocketAddr option \<Rightarrow> io_error + Client" where
  "new server who la = Inr \<lparr>server_addr = server, client_id = who, listener = None, local_addr = la\<rparr>"

definition as_socket :: "Client \<Rightarrow> TcpSocket option" where
  "as_socket c = listener c"

definition lookup_first :: "lookup_host \<Rightarrow> string \<Rightarrow> io_error + SocketAddr" where
  "lookup_first lookup name =
     res_bind (lookup name) (\<lambda>addrs.
     case addrs of [] \<Rightarrow> Inl (new_error Other ''server name resolve fail'') | a # _ \<Rightarrow> Inr a)"

definition choose_bind_addr :: "lookup_host \<Rightarrow> Client \<Rightarrow> (io_error + SocketAddr) outcome" where
  "choose_bind_addr lookup c =
     (case local_addr c of
        Some a \<Rightarrow> Ret (Inr a)
      | None \<Rightarrow>
          ques (lookup_first lookup (server_addr c)) (\<lambda>server.
          and_then
            (case server of
               V4 ip p \<Rightarrow> unwrap_some (parse_addr ''0.0.0.0:0'')
             | V6 ip p fl sc \<Rightarrow> unwrap_some (parse_addr ''[::]:0'')) (\<lambda>a.
          Ret (Inr a))))"

definition bind :: "async_os \<Rightarrow> SocketAddr \<Rightarrow> io_error + TcpSocket" where
  "bind os a =
     res_bind (case a of V4 ip p \<Rightarrow> ao_new_v4 os | V6 ip p fl sc \<Rightarrow> ao_new_v6 os) (\<lambda>_.
     res_bind (ao_set_reuseaddr os) (\<lambda>_.
     res_bind (ao_set_reuseport os) (\<lambda>_.
     res_bind (ao_bind os a) (\<lambda>_.
     Inr \<lparr>ts_os = os, ts_bound = a, ts_remote = None\<rparr>))))"

definition connect_socket :: "TcpSocket \<Rightarrow> SocketAddr \<Rightarrow> io_error + TcpSocket" where
  "connect_socket s a = res_bind (ao_connect (ts_os s) a) (\<lambda>_. Inr (s\<lparr>ts_remote := Some a\<rparr>))"

definition connect_server :: "lookup_host \<Rightarrow> async_os \<Rightarrow> SocketAddr \<Rightarrow> string \<Rightarrow> io_error + TcpSocket" where
  "connect_server lookup os la server =
     res_bind (bind os la) (\<lambda>svr.
     res_bind (lookup_first lookup server) (\<lambda>a.
     connect_socket svr a))"

section \<open>Framing\<close>

definition new_req :: "'u pb_rt \<Rightarrow> string \<Rightarrow> 'u Request" where
  "new_req rt who = (Request_new rt)\<lparr>req_id := who\<rparr>"

definition write_req ::
  "'u pb_rt \<Rightarrow> write_result \<Rightarrow> write_result \<Rightarrow> string \<Rightarrow> 'u ReqCmd \<Rightarrow> bytes \<Rightarrow> bytes \<times> (io_error + unit)" where
  "write_req rt r1 r2 who cmd out =
     (let req = (new_req rt who)\<lparr>req_cmd := Some cmd\<rparr> in
      case Request_write_to_bytes rt req of
        Inl e \<Rightarrow> (out, Inl (rt_io_error rt e))
      | Inr buf \<Rightarrow>
          (case write_all r1 (to_be_bytes (of_nat (length buf))) out of
             (out, Inl e) \<Rightarrow> (out, Inl e)
           | (out, Inr _) \<Rightarrow>
               (case write_all r2 buf out of
                  (out, Inl e) \<Rightarrow> (out, Inl e)
                | (out, Inr _) \<Rightarrow> (out, Inr ()))))"

definition read_resp :: "'u pb_rt \<Rightarrow> exact_read \<Rightarrow> bytes \<Rightarrow> (io_error + 'u Response \<times> bytes) outcome" where
  "read_resp rt rd bs =
     ques (rd 2 bs) (\<lambda>(buf, bs).
     ques (rd (unat (from_be_bytes buf)) bs) (\<lambda>(buf, bs).
       case Response_parse_from_bytes rt buf of
         None \<Rightarrow> Hang
       | Some (Inl e) \<Rightarrow> Ret (Inl (new_error Other ''invalid message''))
       | Some (Inr resp) \<Rightarrow> Ret (Inr (resp, bs))))"

section \<open>Connecting to a peer\<close>

text \<open>
  What \<open>connect\<close> meets: the answers for its two sockets, the results of the two writes, and
  the bytes that the server sends.
\<close>

record connect_env =
  ce_lookup :: "nat \<Rightarrow> lookup_host"
  ce_server :: async_os
  ce_peer :: async_os
  ce_write1 :: write_result
  ce_write2 :: write_result
  ce_in :: bytes

text \<open>From the response on; \<open>la\<close> is the address of the connection to the server.\<close>

definition connect_redirected ::
  "'u pb_rt \<Rightarrow> exact_read \<Rightarrow> connect_env \<Rightarrow> SocketAddr \<Rightarrow> (io_error + TcpSocket) outcome" where
  "connect_redirected rt rd env la =
     ques_call (read_resp rt rd (ce_in env)) (\<lambda>(resp, _).
     ques (case resp_cmd resp of
             Some (RespRedirect rdr) \<Rightarrow> Inr (redirect_addr rdr)
           | _ \<Rightarrow> Inl (new_error Other ''invalid server response'')) (\<lambda>addr.
     ques (case parse_addr addr of
             Some a \<Rightarrow> Inr a
           | None \<Rightarrow> Inl (new_error Other ''target ID not found'')) (\<lambda>target_addr.
     ques (bind (ce_peer env) la) (\<lambda>s.
     Ret (connect_socket s target_addr)))))"

text \<open>\<open>Client::connect\<close>: its result and the bytes it sent to the server.\<close>

definition connect ::
  "'u pb_rt \<Rightarrow> exact_read \<Rightarrow> connect_env \<Rightarrow> Client \<Rightarrow> string \<Rightarrow> ((io_error + TcpSocket) \<times> bytes) outcome" where
  "connect rt rd env c target_id =
     and_then
       (ques_call (choose_bind_addr (ce_lookup env 0) c) (\<lambda>la.
        Ret (connect_server (ce_lookup env 1) (ce_server env) la (server_addr c)))) (\<lambda>r.
     case r of
       Inl e \<Rightarrow> Ret (Inl e, [])
     | Inr svr \<Rightarrow>
         and_then (unwrap (ao_local_addr (ts_os svr))) (\<lambda>la.
         (let isync = (Isync_new rt)\<lparr>isync_id := target_id\<rparr> in
          case write_req rt (ce_write1 env) (ce_write2 env) (client_id c) (ReqIsync isync) [] of
            (out, Inl e) \<Rightarrow> Ret (Inl e, out)
          | (out, Inr _) \<Rightarrow> and_then (connect_redirected rt rd env la) (\<lambda>r. Ret (r, out)))))"

section \<open>Handling a response\<close>

text \<open>
  The request to send if any, the connection attempts as local and remote address, and the
  bytes left. \<open>timeout\<close> drops the attempt whether it was made or not.
\<close>

type_synonym attempt = "SocketAddr \<times> SocketAddr"

definition handle_resp ::
  "'u pb_rt \<Rightarrow> exact_read \<Rightarrow> async_os \<Rightarrow> SocketAddr \<Rightarrow> bytes
     \<Rightarrow> (io_error + 'u ReqCmd option \<times> attempt list \<times> bytes) outcome" where
  "handle_resp rt rd os la bs =
     (case read_resp rt rd bs of
        Ret (Inr (resp, bs)) \<Rightarrow>
          (case resp_cmd resp of
             Some (RespPong _) \<Rightarrow> Ret (Inr (None, [], bs))
           | Some (RespFsync fsync) \<Rightarrow>
               ques (case parse_addr (fsync_addr fsync) of
                       Some a \<Rightarrow> Inr a
                     | None \<Rightarrow> Inl (new_error Other ''invalid fsync address'')) (\<lambda>dst_addr.
               (let attempts = (case bind os la of Inl e \<Rightarrow> [] | Inr s \<Rightarrow> [(la, dst_addr)]);
                    rsync = (Rsync_new rt)\<lparr>rsync_id := fsync_id fsync\<rparr> in
                Ret (Inr (Some (ReqRsync rsync), attempts, bs))))
           | _ \<Rightarrow> Ret (Inr (None, [], bs)))
      | Ret (Inl e) \<Rightarrow> Ret (Inl e)
      | Panic \<Rightarrow> Panic
      | Hang \<Rightarrow> Hang)"

section \<open>The state of the tasks\<close>

text \<open>
  \<open>RTop\<close>, \<open>WTop\<close>, \<open>BTop\<close>: spawned or at the top of the loop, before the \<open>select!\<close>. \<open>RSelect\<close>,
  \<open>WSelect\<close>, \<open>BSelect\<close>, \<open>BSleep\<close>: in it, with the marks. \<open>RSend\<close>, \<open>WWrite\<close>: in \<open>tx.send\<close> and
  in \<open>write_req\<close>.
\<close>

datatype 'u reader = RTop | RSelect bool | RSend "'u ReqCmd" | RDone

datatype 'u writer = WTop | WSelect bool | WWrite "'u ReqCmd" | WDone

text \<open>\<open>c_in\<close> is what the server is going to send before the connection ends.\<close>

record ('q, 'u) Connection =
  c_local :: SocketAddr
  c_in :: bytes
  c_out :: bytes
  c_queue :: 'q
  c_attempts :: "attempt list"
  c_reader :: "'u reader"
  c_writer :: "'u writer"
  c_joined :: bool

text \<open>
  The task of \<open>listen\<close>, with the number of the connection whose \<open>broken\<close> it holds.
  \<open>BConnect\<close>: in \<open>start_background\<close>; \<open>BPause\<close>: after a failure; \<open>BSleep\<close>: in the \<open>select!\<close> with
  the timer of 120 seconds.
\<close>

datatype listen_point = BTop nat | BSelect nat bool bool | BConnect | BPause | BSleep bool | BReturned

record listen_task =
  b_local :: SocketAddr
  b_point :: listen_point

record ('q, 'u) System =
  client :: Client
  dropped :: bool
  conns :: "('q, 'u) Connection list"
  listens :: "listen_task list"

section \<open>Notify\<close>

primrec mark_reader :: "'u reader \<Rightarrow> 'u reader" where
  "mark_reader RTop = RTop"
| "mark_reader (RSelect e) = RSelect True"
| "mark_reader (RSend cmd) = RSend cmd"
| "mark_reader RDone = RDone"

primrec mark_writer :: "'u writer \<Rightarrow> 'u writer" where
  "mark_writer WTop = WTop"
| "mark_writer (WSelect e) = WSelect True"
| "mark_writer (WWrite cmd) = WWrite cmd"
| "mark_writer WDone = WDone"

primrec mark_exit :: "listen_point \<Rightarrow> listen_point" where
  "mark_exit (BTop j) = BTop j"
| "mark_exit (BSelect j e b) = BSelect j True b"
| "mark_exit BConnect = BConnect"
| "mark_exit BPause = BPause"
| "mark_exit (BSleep e) = BSleep True"
| "mark_exit BReturned = BReturned"

definition mark_broken :: "nat \<Rightarrow> listen_point \<Rightarrow> listen_point" where
  "mark_broken j p = (case p of BSelect i e b \<Rightarrow> BSelect i e (b \<or> i = j) | _ \<Rightarrow> p)"

text \<open>\<open>exit.notify_waiters()\<close>, and \<open>broken.notify_waiters()\<close> of one connection.\<close>

definition notify_exit :: "('q, 'u) System \<Rightarrow> ('q, 'u) System" where
  "notify_exit s =
     s\<lparr>conns := map (\<lambda>c. c\<lparr>c_reader := mark_reader (c_reader c), c_writer := mark_writer (c_writer c)\<rparr>) (conns s),
       listens := map (\<lambda>b. b\<lparr>b_point := mark_exit (b_point b)\<rparr>) (listens s)\<rparr>"

definition notify_broken :: "nat \<Rightarrow> ('q, 'u) System \<Rightarrow> ('q, 'u) System" where
  "notify_broken j s = s\<lparr>listens := map (\<lambda>b. b\<lparr>b_point := mark_broken j (b_point b)\<rparr>) (listens s)\<rparr>"

section \<open>Starting a connection\<close>

record start_env =
  se_lookup :: lookup_host
  se_os :: async_os
  se_in :: bytes

definition start_background ::
  "'u pb_rt \<Rightarrow> ('q, 'u ReqCmd) mpsc \<Rightarrow> start_env \<Rightarrow> SocketAddr \<Rightarrow> string \<Rightarrow> (io_error + ('q, 'u) Connection) outcome" where
  "start_background rt ch env la server =
     ques (connect_server (se_lookup env) (se_os env) la server) (\<lambda>svr.
     (case mpsc_send ch (ReqPing (Ping_new rt)) (mpsc_new ch 10) of
        None \<Rightarrow> Hang
      | Some q \<Rightarrow>
          Ret (Inr \<lparr>c_local = la, c_in = se_in env, c_out = [], c_queue = q, c_attempts = [],
                    c_reader = RTop, c_writer = WTop, c_joined = False\<rparr>)))"

section \<open>The tasks of a connection\<close>

text \<open>
  \<open>EnterR\<close>, \<open>EnterW\<close>: into the \<open>select!\<close>. \<open>ExitR\<close>, \<open>ExitW\<close>: the branch of \<open>exit\<close>. \<open>ReadFail\<close>: the
  stream fails where bytes were to come. \<open>Ten\<close>: the timer of ten seconds.
\<close>

datatype conn_move = EnterR | ExitR | Handle async_os | ReadFail | Send | EnterW | ExitW | Ten | Recv | Write write_result write_result

fun read_loop ::
  "'u pb_rt \<Rightarrow> exact_read \<Rightarrow> ('q, 'u ReqCmd) mpsc \<Rightarrow> conn_move \<Rightarrow> ('q, 'u) Connection \<Rightarrow> ('q, 'u) Connection option" where
  "read_loop rt rd ch EnterR c = (if c_reader c = RTop then Some (c\<lparr>c_reader := RSelect False\<rparr>) else None)"
| "read_loop rt rd ch ExitR c = (if c_reader c = RSelect True then Some (c\<lparr>c_reader := RDone\<rparr>) else None)"
| "read_loop rt rd ch (Handle os) c =
     (case c_reader c of
        RSelect e \<Rightarrow>
          (case handle_resp rt rd os (c_local c) (c_in c) of
             Ret (Inr (req, attempts, bs)) \<Rightarrow>
               Some (c\<lparr>c_in := bs, c_attempts := c_attempts c @ attempts,
                       c_reader := (case req of None \<Rightarrow> RTop | Some cmd \<Rightarrow> RSend cmd)\<rparr>)
           | Ret (Inl err) \<Rightarrow> Some (c\<lparr>c_reader := RDone\<rparr>)
           | Panic \<Rightarrow> Some (c\<lparr>c_reader := RDone\<rparr>)
           | Hang \<Rightarrow> None)
      | _ \<Rightarrow> None)"
| "read_loop rt rd ch ReadFail c = (case c_reader c of RSelect e \<Rightarrow> Some (c\<lparr>c_reader := RDone\<rparr>) | _ \<Rightarrow> None)"
| "read_loop rt rd ch Send c =
     (case c_reader c of
        RSend cmd \<Rightarrow>
          (if c_writer c = WDone then Some (c\<lparr>c_reader := RDone\<rparr>)
           else map_option (\<lambda>q. c\<lparr>c_queue := q, c_reader := RTop\<rparr>) (mpsc_send ch cmd (c_queue c)))
      | _ \<Rightarrow> None)"
| "read_loop rt rd ch _ c = None"

text \<open>\<open>rx.recv()\<close> gives \<open>None\<close> when the queue is empty and its only sender is gone.\<close>

fun write_loop ::
  "'u pb_rt \<Rightarrow> ('q, 'u ReqCmd) mpsc \<Rightarrow> string \<Rightarrow> conn_move \<Rightarrow> ('q, 'u) Connection \<Rightarrow> ('q, 'u) Connection option" where
  "write_loop rt ch who EnterW c = (if c_writer c = WTop then Some (c\<lparr>c_writer := WSelect False\<rparr>) else None)"
| "write_loop rt ch who ExitW c = (if c_writer c = WSelect True then Some (c\<lparr>c_writer := WDone\<rparr>) else None)"
| "write_loop rt ch who Ten c =
     (case c_writer c of WSelect e \<Rightarrow> Some (c\<lparr>c_writer := WWrite (ReqPing (Ping_new rt))\<rparr>) | _ \<Rightarrow> None)"
| "write_loop rt ch who Recv c =
     (case c_writer c of
        WSelect e \<Rightarrow>
          (case mpsc_recv ch (c_queue c) of
             Some (req, q) \<Rightarrow> Some (c\<lparr>c_queue := q, c_writer := WWrite req\<rparr>)
           | None \<Rightarrow> if c_reader c = RDone then Some (c\<lparr>c_writer := WDone\<rparr>) else None)
      | _ \<Rightarrow> None)"
| "write_loop rt ch who (Write r1 r2) c =
     (case c_writer c of
        WWrite req \<Rightarrow>
          (case write_req rt r1 r2 who req (c_out c) of
             (out, Inl e) \<Rightarrow> Some (c\<lparr>c_out := out, c_writer := WDone\<rparr>)
           | (out, Inr _) \<Rightarrow> Some (c\<lparr>c_out := out, c_writer := WTop\<rparr>))
      | _ \<Rightarrow> None)"
| "write_loop rt ch who _ c = None"

definition of_reader :: "conn_move \<Rightarrow> bool" where
  "of_reader m = (case m of EnterR \<Rightarrow> True | ExitR \<Rightarrow> True | Handle os \<Rightarrow> True | ReadFail \<Rightarrow> True | Send \<Rightarrow> True | _ \<Rightarrow> False)"

definition conn_step ::
  "'u pb_rt \<Rightarrow> exact_read \<Rightarrow> ('q, 'u ReqCmd) mpsc \<Rightarrow> string \<Rightarrow> conn_move \<Rightarrow> ('q, 'u) Connection \<Rightarrow> ('q, 'u) Connection option" where
  "conn_step rt rd ch who m c = (if of_reader m then read_loop rt rd ch m c else write_loop rt ch who m c)"

section \<open>The task of listen\<close>

definition put_conn :: "nat \<Rightarrow> ('q, 'u) Connection \<Rightarrow> ('q, 'u) System \<Rightarrow> ('q, 'u) System" where
  "put_conn j c s = s\<lparr>conns := (conns s)[j := c]\<rparr>"

definition put_listen :: "nat \<Rightarrow> listen_point \<Rightarrow> ('q, 'u) System \<Rightarrow> ('q, 'u) System" where
  "put_listen i p s = s\<lparr>listens := (listens s)[i := (listens s ! i)\<lparr>b_point := p\<rparr>]\<rparr>"

text \<open>\<open>join!(rl, wl)\<close> and the report; the results of the two tasks are dropped.\<close>

definition join_loops :: "nat \<Rightarrow> ('q, 'u) System \<Rightarrow> ('q, 'u) System option" where
  "join_loops j s =
     (let c = conns s ! j in
      if c_reader c = RDone \<and> c_writer c = WDone \<and> \<not> c_joined c
      then Some (notify_broken j (put_conn j (c\<lparr>c_joined := True\<rparr>) s)) else None)"

text \<open>
  \<open>LEnter\<close>: into the next \<open>select!\<close>. \<open>LExit\<close>, \<open>LBroken\<close>, \<open>LSlept\<close>: the branches of \<open>exit\<close>, of
  \<open>broken\<close> and of the timer.
\<close>

datatype listen_move = LEnter | LExit | LBroken | LConnect start_env | LSlept

fun listen_step ::
  "'u pb_rt \<Rightarrow> ('q, 'u ReqCmd) mpsc \<Rightarrow> nat \<Rightarrow> listen_move \<Rightarrow> ('q, 'u) System \<Rightarrow> ('q, 'u) System option" where
  "listen_step rt ch i LEnter s =
     (case b_point (listens s ! i) of
        BTop j \<Rightarrow> Some (put_listen i (BSelect j False False) s)
      | BPause \<Rightarrow> Some (put_listen i (BSleep False) s)
      | _ \<Rightarrow> None)"
| "listen_step rt ch i LExit s =
     (case b_point (listens s ! i) of
        BSelect j e b \<Rightarrow> if e then Some (put_listen i BReturned s) else None
      | BSleep e \<Rightarrow> if e then Some (put_listen i BReturned s) else None
      | _ \<Rightarrow> None)"
| "listen_step rt ch i LBroken s =
     (case b_point (listens s ! i) of
        BSelect j e b \<Rightarrow> if b then Some (put_listen i BConnect s) else None
      | _ \<Rightarrow> None)"
| "listen_step rt ch i (LConnect env) s =
     (case b_point (listens s ! i) of
        BConnect \<Rightarrow>
          (case start_background rt ch env (b_local (listens s ! i)) (server_addr (client s)) of
             Ret (Inr c) \<Rightarrow> Some (put_listen i (BTop (length (conns s))) (s\<lparr>conns := conns s @ [c]\<rparr>))
           | Ret (Inl e) \<Rightarrow> Some (put_listen i BPause s)
           | _ \<Rightarrow> None)
      | _ \<Rightarrow> None)"
| "listen_step rt ch i LSlept s =
     (case b_point (listens s ! i) of BSleep e \<Rightarrow> Some (put_listen i BConnect s) | _ \<Rightarrow> None)"

section \<open>The calls of the user\<close>

record listen_env =
  le_lookup :: lookup_host
  le_os :: async_os
  le_start :: start_env

definition listen_socket :: "listen_env \<Rightarrow> Client \<Rightarrow> (io_error + TcpSocket \<times> SocketAddr) outcome" where
  "listen_socket env c =
     ques_call (choose_bind_addr (le_lookup env) c) (\<lambda>a.
     ques (bind (le_os env) a) (\<lambda>l.
     and_then (unwrap (ao_local_addr (ts_os l))) (\<lambda>la.
     ques (ao_listen (ts_os l) 10) (\<lambda>_.
     Ret (Inr (l, la))))))"

definition listen ::
  "'u pb_rt \<Rightarrow> ('q, 'u ReqCmd) mpsc \<Rightarrow> listen_env \<Rightarrow> ('q, 'u) System \<Rightarrow> ('q, 'u) System \<times> (io_error + unit) outcome" where
  "listen rt ch env s =
     (case listen_socket env (client s) of
        Ret (Inr (l, la)) \<Rightarrow>
          (case start_background rt ch (le_start env) la (server_addr (client s)) of
             Ret (Inl e) \<Rightarrow> (s, Ret (Inl e))
           | Ret (Inr c) \<Rightarrow>
               (s\<lparr>conns := conns s @ [c],
                  listens := listens s @ [\<lparr>b_local = la, b_point = BTop (length (conns s))\<rparr>],
                  client := (client s)\<lparr>listener := Some l\<rparr>\<rparr>, Ret (Inr ()))
           | Panic \<Rightarrow> (s, Panic)
           | Hang \<Rightarrow> (s, Hang))
      | Ret (Inl e) \<Rightarrow> (s, Ret (Inl e))
      | Panic \<Rightarrow> (s, Panic)
      | Hang \<Rightarrow> (s, Hang))"

text \<open>
  \<open>accept\<close>: \<open>None\<close> while neither branch of its \<open>select!\<close> is ready. \<open>notified\<close> tells which of
  two ready branches is taken, \<open>ans\<close> is the operating system's answer.
\<close>

definition accept ::
  "bool \<Rightarrow> (io_error + TcpSocket \<times> SocketAddr) option \<Rightarrow> Client \<Rightarrow> (io_error + TcpSocket \<times> SocketAddr) option" where
  "accept notified ans c =
     (case listener c of
        None \<Rightarrow> Some (Inl (new_error Other ''not listening''))
      | Some l \<Rightarrow> if notified then Some (Inl (new_error Other ''exit'')) else ans)"

text \<open>\<open>Drop for Client\<close>.\<close>

definition drop_client :: "('q, 'u) System \<Rightarrow> ('q, 'u) System" where
  "drop_client s = notify_exit (s\<lparr>dropped := True\<rparr>)"

section \<open>The scheduler\<close>

datatype label = Conn nat conn_move | Join nat | OfListen nat listen_move | Listen listen_env | DropClient

fun exec ::
  "'u pb_rt \<Rightarrow> exact_read \<Rightarrow> ('q, 'u ReqCmd) mpsc \<Rightarrow> label \<Rightarrow> ('q, 'u) System \<Rightarrow> ('q, 'u) System option" where
  "exec rt rd ch (Conn j m) s =
     (if j < length (conns s) then
        map_option (\<lambda>c. put_conn j c s) (conn_step rt rd ch (client_id (client s)) m (conns s ! j))
      else None)"
| "exec rt rd ch (Join j) s = (if j < length (conns s) then join_loops j s else None)"
| "exec rt rd ch (OfListen i m) s = (if i < length (listens s) then listen_step rt ch i m s else None)"
| "exec rt rd ch (Listen env) s = (if dropped s then None else Some (fst (listen rt ch env s)))"
| "exec rt rd ch DropClient s = (if dropped s then None else Some (drop_client s))"

fun execs ::
  "'u pb_rt \<Rightarrow> exact_read \<Rightarrow> ('q, 'u ReqCmd) mpsc \<Rightarrow> label list \<Rightarrow> ('q, 'u) System \<Rightarrow> ('q, 'u) System option" where
  "execs rt rd ch [] s = Some s"
| "execs rt rd ch (l # ls) s = (case exec rt rd ch l s of None \<Rightarrow> None | Some s' \<Rightarrow> execs rt rd ch ls s')"

definition opened :: "Client \<Rightarrow> ('q, 'u) System" where
  "opened c = \<lparr>client = c, dropped = False, conns = [], listens = []\<rparr>"

inductive reachable :: "'u pb_rt \<Rightarrow> exact_read \<Rightarrow> ('q, 'u ReqCmd) mpsc \<Rightarrow> ('q, 'u) System \<Rightarrow> bool" for rt rd ch where
  created: "new server who la = Inr c \<Longrightarrow> reachable rt rd ch (opened c)"
| moved: "reachable rt rd ch s \<Longrightarrow> exec rt rd ch l s = Some s' \<Longrightarrow> reachable rt rd ch s'"

end
