(* ===== verification/Tcp_Async_Correct.thy ===== *)
theory Tcp_Async_Correct
  imports Tcp_Async
begin

text \<open>
  The properties of the tokio TCP client's tasks: what a mark of \<open>Notify\<close> means and what it
  leads to, what is written first, how a broken connection is replaced, and what happens
  when a notification comes while nobody waits for it.
\<close>

section \<open>What a move changes\<close>

lemma async_put_sel [simp]:
  "client (put_conn j c s) = client s" "dropped (put_conn j c s) = dropped s" "listens (put_conn j c s) = listens s"
  "conns (put_conn j c s) = (conns s)[j := c]"
  "client (put_listen i p s) = client s" "dropped (put_listen i p s) = dropped s" "conns (put_listen i p s) = conns s"
  "listens (put_listen i p s) = (listens s)[i := (listens s ! i)\<lparr>b_point := p\<rparr>]"
  by (simp_all add: put_conn_def put_listen_def)

lemma notify_broken_sel [simp]:
  "client (notify_broken j s) = client s" "dropped (notify_broken j s) = dropped s" "conns (notify_broken j s) = conns s"
  "listens (notify_broken j s) = map (\<lambda>b. b\<lparr>b_point := mark_broken j (b_point b)\<rparr>) (listens s)"
  by (simp_all add: notify_broken_def)

lemma drop_client_sel [simp]:
  "client (drop_client s) = client s" "dropped (drop_client s)"
  "conns (drop_client s) = map (\<lambda>c. c\<lparr>c_reader := mark_reader (c_reader c), c_writer := mark_writer (c_writer c)\<rparr>) (conns s)"
  "listens (drop_client s) = map (\<lambda>b. b\<lparr>b_point := mark_exit (b_point b)\<rparr>) (listens s)"
  by (simp_all add: drop_client_def notify_exit_def)

lemma async_start_Ret:
  "start_background rt ch env la server = Ret (Inr c) \<longleftrightarrow>
     (\<exists>svr q. connect_server (se_lookup env) (se_os env) la server = Inr svr
        \<and> mpsc_send ch (ReqPing (Ping_new rt)) (mpsc_new ch 10) = Some q
        \<and> c = \<lparr>c_local = la, c_in = se_in env, c_out = [], c_queue = q, c_attempts = [],
              c_reader = RTop, c_writer = WTop, c_joined = False\<rparr>)"
  by (auto simp: start_background_def ques_Ret split: option.splits)

text \<open>\<open>listen\<close> leaves the state alone or adds one connection and its task.\<close>

lemma async_listen_cases:
  obtains "fst (listen rt ch env s) = s"
  | l la c where "start_background rt ch (le_start env) la (server_addr (client s)) = Ret (Inr c)"
      "listen rt ch env s = (s\<lparr>conns := conns s @ [c], listens := listens s @ [\<lparr>b_local = la, b_point = BTop (length (conns s))\<rparr>],
          client := (client s)\<lparr>listener := Some l\<rparr>\<rparr>, Ret (Inr ()))"
proof (cases "listen_socket env (client s)")
  case (Ret x)
  show thesis
  proof (cases x)
    case (Inl e)
    then show ?thesis using that(1) Ret by (simp add: listen_def)
  next
    case (Inr y)
    obtain l la where y: "y = (l, la)" by fastforce
    show ?thesis
    proof (cases "start_background rt ch (le_start env) la (server_addr (client s))")
      case r: (Ret z)
      then show ?thesis
      proof (cases z)
        case (Inl e)
        then show ?thesis using that(1) Ret Inr y r by (simp add: listen_def)
      next
        case z: (Inr c)
        show ?thesis by (rule that(2)[of la c l]) (use Ret Inr y r z in \<open>simp_all add: listen_def\<close>)
      qed
    qed (use that(1) Ret Inr y in \<open>simp_all add: listen_def\<close>)
  qed
qed (use that(1) in \<open>simp_all add: listen_def\<close>)

text \<open>The moves of the task of \<open>listen\<close>: at most its point changes, or one connection is added.\<close>

lemma listen_step_cases:
  assumes "listen_step rt ch i m s = Some s'"
  obtains (enter) j where "m = LEnter" "b_point (listens s ! i) = BTop j" "s' = put_listen i (BSelect j False False) s"
  | (pause) "m = LEnter" "b_point (listens s ! i) = BPause" "s' = put_listen i (BSleep False) s"
  | (exit) j b where "m = LExit" "b_point (listens s ! i) = BSelect j True b \<or> b_point (listens s ! i) = BSleep True"
      "s' = put_listen i BReturned s"
  | (broken) j e where "m = LBroken" "b_point (listens s ! i) = BSelect j e True" "s' = put_listen i BConnect s"
  | (started) env c where "m = LConnect env" "b_point (listens s ! i) = BConnect"
      "start_background rt ch env (b_local (listens s ! i)) (server_addr (client s)) = Ret (Inr c)"
      "s' = put_listen i (BTop (length (conns s))) (s\<lparr>conns := conns s @ [c]\<rparr>)"
  | (failed) env where "m = LConnect env" "b_point (listens s ! i) = BConnect" "s' = put_listen i BPause s"
  | (slept) e where "m = LSlept" "b_point (listens s ! i) = BSleep e" "s' = put_listen i BConnect s"
proof (cases m)
  case LEnter
  show ?thesis using assms LEnter enter pause by (auto split: listen_point.splits)
next
  case LExit
  show ?thesis using assms LExit exit by (auto split: listen_point.splits if_splits)
next
  case LBroken
  show ?thesis using assms LBroken broken by (auto split: listen_point.splits if_splits)
next
  case (LConnect env)
  then show ?thesis using assms started[OF LConnect] failed[OF LConnect]
    by (auto split: listen_point.splits outcome.splits sum.splits)
next
  case LSlept
  show ?thesis using assms LSlept slept by (auto split: listen_point.splits)
qed

text \<open>A property of connections that every move of a connection keeps, and the others do too.\<close>

lemma exec_conns:
  assumes e: "exec rt rd ch l s = Some s'"
    and all: "\<forall>c \<in> set (conns s). P c"
    and step: "\<And>m c c'. conn_step rt rd ch (client_id (client s)) m c = Some c' \<Longrightarrow> P c \<Longrightarrow> P c'"
    and joined: "\<And>c. c_reader c = RDone \<Longrightarrow> c_writer c = WDone \<Longrightarrow> P c \<Longrightarrow> P (c\<lparr>c_joined := True\<rparr>)"
    and mark: "\<And>c. dropped s' \<Longrightarrow> P c \<Longrightarrow> P (c\<lparr>c_reader := mark_reader (c_reader c), c_writer := mark_writer (c_writer c)\<rparr>)"
    and fresh: "\<And>env la c. start_background rt ch env la (server_addr (client s)) = Ret (Inr c) \<Longrightarrow> P c"
  shows "\<forall>c \<in> set (conns s'). P c"
proof (cases l)
  case (Conn j m)
  then obtain c where "j < length (conns s)" "conn_step rt rd ch (client_id (client s)) m (conns s ! j) = Some c" "s' = put_conn j c s"
    using e by (auto split: if_splits)
  then show ?thesis using all step[of m "conns s ! j" c] set_update_subset_insert[of "conns s" j c] by auto
next
  case (Join j)
  then have j: "j < length (conns s)" "c_reader (conns s ! j) = RDone" "c_writer (conns s ! j) = WDone"
      "conns s' = (conns s)[j := (conns s ! j)\<lparr>c_joined := True\<rparr>]"
    using e by (auto simp: join_loops_def Let_def split: if_splits)
  then show ?thesis
    using all joined[of "conns s ! j"] set_update_subset_insert[of "conns s" j "(conns s ! j)\<lparr>c_joined := True\<rparr>"] by auto
next
  case (OfListen i m)
  then have "listen_step rt ch i m s = Some s'" using e by (auto split: if_splits)
  then show ?thesis
  proof (cases rule: listen_step_cases)
    case (started env c)
    then show ?thesis using all fresh[of env _ c] by auto
  qed (use all in simp_all)
next
  case (Listen env)
  then have s': "s' = fst (listen rt ch env s)" using e by (auto split: if_splits)
  show ?thesis by (rule async_listen_cases[of rt ch env s]) (use all fresh s' in auto)
next
  case DropClient
  then show ?thesis using e all mark by (auto split: if_splits)
qed

lemma async_exec_client: "exec rt rd ch l s = Some s' \<Longrightarrow> client_id (client s') = client_id (client s) \<and> server_addr (client s') = server_addr (client s)"
proof (cases l)
  case (Listen env)
  assume "exec rt rd ch l s = Some s'"
  with Listen have s': "s' = fst (listen rt ch env s)" by (auto split: if_splits)
  show ?thesis by (rule async_listen_cases[of rt ch env s]) (use s' in auto)
next
  case (OfListen i m)
  assume "exec rt rd ch l s = Some s'"
  with OfListen have "listen_step rt ch i m s = Some s'" by (auto split: if_splits)
  then show ?thesis by (cases rule: listen_step_cases) simp_all
qed (auto simp: join_loops_def Let_def split: if_splits)

lemma exec_dropped: "exec rt rd ch l s = Some s' \<Longrightarrow> dropped s \<Longrightarrow> dropped s'"
proof (cases l)
  case (OfListen i m)
  assume "exec rt rd ch l s = Some s'" "dropped s"
  with OfListen have "listen_step rt ch i m s = Some s'" by (auto split: if_splits)
  then show ?thesis using \<open>dropped s\<close> by (cases rule: listen_step_cases) simp_all
qed (auto simp: join_loops_def Let_def split: if_splits)

section \<open>What the marks mean\<close>

definition point_true :: "('q, 'u) System \<Rightarrow> listen_point \<Rightarrow> bool" where
  "point_true s p =
     (case p of
        BTop j \<Rightarrow> j < length (conns s)
      | BSelect j e b \<Rightarrow> j < length (conns s) \<and> (e \<longrightarrow> dropped s) \<and> (b \<longrightarrow> c_joined (conns s ! j))
      | BSleep e \<Rightarrow> e \<longrightarrow> dropped s
      | BReturned \<Rightarrow> dropped s
      | _ \<Rightarrow> True)"

definition conn_true :: "bool \<Rightarrow> ('q, 'u) Connection \<Rightarrow> bool" where
  "conn_true d c \<longleftrightarrow> (c_joined c \<longrightarrow> c_reader c = RDone \<and> c_writer c = WDone)
     \<and> (c_reader c = RSelect True \<or> c_writer c = WSelect True \<longrightarrow> d)"

definition marks_true :: "('q, 'u) System \<Rightarrow> bool" where
  "marks_true s \<longleftrightarrow> (\<forall>b \<in> set (listens s). point_true s (b_point b)) \<and> (\<forall>c \<in> set (conns s). conn_true (dropped s) c)"

lemma conn_true_step: "conn_step rt rd ch who m c = Some c' \<Longrightarrow> conn_true d c \<Longrightarrow> conn_true d c'"
  by (cases m; auto simp: conn_step_def of_reader_def conn_true_def
      split: if_splits reader.splits writer.splits outcome.splits sum.splits option.splits prod.splits)

lemma conn_true_mono: "conn_true d c \<Longrightarrow> d \<longrightarrow> d' \<Longrightarrow> conn_true d' c"
  by (auto simp: conn_true_def)

text \<open>What a point says stays true when connections are added and tasks move on.\<close>

lemma point_true_mono:
  assumes "point_true s p" "length (conns s) \<le> length (conns s')" "dropped s \<longrightarrow> dropped s'"
    and "\<And>j. j < length (conns s) \<Longrightarrow> c_joined (conns s ! j) \<Longrightarrow> c_joined (conns s' ! j)"
  shows "point_true s' p"
  using assms by (auto simp: point_true_def split: listen_point.splits)

lemma conn_step_joined: "conn_step rt rd ch who m c = Some c' \<Longrightarrow> c_joined c' = c_joined c"
  by (cases m; auto simp: conn_step_def of_reader_def
      split: if_splits reader.splits writer.splits outcome.splits sum.splits option.splits prod.splits)

lemma points_update:
  assumes "\<forall>b \<in> set bs. P (b_point b)" "P p"
  shows "\<forall>b \<in> set (bs[i := (bs ! i)\<lparr>b_point := p\<rparr>]). P (b_point b)"
  using assms set_update_subset_insert[of bs i "(bs ! i)\<lparr>b_point := p\<rparr>"] by auto

lemma point_true_put [simp]: "point_true (put_listen i p s) = point_true s"
  by (auto simp: fun_eq_iff point_true_def split: listen_point.splits)

lemma point_true_simps [simp]:
  "point_true s (BSleep False)" "point_true s BConnect" "point_true s BPause"
  "point_true s (BSelect j False False) \<longleftrightarrow> point_true s (BTop j)"
  by (simp_all add: point_true_def)

lemma points_put:
  "\<forall>b \<in> set (listens s). point_true s (b_point b) \<Longrightarrow> point_true s p
    \<Longrightarrow> \<forall>b \<in> set (listens (put_listen i p s)). point_true (put_listen i p s) (b_point b)"
  using points_update[of "listens s" "point_true s" p i] by simp

lemma exec_marks_true:
  assumes "exec rt rd ch l s = Some s'" "marks_true s"
  shows "marks_true s'"
proof -
  have points: "\<forall>b \<in> set (listens s). point_true s (b_point b)" and cs: "\<forall>c \<in> set (conns s). conn_true (dropped s) c"
    using assms(2) by (simp_all add: marks_true_def)
  have d: "dropped s \<longrightarrow> dropped s'" using exec_dropped[OF assms(1)] by blast
  have "\<forall>c \<in> set (conns s). conn_true (dropped s') c" using cs conn_true_mono[OF _ d] by blast
  then have conns: "\<forall>c \<in> set (conns s'). conn_true (dropped s') c"
  proof (rule exec_conns[OF assms(1)])
    show "conn_true (dropped s') c'" if "conn_step rt rd ch (client_id (client s)) m c = Some c'" "conn_true (dropped s') c" for m c c'
      using conn_true_step[OF that] .
    show "conn_true (dropped s') (c\<lparr>c_reader := mark_reader (c_reader c), c_writer := mark_writer (c_writer c)\<rparr>)"
      if "dropped s'" "conn_true (dropped s') c" for c
      using that by (cases "c_reader c"; cases "c_writer c") (auto simp: conn_true_def)
  qed (auto simp: conn_true_def async_start_Ret)
  have "\<forall>b \<in> set (listens s'). point_true s' (b_point b)"
  proof (cases l)
    case (Conn j m)
    then obtain c where c: "j < length (conns s)" "conn_step rt rd ch (client_id (client s)) m (conns s ! j) = Some c" "s' = put_conn j c s"
      using assms(1) by (auto split: if_splits)
    have "point_true s' p" if "point_true s p" for p
      by (rule point_true_mono[OF that]) (use c conn_step_joined[OF c(2)] in \<open>auto simp: nth_list_update\<close>)
    then show ?thesis using points c(3) by simp
  next
    case (Join j)
    then have j: "j < length (conns s)" and s': "s' = notify_broken j (put_conn j ((conns s ! j)\<lparr>c_joined := True\<rparr>) s)"
      using assms(1) by (auto simp: join_loops_def Let_def split: if_splits)
    have "point_true s' (mark_broken j p)" if "point_true s p" for p
    proof -
      have "point_true s' p" by (rule point_true_mono[OF that]) (use j in \<open>auto simp: s' nth_list_update\<close>)
      with j show ?thesis by (auto simp: point_true_def mark_broken_def s' split: listen_point.splits)
    qed
    then show ?thesis using points by (simp add: s')
  next
    case (OfListen i m)
    then have i: "i < length (listens s)" and "listen_step rt ch i m s = Some s'" using assms(1) by (auto split: if_splits)
    have p: "point_true s (b_point (listens s ! i))" using points i by simp
    from \<open>listen_step rt ch i m s = Some s'\<close> show ?thesis
    proof (cases rule: listen_step_cases)
      case (started env c)
      have "point_true s' q" if "point_true s q" for q
        by (rule point_true_mono[OF that]) (simp_all add: started(4) nth_append)
      then have "\<forall>b \<in> set (listens s). point_true s' (b_point b)" using points by blast
      from points_update[OF this, of "BTop (length (conns s))" i] show ?thesis
        by (simp add: started(4) point_true_def put_listen_def)
    next
      case (exit j b)
      then have "point_true s BReturned" using p by (auto simp: point_true_def)
      with exit show ?thesis using points_put[OF points] by blast
    qed (use p points_put[OF points] point_true_simps in \<open>metis (no_types)\<close>)+
  next
    case (Listen env)
    then have s': "s' = fst (listen rt ch env s)" using assms(1) by (auto split: if_splits)
    show ?thesis
    proof (rule async_listen_cases[of rt ch env s])
      fix l la c
      assume eq: "listen rt ch env s = (s\<lparr>conns := conns s @ [c], listens := listens s @ [\<lparr>b_local = la, b_point = BTop (length (conns s))\<rparr>],
          client := (client s)\<lparr>listener := Some l\<rparr>\<rparr>, Ret (Inr ()))"
      have "point_true s' q" if "point_true s q" for q
        by (rule point_true_mono[OF that]) (simp_all add: s' eq nth_append)
      with points have "\<forall>b \<in> set (listens s). point_true s' (b_point b)" by blast
      then show ?thesis by (simp add: s' eq point_true_def)
    qed (use points s' in simp)
  next
    case DropClient
    then have s': "s' = drop_client s" using assms(1) by (auto split: if_splits)
    have "point_true s' (mark_exit p)" if "point_true s p" for p
      using that by (cases p) (auto simp: point_true_def s')
    then show ?thesis using points by (simp add: s')
  qed
  with conns show ?thesis by (simp add: marks_true_def)
qed

lemma reachable_marks_true: "reachable rt rd ch s \<Longrightarrow> marks_true s"
proof (induction rule: reachable.induct)
  case (created server who la c)
  then show ?case by (simp add: marks_true_def opened_def)
next
  case (moved s l s')
  then show ?case using exec_marks_true by blast
qed

section \<open>Runs\<close>

lemma async_execs_append: "execs rt rd ch (ls @ ms) s = (case execs rt rd ch ls s of None \<Rightarrow> None | Some s' \<Rightarrow> execs rt rd ch ms s')"
  by (induction ls arbitrary: s) (auto split: option.split)

lemma async_reachable_execs: "execs rt rd ch ls s = Some s' \<Longrightarrow> reachable rt rd ch s \<Longrightarrow> reachable rt rd ch s'"
proof (induction ls arbitrary: s)
  case (Cons l ls)
  then obtain s1 where s1: "exec rt rd ch l s = Some s1" "execs rt rd ch ls s1 = Some s'" by (auto split: option.splits)
  then show ?case using Cons.IH[OF s1(2)] reachable.moved[OF Cons.prems(2) s1(1)] by simp
qed simp

text \<open>An invariant of single moves is one of runs.\<close>

lemma execs_invariant:
  assumes "execs rt rd ch ls s = Some s'" "P s" and step: "\<And>l s s'. exec rt rd ch l s = Some s' \<Longrightarrow> P s \<Longrightarrow> P s'"
  shows "P s'"
  using assms(1,2)
proof (induction ls arbitrary: s)
  case (Cons l ls)
  then obtain s1 where "exec rt rd ch l s = Some s1" "execs rt rd ch ls s1 = Some s'" by (auto split: option.splits)
  then show ?case using Cons.IH[of s1] step[of l s s1] Cons.prems(2) by blast
qed simp

text \<open>A client whose operating system refuses nothing, for the witnesses.\<close>

abbreviation "any_v4 \<equiv> V4 (Ipv4 0 0 0 0) 7"

abbreviation easy_os :: async_os where
  "easy_os \<equiv> \<lparr>ao_new_v4 = Inr (), ao_new_v6 = Inr (), ao_set_reuseaddr = Inr (), ao_set_reuseport = Inr (),
     ao_bind = (\<lambda>_. Inr ()), ao_connect = (\<lambda>_. Inr ()), ao_local_addr = Inr any_v4, ao_listen = (\<lambda>_. Inr ())\<rparr>"

abbreviation some_client :: Client where
  "some_client \<equiv> \<lparr>server_addr = ''s'', client_id = ''l'', listener = None, local_addr = Some any_v4\<rparr>"

abbreviation easy_start :: "bytes \<Rightarrow> start_env" where
  "easy_start bs \<equiv> \<lparr>se_lookup = (\<lambda>_. Inr [V4 (Ipv4 9 9 9 9) 8888]), se_os = easy_os, se_in = bs\<rparr>"

abbreviation easy_listen :: "bytes \<Rightarrow> listen_env" where
  "easy_listen bs \<equiv> \<lparr>le_lookup = (\<lambda>_. Inr [V4 (Ipv4 9 9 9 9) 8888]), le_os = easy_os, le_start = easy_start bs\<rparr>"

abbreviation wire_run :: "label list \<Rightarrow> (raw_fields ReqCmd sync_channel, raw_fields) System option" where
  "wire_run ls \<equiv> execs wire_rt std_read_exact std_channel ls (opened some_client)"

text \<open>The moves of a connection whose stream ends: the writer sends its ping and both loops end.\<close>

abbreviation ended :: "label list" where
  "ended \<equiv> map (Conn 0) [EnterR, ReadFail, EnterW, Recv, Write (Inr ()) (Inr ()), EnterW, Recv]"

lemma async_run_reachable: "wire_run ls = Some s \<Longrightarrow> reachable wire_rt std_read_exact std_channel s"
  by (rule async_reachable_execs) (use reachable.created[of "''s''" "''l''" "Some any_v4" some_client] in \<open>simp_all add: new_def\<close>)

section \<open>Reconnecting only for a reason\<close>

text \<open>C23. The task of \<open>listen\<close> makes a new connection only when both loops of the one it holds
  have ended, and it returns only when the client has been dropped; the loops of a
  connection leave by the branch of \<open>exit\<close> only then, too.\<close>

theorem async_reconnects_only_when_over:
  assumes "reachable rt rd ch s"
  shows "(exec rt rd ch (OfListen i LBroken) s = Some s' \<longrightarrow>
      (\<exists>j e b. b_point (listens s ! i) = BSelect j e b \<and> j < length (conns s)
        \<and> c_reader (conns s ! j) = RDone \<and> c_writer (conns s ! j) = WDone))
    \<and> (exec rt rd ch (OfListen i LExit) s = Some s' \<longrightarrow> dropped s)
    \<and> (exec rt rd ch (Conn j ExitR) s = Some s' \<or> exec rt rd ch (Conn j ExitW) s = Some s' \<longrightarrow> dropped s)"
proof -
  have m: "marks_true s" by (rule reachable_marks_true[OF assms])
  have point: "point_true s (b_point (listens s ! i))" if "i < length (listens s)"
    using m that by (simp add: marks_true_def)
  have conn: "conn_true (dropped s) (conns s ! j)" if "j < length (conns s)" for j
    using m that by (simp add: marks_true_def)
  have "\<exists>j e b. b_point (listens s ! i) = BSelect j e b \<and> j < length (conns s)
      \<and> c_reader (conns s ! j) = RDone \<and> c_writer (conns s ! j) = WDone"
    if "exec rt rd ch (OfListen i LBroken) s = Some s'"
  proof -
    have i: "i < length (listens s)" "listen_step rt ch i LBroken s = Some s'" using that by (simp_all split: if_splits)
    from i(2) obtain j e where j: "b_point (listens s ! i) = BSelect j e True" by (cases rule: listen_step_cases) auto
    then have "j < length (conns s)" "c_joined (conns s ! j)" using point[OF i(1)] by (simp_all add: point_true_def)
    with j conn[of j] show ?thesis by (auto simp: conn_true_def)
  qed
  moreover have "dropped s" if "exec rt rd ch (OfListen i LExit) s = Some s'"
  proof -
    have i: "i < length (listens s)" "listen_step rt ch i LExit s = Some s'" using that by (simp_all split: if_splits)
    from i(2) show ?thesis by (cases rule: listen_step_cases) (use point[OF i(1)] in \<open>auto simp: point_true_def\<close>)
  qed
  moreover have "dropped s" if "exec rt rd ch (Conn j ExitR) s = Some s' \<or> exec rt rd ch (Conn j ExitW) s = Some s'"
    using that conn[of j] by (auto simp: conn_step_def of_reader_def conn_true_def split: if_splits)
  ultimately show ?thesis by blast
qed

theorem async_reconnects_only_when_over_witness:
  "\<exists>s s'. wire_run ([Listen (easy_listen []), OfListen 0 LEnter] @ ended @ [Join 0]) = Some s
     \<and> exec wire_rt std_read_exact std_channel (OfListen 0 LBroken) s = Some s'
     \<and> (\<exists>j e b. b_point (listens s ! 0) = BSelect j e b \<and> c_reader (conns s ! j) = RDone)"
proof -
  let ?ls = "[Listen (easy_listen []), OfListen 0 LEnter] @ ended @ [Join 0]"
  have "case wire_run ?ls of None \<Rightarrow> False
    | Some s \<Rightarrow> (case exec wire_rt std_read_exact std_channel (OfListen 0 LBroken) s of None \<Rightarrow> False | Some s' \<Rightarrow> True)" by code_simp
  then obtain s s' where s: "wire_run ?ls = Some s" "exec wire_rt std_read_exact std_channel (OfListen 0 LBroken) s = Some s'"
    by (auto dest!: case_SomeD)
  from async_reconnects_only_when_over[OF async_run_reachable[OF s(1)], of 0 s' 0] s show ?thesis by blast
qed

section \<open>Notifications that nobody waits for\<close>

text \<open>A task of \<open>listen\<close> whose connection has been reported before the task waited for it.\<close>

definition deaf :: "nat \<Rightarrow> nat \<Rightarrow> ('q, 'u) System \<Rightarrow> bool" where
  "deaf i j s \<longleftrightarrow> i < length (listens s) \<and> j < length (conns s) \<and> c_joined (conns s ! j)
     \<and> (case b_point (listens s ! i) of BTop k \<Rightarrow> k = j | BSelect k e b \<Rightarrow> k = j \<and> \<not> b | BReturned \<Rightarrow> True | _ \<Rightarrow> False)"

lemma deaf_cases:
  assumes "deaf i j s"
  obtains "b_point (listens s ! i) = BTop j" | e where "b_point (listens s ! i) = BSelect j e False"
    | "b_point (listens s ! i) = BReturned"
  using assms by (cases "b_point (listens s ! i)") (auto simp: deaf_def)

lemma deaf_same:
  assumes "deaf i j s" "i < length (listens s')" "listens s' ! i = listens s ! i" "length (conns s) \<le> length (conns s')"
    "c_joined (conns s' ! j)"
  shows "deaf i j s'"
  using assms by (auto simp: deaf_def)

lemma deaf_exec:
  assumes "exec rt rd ch l s = Some s'" "deaf i j s"
  shows "deaf i j s'"
proof -
  have d: "i < length (listens s)" "j < length (conns s)" "c_joined (conns s ! j)" using assms(2) by (simp_all add: deaf_def)
  note same = deaf_same[OF assms(2), of s']
  show ?thesis
  proof (cases l)
    case (Conn k m)
    then obtain c where c: "k < length (conns s)" "conn_step rt rd ch (client_id (client s)) m (conns s ! k) = Some c" "s' = put_conn k c s"
      using assms(1) by (auto split: if_splits)
    show ?thesis using same d c(1,3) conn_step_joined[OF c(2)] by (simp add: nth_list_update)
  next
    case (Join k)
    then have k: "k < length (conns s)" "\<not> c_joined (conns s ! k)" and s': "s' = notify_broken k (put_conn k ((conns s ! k)\<lparr>c_joined := True\<rparr>) s)"
      using assms(1) by (auto simp: join_loops_def Let_def split: if_splits)
    then have "k \<noteq> j" using d by auto
    have "mark_broken k (b_point (listens s ! i)) = b_point (listens s ! i)"
      using assms(2) by (cases rule: deaf_cases) (simp_all add: mark_broken_def \<open>k \<noteq> j\<close>[symmetric])
    then show ?thesis using same d s' \<open>k \<noteq> j\<close> by simp
  next
    case (OfListen k m)
    then have k: "k < length (listens s)" and st: "listen_step rt ch k m s = Some s'" using assms(1) by (auto split: if_splits)
    show ?thesis
    proof (cases "k = i")
      case False
      from st show ?thesis
        by (cases rule: listen_step_cases) (rule same; use False d in \<open>simp add: put_listen_def nth_append\<close>)+
    next
      case True
      from st show ?thesis
        by (cases rule: listen_step_cases) (use True assms(2) in \<open>auto simp: deaf_def\<close>)
    qed
  next
    case (Listen env)
    then have s': "s' = fst (listen rt ch env s)" using assms(1) by (auto split: if_splits)
    show ?thesis
      by (rule async_listen_cases[of rt ch env s]; rule same) (use s' d in \<open>simp_all add: nth_append\<close>)
  next
    case DropClient
    then have s': "s' = drop_client s" using assms(1) by (auto split: if_splits)
    from assms(2) show ?thesis
      by (cases rule: deaf_cases) (use d s' in \<open>simp_all add: deaf_def\<close>)
  qed
qed

text \<open>A connection that ends before the task of \<open>listen\<close> waits for it is never replaced:
  \<open>notify_waiters\<close> leaves nothing behind for a task that has not entered its \<open>select!\<close>, so
  the task waits for ever for the report of a connection whose loops have ended, or until
  the client is dropped; it does not get to \<open>start_background\<close> again.\<close>

theorem async_early_break_lost:
  assumes "reachable rt rd ch s" "i < length (listens s)" "b_point (listens s ! i) = BTop j"
    and "exec rt rd ch (Join j) s = Some s1" "execs rt rd ch ls s1 = Some s2"
  shows "i < length (listens s2) \<and> b_point (listens s2 ! i) \<noteq> BConnect
    \<and> (b_point (listens s2 ! i) = BReturned \<or> (\<exists>e. b_point (listens s2 ! i) \<in> {BTop j, BSelect j e False}))"
proof -
  have j: "j < length (conns s)" and s1: "s1 = notify_broken j (put_conn j ((conns s ! j)\<lparr>c_joined := True\<rparr>) s)"
    using assms(4) by (auto simp: join_loops_def Let_def split: if_splits)
  then have "deaf i j s1" using assms(2,3) by (simp add: deaf_def mark_broken_def)
  then have "deaf i j s2" by (rule execs_invariant[OF assms(5)]) (rule deaf_exec)
  moreover have "i < length (listens s2)" using calculation by (simp add: deaf_def)
  ultimately show ?thesis by (cases rule: deaf_cases) simp_all
qed

theorem async_early_break_lost_witness:
  "\<exists>s s1 s2. wire_run ([Listen (easy_listen [])] @ ended) = Some s
     \<and> exec wire_rt std_read_exact std_channel (Join 0) s = Some s1
     \<and> execs wire_rt std_read_exact std_channel [OfListen 0 LEnter] s1 = Some s2
     \<and> b_point (listens s2 ! 0) \<noteq> BConnect \<and> c_reader (conns s1 ! 0) = RDone"
proof -
  let ?ls = "[Listen (easy_listen [])] @ ended"
  have "case wire_run ?ls of None \<Rightarrow> False
    | Some s \<Rightarrow> length (listens s) = 1 \<and> b_point (listens s ! 0) = BTop 0
        \<and> (case exec wire_rt std_read_exact std_channel (Join 0) s of None \<Rightarrow> False
           | Some s1 \<Rightarrow> c_reader (conns s1 ! 0) = RDone
               \<and> (case execs wire_rt std_read_exact std_channel [OfListen 0 LEnter] s1 of None \<Rightarrow> False | Some s2 \<Rightarrow> True))" by code_simp
  then obtain s s1 s2 where s: "wire_run ?ls = Some s" "length (listens s) = 1" "b_point (listens s ! 0) = BTop 0"
      "exec wire_rt std_read_exact std_channel (Join 0) s = Some s1" "c_reader (conns s1 ! 0) = RDone"
      "execs wire_rt std_read_exact std_channel [OfListen 0 LEnter] s1 = Some s2"
    by (blast dest: case_SomeD)
  from async_early_break_lost[OF async_run_reachable[OF s(1)] _ s(3,4,6)] s(2) have "b_point (listens s2 ! 0) \<noteq> BConnect" by simp
  with s show ?thesis by blast
qed

text \<open>A task of \<open>listen\<close> that the drop of the client has not marked.\<close>

definition unmarked :: "nat \<Rightarrow> ('q, 'u) System \<Rightarrow> bool" where
  "unmarked i s \<longleftrightarrow> dropped s \<and> i < length (listens s)
     \<and> (case b_point (listens s ! i) of BSelect j e b \<Rightarrow> \<not> e | BSleep e \<Rightarrow> \<not> e | BReturned \<Rightarrow> False | _ \<Rightarrow> True)"

lemma unmarked_same:
  "unmarked i s \<Longrightarrow> dropped s' \<Longrightarrow> i < length (listens s') \<Longrightarrow> listens s' ! i = listens s ! i \<Longrightarrow> unmarked i s'"
  by (simp add: unmarked_def)

lemma unmarked_exec:
  assumes "exec rt rd ch l s = Some s'" "unmarked i s"
  shows "unmarked i s'"
proof -
  have d: "dropped s" "dropped s'" "i < length (listens s)" using assms exec_dropped[OF assms(1)] by (simp_all add: unmarked_def)
  note same = unmarked_same[OF assms(2) d(2)]
  show ?thesis
  proof (cases l)
    case (Conn k m)
    then show ?thesis using assms(1) same d by (auto split: if_splits)
  next
    case (Join k)
    then show ?thesis using assms d
      by (auto simp: join_loops_def Let_def unmarked_def mark_broken_def split: if_splits listen_point.splits)
  next
    case (OfListen k m)
    then have st: "listen_step rt ch k m s = Some s'" using assms(1) by (auto split: if_splits)
    show ?thesis
    proof (cases "k = i")
      case False
      from st show ?thesis by (cases rule: listen_step_cases) (rule same; use False d in \<open>simp add: put_listen_def\<close>)+
    next
      case True
      from st show ?thesis by (cases rule: listen_step_cases) (use True assms(2) d in \<open>auto simp: unmarked_def\<close>)
    qed
  qed (use assms(1) d in \<open>auto split: if_splits\<close>)
qed

text \<open>C28. Dropping the client does not always end its task: a task that is not in one of its
  two \<open>select!\<close>s when the client is dropped, such as one that is connecting to the server,
  never returns, whatever happens next; it goes on serving a client that is gone.\<close>

theorem async_exit_lost:
  assumes "i < length (listens s)"
    and "b_point (listens s ! i) \<in> {BConnect, BPause} \<union> range BTop"
    and "exec rt rd ch DropClient s = Some s1" "execs rt rd ch ls s1 = Some s2"
  shows "dropped s2 \<and> i < length (listens s2) \<and> b_point (listens s2 ! i) \<noteq> BReturned
    \<and> exec rt rd ch (OfListen i LExit) s2 = None"
proof -
  have s1: "s1 = drop_client s" using assms(3) by (simp split: if_splits)
  have "unmarked i s1" using assms(1,2) by (auto simp: s1 unmarked_def)
  then have "unmarked i s2" by (rule execs_invariant[OF assms(4)]) (rule unmarked_exec)
  then show ?thesis by (auto simp: unmarked_def split: listen_point.splits)
qed

text \<open>Here the dropped client registers with the server again.\<close>

theorem async_exit_lost_witness:
  "\<exists>s s1 s2. wire_run ([Listen (easy_listen []), OfListen 0 LEnter] @ ended @ [Join 0, OfListen 0 LBroken]) = Some s
     \<and> exec wire_rt std_read_exact std_channel DropClient s = Some s1
     \<and> execs wire_rt std_read_exact std_channel
         [OfListen 0 (LConnect (easy_start [])), Conn 1 EnterW, Conn 1 Recv, Conn 1 (Write (Inr ()) (Inr ()))] s1 = Some s2
     \<and> c_out (conns s2 ! 1) = [0, 5, 10, 1, 108, 18, 0] \<and> dropped s2 \<and> b_point (listens s2 ! 0) \<noteq> BReturned"
proof -
  let ?ls = "[Listen (easy_listen []), OfListen 0 LEnter] @ ended @ [Join 0, OfListen 0 LBroken]"
  let ?ms = "[OfListen 0 (LConnect (easy_start [])), Conn 1 EnterW, Conn 1 Recv, Conn 1 (Write (Inr ()) (Inr ()))]"
  have "case wire_run ?ls of None \<Rightarrow> False
    | Some s \<Rightarrow> length (listens s) = 1 \<and> b_point (listens s ! 0) = BConnect
        \<and> (case exec wire_rt std_read_exact std_channel DropClient s of None \<Rightarrow> False
           | Some s1 \<Rightarrow> (case execs wire_rt std_read_exact std_channel ?ms s1 of None \<Rightarrow> False
               | Some s2 \<Rightarrow> c_out (conns s2 ! 1) = [0, 5, 10, 1, 108, 18, 0]))" by code_simp
  then obtain s s1 s2 where s: "wire_run ?ls = Some s" "length (listens s) = 1" "b_point (listens s ! 0) = BConnect"
      "exec wire_rt std_read_exact std_channel DropClient s = Some s1"
      "execs wire_rt std_read_exact std_channel ?ms s1 = Some s2" "c_out (conns s2 ! 1) = [0, 5, 10, 1, 108, 18, 0]"
    by (blast dest: case_SomeD)
  have "dropped s2 \<and> b_point (listens s2 ! 0) \<noteq> BReturned"
    using async_exit_lost[OF _ _ s(4,5), of 0] s(2,3) by simp
  with s show ?thesis by blast
qed

end
