(* ===== verification/Tcp_Async_Live.thy ===== *)
theory Tcp_Async_Live
  imports Tcp_Async_Correct
begin

text \<open>
  What the tokio TCP client achieves: the registration that opens every connection, the new
  connection after an error of the reading loop for a task of \<open>listen\<close> that waits for it, in every
  schedule, and the end of all tasks when the client is dropped while they wait.
\<close>

lemma new_req_eq: "Tcp_Async.new_req = Framing.new_req"
  by (simp add: fun_eq_iff Tcp_Async.new_req_def Framing.new_req_def)

lemma write_req_eq: "Tcp_Async.write_req = Framing.write_req"
  by (auto simp: fun_eq_iff Tcp_Async.write_req_def Framing.write_req_def send_frame_def new_req_eq Let_def write_all_def
      split: sum.split)

lemma read_resp_eq: "Tcp_Async.read_resp = Framing.read_resp"
  by (simp add: fun_eq_iff Tcp_Async.read_resp_def Framing.read_resp_def)

section \<open>What the server hears first\<close>

abbreviation first_ping :: "'u pb_rt \<Rightarrow> string \<Rightarrow> 'u Request" where
  "first_ping rt who \<equiv> (Framing.new_req rt who)\<lparr>req_cmd := Some (ReqPing (Ping_new rt))\<rparr>"

lemma async_write_extends: "\<exists>b. fst (Tcp_Async.write_req rt r1 r2 who req out) = out @ b"
proof (cases "Request_write_to_bytes rt ((Framing.new_req rt who)\<lparr>req_cmd := Some req\<rparr>)")
  case (Inr buf)
  then show ?thesis using send_frame_prefix[of r1 r2 buf out] by (auto simp: write_req_eq Framing.write_req_def)
qed (simp add: write_req_eq Framing.write_req_def)

lemma async_write_first:
  assumes "pb_runtime rt" "Request_clean rt (first_ping rt who)"
    and "Tcp_Async.write_req rt r1 r2 who (ReqPing (Ping_new rt)) [] = (out, r)"
  shows "(\<exists>n. out = take n (frame (Request_wire rt (first_ping rt who))))
    \<and> (\<forall>x. r = Inr x \<longrightarrow> out = frame (Request_wire rt (first_ping rt who)))"
  using assms(3) send_frame_prefix[of r1 r2 "Request_wire rt (first_ping rt who)" "[]"]
    send_frame_Inr[of r1 r2 "Request_wire rt (first_ping rt who)" "[]" out]
  by (auto simp: write_req_eq write_req_clean[OF assms(1,2)])

definition conn_first :: "('q \<Rightarrow> 'u ReqCmd list) \<Rightarrow> 'u pb_rt \<Rightarrow> string \<Rightarrow> ('q, 'u) Connection \<Rightarrow> bool" where
  "conn_first items rt who c \<longleftrightarrow>
     (let F = frame (Request_wire rt (first_ping rt who)); P = ReqPing (Ping_new rt) in
      (c_out c = [] \<and> (c_writer c = WTop \<or> (\<exists>e. c_writer c = WSelect e)) \<and> (\<exists>ms. items (c_queue c) = P # ms))
    \<or> (c_out c = [] \<and> c_writer c = WWrite P) \<or> (c_writer c = WDone \<and> (\<exists>n. c_out c = take n F)) \<or> (\<exists>r. c_out c = F @ r))"

lemma conn_first_read:
  assumes "bounded_channel ch items capacity" "read_loop rt rd ch m c = Some c'" "conn_first items rt who c"
  shows "conn_first items rt who c'"
proof (cases m)
  case Send
  then obtain cmd where cmd: "c_reader c = RSend cmd" using assms(2) by (auto split: reader.splits)
  show ?thesis
  proof (cases "c_writer c = WDone")
    case True
    then show ?thesis using assms(2,3) Send cmd by (auto simp: conn_first_def Let_def)
  next
    case False
    then obtain q where q: "mpsc_send ch cmd (c_queue c) = Some q" "c' = c\<lparr>c_queue := q, c_reader := RTop\<rparr>"
      using assms(2) Send cmd by auto
    then show ?thesis using bounded_channel.sendD(2)[OF assms(1) q(1)] assms(3) by (auto simp: conn_first_def Let_def)
  qed
qed (use assms(2,3) in \<open>auto simp: conn_first_def Let_def split: reader.splits outcome.splits sum.splits if_splits\<close>)

lemma conn_first_write:
  assumes ch: "bounded_channel ch items capacity" and rt: "pb_runtime rt" "Request_clean rt (first_ping rt who)"
    and step: "write_loop rt ch who m c = Some c'" and first: "conn_first items rt who c"
  shows "conn_first items rt who c'"
proof (cases m)
  case Recv
  then obtain e where e: "c_writer c = WSelect e" using step by (auto split: writer.splits)
  show ?thesis
  proof (cases "mpsc_recv ch (c_queue c)")
    case None
    then have "items (c_queue c) = []"
      using bounded_channel.recv_first[OF ch, of "c_queue c"] by (cases "items (c_queue c)") fastforce+
    then show ?thesis using None step first e Recv by (auto simp: conn_first_def Let_def split: if_splits)
  next
    case (Some a)
    obtain req q where a: "a = (req, q)" by fastforce
    with Some have "items (c_queue c) = req # items q" using bounded_channel.recvD[OF ch] by blast
    then show ?thesis using Some a step first e Recv by (auto simp: conn_first_def Let_def)
  qed
next
  case (Write r1 r2)
  then obtain req where req: "c_writer c = WWrite req" using step by (auto split: writer.splits)
  obtain out r where w: "Tcp_Async.write_req rt r1 r2 who req (c_out c) = (out, r)" by fastforce
  then have c': "c' = c\<lparr>c_out := out, c_writer := (case r of Inl e \<Rightarrow> WDone | Inr _ \<Rightarrow> WTop)\<rparr>"
    using step req Write by (cases r) auto
  show ?thesis
  proof (cases "\<exists>b. c_out c = frame (Request_wire rt (first_ping rt who)) @ b")
    case True
    then have "\<exists>b. out = frame (Request_wire rt (first_ping rt who)) @ b"
      using async_write_extends[of rt r1 r2 who req "c_out c"] w by auto
    then show ?thesis using c' by (simp add: conn_first_def Let_def)
  next
    case False
    then have "c_out c = []" "req = ReqPing (Ping_new rt)" using first req by (auto simp: conn_first_def Let_def)
    then show ?thesis
      using async_write_first[OF rt, of r1 r2 out r] w c' by (cases r) (auto simp: conn_first_def Let_def)
  qed
qed (use step first in \<open>auto simp: conn_first_def Let_def split: writer.splits if_splits\<close>)

lemma reachable_first:
  assumes ch: "bounded_channel ch items capacity" and rt: "pb_runtime rt"
    and "reachable rt rd ch s" "Request_clean rt (first_ping rt (client_id (client s)))"
  shows "\<forall>c \<in> set (conns s). conn_first items rt (client_id (client s)) c"
  using assms(3,4)
proof (induction rule: reachable.induct)
  case (created server who la c)
  then show ?case by (simp add: opened_def)
next
  case (moved s l s')
  let ?who = "client_id (client s)"
  have who: "client_id (client s') = ?who" using async_exec_client[OF moved.hyps(2)] by simp
  then have clean: "Request_clean rt (first_ping rt ?who)" using moved.prems by simp
  show ?case
    unfolding who
  proof (rule exec_conns[OF moved.hyps(2)])
    show "\<forall>c \<in> set (conns s). conn_first items rt ?who c" using moved.IH clean by simp
    show "conn_first items rt ?who c'" if "conn_step rt rd ch ?who m c = Some c'" "conn_first items rt ?who c" for m c c'
      using that conn_first_read[OF ch] conn_first_write[OF ch rt clean] by (auto simp: conn_step_def split: if_splits)
    show "conn_first items rt ?who (c\<lparr>c_reader := mark_reader (c_reader c), c_writer := mark_writer (c_writer c)\<rparr>)"
      if "conn_first items rt ?who c" for c
      using that by (cases "c_writer c") (auto simp: conn_first_def Let_def)
    show "conn_first items rt ?who c" if "start_background rt ch env la (server_addr (client s)) = Ret (Inr c)" for env la c
    proof -
      note start = that
      obtain q where q: "mpsc_send ch (ReqPing (Ping_new rt)) (mpsc_new ch 10) = Some q" "c_out c = []" "c_writer c = WTop" "c_queue c = q"
        using start by (auto simp: async_start_Ret)
      have "items q = [ReqPing (Ping_new rt)]"
        using bounded_channel.sendD(2)[OF ch q(1)] bounded_channel.new_channel[OF ch, of 10] by simp
      then show ?thesis using q by (simp add: conn_first_def Let_def)
    qed
  qed (auto simp: conn_first_def Let_def)
qed

text \<open>Registration comes first: whatever the tasks of a connection do, the bytes it has
  written to the server begin with the frame of a ping under the client's identity, or are
  a part of it.\<close>

theorem async_registers_first:
  assumes "pb_runtime rt" "bounded_channel ch items capacity" "Request_clean rt (first_ping rt (client_id (client s)))"
    and "reachable rt rd ch s" "c \<in> set (conns s)"
  shows "let F = frame (Request_wire rt (first_ping rt (client_id (client s)))) in
    take (length F) (c_out c) = take (length (c_out c)) F"
  using reachable_first[OF assms(2,1,4,3)] assms(5) by (auto simp: conn_first_def Let_def)

theorem async_registers_first_witness:
  "\<exists>s. wire_run [Listen (easy_listen []), Conn 0 EnterW, Conn 0 Recv, Conn 0 (Write (Inr ()) (Inr ()))] = Some s
     \<and> (let F = [0, 5, 10, 1, 108, 18, 0] in take (length F) (c_out (conns s ! 0)) = take (length (c_out (conns s ! 0))) F)"
proof -
  let ?ls = "[Listen (easy_listen []), Conn 0 EnterW, Conn 0 Recv, Conn 0 (Write (Inr ()) (Inr ()))]"
  have "case wire_run ?ls of None \<Rightarrow> False | Some s \<Rightarrow> length (conns s) = 1 \<and> client_id (client s) = ''l''" by code_simp
  then obtain s where s: "wire_run ?ls = Some s" "length (conns s) = 1" "client_id (client s) = ''l''"
    using case_SomeD by blast
  have c: "Request_clean wire_rt (first_ping wire_rt (client_id (client s)))"
    by (simp add: s(3) Request_clean_def Framing.new_req_def Request_new_def Ping_clean_def Ping_new_def no_unknown_def
        SpecialFields_new_def text_ok_def max_text_def utf8_valid_ascii)
  have f: "frame (Request_wire wire_rt (first_ping wire_rt ''l'')) = [0, 5, 10, 1, 108, 18, 0]" by code_simp
  show ?thesis
    using async_registers_first[OF wire.pb_runtime_axioms std_chan.bounded_channel_axioms c async_run_reachable[OF s(1)], of "conns s ! 0"] s
    by (intro exI[of _ s]) (simp add: f)
qed

section \<open>A connection whose reading loop has failed\<close>

fun conn_steps ::
  "'u pb_rt \<Rightarrow> exact_read \<Rightarrow> ('q, 'u ReqCmd) mpsc \<Rightarrow> string \<Rightarrow> conn_move list \<Rightarrow> ('q, 'u) Connection \<Rightarrow> ('q, 'u) Connection option" where
  "conn_steps rt rd ch who [] c = Some c"
| "conn_steps rt rd ch who (m # ms) c =
     (case conn_step rt rd ch who m c of None \<Rightarrow> None | Some c' \<Rightarrow> conn_steps rt rd ch who ms c')"

lemma conn_steps_append:
  "conn_steps rt rd ch who (ms @ ns) c
    = (case conn_steps rt rd ch who ms c of None \<Rightarrow> None | Some c' \<Rightarrow> conn_steps rt rd ch who ns c')"
  by (induction ms arbitrary: c) (auto split: option.split)

lemma put_conn_put [simp]: "put_conn j c (put_conn j c' s) = put_conn j c s"
  by (simp add: put_conn_def)

lemma execs_conn:
  "j < length (conns s) \<Longrightarrow> conn_steps rt rd ch (client_id (client s)) ms (conns s ! j) = Some c \<Longrightarrow>
    execs rt rd ch (map (Conn j) ms) s = Some (put_conn j c s)"
proof (induction ms arbitrary: s)
  case Nil
  then show ?case by (cases s) (auto simp: put_conn_def)
next
  case (Cons m ms)
  then obtain c1 where c1: "conn_step rt rd ch (client_id (client s)) m (conns s ! j) = Some c1"
      "conn_steps rt rd ch (client_id (client s)) ms c1 = Some c" by (auto split: option.splits)
  then show ?case using Cons.IH[of "put_conn j c1 s"] Cons.prems(1) by simp
qed

text \<open>The writing loop empties the queue and ends.\<close>

definition ended_conn :: "('q, 'u) Connection \<Rightarrow> ('q, 'u) Connection \<Rightarrow> bool" where
  "ended_conn c c' \<longleftrightarrow> c_reader c' = RDone \<and> c_writer c' = WDone \<and> c_joined c' = c_joined c"

lemma writes_to_end:
  assumes "bounded_channel ch items capacity"
  shows "c_reader c = RDone \<Longrightarrow> \<exists>ms c'. conn_steps rt rd ch who ms c = Some c' \<and> ended_conn c c'"
proof (induction "length (items (c_queue c))" arbitrary: c rule: less_induct)
  case less
  \<comment> \<open>at the \<open>select!\<close>\<close>
  have sel: "\<exists>ms c'. conn_steps rt rd ch who ms d = Some c' \<and> ended_conn c c'"
    if d: "d = c\<lparr>c_out := out, c_writer := WSelect e\<rparr>" for d e out
  proof (cases "items (c_queue c)")
    case Nil
    then have "conn_steps rt rd ch who [Recv] d = Some (d\<lparr>c_writer := WDone\<rparr>)"
      using bounded_channel.recv_empty[OF assms] less.prems d by (simp add: conn_step_def of_reader_def)
    then show ?thesis using less.prems d by (intro exI[of _ "[Recv]"]) (simp add: ended_conn_def)
  next
    case (Cons req reqs)
    then obtain q where q: "mpsc_recv ch (c_queue c) = Some (req, q)" "items q = reqs"
      using bounded_channel.recv_first[OF assms Cons] by blast
    obtain out' r where w: "Tcp_Async.write_req rt (Inr ()) (Inr ()) who req out = (out', r)" by fastforce
    let ?next = "d\<lparr>c_queue := q, c_out := out', c_writer := (case r of Inl err \<Rightarrow> WDone | Inr _ \<Rightarrow> WTop)\<rparr>"
    have two: "conn_steps rt rd ch who [Recv, Write (Inr ()) (Inr ())] d = Some ?next"
      using q(1) w d by (cases r) (simp_all add: conn_step_def of_reader_def)
    show ?thesis
    proof (cases r)
      case (Inl err)
      then show ?thesis using two less.prems d
        by (intro exI[of _ "[Recv, Write (Inr ()) (Inr ())]"]) (simp add: ended_conn_def)
    next
      case (Inr u)
      have "length (items (c_queue ?next)) < length (items (c_queue c))" "c_reader ?next = RDone"
        using q(2) Cons d less.prems by simp_all
      from less.hyps[OF this] obtain ms c' where ms: "conn_steps rt rd ch who ms ?next = Some c'" "ended_conn ?next c'" by blast
      have "conn_steps rt rd ch who ([Recv, Write (Inr ()) (Inr ())] @ ms) d = Some c'"
        unfolding conn_steps_append two using ms(1) by simp
      moreover have "ended_conn c c'" using ms(2) d by (simp add: ended_conn_def)
      ultimately show ?thesis by blast
    qed
  qed
  \<comment> \<open>at the top of the loop\<close>
  have top: "\<exists>ms c'. conn_steps rt rd ch who ms d = Some c' \<and> ended_conn c c'" if d: "d = c\<lparr>c_out := out, c_writer := WTop\<rparr>" for d out
  proof -
    obtain ms c' where "conn_steps rt rd ch who ms (c\<lparr>c_out := out, c_writer := WSelect False\<rparr>) = Some c'" "ended_conn c c'"
      using sel by blast
    then show ?thesis using d by (intro exI[of _ "EnterW # ms"]) (simp add: conn_step_def of_reader_def)
  qed
  show ?case
  proof (cases "c_writer c")
    case WTop
    then show ?thesis using top[of c "c_out c"] by simp
  next
    case (WSelect e)
    then show ?thesis using sel[of c e "c_out c"] by simp
  next
    case (WWrite req)
    obtain out r where w: "Tcp_Async.write_req rt (Inr ()) (Inr ()) who req (c_out c) = (out, r)" by fastforce
    show ?thesis
    proof (cases r)
      case (Inl err)
      then have "conn_steps rt rd ch who [Write (Inr ()) (Inr ())] c = Some (c\<lparr>c_out := out, c_writer := WDone\<rparr>)"
        using w WWrite by (simp add: conn_step_def of_reader_def)
      then show ?thesis using less.prems by (intro exI[of _ "[Write (Inr ()) (Inr ())]"]) (simp add: ended_conn_def)
    next
      case (Inr u)
      obtain ms c' where "conn_steps rt rd ch who ms (c\<lparr>c_out := out, c_writer := WTop\<rparr>) = Some c'" "ended_conn c c'"
        using top by blast
      then show ?thesis using w WWrite Inr
        by (intro exI[of _ "Write (Inr ()) (Inr ()) # ms"]) (simp add: conn_step_def of_reader_def)
    qed
  next
    case WDone
    then show ?thesis using less.prems by (intro exI[of _ "[]"]) (simp add: ended_conn_def)
  qed
qed

text \<open>One schedule that leads from an error to a new connection: the loops end, the task that
  waits hears of it and connects anew.\<close>

lemma async_reconnects_run:
  assumes ch: "bounded_channel ch items capacity"
    and i: "i < length (listens s)" "b_point (listens s ! i) = BSelect j e b" "b_local (listens s ! i) = la"
    and j: "j < length (conns s)" "c_reader (conns s ! j) = RSelect m" "\<not> c_joined (conns s ! j)"
    and failed: "handle_resp rt rd os (c_local (conns s ! j)) (c_in (conns s ! j)) = Ret (Inl err)"
    and server: "start_background rt ch env la (server_addr (client s)) = Ret (Inr c)"
  shows "\<exists>ms s'. execs rt rd ch (Conn j (Handle os) # map (Conn j) ms @ [Join j, OfListen i LBroken, OfListen i (LConnect env)]) s = Some s'
    \<and> b_point (listens s' ! i) = BTop (length (conns s)) \<and> length (conns s') = Suc (length (conns s))
    \<and> conns s' ! length (conns s) = c \<and> c_local c = la"
proof -
  let ?c1 = "(conns s ! j)\<lparr>c_reader := RDone\<rparr>"
  let ?s1 = "put_conn j ?c1 s"
  have 1: "exec rt rd ch (Conn j (Handle os)) s = Some ?s1"
    using j failed by (simp add: conn_step_def of_reader_def)
  have "c_reader ?c1 = RDone" by simp
  from writes_to_end[OF ch this] obtain ms c2
    where c2: "conn_steps rt rd ch (client_id (client s)) ms ?c1 = Some c2" "ended_conn ?c1 c2" by blast
  let ?s2 = "put_conn j c2 s"
  have 2: "execs rt rd ch (map (Conn j) ms) ?s1 = Some ?s2"
    using execs_conn[of j ?s1 rt rd ch ms c2] c2(1) j(1) by simp
  let ?s3 = "notify_broken j (put_conn j (c2\<lparr>c_joined := True\<rparr>) s)"
  have 3: "exec rt rd ch (Join j) ?s2 = Some ?s3"
    using c2(2) j by (simp add: join_loops_def Let_def ended_conn_def)
  have p: "b_point (listens ?s3 ! i) = BSelect j e True" "i < length (listens ?s3)" using i by (simp_all add: mark_broken_def)
  let ?s4 = "put_listen i BConnect ?s3"
  have 4: "exec rt rd ch (OfListen i LBroken) ?s3 = Some ?s4" using p by simp
  let ?s5 = "put_listen i (BTop (length (conns s))) (?s4\<lparr>conns := conns ?s4 @ [c]\<rparr>)"
  have 5: "exec rt rd ch (OfListen i (LConnect env)) ?s4 = Some ?s5" using p i server by simp
  have "execs rt rd ch (Conn j (Handle os) # map (Conn j) ms @ [Join j, OfListen i LBroken, OfListen i (LConnect env)]) s = Some ?s5"
    using 1 2 3 4 5 by (simp del: exec.simps add: async_execs_append)
  moreover have "c_local c = la" using server by (auto simp: async_start_Ret)
  ultimately show ?thesis using i(1) j(1) by (intro exI[of _ ms] exI[of _ ?s5]) (simp del: execs.simps add: nth_append)
qed

text \<open>All schedules. After the reading loop has ended, task \<open>i\<close> is catching up: it waits for connection
  \<open>j\<close>, whose loops are not over, or it has been told, or it is connecting, or it
  waits to do so.\<close>

definition catching_up :: "nat \<Rightarrow> nat \<Rightarrow> SocketAddr \<Rightarrow> ('q, 'u) System \<Rightarrow> bool" where
  "catching_up i j la s \<longleftrightarrow> i < length (listens s) \<and> b_local (listens s ! i) = la
     \<and> (case b_point (listens s ! i) of
          BSelect k e b \<Rightarrow> k = j \<and> \<not> e \<and> (b \<or> (j < length (conns s) \<and> c_reader (conns s ! j) = RDone \<and> \<not> c_joined (conns s ! j)))
        | BConnect \<Rightarrow> True
        | BPause \<Rightarrow> True
        | BSleep e \<Rightarrow> \<not> e
        | _ \<Rightarrow> False)"

text \<open>It holds a connection from the address \<open>la\<close> that was made after the first \<open>n\<close>.\<close>

definition renewed :: "nat \<Rightarrow> nat \<Rightarrow> SocketAddr \<Rightarrow> ('q, 'u) System \<Rightarrow> bool" where
  "renewed i n la s \<longleftrightarrow> i < length (listens s) \<and> b_local (listens s ! i) = la
     \<and> (\<exists>k. n \<le> k \<and> k < length (conns s) \<and> c_local (conns s ! k) = la
          \<and> (b_point (listens s ! i) = BTop k \<or> (\<exists>b. b_point (listens s ! i) = BSelect k False b)))"

text \<open>How far task \<open>i\<close> is from connecting.\<close>

definition writer_lag :: "('q \<Rightarrow> 'u ReqCmd list) \<Rightarrow> ('q, 'u) Connection \<Rightarrow> nat" where
  "writer_lag items c =
     (case c_writer c of
        WDone \<Rightarrow> 0
      | WSelect e \<Rightarrow> 3 * length (items (c_queue c)) + 1
      | WTop \<Rightarrow> 3 * length (items (c_queue c)) + 2
      | WWrite req \<Rightarrow> 3 * length (items (c_queue c)) + 3)"

definition lag :: "('q \<Rightarrow> 'u ReqCmd list) \<Rightarrow> nat \<Rightarrow> nat \<Rightarrow> ('q, 'u) System \<Rightarrow> nat" where
  "lag items i j s =
     (case b_point (listens s ! i) of
        BSelect k e b \<Rightarrow> if b then 4 else 5 + writer_lag items (conns s ! j)
      | BPause \<Rightarrow> 3
      | BSleep e \<Rightarrow> 2
      | _ \<Rightarrow> 1)"

text \<open>The writing loop alone: nothing but its timer takes it away from its end.\<close>

lemma write_lag_le:
  assumes "bounded_channel ch items capacity" "write_loop rt ch who m c = Some c'" "m \<noteq> Ten"
  shows "writer_lag items c' \<le> writer_lag items c"
proof (cases m)
  case Recv
  then obtain e where e: "c_writer c = WSelect e" using assms(2) by (auto split: writer.splits)
  show ?thesis
  proof (cases "mpsc_recv ch (c_queue c)")
    case None
    then show ?thesis using assms(2) Recv e by (auto simp: writer_lag_def split: if_splits)
  next
    case (Some a)
    obtain req q where a: "a = (req, q)" by fastforce
    then have "items (c_queue c) = req # items q" using Some bounded_channel.recvD[OF assms(1)] by blast
    then show ?thesis using assms(2) Recv e Some a by (auto simp: writer_lag_def)
  qed
qed (use assms(2,3) in \<open>auto simp: writer_lag_def split: writer.splits if_splits prod.splits sum.splits\<close>)

lemma write_lag_less:
  assumes "bounded_channel ch items capacity" "c_reader c = RDone" "c_writer c \<noteq> WDone"
  shows "\<exists>m c'. \<not> of_reader m \<and> write_loop rt ch who m c = Some c' \<and> writer_lag items c' < writer_lag items c"
proof (cases "c_writer c")
  case WTop
  then show ?thesis by (intro exI[of _ EnterW]) (simp add: writer_lag_def of_reader_def)
next
  case (WSelect e)
  show ?thesis
  proof (cases "items (c_queue c)")
    case Nil
    then show ?thesis using bounded_channel.recv_empty[OF assms(1)] WSelect assms(2)
      by (intro exI[of _ Recv]) (simp add: writer_lag_def of_reader_def)
  next
    case (Cons req reqs)
    then obtain q where "mpsc_recv ch (c_queue c) = Some (req, q)" "items q = reqs"
      using bounded_channel.recv_first[OF assms(1) Cons] by blast
    then show ?thesis using WSelect Cons by (intro exI[of _ Recv]) (simp add: writer_lag_def of_reader_def)
  qed
next
  case (WWrite req)
  obtain out r where "Tcp_Async.write_req rt (Inr ()) (Inr ()) who req (c_out c) = (out, r)" by fastforce
  then show ?thesis using WWrite
    by (intro exI[of _ "Write (Inr ()) (Inr ())"]) (cases r; simp add: writer_lag_def of_reader_def)
qed (use assms(3) in simp)

text \<open>What the moves of others leave alone.\<close>

lemma exec_task_elsewhere:
  assumes "exec rt rd ch l s = Some s'" "l \<noteq> DropClient" "\<forall>m. l \<noteq> OfListen i m" "i < length (listens s)"
  shows "i < length (listens s') \<and> b_local (listens s' ! i) = b_local (listens s ! i)
    \<and> b_point (listens s' ! i) = (case l of Join k \<Rightarrow> mark_broken k (b_point (listens s ! i)) | _ \<Rightarrow> b_point (listens s ! i))"
proof (cases l)
  case (Join k)
  then show ?thesis using assms by (auto simp: join_loops_def Let_def split: if_splits)
next
  case (OfListen h m)
  then have h: "h \<noteq> i" "listen_step rt ch h m s = Some s'" using assms(1,3) by (auto split: if_splits)
  show ?thesis using h(2) by (cases rule: listen_step_cases) (use h(1) assms(4) OfListen in \<open>simp_all add: put_listen_def\<close>)
next
  case (Listen env)
  then have s': "s' = fst (listen rt ch env s)" using assms(1) by (auto split: if_splits)
  show ?thesis by (rule async_listen_cases[of rt ch env s]) (use assms(4) s' Listen in \<open>auto simp: nth_append\<close>)
qed (use assms in \<open>auto split: if_splits\<close>)

lemma exec_conn_elsewhere:
  assumes "exec rt rd ch l s = Some s'" "l \<noteq> DropClient" "\<forall>m. l \<noteq> Conn j m" "l \<noteq> Join j" "j < length (conns s)"
  shows "j < length (conns s') \<and> conns s' ! j = conns s ! j"
proof (cases l)
  case (OfListen h m)
  then have "listen_step rt ch h m s = Some s'" using assms(1) by (auto split: if_splits)
  then show ?thesis by (cases rule: listen_step_cases) (use assms(5) in \<open>simp_all add: nth_append\<close>)
next
  case (Listen env)
  then have s': "s' = fst (listen rt ch env s)" using assms(1) by (auto split: if_splits)
  show ?thesis by (rule async_listen_cases[of rt ch env s]) (use assms(5) s' in \<open>auto simp: nth_append\<close>)
qed (use assms in \<open>auto simp: join_loops_def Let_def put_conn_def split: if_splits\<close>)

lemma conn_step_local: "conn_step rt rd ch who m c = Some c' \<Longrightarrow> c_local c' = c_local c"
  by (cases m) (auto simp: conn_step_def of_reader_def split: if_splits reader.splits writer.splits outcome.splits sum.splits
      option.splits prod.splits)

lemma exec_conn_local:
  assumes "exec rt rd ch l s = Some s'" "l \<noteq> DropClient" "k < length (conns s)"
  shows "k < length (conns s') \<and> c_local (conns s' ! k) = c_local (conns s ! k)"
proof -
  consider m where "l = Conn k m" | "l = Join k" | "\<forall>m. l \<noteq> Conn k m" "l \<noteq> Join k" by blast
  then show ?thesis
  proof cases
    case (1 m)
    then show ?thesis using assms conn_step_local[of rt rd ch _ m "conns s ! k"] by (auto simp: put_conn_def)
  next
    case 2
    then show ?thesis using assms by (auto simp: join_loops_def Let_def put_conn_def split: if_splits)
  next
    case 3
    then show ?thesis using exec_conn_elsewhere[OF assms(1,2) 3 assms(3)] by simp
  qed
qed

lemma renewed_step:
  assumes "exec rt rd ch l s = Some s'" "l \<noteq> DropClient" "renewed i n la s"
  shows "renewed i n la s' \<or> catching_up i j la s'"
proof -
  obtain k where i: "i < length (listens s)" "b_local (listens s ! i) = la"
    and k: "n \<le> k" "k < length (conns s)" "c_local (conns s ! k) = la"
    and p: "b_point (listens s ! i) = BTop k \<or> (\<exists>b. b_point (listens s ! i) = BSelect k False b)"
    using assms(3) by (auto simp: renewed_def)
  have k': "k < length (conns s')" "c_local (conns s' ! k) = la" using exec_conn_local[OF assms(1,2) k(2)] k(3) by simp_all
  show ?thesis
  proof (cases "\<exists>m. l = OfListen i m")
    case False
    then have o: "\<forall>m. l \<noteq> OfListen i m" by blast
    have "b_point (listens s' ! i) = BTop k \<or> (\<exists>b. b_point (listens s' ! i) = BSelect k False b)"
      using exec_task_elsewhere[OF assms(1,2) o i(1)] p by (auto simp: mark_broken_def split: label.splits)
    then show ?thesis using exec_task_elsewhere[OF assms(1,2) o i(1)] i(2) k k' by (auto simp: renewed_def)
  next
    case True
    then obtain m where "listen_step rt ch i m s = Some s'" using assms(1) by (auto split: if_splits)
    then show ?thesis
      by (cases rule: listen_step_cases) (use i p k k' in \<open>auto simp: renewed_def catching_up_def\<close>)
  qed
qed

text \<open>A connection whose reading loop is over, in any move.\<close>

lemma over_conn_step:
  assumes "bounded_channel ch items capacity" "conn_step rt rd ch who m c = Some c'" "c_reader c = RDone"
  shows "c_reader c' = RDone \<and> c_joined c' = c_joined c \<and> (m \<noteq> Ten \<longrightarrow> writer_lag items c' \<le> writer_lag items c)"
proof -
  have w: "\<not> of_reader m" "write_loop rt ch who m c = Some c'"
    using assms(2,3) by (cases m; auto simp: conn_step_def of_reader_def)+
  then have "c_reader c' = RDone \<and> c_joined c' = c_joined c"
    using assms(3) by (cases m) (auto split: writer.splits if_splits prod.splits sum.splits option.splits)
  then show ?thesis using write_lag_le[OF assms(1) w(2)] by blast
qed

lemma catching_up_step:
  assumes ch: "bounded_channel ch items capacity"
    and e: "exec rt rd ch l s = Some s'" "l \<noteq> DropClient" and c: "catching_up i j la s" and n: "n \<le> length (conns s)"
  shows "renewed i n la s' \<or> (catching_up i j la s'
    \<and> (l \<noteq> Conn j Ten \<longrightarrow> (\<forall>env. l = OfListen i (LConnect env) \<longrightarrow> (\<exists>c. start_background rt ch env la (server_addr (client s)) = Ret (Inr c)))
        \<longrightarrow> lag items i j s' \<le> lag items i j s))"
proof (cases "\<exists>m. l = OfListen i m")
  case True
  then obtain m where m: "l = OfListen i m" "listen_step rt ch i m s = Some s'" using e(1) by (auto split: if_splits)
  have i: "i < length (listens s)" "b_local (listens s ! i) = la" using c by (auto simp: catching_up_def)
  show ?thesis using m(2)
  proof (cases rule: listen_step_cases)
    case (started env c0)
    have "c_local c0 = la" using started(3) i(2) by (auto simp: async_start_Ret)
    then show ?thesis using started(4) i n by (auto simp: renewed_def nth_append)
  next
    case (failed env)
    have "start_background rt ch env la (server_addr (client s)) \<noteq> Ret (Inr c0)" for c0
      using m(2) failed i by (auto simp: put_listen_def dest!: arg_cong[where f = "\<lambda>s. b_point (listens s ! i)"])
    then show ?thesis using failed(1,3) m(1) i by (simp add: catching_up_def)
  qed (use c i in \<open>auto simp: catching_up_def lag_def\<close>)
next
  case False
  then have o: "\<forall>m. l \<noteq> OfListen i m" by blast
  have i: "i < length (listens s)" "b_local (listens s ! i) = la" using c by (auto simp: catching_up_def)
  note task = exec_task_elsewhere[OF e o i(1)]
  show ?thesis
  proof (cases "\<exists>k e. b_point (listens s ! i) = BSelect k e False")
    case False
    then have "b_point (listens s' ! i) = b_point (listens s ! i)"
      using task c by (auto simp: mark_broken_def catching_up_def split: label.splits listen_point.splits)
    then show ?thesis using task c False by (auto simp: catching_up_def lag_def split: listen_point.splits)
  next
    case True
    then have p: "b_point (listens s ! i) = BSelect j False False" "j < length (conns s)" "c_reader (conns s ! j) = RDone"
        "\<not> c_joined (conns s ! j)"
      using c by (auto simp: catching_up_def)
    consider (conn) m where "l = Conn j m" | (join) "l = Join j" | (else) "\<forall>m. l \<noteq> Conn j m" "l \<noteq> Join j" by blast
    then show ?thesis
    proof cases
      case (conn m)
      then obtain c' where c': "conn_step rt rd ch (client_id (client s)) m (conns s ! j) = Some c'" "s' = put_conn j c' s"
        using e(1) p(2) by auto
      show ?thesis
        using over_conn_step[OF ch c'(1) p(3)] c'(2) p i conn by (auto simp: catching_up_def lag_def)
    next
      case join
      then have "b_point (listens s' ! i) = BSelect j False True" using task p(1) by (simp add: mark_broken_def)
      then show ?thesis using task i p(1) by (simp add: catching_up_def lag_def)
    next
      case else
      have "b_point (listens s' ! i) = BSelect j False False"
        using task p(1) else by (auto simp: mark_broken_def split: label.splits)
      then show ?thesis using task i p exec_conn_elsewhere[OF e else p(2)] by (simp add: catching_up_def lag_def)
    qed
  qed
qed

lemma catching_up_helped:
  assumes ch: "bounded_channel ch items capacity" and c: "catching_up i j la s" and n: "n \<le> length (conns s)"
    and server: "start_background rt ch env la (server_addr (client s)) = Ret (Inr c0)"
  shows "\<exists>l s'. l \<noteq> DropClient \<and> exec rt rd ch l s = Some s' \<and> (renewed i n la s' \<or> (catching_up i j la s' \<and> lag items i j s' < lag items i j s))"
proof -
  have i: "i < length (listens s)" "b_local (listens s ! i) = la" using c by (auto simp: catching_up_def)
  consider (told) k where "b_point (listens s ! i) = BSelect k False True" | (over) "b_point (listens s ! i) = BSelect j False False"
      "j < length (conns s)" "c_reader (conns s ! j) = RDone" "\<not> c_joined (conns s ! j)"
    | (connect) "b_point (listens s ! i) = BConnect" | (pause) "b_point (listens s ! i) = BPause" | (sleep) "b_point (listens s ! i) = BSleep False"
    using c by (auto simp: catching_up_def split: listen_point.splits)
  then show ?thesis
  proof cases
    case told
    then show ?thesis using i by (intro exI[of _ "OfListen i LBroken"]) (simp add: catching_up_def lag_def)
  next
    case connect
    have "c_local c0 = la" using server by (auto simp: async_start_Ret)
    then show ?thesis using connect i n server by (intro exI[of _ "OfListen i (LConnect env)"]) (simp add: renewed_def nth_append)
  next
    case pause
    then show ?thesis using i by (intro exI[of _ "OfListen i LEnter"]) (simp add: catching_up_def lag_def)
  next
    case sleep
    then show ?thesis using i by (intro exI[of _ "OfListen i LSlept"]) (simp add: catching_up_def lag_def)
  next
    case over
    show ?thesis
    proof (cases "c_writer (conns s ! j) = WDone")
      case True
      then show ?thesis using over i
        by (intro exI[of _ "Join j"]) (simp add: join_loops_def Let_def catching_up_def lag_def mark_broken_def)
    next
      case False
      obtain m c' where m: "\<not> of_reader m" "write_loop rt ch (client_id (client s)) m (conns s ! j) = Some c'"
          "writer_lag items c' < writer_lag items (conns s ! j)"
        using write_lag_less[OF ch over(3) False] by blast
      then have step: "conn_step rt rd ch (client_id (client s)) m (conns s ! j) = Some c'" by (simp add: conn_step_def)
      show ?thesis
        using over_conn_step[OF ch step over(3)] step m(3) over i
        by (intro exI[of _ "Conn j m"]) (simp add: catching_up_def lag_def)
    qed
  qed
qed

lemma catching_up_execs:
  assumes ch: "bounded_channel ch items capacity" and "execs rt rd ch ls s = Some s'" "DropClient \<notin> set ls"
    and "catching_up i j la s \<or> renewed i n la s" "n \<le> length (conns s)"
  shows "(catching_up i j la s' \<or> renewed i n la s') \<and> n \<le> length (conns s') \<and> server_addr (client s') = server_addr (client s)"
  using assms(2-5)
proof (induction ls arbitrary: s)
  case Nil
  then show ?case by simp
next
  case (Cons l ls)
  then obtain s1 where s1: "exec rt rd ch l s = Some s1" "execs rt rd ch ls s1 = Some s'" by (auto split: option.splits)
  have l: "l \<noteq> DropClient" "DropClient \<notin> set ls" using Cons.prems(2) by auto
  have "catching_up i j la s1 \<or> renewed i n la s1"
    using Cons.prems(3) catching_up_step[OF ch s1(1) l(1) _ Cons.prems(4)] renewed_step[OF s1(1) l(1)] by blast
  moreover have "n \<le> length (conns s1)"
  proof (rule ccontr)
    assume "\<not> n \<le> length (conns s1)"
    then show False using exec_conn_local[OF s1(1) l(1), of "length (conns s1)"] Cons.prems(4) by simp
  qed
  ultimately show ?case using Cons.IH[OF s1(2) l(2)] async_exec_client[OF s1(1)] by simp
qed

text \<open>C24. The task of \<open>listen\<close> that waits for a connection does not miss its error. When \<open>handle_resp\<close> fails
  or panics, or the stream fails (the end of the stream, a message that is not one, an
  \<open>Fsync\<close> with an address that cannot be parsed), while a task that has not been told to
  exit is in its \<open>select!\<close> on that connection, and the server can be reached, then after
  every schedule in which the client is not dropped the task holds a connection made
  since, from the listening address, or it is on its way to one: some move brings it
  nearer, and no move takes it further away but the ten second timer of the dying
  writing loop and an attempt to connect that fails, after which the task tries again.\<close>

theorem async_reconnects:
  assumes "bounded_channel ch items capacity"
    and "i < length (listens s)" "b_point (listens s ! i) = BSelect j False b" "b_local (listens s ! i) = la"
    and "j < length (conns s)" "c_reader (conns s ! j) = RSelect x" "\<not> c_joined (conns s ! j)"
    and "m = ReadFail \<or> (\<exists>os. m = Handle os \<and> (handle_resp rt rd os (c_local (conns s ! j)) (c_in (conns s ! j)) = Panic
      \<or> (\<exists>err. handle_resp rt rd os (c_local (conns s ! j)) (c_in (conns s ! j)) = Ret (Inl err))))"
    and "start_background rt ch env la (server_addr (client s)) = Ret (Inr c)"
    and "execs rt rd ch (Conn j m # ls) s = Some s'" "DropClient \<notin> set ls"
  shows "renewed i (length (conns s)) la s'
    \<or> (catching_up i j la s'
      \<and> (\<exists>l s''. l \<noteq> DropClient \<and> exec rt rd ch l s' = Some s''
          \<and> (renewed i (length (conns s)) la s'' \<or> (catching_up i j la s'' \<and> lag items i j s'' < lag items i j s')))
      \<and> (\<forall>l s''. l \<noteq> DropClient \<and> l \<noteq> Conn j Ten \<and> exec rt rd ch l s' = Some s''
          \<and> (\<forall>env. l = OfListen i (LConnect env) \<longrightarrow> (\<exists>c. start_background rt ch env la (server_addr (client s')) = Ret (Inr c)))
          \<longrightarrow> renewed i (length (conns s)) la s'' \<or> (catching_up i j la s'' \<and> lag items i j s'' \<le> lag items i j s')))"
proof -
  let ?s1 = "put_conn j ((conns s ! j)\<lparr>c_reader := RDone\<rparr>) s"
  have 1: "exec rt rd ch (Conn j m) s = Some ?s1"
    using assms(5,6,8) by (auto simp: conn_step_def of_reader_def)
  have up: "catching_up i j la ?s1" using assms(2-7) by (simp add: catching_up_def)
  have run: "execs rt rd ch ls ?s1 = Some s'" using assms(10) 1 by simp
  have s': "catching_up i j la s' \<or> renewed i (length (conns s)) la s'" "length (conns s) \<le> length (conns s')"
      "server_addr (client s') = server_addr (client s)"
    using catching_up_execs[OF assms(1) run assms(11), of i j la "length (conns s)"] up by simp_all
  show ?thesis
  proof (cases "renewed i (length (conns s)) la s'")
    case False
    then have c: "catching_up i j la s'" using s'(1) by blast
    have server: "start_background rt ch env la (server_addr (client s')) = Ret (Inr c)" using assms(9) s'(3) by simp
    have "\<forall>l s''. l \<noteq> DropClient \<and> l \<noteq> Conn j Ten \<and> exec rt rd ch l s' = Some s''
          \<and> (\<forall>env. l = OfListen i (LConnect env) \<longrightarrow> (\<exists>c. start_background rt ch env la (server_addr (client s')) = Ret (Inr c)))
          \<longrightarrow> renewed i (length (conns s)) la s'' \<or> (catching_up i j la s'' \<and> lag items i j s'' \<le> lag items i j s')"
      using catching_up_step[OF assms(1) _ _ c s'(2)] by blast
    then show ?thesis using c catching_up_helped[OF assms(1) c s'(2) server] by blast
  qed simp
qed

text \<open>The server sends an \<open>Fsync\<close> with an empty address.\<close>

theorem async_reconnects_witness:
  "\<exists>s s'. wire_run [Listen (easy_listen [0, 2, 34, 0]), OfListen 0 LEnter, Conn 0 EnterR] = Some s
     \<and> execs wire_rt std_read_exact std_channel [Conn 0 (Handle easy_os)] s = Some s'
     \<and> (renewed 0 1 any_v4 s' \<or> catching_up 0 0 any_v4 s')"
proof -
  let ?ls = "[Listen (easy_listen [0, 2, 34, 0]), OfListen 0 LEnter, Conn 0 EnterR]"
  let ?c = "\<lparr>c_local = any_v4, c_in = [], c_out = [], c_queue = \<lparr>bound = 10, buffer = [ReqPing (Ping_new wire_rt)]\<rparr>, c_attempts = [],
    c_reader = RTop, c_writer = WTop, c_joined = False\<rparr>"
  have "case wire_run ?ls of None \<Rightarrow> False
    | Some s \<Rightarrow> length (listens s) = 1 \<and> b_point (listens s ! 0) = BSelect 0 False False \<and> b_local (listens s ! 0) = any_v4
        \<and> length (conns s) = 1 \<and> c_reader (conns s ! 0) = RSelect False \<and> \<not> c_joined (conns s ! 0)
        \<and> c_in (conns s ! 0) = [0, 2, 34, 0] \<and> server_addr (client s) = ''s''" by code_simp
  then obtain s where s: "wire_run ?ls = Some s" "length (listens s) = 1" "b_point (listens s ! 0) = BSelect 0 False False"
      "b_local (listens s ! 0) = any_v4" "length (conns s) = 1" "c_reader (conns s ! 0) = RSelect False" "\<not> c_joined (conns s ! 0)"
      "c_in (conns s ! 0) = [0, 2, 34, 0]" "server_addr (client s) = ''s''"
    using case_SomeD by blast
  have "read_resp wire_rt std_read_exact [0, 2, 34, 0] = Ret (Inr (response_of (Fsync_new wire_rt), []))"
    if "response_of = (\<lambda>f. (Response_new wire_rt)\<lparr>resp_cmd := Some (RespFsync f)\<rparr>)" for response_of
    unfolding that by code_simp
  then have read: "read_resp wire_rt std_read_exact [0, 2, 34, 0]
      = Ret (Inr ((Response_new wire_rt)\<lparr>resp_cmd := Some (RespFsync (Fsync_new wire_rt))\<rparr>, []))" by blast
  have empty: "parse_addr [] = None" "fsync_addr (Fsync_new wire_rt) = []"
    by (simp_all add: Fsync_new_def parse_addr_def read_socket_v4_def read_ipv4_def read_separator_def read_octet_def read_number_def
      read_socket_v6_def read_given_char_def Let_def)
  have f: "handle_resp wire_rt std_read_exact easy_os (c_local (conns s ! 0)) (c_in (conns s ! 0))
      = Ret (Inl (new_error Other ''invalid fsync address''))"
    by (simp add: handle_resp_def s(8) read empty)
  have c: "start_background wire_rt std_channel (easy_start []) any_v4 (server_addr (client s)) = Ret (Inr ?c)"
    by (simp add: start_background_def connect_server_def bind_def lookup_first_def connect_socket_def)
  have m: "Handle easy_os = ReadFail \<or> (\<exists>os. Handle easy_os = Handle os
      \<and> (handle_resp wire_rt std_read_exact os (c_local (conns s ! 0)) (c_in (conns s ! 0)) = Panic
        \<or> (\<exists>err. handle_resp wire_rt std_read_exact os (c_local (conns s ! 0)) (c_in (conns s ! 0)) = Ret (Inl err))))"
    using f by blast
  have run: "execs wire_rt std_read_exact std_channel [Conn 0 (Handle easy_os)] s
      = Some (put_conn 0 ((conns s ! 0)\<lparr>c_reader := RDone\<rparr>) s)"
    using f s(5,6) by (simp add: conn_step_def of_reader_def)
  show ?thesis
    using async_reconnects[OF std_chan.bounded_channel_axioms _ s(3,4) _ s(6,7) m c run] s(1,2,5) run by auto
qed

section \<open>Dropping a client whose tasks wait\<close>

definition waiting :: "('q, 'u) System \<Rightarrow> bool" where
  "waiting s \<longleftrightarrow> (\<forall>c \<in> set (conns s). (c_reader c = RDone \<or> (\<exists>e. c_reader c = RSelect e)) \<and> (c_writer c = WDone \<or> (\<exists>e. c_writer c = WSelect e)))
     \<and> (\<forall>b \<in> set (listens s). b_point b = BReturned \<or> (\<exists>j e k. b_point b = BSelect j e k) \<or> (\<exists>e. b_point b = BSleep e))"

text \<open>Each task of a connection and each task of \<open>listen\<close> in turn takes the branch of \<open>exit\<close>.\<close>

abbreviation finished :: "('q, 'u) Connection \<Rightarrow> ('q, 'u) Connection" where
  "finished c \<equiv> c\<lparr>c_reader := RDone, c_writer := WDone\<rparr>"

lemma conn_exits:
  assumes "c_reader c = RDone \<or> c_reader c = RSelect True" "c_writer c = WDone \<or> c_writer c = WSelect True"
  shows "\<exists>ms. conn_steps rt rd ch who ms c = Some (finished c)"
  using assms
proof (elim disjE)
  assume "c_reader c = RDone" "c_writer c = WDone"
  then show ?thesis by (intro exI[of _ "[]"]) (cases c, simp)
next
  assume "c_reader c = RDone" "c_writer c = WSelect True"
  then show ?thesis by (intro exI[of _ "[ExitW]"]) (cases c, simp add: conn_step_def of_reader_def)
next
  assume "c_reader c = RSelect True" "c_writer c = WDone"
  then show ?thesis by (intro exI[of _ "[ExitR]"]) (cases c, simp add: conn_step_def of_reader_def)
next
  assume "c_reader c = RSelect True" "c_writer c = WSelect True"
  then show ?thesis by (intro exI[of _ "[ExitR, ExitW]"]) (simp add: conn_step_def of_reader_def)
qed

lemma conns_exit:
  assumes "\<forall>c \<in> set (conns s). (c_reader c = RDone \<or> c_reader c = RSelect True) \<and> (c_writer c = WDone \<or> c_writer c = WSelect True)"
  shows "k \<le> length (conns s) \<Longrightarrow>
    \<exists>ls. execs rt rd ch ls s = Some (s\<lparr>conns := map finished (take k (conns s)) @ drop k (conns s)\<rparr>)"
proof (induction k)
  case 0
  then show ?case by (intro exI[of _ "[]"]) simp
next
  case (Suc k)
  let ?s = "s\<lparr>conns := map finished (take k (conns s)) @ drop k (conns s)\<rparr>"
  obtain ls where ls: "execs rt rd ch ls s = Some ?s" using Suc by auto
  have k: "k < length (conns s)" using Suc.prems by simp
  then have nth: "conns ?s ! k = conns s ! k" by (simp add: nth_append)
  obtain ms where ms: "conn_steps rt rd ch (client_id (client ?s)) ms (conns ?s ! k) = Some (finished (conns ?s ! k))"
    using conn_exits[of "conns ?s ! k"] assms k unfolding nth by (meson nth_mem)
  have "execs rt rd ch (map (Conn k) ms) ?s = Some (put_conn k (finished (conns s ! k)) ?s)"
    using execs_conn[OF _ ms] k nth by simp
  moreover have "put_conn k (finished (conns s ! k)) ?s = s\<lparr>conns := map finished (take (Suc k) (conns s)) @ drop (Suc k) (conns s)\<rparr>"
    using k by (simp add: put_conn_def take_Suc_conv_app_nth list_update_append Cons_nth_drop_Suc[symmetric])
  ultimately have "execs rt rd ch (ls @ map (Conn k) ms) s = Some (s\<lparr>conns := map finished (take (Suc k) (conns s)) @ drop (Suc k) (conns s)\<rparr>)"
    by (simp add: async_execs_append ls)
  then show ?case by blast
qed

abbreviation returned :: "listen_task \<Rightarrow> listen_task" where
  "returned b \<equiv> b\<lparr>b_point := BReturned\<rparr>"

lemma listens_exit:
  assumes "\<forall>b \<in> set (listens s). b_point b = BReturned \<or> (\<exists>j k. b_point b = BSelect j True k) \<or> b_point b = BSleep True"
  shows "k \<le> length (listens s) \<Longrightarrow>
    \<exists>ls. execs rt rd ch ls s = Some (s\<lparr>listens := map returned (take k (listens s)) @ drop k (listens s)\<rparr>)"
proof (induction k)
  case 0
  then show ?case by (intro exI[of _ "[]"]) simp
next
  case (Suc k)
  let ?s = "s\<lparr>listens := map returned (take k (listens s)) @ drop k (listens s)\<rparr>"
  obtain ls where ls: "execs rt rd ch ls s = Some ?s" using Suc by auto
  have k: "k < length (listens s)" using Suc.prems by simp
  then have nth: "listens ?s ! k = listens s ! k" by (simp add: nth_append)
  have now: "put_listen k BReturned ?s = s\<lparr>listens := map returned (take (Suc k) (listens s)) @ drop (Suc k) (listens s)\<rparr>"
    using k by (simp add: put_listen_def take_Suc_conv_app_nth list_update_append Cons_nth_drop_Suc[symmetric] nth_append)
  have "\<exists>ms. execs rt rd ch ms ?s = Some (put_listen k BReturned ?s)"
  proof (cases "b_point (listens s ! k) = BReturned")
    case True
    then have "returned (listens ?s ! k) = listens ?s ! k" unfolding nth by (cases "listens s ! k") simp
    then have "(listens ?s)[k := returned (listens ?s ! k)] = listens ?s" using list_update_id by metis
    then show ?thesis by (intro exI[of _ "[]"]) (simp add: put_listen_def)
  next
    case False
    then have "(\<exists>j b. b_point (listens s ! k) = BSelect j True b) \<or> b_point (listens s ! k) = BSleep True"
      using assms k nth_mem by blast
    then show ?thesis using nth k by (intro exI[of _ "[OfListen k LExit]"]) auto
  qed
  then obtain ms where "execs rt rd ch ms ?s = Some (put_listen k BReturned ?s)" by blast
  then have "execs rt rd ch (ls @ ms) s = Some (s\<lparr>listens := map returned (take (Suc k) (listens s)) @ drop (Suc k) (listens s)\<rparr>)"
    by (simp add: async_execs_append ls now)
  then show ?case by blast
qed

text \<open>C27. A client that is dropped while all its tasks wait can be wound up: each of them has
  been marked, so a run of their \<open>exit\<close> branches, with no help from the network, ends both
  loops of every connection and every task of \<open>listen\<close>.\<close>

theorem async_exit_ends:
  assumes "waiting s" "\<not> dropped s"
  shows "\<exists>ls s'. execs rt rd ch (DropClient # ls) s = Some s'
    \<and> (\<forall>c \<in> set (conns s'). c_reader c = RDone \<and> c_writer c = WDone) \<and> (\<forall>b \<in> set (listens s'). b_point b = BReturned)
    \<and> length (conns s') = length (conns s) \<and> length (listens s') = length (listens s)"
proof -
  let ?s = "drop_client s"
  have cs: "\<forall>c \<in> set (conns ?s). (c_reader c = RDone \<or> c_reader c = RSelect True) \<and> (c_writer c = WDone \<or> c_writer c = WSelect True)"
    using assms(1) by (fastforce simp: waiting_def)
  obtain ls where ls: "execs rt rd ch ls ?s = Some (?s\<lparr>conns := map finished (conns ?s)\<rparr>)"
    using conns_exit[OF cs order_refl, of rt rd ch] by (auto simp del: drop_client_sel)
  let ?s1 = "?s\<lparr>conns := map finished (conns ?s)\<rparr>"
  have bs: "\<forall>b \<in> set (listens ?s1). b_point b = BReturned \<or> (\<exists>j k. b_point b = BSelect j True k) \<or> b_point b = BSleep True"
    using assms(1) by (fastforce simp: waiting_def)
  obtain ms where "execs rt rd ch ms ?s1 = Some (?s1\<lparr>listens := map returned (listens ?s1)\<rparr>)"
    using listens_exit[OF bs order_refl, of rt rd ch] by (auto simp del: drop_client_sel)
  then have "execs rt rd ch (DropClient # ls @ ms) s = Some (?s1\<lparr>listens := map returned (listens ?s1)\<rparr>)"
    using ls assms(2) by (simp add: async_execs_append)
  then show ?thesis by (rule_tac exI, rule_tac exI) (rule conjI, assumption, simp)
qed

theorem async_exit_ends_witness:
  "\<exists>s ls s'. wire_run [Listen (easy_listen []), OfListen 0 LEnter, Conn 0 EnterR, Conn 0 EnterW] = Some s
     \<and> execs wire_rt std_read_exact std_channel (DropClient # ls) s = Some s' \<and> listens s' \<noteq> []
     \<and> (\<forall>b \<in> set (listens s'). b_point b = BReturned)"
proof -
  let ?ls = "[Listen (easy_listen []), OfListen 0 LEnter, Conn 0 EnterR, Conn 0 EnterW]"
  have "case wire_run ?ls of None \<Rightarrow> False
    | Some s \<Rightarrow> map c_reader (conns s) = [RSelect False] \<and> map c_writer (conns s) = [WSelect False]
        \<and> map b_point (listens s) = [BSelect 0 False False] \<and> \<not> dropped s" by code_simp
  then obtain s where s: "wire_run ?ls = Some s" "map c_reader (conns s) = [RSelect False]" "map c_writer (conns s) = [WSelect False]"
      "map b_point (listens s) = [BSelect 0 False False]" "\<not> dropped s" by (auto dest!: case_SomeD)
  have "waiting s" using s(2-4) by (auto simp: waiting_def)
  moreover have "length (listens s) \<noteq> 0" using s(4) by auto
  ultimately show ?thesis using async_exit_ends[of s wire_rt std_read_exact std_channel] s(1,5) by fastforce
qed

end
