(* ===== verification/Tcp_Clients_Agree.thy ===== *)
theory Tcp_Clients_Agree
  imports Tcp_Client_Correct Tcp_Async_Live
begin

text \<open>
  The two TCP clients, \<open>src/tcp/client.rs\<close> and \<open>src/tcp/client_async.rs\<close>, are written twice.
  When the operating system answers both alike, makes the sockets and tells the local
  address of a connected one, the two \<open>connect\<close>s send the same bytes and end alike, and the
  two reading loops make the same of every response. They differ where a socket cannot be
  made: \<open>client.rs\<close> panics and \<open>client_async.rs\<close> returns the error; and \<open>client_async.rs\<close> unwraps
  the local address before it sends the request, \<open>client.rs\<close> after the answer.
\<close>

definition same_os :: "tcp_os \<Rightarrow> async_os \<Rightarrow> bool" where
  "same_os o1 o2 \<longleftrightarrow> to_new o1 = Inr () \<and> ao_new_v4 o2 = Inr () \<and> ao_new_v6 o2 = Inr ()
     \<and> to_set_reuse_address o1 = ao_set_reuseaddr o2 \<and> to_set_reuse_port o1 = ao_set_reuseport o2
     \<and> to_bind o1 = ao_bind o2 \<and> to_connect o1 = ao_connect o2
     \<and> (\<exists>a. to_local_addr o1 = Inr (Some a) \<and> ao_local_addr o2 = Inr a)"

definition same_socket :: "Socket \<Rightarrow> TcpSocket \<Rightarrow> bool" where
  "same_socket s t \<longleftrightarrow> bound_to s = ts_bound t \<and> remote s = ts_remote t \<and> same_os (sk_os s) (ts_os t)"

definition same_client :: "Tcp_Client.Client \<Rightarrow> Tcp_Async.Client \<Rightarrow> bool" where
  "same_client c d \<longleftrightarrow> Tcp_Client.server_addr c = Tcp_Async.server_addr d \<and> Tcp_Client.client_id c = Tcp_Async.client_id d
     \<and> Tcp_Client.local_addr c = Tcp_Async.local_addr d"

definition same_env :: "Tcp_Client.connect_env \<Rightarrow> Tcp_Async.connect_env \<Rightarrow> bool" where
  "same_env e f \<longleftrightarrow> ce_resolve e = ce_lookup f \<and> same_os (Tcp_Client.ce_server e) (Tcp_Async.ce_server f)
     \<and> same_os (Tcp_Client.ce_peer e) (Tcp_Async.ce_peer f) \<and> Tcp_Client.ce_write1 e = Tcp_Async.ce_write1 f
     \<and> Tcp_Client.ce_write2 e = Tcp_Async.ce_write2 f \<and> Tcp_Client.ce_in e = Tcp_Async.ce_in f"

text \<open>The errors may differ in their text, and in what the two \<open>read_exact\<close> report.\<close>

definition same_result :: "io_error + Socket \<Rightarrow> io_error + TcpSocket \<Rightarrow> bool" where
  "same_result r q = (case (r, q) of (Inr s, Inr t) \<Rightarrow> same_socket s t | (Inl d, Inl e) \<Rightarrow> True | _ \<Rightarrow> False)"

lemma same_result_simps [simp]:
  "same_result (Inr s) (Inr t) \<longleftrightarrow> same_socket s t" "same_result (Inl d) (Inl e)"
  by (simp_all add: same_result_def)

section \<open>The pieces\<close>

lemma lookup_same: "lookup_first = resolve_first"
  by (simp add: fun_eq_iff lookup_first_def resolve_first_def)

lemma choose_same: "same_client c d \<Longrightarrow> Tcp_Async.choose_bind_addr resolve d = Tcp_Client.choose_bind_addr resolve c"
  by (simp add: same_client_def Tcp_Async.choose_bind_addr_def Tcp_Client.choose_bind_addr_def lookup_same split: option.split)

lemma bind_same:
  assumes "same_os o1 o2"
  obtains e where "Tcp_Client.bind o1 a = Ret (Inl e)" "Tcp_Async.bind o2 a = Inl e"
  | s t where "Tcp_Client.bind o1 a = Ret (Inr s)" "Tcp_Async.bind o2 a = Inr t" "same_socket s t" "sk_os s = o1" "ts_os t = o2"
      "remote s = None"
proof -
  have new: "(case a of V4 ip p \<Rightarrow> ao_new_v4 o2 | V6 ip p fl sc \<Rightarrow> ao_new_v6 o2) = Inr ()"
    using assms by (cases a) (simp_all add: same_os_def)
  show thesis
  proof (cases "ao_set_reuseaddr o2")
    case (Inl e)
    then show ?thesis using that(1)[of e] assms new by (simp add: same_os_def Tcp_Client.bind_def Tcp_Async.bind_def)
  next
    case addr: (Inr u)
    show ?thesis
    proof (cases "ao_set_reuseport o2")
      case (Inl e)
      then show ?thesis using that(1)[of e] assms new addr by (simp add: same_os_def Tcp_Client.bind_def Tcp_Async.bind_def)
    next
      case port: (Inr v)
      show ?thesis
      proof (cases "ao_bind o2 a")
        case (Inl e)
        then show ?thesis using that(1)[of e] assms new addr port by (simp add: same_os_def Tcp_Client.bind_def Tcp_Async.bind_def)
      next
        case (Inr w)
        then show ?thesis
          using that(2)[of "\<lparr>sk_os = o1, bound_to = a, remote = None\<rparr>" "\<lparr>ts_os = o2, ts_bound = a, ts_remote = None\<rparr>"] assms new addr port
          by (simp add: same_os_def same_socket_def Tcp_Client.bind_def Tcp_Async.bind_def)
      qed
    qed
  qed
qed

lemma connect_socket_same:
  assumes "same_socket s t"
  shows "same_result (Tcp_Client.connect_socket s a) (Tcp_Async.connect_socket t a)"
  using assms
  by (cases "ao_connect (ts_os t) a")
    (auto simp: Tcp_Client.connect_socket_def Tcp_Async.connect_socket_def same_socket_def same_os_def)

lemma connect_server_same:
  assumes "same_os o1 o2"
  obtains r q where "Tcp_Client.connect_server resolve o1 la server = Ret r" "Tcp_Async.connect_server resolve o2 la server = q"
    "same_result r q"
proof (rule bind_same[OF assms, of la])
  fix s t
  assume b: "Tcp_Client.bind o1 la = Ret (Inr s)" "Tcp_Async.bind o2 la = Inr t" "same_socket s t"
  show thesis
  proof (cases "resolve_first resolve server")
    case (Inl e)
    then show ?thesis using that b by (simp add: Tcp_Client.connect_server_def Tcp_Async.connect_server_def lookup_same)
  next
    case (Inr a)
    have "Tcp_Client.connect_server resolve o1 la server = Ret (Tcp_Client.connect_socket s a)"
      using b(1) Inr by (cases "Tcp_Client.connect_socket s a") (simp_all add: Tcp_Client.connect_server_def)
    then show ?thesis
      using that connect_socket_same[OF b(3)] b(2) Inr by (simp add: Tcp_Async.connect_server_def lookup_same)
  qed
qed (use that in \<open>simp add: Tcp_Client.connect_server_def Tcp_Async.connect_server_def\<close>)

lemma read_resp_same:
  assumes "pb_runtime rt" "exact_reader rd"
  obtains x where "Framing.read_resp rt std_read_exact bs = Ret (Inr x)" "Framing.read_resp rt rd bs = Ret (Inr x)"
  | d e where "Framing.read_resp rt std_read_exact bs = Ret (Inl d)" "Framing.read_resp rt rd bs = Ret (Inl e)"
proof (cases "2 \<le> length bs")
  case False
  then obtain d e where "std_read_exact 2 bs = Inl d" "rd 2 bs = Inl e"
    using std_reader.read_short[of bs 2] exact_reader.read_short[OF assms(2), of bs 2] by auto
  then show ?thesis using that(2) by (simp add: Framing.read_resp_def)
next
  case two: True
  let ?n = "unat (from_be_bytes (take 2 bs))" and ?r = "drop 2 bs"
  have h: "std_read_exact 2 bs = Inr (take 2 bs, ?r)" "rd 2 bs = Inr (take 2 bs, ?r)"
    using two std_reader.read_enough exact_reader.read_enough[OF assms(2)] by blast+
  show ?thesis
  proof (cases "?n \<le> length ?r")
    case False
    then obtain d e where "std_read_exact ?n ?r = Inl d" "rd ?n ?r = Inl e"
      using std_reader.read_short[of ?r ?n] exact_reader.read_short[OF assms(2), of ?r ?n] by auto
    then show ?thesis using that(2) h by (simp add: Framing.read_resp_def)
  next
    case True
    then have "std_read_exact ?n ?r = Inr (take ?n ?r, drop ?n ?r)" "rd ?n ?r = Inr (take ?n ?r, drop ?n ?r)"
      using std_reader.read_enough exact_reader.read_enough[OF assms(2)] by blast+
    then have eq: "Framing.read_resp rt rd bs = Framing.read_resp rt std_read_exact bs" using h by (simp add: Framing.read_resp_def)
    obtain y where "Framing.read_resp rt std_read_exact bs = Ret y" using std_reader.read_resp_returns[OF assms(1)] by blast
    with eq show ?thesis using that by (cases y) simp_all
  qed
qed

lemma connect_redirected_same:
  assumes rt: "pb_runtime rt" "exact_reader rd" and env: "same_env e f" and la: "to_local_addr (sk_os svr) = Inr (Some la)"
  obtains r q where "Tcp_Client.connect_redirected rt e svr = Ret r" "Tcp_Async.connect_redirected rt rd f la = Ret q" "same_result r q"
proof (rule read_resp_same[OF rt, of "Tcp_Client.ce_in e"])
  fix d d'
  assume "Framing.read_resp rt std_read_exact (Tcp_Client.ce_in e) = Ret (Inl d)" "Framing.read_resp rt rd (Tcp_Client.ce_in e) = Ret (Inl d')"
  then show thesis
    using that env by (simp add: Tcp_Client.connect_redirected_def Tcp_Async.connect_redirected_def read_resp_eq same_env_def)
next
  fix x
  assume x: "Framing.read_resp rt std_read_exact (Tcp_Client.ce_in e) = Ret (Inr x)" "Framing.read_resp rt rd (Tcp_Client.ce_in e) = Ret (Inr x)"
  obtain resp rest where resp: "x = (resp, rest)" by fastforce
  note read = x[unfolded resp]
  have in_eq: "Tcp_Async.ce_in f = Tcp_Client.ce_in e" using env by (simp add: same_env_def)
  note defs = Tcp_Client.connect_redirected_def Tcp_Async.connect_redirected_def read_resp_eq in_eq read
  let ?r = "case resp_cmd resp of Some (RespRedirect rdr) \<Rightarrow> Inr (redirect_addr rdr) | _ \<Rightarrow> Inl (new_error Other ''invalid server response'')"
  show thesis
  proof (cases ?r)
    case (Inl err)
    then show ?thesis using that[of "Inl err" "Inl err"] by (simp add: defs)
  next
    case (Inr addr)
    note addr = this
    show ?thesis
    proof (cases "parse_addr addr")
      case None
      then show ?thesis
        using that[of "Inl (new_error Other ''target id not found'')" "Inl (new_error Other ''target ID not found'')"] addr by (simp add: defs)
    next
      case (Some a)
      have os: "same_os (Tcp_Client.ce_peer e) (Tcp_Async.ce_peer f)" using env by (simp add: same_env_def)
      show ?thesis
      proof (rule bind_same[OF os, of la])
        fix err
        assume "Tcp_Client.bind (Tcp_Client.ce_peer e) la = Ret (Inl err)" "Tcp_Async.bind (Tcp_Async.ce_peer f) la = Inl err"
        then show ?thesis using that[of "Inl err" "Inl err"] addr Some la by (simp add: defs socket_addr_returns)
      next
        fix s t
        assume b: "Tcp_Client.bind (Tcp_Client.ce_peer e) la = Ret (Inr s)" "Tcp_Async.bind (Tcp_Async.ce_peer f) la = Inr t" "same_socket s t"
        have "Tcp_Client.connect_redirected rt e svr = Ret (Tcp_Client.connect_socket s a)"
          using b addr Some la by (cases "Tcp_Client.connect_socket s a") (simp_all add: defs socket_addr_returns)
        moreover have "Tcp_Async.connect_redirected rt rd f la = Ret (Tcp_Async.connect_socket t a)"
          using b addr Some by (simp add: defs)
        ultimately show ?thesis using that connect_socket_same[OF b(3)] by blast
      qed
    qed
  qed
qed

section \<open>The clients agree\<close>

text \<open>From the connection to the server on.\<close>

lemma connect_connected_same:
  assumes rt: "pb_runtime rt" "exact_reader rd" and env: "same_env e f" and cl: "same_client c d"
    and sync: "ques_call (Tcp_Client.choose_bind_addr (ce_resolve e 0) c) (\<lambda>la.
        Tcp_Client.connect_server (ce_resolve e 1) (Tcp_Client.ce_server e) la (Tcp_Client.server_addr c)) = Ret (Inr svr)"
    and async: "ques_call (Tcp_Async.choose_bind_addr (ce_lookup f 0) d) (\<lambda>la.
        Ret (Tcp_Async.connect_server (ce_lookup f 1) (Tcp_Async.ce_server f) la (Tcp_Async.server_addr d))) = Ret (Inr svr')"
    and svr: "same_socket svr svr'"
  obtains r q out where "Tcp_Client.connect rt e c target_id = Ret (r, out)" "Tcp_Async.connect rt rd f d target_id = Ret (q, out)"
    "same_result r q"
proof -
  obtain a where a: "to_local_addr (sk_os svr) = Inr (Some a)" "ao_local_addr (ts_os svr') = Inr a"
    using svr by (auto simp: same_socket_def same_os_def)
  obtain out w where w: "Framing.write_req rt (Tcp_Client.ce_write1 e) (Tcp_Client.ce_write2 e) (Tcp_Client.client_id c)
      (ReqIsync ((Isync_new rt)\<lparr>isync_id := target_id\<rparr>)) [] = (out, w)" by fastforce
  have eqs: "Tcp_Async.client_id d = Tcp_Client.client_id c" "Tcp_Async.ce_write1 f = Tcp_Client.ce_write1 e"
      "Tcp_Async.ce_write2 f = Tcp_Client.ce_write2 e"
    using env cl by (simp_all add: same_env_def same_client_def)
  note defs = Tcp_Client.connect_def Tcp_Async.connect_def sync async a(2) eqs write_req_eq w
  show thesis
  proof (cases w)
    case (Inl err)
    then show ?thesis using that[of "Inl err" out "Inl err"] by (simp only: defs) (simp add: a(2) w)
  next
    case (Inr u)
    obtain r q where "Tcp_Client.connect_redirected rt e svr = Ret r" "Tcp_Async.connect_redirected rt rd f a = Ret q" "same_result r q"
      by (rule connect_redirected_same[OF rt env a(1)])
    then show ?thesis using that[of r out q] Inr by (simp only: defs) (simp add: a(2) w)
  qed
qed

text \<open>C9. The two \<open>connect\<close>s agree: with the same answers from the resolver, the operating
  system and the server, both return, they have sent the same bytes, and either both give a
  socket with the same local and remote address or both give an error. The operating system is one
  that makes the sockets and tells the local address of a connected one (\<open>same_os\<close>). Where a
  socket cannot be made \<open>client.rs\<close> panics and \<open>client_async.rs\<close> returns the error; both panic
  where the local address is not told, but \<open>client_async.rs\<close> before it sends anything.\<close>

theorem async_connect_agrees:
  assumes "pb_runtime rt" "exact_reader rd" "same_env e f" "same_client c d"
  shows "\<exists>r q out. Tcp_Client.connect rt e c target_id = Ret (r, out)
    \<and> Tcp_Async.connect rt rd f d target_id = Ret (q, out) \<and> same_result r q"
proof -
  let ?sync = "ques_call (Tcp_Client.choose_bind_addr (ce_resolve e 0) c) (\<lambda>la.
      Tcp_Client.connect_server (ce_resolve e 1) (Tcp_Client.ce_server e) la (Tcp_Client.server_addr c))"
  let ?async = "ques_call (Tcp_Async.choose_bind_addr (ce_lookup f 0) d) (\<lambda>la.
      Ret (Tcp_Async.connect_server (ce_lookup f 1) (Tcp_Async.ce_server f) la (Tcp_Async.server_addr d)))"
  have eqs: "ce_lookup f = ce_resolve e" "Tcp_Async.server_addr d = Tcp_Client.server_addr c"
    and os: "same_os (Tcp_Client.ce_server e) (Tcp_Async.ce_server f)"
    using assms(3,4) by (simp_all add: same_env_def same_client_def)
  obtain r q where rq: "?sync = Ret r" "?async = Ret q" "same_result r q"
  proof -
    obtain x where x: "Tcp_Client.choose_bind_addr (ce_resolve e 0) c = Ret x" using choose_bind_addr_returns by blast
    note choose = x[folded choose_same[OF assms(4)]]
    show thesis
    proof (cases x)
      case (Inl err)
      then show ?thesis using that[of "Inl err" "Inl err"] x choose eqs by simp
    next
      case (Inr la)
      show ?thesis
        by (rule connect_server_same[OF os, of "ce_resolve e 1" la "Tcp_Client.server_addr c"]) (use that x choose Inr eqs in simp)
    qed
  qed
  show ?thesis
  proof (cases "\<exists>svr. r = Inr svr")
    case True
    then obtain svr svr' where "r = Inr svr" "q = Inr svr'" "same_socket svr svr'" using rq(3) by (cases q) (auto simp: same_result_def)
    then show ?thesis using connect_connected_same[OF assms, of svr svr' target_id] rq(1,2) by metis
  next
    case False
    then obtain d1 d2 where "r = Inl d1" "q = Inl d2" using rq(3) by (cases r; cases q) (auto simp: same_result_def)
    then show ?thesis using rq(1,2) by (simp add: Tcp_Client.connect_def Tcp_Async.connect_def)
  qed
qed

theorem async_connect_agrees_witness:
  "\<exists>s t out. Tcp_Client.connect wire_rt (easy_env redirect_bytes) Tcp_Client_Correct.some_client ''t'' = Ret (Inr s, out)
     \<and> Tcp_Async.connect wire_rt std_read_exact
         \<lparr>ce_lookup = (\<lambda>_ _. Inr [V4 (Ipv4 9 9 9 9) 8888]), ce_server = Tcp_Async_Correct.easy_os, ce_peer = Tcp_Async_Correct.easy_os,
          ce_write1 = Inr (), ce_write2 = Inr (), ce_in = redirect_bytes\<rparr> Tcp_Async_Correct.some_client ''t'' = Ret (Inr t, out)
     \<and> remote s = ts_remote t"
proof -
  let ?f = "\<lparr>ce_lookup = (\<lambda>_ _. Inr [V4 (Ipv4 9 9 9 9) 8888]), ce_server = Tcp_Async_Correct.easy_os, ce_peer = Tcp_Async_Correct.easy_os,
          ce_write1 = Inr (), ce_write2 = Inr (), ce_in = redirect_bytes\<rparr>"
  have e: "same_env (easy_env redirect_bytes) ?f" "same_client Tcp_Client_Correct.some_client Tcp_Async_Correct.some_client"
    by (simp_all add: same_env_def same_os_def same_client_def)
  obtain s out where s: "Tcp_Client.connect wire_rt (easy_env redirect_bytes) Tcp_Client_Correct.some_client ''t'' = Ret (Inr s, out)"
    using easy_connect by blast
  from async_connect_agrees[OF wire.pb_runtime_axioms std_reader.exact_reader_axioms e, of "''t''"] s
  obtain q where "Tcp_Async.connect wire_rt std_read_exact ?f Tcp_Async_Correct.some_client ''t'' = Ret (q, out)" "same_result (Inr s) q"
    by auto
  with s show ?thesis by (cases q) (auto simp: same_result_def same_socket_def)
qed

section \<open>The reading loops agree\<close>

text \<open>The two reading loops make the same of a response: where \<open>client.rs\<close> reads one and
  acts on it, \<open>client_async.rs\<close> puts the same request into the queue after the same attempt
  to connect, and goes on from the same place in the stream; where one gives up on a
  response, so does the other.\<close>

lemma async_answers_agree:
  assumes "same_os o1 o2"
    and "Framing.read_resp rt std_read_exact bs = Ret (Inr (resp, rest))" "Framing.read_resp rt rd bs = Ret (Inr (resp, rest))"
  shows "(\<exists>req attempts. read_turn rt o1 la resp = Ret (Inr (req, attempts)) \<and> handle_resp rt rd o2 la bs = Ret (Inr (req, attempts, rest)))
    \<or> (\<exists>d e. read_turn rt o1 la resp = Ret (Inl d) \<and> handle_resp rt rd o2 la bs = Ret (Inl e)
        \<and> (\<exists>fsync. resp_cmd resp = Some (RespFsync fsync) \<and> parse_addr (fsync_addr fsync) = None))"
proof (cases "\<exists>fsync. resp_cmd resp = Some (RespFsync fsync)")
  case False
  then show ?thesis
    using assms(3) by (auto simp: read_turn_def handle_resp_def read_resp_eq split: option.split RespCmd.split)
next
  case True
  then obtain fsync where f: "resp_cmd resp = Some (RespFsync fsync)" by blast
  show ?thesis
  proof (cases "parse_addr (fsync_addr fsync)")
    case None
    then show ?thesis using f assms(3) by (simp add: read_turn_def handle_resp_def read_resp_eq)
  next
    case (Some a)
    show ?thesis
      by (rule bind_same[OF assms(1), of la]) (use Some f assms(3) in \<open>simp_all add: read_turn_def handle_resp_def read_resp_eq Let_def\<close>)
  qed
qed

end
