(* ===== verification/Command_Line.thy ===== *)
theory Command_Line
  imports Udp_Server Udp_Client Tcp_Server Tcp_Async
begin

text \<open>
  The command line program, \<open>src/main.rs\<close>: the options, the two servers that \<open>run_server\<close>
  starts, and the four things that \<open>run_client\<close> does: connect or listen, by UDP or by TCP,
  with the exchange of data that follows. Parsing the arguments (\<open>structopt\<close>), the logger
  and the tokio runtime are not modelled.
\<close>

section \<open>Options\<close>

record ClientOpt =
  co_id :: string
  co_server_addr :: string
  co_remote_peer :: "string option"
  co_tcp :: bool

record ServerOpt =
  listen_addr :: SocketAddr
  ipv6_only :: bool

datatype Opt = OptClient ClientOpt | OptServer ServerOpt

text \<open>The default of \<open>--listen-addr\<close>.\<close>

definition default_listen_addr :: "SocketAddr option" where
  "default_listen_addr = parse_addr ''0.0.0.0:8888''"

lemma default_listen_addr: "default_listen_addr = Some (V4 (Ipv4 0 0 0 0) 8888)"
proof -
  have "char_of (48 :: nat) = CHR ''0''" "char_of (56 :: nat) = CHR ''8''" by code_simp+
  then have "show_addr (V4 (Ipv4 0 0 0 0) 8888) = ''0.0.0.0:8888''"
    by (simp add: show_number_def digits.simps digit_char_def)
  then have "parse_addr ''0.0.0.0:8888'' = Some (clear_flow (V4 (Ipv4 0 0 0 0) 8888))"
    by (metis parse_show_addr)
  then show ?thesis unfolding default_listen_addr_def clear_flow.simps .
qed

section \<open>The servers\<close>

text \<open>
  The UDP server is made first and runs on its own thread, under \<open>unwrap\<close>; then the TCP
  server is made. The result is what the UDP thread came to, if it was started, and the
  TCP server.
\<close>

record server_env =
  sv_udp :: socket_os
  sv_now :: instant
  sv_set_read_timeout :: "io_error + unit"
  sv_turns :: "turn list"
  sv_tcp :: listen_os

definition run_server ::
  "'u pb_rt \<Rightarrow> server_env \<Rightarrow> ServerOpt \<Rightarrow> Udp_Server.Server outcome option \<times> (io_error + ('q, 'u) Tcp_Server.Server)" where
  "run_server rt env opt =
     (case Udp_Server.Server_new (sv_udp env) (listen_addr opt) (ipv6_only opt) (sv_now env) of
        Inl e \<Rightarrow> (None, Inl e)
      | Inr s \<Rightarrow>
          (Some (and_then (server_run rt (sv_set_read_timeout env) (sv_turns env) s) unwrap),
           Tcp_Server.Server_new (sv_tcp env) (listen_addr opt) (ipv6_only opt)))"

section \<open>The clients\<close>

definition hello :: bytes where
  "hello = map byte_of ''hello''"

text \<open>The bytes that arrive in a buffer of \<open>n\<close>.\<close>

definition received_in :: "nat \<Rightarrow> io_error + bytes \<times> SocketAddr \<Rightarrow> io_error + bytes \<times> SocketAddr" where
  "received_in n r = (case r of Inl e \<Rightarrow> Inl e | Inr (bs, a) \<Rightarrow> Inr (take n bs, a))"

text \<open>
  What a client meets: the answers for the connection, and those for the data that follows.
  \<open>cl_recvs\<close> are the results of \<open>recv_from\<close>; the listening client goes on until the first
  error.
\<close>

record client_env =
  cl_resolve :: "string \<Rightarrow> io_error + SocketAddr list"
  cl_os :: "nat \<Rightarrow> sock_os"
  cl_peer_os :: sock_os
  cl_rounds :: "nat \<Rightarrow> conn_round"
  cl_send :: "io_error + unit"
  cl_recvs :: "(io_error + bytes \<times> SocketAddr) list"
  cl_tcp_connect :: Tcp_Async.connect_env
  cl_tcp_listen :: listen_env
  cl_tcp_read :: "io_error + bytes"
  cl_accepts :: "(io_error + TcpSocket \<times> SocketAddr) list"
  cl_reads :: "nat \<Rightarrow> io_error + bytes"

text \<open>By UDP to a peer: \<open>connect\<close>, then one datagram each way. \<open>None\<close>: it still waits.\<close>

definition udp_hello :: "io_error + unit \<Rightarrow> (io_error + bytes \<times> SocketAddr) list \<Rightarrow> (io_error + unit) option" where
  "udp_hello send recvs =
     (case send of
        Inl e \<Rightarrow> Some (Inl e)
      | Inr _ \<Rightarrow> (case recvs of [] \<Rightarrow> None | r # _ \<Rightarrow> Some (res_bind (received_in 1500 r) (\<lambda>_. Inr ()))))"

definition udp_connect :: "'u pb_rt \<Rightarrow> client_env \<Rightarrow> ClientOpt \<Rightarrow> string \<Rightarrow> (io_error + unit) option outcome" where
  "udp_connect rt env opt peer =
     (case Connector_new [co_server_addr opt] (co_id opt) None False of
        Inl e \<Rightarrow> Ret (Some (Inl e))
      | Inr c \<Rightarrow>
          and_then (connector_connect rt (cl_resolve env) (cl_os env) (cl_rounds env) (con_cfg c) peer) (\<lambda>(r, out).
          case r of
            Inl e \<Rightarrow> Ret (Some (Inl e))
          | Inr s \<Rightarrow> Ret (udp_hello (cl_send env) (cl_recvs env))))"

text \<open>By UDP as a listener: every datagram goes back to where it came from.\<close>

fun echo :: "(io_error + bytes \<times> SocketAddr) list \<Rightarrow> (bytes \<times> SocketAddr) list" where
  "echo [] = []"
| "echo (r # rs) = (case received_in 1500 r of Inr (bs, a) \<Rightarrow> (bs, a) # echo rs | Inl e \<Rightarrow> [])"

definition udp_listen :: "'u pb_rt \<Rightarrow> client_env \<Rightarrow> ClientOpt \<Rightarrow> (io_error + (bytes \<times> SocketAddr) list) outcome" where
  "udp_listen rt env opt =
     ques (Listener_new [co_server_addr opt] (co_id opt) None False) (\<lambda>l.
     and_then (Udp_Client.listen rt (cl_resolve env) (cl_os env) (cl_peer_os env) l) (\<lambda>(l, r).
     ques r (\<lambda>(s, th).
     Ret (Inr (echo (cl_recvs env))))))"

text \<open>By TCP to a peer: the write may fail, a failing read is a panic.\<close>

definition tcp_connect :: "'u pb_rt \<Rightarrow> exact_read \<Rightarrow> client_env \<Rightarrow> ClientOpt \<Rightarrow> string \<Rightarrow> (io_error + bytes) outcome" where
  "tcp_connect rt rd env opt peer =
     ques (Tcp_Async.new (co_server_addr opt) (co_id opt) None) (\<lambda>c.
     and_then (Tcp_Async.connect rt rd (cl_tcp_connect env) c peer) (\<lambda>(r, out).
     ques r (\<lambda>stream.
     and_then (unwrap (cl_tcp_read env)) (\<lambda>bs. Ret (Inr (take 5 bs))))))"

text \<open>
  By TCP as a listener: a task for every accepted connection, until the first error. A task
  reads at most five bytes, under \<open>unwrap\<close>, and writes \<open>hello\<close>.
\<close>

definition serve_stream :: "io_error + bytes \<Rightarrow> bytes outcome" where
  "serve_stream r = and_then (unwrap r) (\<lambda>bs. Ret hello)"

fun accept_all :: "(nat \<Rightarrow> io_error + bytes) \<Rightarrow> nat \<Rightarrow> (io_error + TcpSocket \<times> SocketAddr) list \<Rightarrow> (SocketAddr \<times> bytes outcome) list" where
  "accept_all rds k [] = []"
| "accept_all rds k (Inr (stream, a) # rs) = (a, serve_stream (rds k)) # accept_all rds (Suc k) rs"
| "accept_all rds k (Inl e # rs) = []"

definition tcp_listen ::
  "'u pb_rt \<Rightarrow> ('q, 'u ReqCmd) mpsc \<Rightarrow> client_env \<Rightarrow> ClientOpt \<Rightarrow> (io_error + (SocketAddr \<times> bytes outcome) list) outcome" where
  "tcp_listen rt ch env opt =
     ques (Tcp_Async.new (co_server_addr opt) (co_id opt) None) (\<lambda>c.
     ques_call (snd (Tcp_Async.listen rt ch (cl_tcp_listen env) (opened c))) (\<lambda>_.
     Ret (Inr (accept_all (cl_reads env) 0 (cl_accepts env)))))"

text \<open>Which of the four is run, and the result of \<open>main\<close>.\<close>

datatype run =
    UdpConnected "(io_error + unit) option outcome"
  | UdpListened "(io_error + (bytes \<times> SocketAddr) list) outcome"
  | TcpConnected "(io_error + bytes) outcome"
  | TcpListened "(io_error + (SocketAddr \<times> bytes outcome) list) outcome"

definition run_client :: "'u pb_rt \<Rightarrow> exact_read \<Rightarrow> ('q, 'u ReqCmd) mpsc \<Rightarrow> client_env \<Rightarrow> ClientOpt \<Rightarrow> run" where
  "run_client rt rd ch env opt =
     (if \<not> co_tcp opt then
        (case co_remote_peer opt of
           Some peer \<Rightarrow> UdpConnected (udp_connect rt env opt peer)
         | None \<Rightarrow> UdpListened (udp_listen rt env opt))
      else
        (case co_remote_peer opt of
           Some peer \<Rightarrow> TcpConnected (tcp_connect rt rd env opt peer)
         | None \<Rightarrow> TcpListened (tcp_listen rt ch env opt)))"

text \<open>
  \<open>main\<close> on the parsed options. \<open>client_result\<close> is what \<open>run_client\<close> returns to it: \<open>Ok(())\<close>
  after the exchange, or the first error; \<open>None\<close> while it still waits.
\<close>

datatype ('q, 'u) started =
    ServerStarted "Udp_Server.Server outcome option" "io_error + ('q, 'u) Tcp_Server.Server"
  | ClientRan run

definition main_program ::
  "'u pb_rt \<Rightarrow> exact_read \<Rightarrow> ('q, 'u ReqCmd) mpsc \<Rightarrow> server_env \<Rightarrow> client_env \<Rightarrow> Opt \<Rightarrow> ('r, 'u) started" where
  "main_program rt rd ch senv cenv opt =
     (case opt of
        OptServer opt \<Rightarrow> (let (udp, tcp) = run_server rt senv opt in ServerStarted udp tcp)
      | OptClient opt \<Rightarrow> ClientRan (run_client rt rd ch cenv opt))"

fun client_result :: "run \<Rightarrow> (io_error + unit) option outcome" where
  "client_result (UdpConnected r) = r"
| "client_result (UdpListened r) = and_then r (\<lambda>r. Ret (Some (res_bind r (\<lambda>_. Inr ()))))"
| "client_result (TcpConnected r) = and_then r (\<lambda>r. Ret (Some (res_bind r (\<lambda>_. Inr ()))))"
| "client_result (TcpListened r) = and_then r (\<lambda>r. Ret (Some (res_bind r (\<lambda>_. Inr ()))))"

section \<open>Lemmas\<close>

text \<open>A listening client ends well although \<open>recv_from\<close> or \<open>accept\<close> failed: that only ends its loop.\<close>

lemma listening_ends_well:
  assumes "co_remote_peer opt = None" "\<not> co_tcp opt" "Listener_new [co_server_addr opt] (co_id opt) None False = Inr l"
    and "Udp_Client.listen rt (cl_resolve env) (cl_os env) (cl_peer_os env) l = Ret (l', Inr (s, th))"
  shows "client_result (run_client rt rd ch env opt) = Ret (Some (Inr ()))"
  using assms by (simp add: run_client_def udp_listen_def ques_def)

text \<open>A TCP client whose peer resets the connection panics instead of returning the error.\<close>

lemma reading_panics:
  assumes "co_remote_peer opt = Some peer" "co_tcp opt" "Tcp_Async.new (co_server_addr opt) (co_id opt) None = Inr c"
    and "Tcp_Async.connect rt rd (cl_tcp_connect env) c peer = Ret (Inr stream, out)" "cl_tcp_read env = Inl e"
  shows "client_result (run_client rt rd ch env opt) = Panic"
  using assms by (simp add: run_client_def tcp_connect_def ques_def)

text \<open>The listener answers exactly the datagrams before the first error, in order.\<close>

lemma echo_prefix:
  "echo rs = map (\<lambda>r. case r of Inr (bs, a) \<Rightarrow> (take 1500 bs, a)) (takeWhile (\<lambda>r. \<exists>x. r = Inr x) rs)"
  by (induction rs) (auto simp: received_in_def split: sum.split)

lemma echo_to_sender: "(bs, a) \<in> set (echo rs) \<Longrightarrow> length bs \<le> 1500 \<and> (\<exists>cs. Inr (cs, a) \<in> set rs \<and> bs = take 1500 cs)"
  by (induction rs) (auto simp: received_in_def split: sum.splits)

text \<open>One task of the listener that panics leaves the others alone.\<close>

lemma accept_all_length:
  "length (accept_all rds k rs) = length (takeWhile (\<lambda>r. \<exists>x. r = Inr x) rs)"
  by (induction rds k rs rule: accept_all.induct) auto

lemma accept_all_nth:
  "n < length (accept_all rds k rs) \<Longrightarrow> snd (accept_all rds k rs ! n) = serve_stream (rds (k + n))"
  by (induction rds k rs arbitrary: n rule: accept_all.induct) (auto simp: nth_Cons split: nat.split)

text \<open>
  If the TCP server cannot be made, its error is the result although the UDP server is
  already running on the same address.
\<close>

lemma run_server_tcp_fails:
  assumes "Udp_Server.Server_new (sv_udp env) (listen_addr opt) (ipv6_only opt) (sv_now env) = Inr s"
    and "(Tcp_Server.Server_new (sv_tcp env) (listen_addr opt) (ipv6_only opt) :: io_error + ('q, 'u) Tcp_Server.Server) = Inl e"
  shows "\<exists>t. (run_server rt env opt :: _ \<times> (io_error + ('q, 'u) Tcp_Server.Server)) = (Some t, Inl e)"
  using assms by (simp add: run_server_def)

text \<open>Without a port for IPv6 alone, neither server takes an IPv4 address.\<close>

lemma run_server_ipv6_only:
  assumes "ipv6_only opt" "listen_addr opt = V4 ip p"
  shows "\<exists>e. (run_server rt env opt :: _ \<times> (io_error + ('q, 'u) Tcp_Server.Server)) = (None, Inl e)"
proof -
  have "\<exists>e. Udp_Server.Server_new (sv_udp env) (listen_addr opt) (ipv6_only opt) (sv_now env) = Inl e"
    using assms by (cases "os_new (sv_udp env)"; cases "os_set_reuse_address (sv_udp env)"; cases "os_set_reuse_port (sv_udp env)";
        cases "os_set_only_v6 (sv_udp env)") (simp_all add: Udp_Server.Server_new_def)
  then show ?thesis by (auto simp: run_server_def)
qed

end
