(* ===== verification/Demos.thy ===== *)
theory Demos
  imports Command_Line Tcp_Background "HOL-Library.Sublist"
begin

text \<open>
  The three demonstration programs of \<open>examples\<close>: a server, a client \<open>c1\<close> that listens and a
  client \<open>c2\<close> that connects to it, in one process, with \<open>hello\<close> sent from one to the other.
  Each is a thread that serves, a thread or task of \<open>c1\<close>, and \<open>main\<close>, which is \<open>c2\<close>; \<open>main\<close>
  takes the result of the thread of \<open>c1\<close> as a parameter, which it joins. \<open>None\<close> means that a
  call has not returned yet.
\<close>

section \<open>Trying again\<close>

text \<open>
  The loops that try until a call succeeds and sleep in between: one element of the list for
  each attempt.
\<close>

fun retry :: "('e \<Rightarrow> 's \<Rightarrow> 's \<times> ('x + 'a) outcome) \<Rightarrow> 'e list \<Rightarrow> 's \<Rightarrow> ('s \<times> 'a outcome) option" where
  "retry f [] s = None"
| "retry f (e # es) s =
     (case f e s of
        (s, Ret (Inr a)) \<Rightarrow> Some (s, Ret a)
      | (s, Ret (Inl x)) \<Rightarrow> retry f es s
      | (s, Panic) \<Rightarrow> Some (s, Panic)
      | (s, Hang) \<Rightarrow> Some (s, Hang))"

definition retry_call :: "('e \<Rightarrow> ('x + 'a) outcome) \<Rightarrow> 'e list \<Rightarrow> 'a outcome option" where
  "retry_call f es = map_option snd (retry (\<lambda>e s. (s, f e)) es ())"

text \<open>The failures of a \<open>main\<close>: of parsing the address, of I/O, or of the task it awaits.\<close>

datatype demo_error = BadAddr | Io io_error | TaskFailed

definition demo_addr :: string where
  "demo_addr = ''127.0.0.1:8888''"

text \<open>\<open>server_addr.parse()?\<close>.\<close>

definition with_addr :: "(SocketAddr \<Rightarrow> (demo_error + 'a) outcome option) \<Rightarrow> (demo_error + 'a) outcome option" where
  "with_addr k = (case parse_addr demo_addr of None \<Rightarrow> Some (Ret (Inl BadAddr)) | Some a \<Rightarrow> k a)"

section \<open>demo-tcp\<close>

definition tcp_demo_server :: "listen_os \<Rightarrow> SocketAddr \<Rightarrow> ('q, 'u) Tcp_Server.Server outcome" where
  "tcp_demo_server os a = unwrap (Tcp_Server.Server_new os a False)"

text \<open>
  An attempt of \<open>listen\<close>, after which the threads of the client go on for a while: that is
  the second component of an attempt.
\<close>

definition tcp_try_listen ::
  "'u pb_rt \<Rightarrow> Tcp_Background.listen_env \<times> ('u Tcp_Background.System \<Rightarrow> 'u Tcp_Background.System) \<Rightarrow> 'u Tcp_Background.System
     \<Rightarrow> 'u Tcp_Background.System \<times> (io_error + unit) outcome" where
  "tcp_try_listen rt e s = (let (s, r) = Tcp_Background.listen rt (fst e) s in (snd e s, r))"

text \<open>The accepted stream is greeted, then the client is dropped: the bytes written.\<close>

definition tcp_greet ::
  "(io_error + Tcp_Client.Socket \<times> SocketAddr option) \<Rightarrow> write_result \<Rightarrow> 'u Tcp_Background.System \<Rightarrow> bytes outcome" where
  "tcp_greet ans w s =
     and_then (Tcp_Client.accept ans (Tcp_Background.client s)) (\<lambda>r.
     and_then (unwrap r) (\<lambda>(stream, a).
     (case write_all w hello [] of
        (out, r) \<Rightarrow>
          and_then (unwrap r) (\<lambda>_.
          and_then (snd (Tcp_Background.drop_client s)) (\<lambda>_. Ret out)))))"

definition tcp_greeter ::
  "'u pb_rt \<Rightarrow> (Tcp_Background.listen_env \<times> ('u Tcp_Background.System \<Rightarrow> 'u Tcp_Background.System)) list
     \<Rightarrow> (io_error + Tcp_Client.Socket \<times> SocketAddr option) \<Rightarrow> write_result \<Rightarrow> bytes outcome option" where
  "tcp_greeter rt tries ans w =
     (case unwrap (Tcp_Client.new demo_addr ''c1'' None) of
        Ret c \<Rightarrow>
          map_option (\<lambda>(s, r). and_then r (\<lambda>_. tcp_greet ans w s)) (retry (tcp_try_listen rt) tries (Tcp_Background.opened c))
      | _ \<Rightarrow> Some Panic)"

text \<open>\<open>main\<close>: \<open>arrives\<close> is what comes on the stream, \<open>greeter\<close> the thread of \<open>c1\<close>.\<close>

definition tcp_demo ::
  "'u pb_rt \<Rightarrow> Tcp_Client.connect_env list \<Rightarrow> bytes \<Rightarrow> bytes outcome option \<Rightarrow> (demo_error + unit) outcome option" where
  "tcp_demo rt dials arrives greeter =
     with_addr (\<lambda>a.
     case unwrap (Tcp_Client.new demo_addr ''c2'' None) of
       Ret c \<Rightarrow>
         (case retry_call (\<lambda>env. and_then (Tcp_Client.connect rt env c ''c1'') (\<lambda>(r, out). Ret r)) dials of
            None \<Rightarrow> None
          | Some (Ret stream) \<Rightarrow>
              (case std_read_exact 5 arrives of
                 Inl e \<Rightarrow> Some (Ret (Inl (Io e)))
               | Inr _ \<Rightarrow> map_option (\<lambda>t. and_then t (\<lambda>_. Ret (Inr ()))) greeter)
          | Some Panic \<Rightarrow> Some Panic
          | Some Hang \<Rightarrow> Some Hang)
     | _ \<Rightarrow> Some Panic)"

section \<open>demo-udp\<close>

definition udp_demo_server ::
  "'u pb_rt \<Rightarrow> socket_os \<Rightarrow> instant \<Rightarrow> io_error + unit \<Rightarrow> turn list \<Rightarrow> SocketAddr \<Rightarrow> Udp_Server.Server outcome" where
  "udp_demo_server rt os now set_read_timeout ts a =
     and_then (unwrap (Udp_Server.Server_new os a False now)) (\<lambda>s.
     and_then (server_run rt set_read_timeout ts s) unwrap)"

text \<open>\<open>recv\<close> waits for a datagram, of which ten bytes fit.\<close>

definition udp_hearer ::
  "'u pb_rt \<Rightarrow> (string \<Rightarrow> io_error + SocketAddr list) \<Rightarrow> (nat \<Rightarrow> sock_os) \<Rightarrow> sock_os \<Rightarrow> (io_error + bytes) option \<Rightarrow> unit outcome option" where
  "udp_hearer rt resolve os peer_os recv =
     (case and_then (unwrap (Listener_new [demo_addr] ''c1'' None False)) (\<lambda>l.
           and_then (Udp_Client.listen rt resolve os peer_os l) (\<lambda>(l, r).
           and_then (unwrap r) (\<lambda>(s, th). Ret l))) of
        Ret l \<Rightarrow>
          map_option (\<lambda>r.
            and_then (unwrap r) (\<lambda>bs.
            if take 10 bs = hello then and_then (listener_drop rt l) (\<lambda>_. Ret ()) else Panic)) recv
      | Panic \<Rightarrow> Some Panic
      | Hang \<Rightarrow> Some Hang)"

record udp_dial =
  ud_resolve :: "string \<Rightarrow> io_error + SocketAddr list"
  ud_os :: "nat \<Rightarrow> sock_os"
  ud_rounds :: "nat \<Rightarrow> conn_round"
  ud_send :: "io_error + unit"

text \<open>One iteration: a new connector each time; a failing \<open>send\<close> is a panic.\<close>

definition udp_try_hello :: "'u pb_rt \<Rightarrow> udp_dial \<Rightarrow> (io_error + Udp_Client.Socket) outcome" where
  "udp_try_hello rt d =
     and_then (unwrap (Connector_new [demo_addr] ''c2'' None False)) (\<lambda>c.
     and_then (connector_connect rt (ud_resolve d) (ud_os d) (ud_rounds d) (con_cfg c) ''c1'') (\<lambda>(r, out).
     case r of
       Inl e \<Rightarrow> Ret (Inl e)
     | Inr s \<Rightarrow> and_then (unwrap (ud_send d)) (\<lambda>_. Ret (Inr s))))"

definition udp_demo :: "'u pb_rt \<Rightarrow> udp_dial list \<Rightarrow> unit outcome option \<Rightarrow> (demo_error + unit) outcome option" where
  "udp_demo rt dials hearer =
     with_addr (\<lambda>a.
     case retry_call (udp_try_hello rt) dials of
       None \<Rightarrow> None
     | Some (Ret s) \<Rightarrow> map_option (\<lambda>t. and_then t (\<lambda>_. Ret (Inr ()))) hearer
     | Some Panic \<Rightarrow> Some Panic
     | Some Hang \<Rightarrow> Some Hang)"

section \<open>demo-async-tcp\<close>

definition async_demo_server :: "listen_os \<Rightarrow> SocketAddr \<Rightarrow> io_error + ('q, 'u) Tcp_Server.Server" where
  "async_demo_server os a = Tcp_Server.Server_new os a False"

definition async_try_listen ::
  "'u pb_rt \<Rightarrow> ('q, 'u ReqCmd) mpsc \<Rightarrow> Tcp_Async.listen_env \<times> (('q, 'u) Tcp_Async.System \<Rightarrow> ('q, 'u) Tcp_Async.System)
     \<Rightarrow> ('q, 'u) Tcp_Async.System \<Rightarrow> ('q, 'u) Tcp_Async.System \<times> (io_error + unit) outcome" where
  "async_try_listen rt ch e s = (let (s, r) = Tcp_Async.listen rt ch (fst e) s in (snd e s, r))"

text \<open>The stream accepted and greeted; \<open>None\<close> while \<open>accept\<close> waits. The drop cannot fail.\<close>

definition async_greet ::
  "(io_error + TcpSocket \<times> SocketAddr) option \<Rightarrow> write_result \<Rightarrow> ('q, 'u) Tcp_Async.System \<Rightarrow> bytes outcome option" where
  "async_greet ans w s =
     map_option (\<lambda>r.
       and_then (unwrap r) (\<lambda>(stream, a).
       (case write_all w hello [] of (out, r) \<Rightarrow> and_then (unwrap r) (\<lambda>_. Ret out))))
     (Tcp_Async.accept False ans (Tcp_Async.client s))"

definition async_greeter ::
  "'u pb_rt \<Rightarrow> ('q, 'u ReqCmd) mpsc \<Rightarrow> (Tcp_Async.listen_env \<times> (('q, 'u) Tcp_Async.System \<Rightarrow> ('q, 'u) Tcp_Async.System)) list
     \<Rightarrow> (io_error + TcpSocket \<times> SocketAddr) option \<Rightarrow> write_result \<Rightarrow> bytes outcome option" where
  "async_greeter rt ch tries ans w =
     (case unwrap (Tcp_Async.new demo_addr ''c1'' None) of
        Ret c \<Rightarrow>
          (case retry (async_try_listen rt ch) tries (Tcp_Async.opened c) of
             None \<Rightarrow> None
           | Some (s, Ret _) \<Rightarrow> async_greet ans w s
           | Some (s, Panic) \<Rightarrow> Some Panic
           | Some (s, Hang) \<Rightarrow> Some Hang)
      | _ \<Rightarrow> Some Panic)"

text \<open>\<open>t.await?\<close>: a task that has panicked is an error.\<close>

definition async_demo ::
  "'u pb_rt \<Rightarrow> exact_read \<Rightarrow> Tcp_Async.connect_env list \<Rightarrow> bytes \<Rightarrow> bytes outcome option \<Rightarrow> (demo_error + unit) outcome option" where
  "async_demo rt rd dials arrives greeter =
     with_addr (\<lambda>a.
     case Tcp_Async.new demo_addr ''c2'' None of
       Inl e \<Rightarrow> Some (Ret (Inl (Io e)))
     | Inr c \<Rightarrow>
         (case retry_call (\<lambda>env. and_then (Tcp_Async.connect rt rd env c ''c1'') (\<lambda>(r, out). Ret r)) dials of
            None \<Rightarrow> None
          | Some (Ret stream) \<Rightarrow>
              (case rd 5 arrives of
                 Inl e \<Rightarrow> Some (Ret (Inl (Io e)))
               | Inr _ \<Rightarrow>
                   map_option (\<lambda>t.
                     case t of
                       Ret _ \<Rightarrow> Ret (Inr ())
                     | Panic \<Rightarrow> Ret (Inl TaskFailed)
                     | Hang \<Rightarrow> Hang) greeter)
          | Some Panic \<Rightarrow> Some Panic
          | Some Hang \<Rightarrow> Some Hang))"

section \<open>How the programs end\<close>

lemma demo_addr: "parse_addr demo_addr = Some (V4 (Ipv4 127 0 0 1) 8888)"
proof -
  have "char_of (48 :: nat) = CHR ''0''" "char_of (49 :: nat) = CHR ''1''" "char_of (50 :: nat) = CHR ''2''"
      "char_of (55 :: nat) = CHR ''7''" "char_of (56 :: nat) = CHR ''8''" by code_simp+
  then have "show_addr (V4 (Ipv4 127 0 0 1) 8888) = demo_addr"
    by (simp add: demo_addr_def show_number_def digits.simps digit_char_def)
  then have "parse_addr demo_addr = Some (clear_flow (V4 (Ipv4 127 0 0 1) 8888))" by (metis parse_show_addr)
  then show ?thesis unfolding clear_flow.simps .
qed

lemma with_addr: "with_addr k = k (V4 (Ipv4 127 0 0 1) 8888)"
  by (simp add: with_addr_def demo_addr)

text \<open>A loop that tries again returns the first success, and only a success.\<close>

lemma retry_Ret:
  assumes "retry f es s = Some (s', Ret a)"
  obtains e s0 where "e \<in> set es" "f e s0 = (s', Ret (Inr a))"
proof -
  have "\<exists>e \<in> set es. \<exists>s0. f e s0 = (s', Ret (Inr a))"
    using assms by (induction f es s rule: retry.induct) (auto split: prod.splits outcome.splits sum.splits)
  then show thesis using that by blast
qed

lemma retry_call_Ret: "retry_call f es = Some (Ret a) \<Longrightarrow> \<exists>e \<in> set es. f e = Ret (Inr a)"
  by (auto simp: retry_call_def elim!: retry_Ret)

lemma retry_call_first:
  "\<forall>e \<in> set es. \<exists>x. f e = Ret (Inl x) \<Longrightarrow> f e = Ret (Inr a) \<Longrightarrow> retry_call f (es @ e # fs) = Some (Ret a)"
  by (induction es) (auto simp: retry_call_def)

lemma retry_call_waits: "retry_call f es = None \<longleftrightarrow> (\<forall>e \<in> set es. \<exists>x. f e = Ret (Inl x))"
  by (induction es) (auto simp: retry_call_def split: outcome.split sum.split)

text \<open>The clients of the programs.\<close>

abbreviation demo_client :: "string \<Rightarrow> Tcp_Client.Client" where
  "demo_client who \<equiv> \<lparr>Tcp_Client.Client.server_addr = demo_addr, Tcp_Client.Client.client_id = who,
     Tcp_Client.Client.listener = None, Tcp_Client.Client.local_addr = None\<rparr>"

abbreviation async_demo_client :: "string \<Rightarrow> Tcp_Async.Client" where
  "async_demo_client who \<equiv> \<lparr>Tcp_Async.Client.server_addr = demo_addr, Tcp_Async.Client.client_id = who,
     Tcp_Async.Client.listener = None, Tcp_Async.Client.local_addr = None\<rparr>"

text \<open>A thread of \<open>c1\<close> that ends has written \<open>hello\<close>.\<close>

lemma write_all_hello: "write_all w hello [] = (out, Inr u) \<Longrightarrow> out = hello"
  by (auto simp: write_all_def split: sum.splits)

lemma tcp_greeter_hello:
  assumes "tcp_greeter rt tries ans w = Some (Ret out)"
  shows "out = hello"
proof -
  obtain out' r where w: "write_all w hello [] = (out', r)" by fastforce
  then show ?thesis
    using assms write_all_hello[of w]
    by (auto simp: tcp_greeter_def tcp_greet_def Tcp_Client.new_def and_then_eq_Ret unwrap_eq_Ret)
qed

lemma async_greeter_hello: "async_greeter rt ch tries ans w = Some (Ret out) \<Longrightarrow> out = hello"
  by (auto simp: async_greeter_def async_greet_def Tcp_Async.new_def and_then_eq_Ret unwrap_eq_Ret
      split: prod.splits option.splits outcome.splits dest: write_all_hello)

text \<open>\<open>main\<close> ends well exactly when \<open>connect\<close> has given a stream, \<open>hello\<close> has come and the other thread has ended well.\<close>

lemma tcp_demo_ends:
  assumes "\<forall>env \<in> set envs. \<exists>e out. Tcp_Client.connect rt env (demo_client ''c2'') ''c1'' = Ret (Inl e, out)"
    and "Tcp_Client.connect rt env (demo_client ''c2'') ''c1'' = Ret (Inr s, out)"
    and "tcp_greeter rt tries ans w = Some (Ret bs)" "prefix bs arrives"
  shows "tcp_demo rt (envs @ env # rest) arrives (tcp_greeter rt tries ans w) = Some (Ret (Inr ()))"
proof -
  let ?f = "\<lambda>env. and_then (Tcp_Client.connect rt env (demo_client ''c2'') ''c1'') (\<lambda>(r, out). Ret r)"
  have "retry_call ?f (envs @ env # rest) = Some (Ret s)"
    by (rule retry_call_first) (use assms(1,2) in fastforce)+
  moreover have "5 \<le> length arrives"
    using tcp_greeter_hello[OF assms(3)] assms(4) by (auto simp: prefix_def hello_def)
  ultimately show ?thesis
    using assms(3) by (simp add: tcp_demo_def with_addr Tcp_Client.new_def std_read_exact_def)
qed

lemma tcp_demo_ended:
  assumes "tcp_demo rt envs arrives greeter = Some (Ret (Inr ()))"
  shows "(\<exists>env \<in> set envs. \<exists>s out. Tcp_Client.connect rt env (demo_client ''c2'') ''c1'' = Ret (Inr s, out))
    \<and> 5 \<le> length arrives \<and> (\<exists>out. greeter = Some (Ret out))"
proof -
  let ?f = "\<lambda>env. and_then (Tcp_Client.connect rt env (demo_client ''c2'') ''c1'') (\<lambda>(r, out). Ret r)"
  obtain s where s: "retry_call ?f envs = Some (Ret s)" "5 \<le> length arrives" "\<exists>out. greeter = Some (Ret out)"
    using assms
    by (auto simp: tcp_demo_def with_addr Tcp_Client.new_def std_read_exact_def and_then_eq_Ret
        split: option.splits outcome.splits if_splits)
  from retry_call_Ret[OF s(1)] show ?thesis using s(2,3) by (fastforce simp: and_then_eq_Ret)
qed

text \<open>
  Where the blocking program panics because the other thread has, the tokio program returns
  an error.
\<close>

lemma demos_differ:
  assumes "retry_call (\<lambda>env. and_then (Tcp_Client.connect rt env (demo_client ''c2'') ''c1'') (\<lambda>(r, out). Ret r)) envs = Some (Ret s)"
    and "retry_call (\<lambda>env. and_then (Tcp_Async.connect rt std_read_exact env (async_demo_client ''c2'') ''c1'') (\<lambda>(r, out). Ret r)) envs' = Some (Ret s')"
    and "5 \<le> length arrives"
  shows "tcp_demo rt envs arrives (Some Panic) = Some Panic"
    and "async_demo rt std_read_exact envs' arrives (Some Panic) = Some (Ret (Inl TaskFailed))"
  using assms by (simp_all add: tcp_demo_def async_demo_def with_addr Tcp_Client.new_def Tcp_Async.new_def std_read_exact_def)

text \<open>The listener of the UDP program ends well on the datagram \<open>hello\<close> alone.\<close>

lemma udp_hearer_hello:
  assumes "udp_hearer rt resolve os peer_os recv = Some (Ret ())"
  shows "recv = Some (Inr hello)"
proof -
  have "take 10 bs = hello \<Longrightarrow> bs = hello" for bs
    by (cases "length bs \<le> 10") (auto simp: hello_def dest: arg_cong[of _ _ length])
  then show ?thesis
    using assms by (auto simp: udp_hearer_def and_then_eq_Ret unwrap_eq_Ret split: outcome.splits if_splits)
qed

lemma udp_demo_ended:
  assumes "udp_demo rt dials hearer = Some (Ret (Inr ()))"
  shows "hearer = Some (Ret ()) \<and> (\<exists>d \<in> set dials. ud_send d = Inr () \<and> (\<exists>s. udp_try_hello rt d = Ret (Inr s)))"
proof -
  obtain s where s: "retry_call (udp_try_hello rt) dials = Some (Ret s)" "hearer = Some (Ret ())"
    using assms by (auto simp: udp_demo_def with_addr and_then_eq_Ret split: option.splits outcome.splits)
  obtain d where d: "d \<in> set dials" "udp_try_hello rt d = Ret (Inr s)" using retry_call_Ret[OF s(1)] by blast
  then obtain r where "and_then (case r of Inl e \<Rightarrow> Ret (Inl e) | Inr s \<Rightarrow> and_then (unwrap (ud_send d)) (\<lambda>_. Ret (Inr s))) Ret
      = (Ret (Inr s) :: (io_error + Udp_Client.Socket) outcome)"
    by (auto simp: udp_try_hello_def and_then_eq_Ret)
  then have "ud_send d = Inr ()"
    by (cases r) (auto simp: and_then_eq_Ret unwrap_eq_Ret)
  with s(2) d show ?thesis by blast
qed

end
