(* ===== verification/Spec2Isabelle.thy ===== *)
theory Spec2Isabelle
  imports Proto_Correct Proto_Trait Udp_Punching Tcp_Session Tcp_Hub_Refined Tcp_Loops_Refined Tcp_Punching Tcp_Reconnect Tcp_Clients_Agree Demos
begin

text \<open>
  A model of \<open>rndz\<close>, a rendezvous server with its clients for hole punching over UDP and
  TCP, written in Rust (\<open>src/src\<close>), and the theorems about it.

  \<^bold>\<open>The program.\<close> Clients keep themselves registered at a server with \<open>Ping\<close>. A client
  that wants to reach another asks the server with \<open>Isync\<close>; the server forwards an \<open>Fsync\<close>
  with the observed address of the asking client; the target answers with \<open>Rsync\<close>, which
  the server turns into a \<open>Redirect\<close> with the target's observed address. The messages
  are protocol buffers, one per datagram, or behind a 16-bit length on a TCP stream.

  \<^bold>\<open>The theories\<close>, in the order they build on each other:

  \<^item> \<open>Prelude\<close>: machine types, how a call ends (\<open>outcome\<close>: value, panic, no return), the
    question mark operator, I/O errors, UTF-8, maps and lists.
  \<^item> \<open>Pb_Runtime\<close>: the \<open>protobuf\<close> crate. It is not in the repository, so its functions are
    the record \<open>pb_rt\<close>, a parameter, and the wire format is the locale \<open>pb_runtime\<close>.
    \<open>Wire_Format\<close> interprets the locale with a concrete codec, which also executes the
    witnesses.
  \<^item> \<open>Proto_Messages\<close>: \<open>proto/rndz.rs\<close>, the nine generated messages: records, oneofs,
    \<open>merge_from\<close>, \<open>compute_size\<close>, \<open>write_to_with_cached_sizes\<close>, the accessors.
    \<open>Proto_Codec\<close>: the contract \<open>generated_message\<close> of a message type, with an instance
    for each message. \<open>Proto_Bounds\<close>: what the decoder guarantees. \<open>Proto_Correct\<close>: the
    properties. \<open>Proto_Reset\<close>: \<open>clear\<close> and \<open>default_instance\<close>. \<open>Proto_Trait\<close>: the other methods
    of \<open>impl Message\<close>, whose contract is the locale \<open>message_trait\<close>. \<open>Proto_Reflect\<close>: the tables of
    field accessors, the embedded description of \<open>proto/rndz.proto\<close> and the lookups of
    descriptors; the generated code is the codec that the description prescribes.
  \<^item> \<open>Net_Addr\<close>: \<open>SocketAddr\<close> of the standard library with its printer and parser, which
    the protocol uses for the addresses; parsing a printed address gives it back without
    the IPv6 flow label.
  \<^item> \<open>Rendezvous\<close>: the specification. \<open>rendezvous\<close> says for each request what becomes of
    the table of observed addresses and which note is sent to whom.
    \<open>Requests\<close>: the requests and answers of identities of at most five hundred bytes fit in
    a datagram and a frame and are decoded as they were.
  \<^item> \<open>Udp_Server\<close>: \<open>udp/server.rs\<close>. \<open>Server\<close> is the table, the next collection and the
    datagrams sent; \<open>run\<close> folds \<open>run_turn\<close> over the iterations of the receive loop.
  \<^item> \<open>Udp_Client\<close>: \<open>udp/client.rs\<close>. \<open>connector_connect\<close> is \<open>Connector::connect\<close>, \<open>listen\<close>
    and \<open>listener_thread\<close> are \<open>Listener::listen\<close> and its thread. \<open>Udp_Client_Correct\<close>: the
    properties. \<open>Udp_Session\<close>: server, listener and connector together, in one run.
    \<open>Udp_Punching\<close>: the same for any datagrams of any number of clients and several servers.
  \<^item> \<open>Channel\<close>: bounded queues, as a locale, with the standard library's as an instance;
    the queue of tokio is a parameter. \<open>Framing\<close>: the length prefix of the TCP streams,
    \<open>read_req\<close> of the server, \<open>write_req\<close> and \<open>read_resp\<close> of the clients; \<open>read_exact\<close> is
    a locale with the standard library's as an instance.
  \<^item> \<open>Tcp_Server\<close>: \<open>tcp/server.rs\<close>. A task per connection with a reading half and a
    handling half, the shared table behind a mutex that a panic poisons, and \<open>exec\<close>, which
    moves one task to its next suspension point; \<open>reachable\<close> are the states of all
    interleavings. \<open>Tcp_Server_Correct\<close>: the properties. \<open>Tcp_Hub\<close>: a specification of the whole
    server, connections that pass on messages and say notes; \<open>Tcp_Hub_Refined\<close>: every
    interleaving of the server's tasks is a run of it.
  \<^item> \<open>Tcp_Client\<close>: \<open>tcp/client.rs\<close> up to \<open>read_loop\<close>: the builder, the sockets, \<open>connect\<close> and
    the two loops. \<open>Tcp_Client_Correct\<close>: what \<open>connect\<close> sends and connects to, what the loops
    answer and write.
  \<^item> \<open>Tcp_Background\<close>: the threads of \<open>tcp/client.rs\<close>. \<open>System\<close> is the client with its
    \<open>Signal\<close> (mutex and condition variable), its connections with four threads each, and
    the threads of \<open>listen\<close>; \<open>exec\<close> makes one move of one thread. \<open>Tcp_Background_Correct\<close>: the
    typing of its states, and what is written first. \<open>Tcp_Loops_Refined\<close>: in every
    interleaving the threads do what the loops of \<open>Tcp_Client\<close> do. \<open>Tcp_Reconnect\<close>: reports
    of broken connections and the exit.
  \<^item> \<open>Tcp_Session\<close>: server, listener and connector over TCP together, in one run, and in
    another one a third client that puts itself in the listener's place.
    \<open>Tcp_Punching\<close>: the same in every run, with any number of other clients: the bytes that one
    side reads are a beginning of those that the other wrote (\<open>linked\<close>).
  \<^item> \<open>Tcp_Async\<close>: \<open>tcp/client_async.rs\<close>, with \<open>Notify\<close> and \<open>select!\<close> as marks at the waiting
    points of its tasks. \<open>Tcp_Async_Correct\<close>: what the marks mean, and notifications that
    nobody waits for. \<open>Tcp_Async_Live\<close>: registration, reconnecting, winding up.
    \<open>Tcp_Clients_Agree\<close>: the two clients compared.
  \<^item> \<open>Command_Line\<close>: \<open>main.rs\<close>, the options and what the program does with the servers and
    the clients. \<open>Demos\<close>: the three programs of \<open>examples\<close>.

  \<^bold>\<open>What the theorems show.\<close> Messages: round trips, computed sizes, total decoders, and
  the generated codec is the one that the embedded description prescribes. UDP
  server: it refines the specification, never stops, sends only to addresses it heard
  from, keeps a registration for sixty seconds. UDP clients: \<open>connect\<close> does not loop once the clock has passed
  the timeout of each round, and returns where no socket call that it unwraps fails,
  follows only redirects addressed to it and sends a bounded number of requests; the
  listener's thread never dies, lets no more than fifteen seconds pass between two pings, and answers every
  request; a session of the three ends with both peers knowing each other's observed
  address. TCP server: entries belong to connections, a newer registration survives, the
  handlers refine the specification, the interleaved tasks refine a specification of the
  whole server and send only what a request justifies, a bad frame ends the connection.
  TCP clients: \<open>connect\<close> follows the redirect from the address that the server saw, every
  request of a peer is answered once and in order, the threads lose, double and reorder
  nothing in any interleaving, the states of all threads agree with
  each other, a report that is heard leads to a new connection that registers again (in the tokio client after every
  schedule the task that waits holds a new connection or is nearer to one than any move but
  two can undo), the
  assertion of \<open>listen\<close> holds after one call as long as no wake-up is spurious, the exit reaches the
  sockets; a session of the three over TCP; the two clients agree on \<open>connect\<close>. Servers and
  clients in any run, over UDP and over TCP: a listener opens its way only to the observed addresses of
  those who asked for it, a UDP connector connects only to one who replied to it, and a TCP stream of \<open>connect\<close> leads to the observed address of one who claims
  the identity in whose name somebody replied.

  The remaining theorems show behaviours that the code does not intend: one failing
  \<open>peer_addr\<close> poisons the table of the whole TCP server, a registration can outlive its
  connection, a connection whose queue is full can wait for itself for ever
  once its reader holds one more request, a frame length wraps around, the
  farewell of a UDP listener is never sent, a listener whose socket failed once is deaf;
  in the blocking TCP client a report that comes early, a bad address in an \<open>Fsync\<close> (its joiner
  panics instead of reporting), a
  spurious wake-up or a second \<open>listen\<close> ends the listening for good; \<open>connect\<close> takes a redirect
  in any name, so any other registered client can take the place of the one asked for; in the tokio client a notification that
  finds a task outside its \<open>select!\<close> is lost, so a connection is not replaced or a dropped
  client lives on.

  \<^bold>\<open>Inputs, fuel.\<close> What the operating system, the clock and other machines do is an argument:
  a turn of a loop carries its datagrams, results and clock readings, a label of a
  scheduler those of a move. Loops are therefore recursive in the list of turns, or in the
  bytes of the stream. Two loops are partial functions, for which not returning is the value
  \<open>Hang\<close>: the decoder's, proved to return on every input, and the receive loop of a round
  of the UDP \<open>connect\<close>, whose turns do not run out, proved to return when the clock passes the
  timeout (and to hang on a clock that stands still, \<open>round_loop_stuck\<close>). No definition uses fuel except the varint reader of \<open>Wire_Format\<close>, which reads at
  most the ten bytes that the format allows.

  \<^bold>\<open>Not modelled.\<close> \<open>Display\<close> and \<open>ProtobufValue\<close> of the generated code, which only name functions
  of the runtime; the parsing of command line arguments, logging
  and the start of the tokio runtime; the tests, which call the operating system only, and the
  build script. \<open>Tcp_Punching\<close> assumes that the server finds no \<open>Fsync\<close> in the bytes of the
  listener: no loop of the client sends one, but a server that had answered one with a frame
  of more than 65535 bytes could make the client's replies wrap around as well. The runs of the
  server in \<open>Tcp_Hub_Refined\<close> and \<open>Tcp_Punching\<close> are those in which \<open>peer_addr\<close> gives the observed
  address of a connection whenever it is asked; where it fails is in \<open>Tcp_Server_Correct\<close>. In
  \<open>Tcp_Async\<close> a reading loop that takes the branch of \<open>exit\<close> in the middle of \<open>handle_resp\<close> records no
  connection attempt, though one may have been made. In \<open>Tcp_Background\<close> the effect of \<open>shutdown\<close> on an \<open>accept\<close>
  that waits on the listening socket is the operating system's. \<open>rt_read_unknown\<close> of \<open>Pb_Runtime\<close> is
  a total function: how deep the crate's recursion on nested groups goes cannot be said. The
  conditional code is that of a unix system.
\<close>

end
